(* ===== verification/Prelude.thy ===== *)
theory Prelude
  imports Complex_Main "HOL-Library.Char_ord" "HOL-Library.List_Lexorder"
begin

text \<open>
  The prelude of the development: the exceptions of the program as one error type, the
  error monad every handler runs in, the decimal arithmetic of \<^verbatim>\<open>core/models.py\<close> and of
  Python's \<^verbatim>\<open>decimal\<close> module, calendar dates, and the row stores (tables keyed by primary
  key) the Django models are read from and written to.  The collections \<open>res_simps\<close>,
  \<open>money_simps\<close> and \<open>row_simps\<close> carry the component proofs.
\<close>

named_theorems res_simps "inversion and reduction of the error monad"
named_theorems money_simps "decimal amounts with two places"
named_theorems row_simps "row stores"

section \<open>Errors\<close>

text \<open>
  The exception classes the modelled code raises.  The first group is
  \<^verbatim>\<open>contracts/services/exceptions.py\<close>, the rest belongs to the accounting and budget services,
  Django (\<open>ValidationError\<close>, \<open>IntegrityError\<close>, \<open>DoesNotExist\<close>) and Python (\<open>ValueError\<close>).
  The human-readable message and the context dictionary are not modelled.
\<close>

datatype err =
    ContractServiceError
  | CeilingBreachError
  | CoherenceError
  | MonotonicityError
  | MobilizationRecoveryError
  | RetentionCapError
  | VariationApprovalError
  | DuplicateIPCError
  | FiscalYearBoundaryError
  | ThreeWayMatchError
  | SegregationOfDutiesError
  | InvalidTransitionError
  | ConcurrencyError
  | ValidationError
  | IntegrityError
  | DoesNotExist
  | MultipleObjectsReturned
  | ValueError
  | InvalidOperation
  | DatabaseError
  | PermissionError
  | AttributeError
  | TransactionPostingError
  | JournalPostingError
  | BudgetExceededError
  | VirementError
  | PVFactoryError
  | YearEndCloseError
  | PeriodCloseError
  | ApprovalError
  | LifecycleError
  | ImproperlyConfigured

text \<open>The class attribute \<^verbatim>\<open>code\<close> the API layer serialises; \<open>None\<close> for foreign exceptions.\<close>

fun error_code :: "err \<Rightarrow> string option" where
  "error_code ContractServiceError = Some ''CONTRACT_SERVICE_ERROR''"
| "error_code CeilingBreachError = Some ''CONTRACT_CEILING_BREACH''"
| "error_code CoherenceError = Some ''CONTRACT_COHERENCE_ERROR''"
| "error_code MonotonicityError = Some ''CONTRACT_MONOTONICITY_ERROR''"
| "error_code MobilizationRecoveryError = Some ''CONTRACT_MOBILIZATION_RECOVERY_ERROR''"
| "error_code RetentionCapError = Some ''CONTRACT_RETENTION_CAP_ERROR''"
| "error_code VariationApprovalError = Some ''CONTRACT_VARIATION_APPROVAL_ERROR''"
| "error_code DuplicateIPCError = Some ''CONTRACT_DUPLICATE_IPC''"
| "error_code FiscalYearBoundaryError = Some ''CONTRACT_FISCAL_YEAR_BOUNDARY''"
| "error_code ThreeWayMatchError = Some ''CONTRACT_THREE_WAY_MATCH_ERROR''"
| "error_code SegregationOfDutiesError = Some ''CONTRACT_SOD_VIOLATION''"
| "error_code InvalidTransitionError = Some ''CONTRACT_INVALID_TRANSITION''"
| "error_code ConcurrencyError = Some ''CONTRACT_CONCURRENCY_CONFLICT''"
| "error_code _ = None"

text \<open>
  A handler under \<^verbatim>\<open>@transaction.atomic\<close> returns \<open>Inl e\<close> when it raises, and then the caller
  keeps the state it had (the rollback); it returns \<open>Inr\<close> of the result and the new state
  when it commits.
\<close>

definition rbind :: "'e + 'a \<Rightarrow> ('a \<Rightarrow> 'e + 'b) \<Rightarrow> 'e + 'b" where
  "rbind m f = (case m of Inl e \<Rightarrow> Inl e | Inr x \<Rightarrow> f x)"

lemmas rbind_case [code_unfold] = rbind_def \<comment> \<open>evaluation waits for the first result\<close>

definition catch_as :: "err \<Rightarrow> err \<Rightarrow> err + 'a \<Rightarrow> err + 'a" where
  \<comment> \<open>\<^verbatim>\<open>except e: raise e' from exc\<close>\<close>
  "catch_as e e' m = (case m of Inl x \<Rightarrow> Inl (if x = e then e' else x) | Inr y \<Rightarrow> Inr y)"

fun rfold :: "('a \<Rightarrow> 's \<Rightarrow> 'e + 's) \<Rightarrow> 'a list \<Rightarrow> 's \<Rightarrow> 'e + 's" where
  "rfold f [] s = Inr s"
| "rfold f (x # xs) s = rbind (f x s) (rfold f xs)"

lemma rbind_Inl [simp, res_simps]: "rbind (Inl e) f = Inl e"
  by (simp add: rbind_def)

lemma rbind_Inr [simp, res_simps]: "rbind (Inr x) f = f x"
  by (simp add: rbind_def)

lemma rbind_eq_Inr [res_simps]: "rbind m f = Inr y \<longleftrightarrow> (\<exists>x. m = Inr x \<and> f x = Inr y)"
  by (cases m) auto

lemma rbind_eq_Inl [res_simps]:
  "rbind m f = Inl e \<longleftrightarrow> m = Inl e \<or> (\<exists>x. m = Inr x \<and> f x = Inl e)"
  by (cases m) auto

lemma catch_as_Inr [simp, res_simps]: "catch_as e e' m = Inr y \<longleftrightarrow> m = Inr y"
  by (cases m) (auto simp: catch_as_def)

lemma catch_as_of_Inr [simp]: "catch_as e e' (Inr y) = Inr y"
  by (simp add: catch_as_def)

lemma catch_as_of_Inl [simp]: "catch_as e e' (Inl x) = Inl (if x = e then e' else x)"
  by (simp add: catch_as_def)

lemma rfold_invariant:
  assumes "rfold f xs s = Inr t" and "P s"
    and "\<And>x s t. x \<in> set xs \<Longrightarrow> P s \<Longrightarrow> f x s = Inr t \<Longrightarrow> P t"
  shows "P t"
  using assms by (induction xs arbitrary: s) (auto simp: rbind_eq_Inr)

section \<open>Decimal amounts\<close>

text \<open>
  A Python \<^verbatim>\<open>Decimal\<close> is modelled by the rational number it denotes.  Sums, differences and
  products with a percentage of columns \<^verbatim>\<open>DecimalField(max_digits=20, decimal_places=2)\<close> have at
  most 25 significant digits, so Python's default context (28 digits) computes them exactly;
  where the code multiplies two amounts or divides, the context's rounding is written out
  with \<open>dec_mul\<close> and \<open>dec_div\<close>.
\<close>

definition round_half_up :: "rat \<Rightarrow> int" where
  \<comment> \<open>\<^verbatim>\<open>ROUND_HALF_UP\<close>: ties away from zero\<close>
  "round_half_up x = (if 0 \<le> x then \<lfloor>x + 1/2\<rfloor> else - \<lfloor>1/2 - x\<rfloor>)"

definition round_half_even :: "rat \<Rightarrow> int" where
  \<comment> \<open>\<^verbatim>\<open>ROUND_HALF_EVEN\<close>, the default rounding of \<^verbatim>\<open>Decimal\<close>\<close>
  "round_half_even x =
     (let f = \<lfloor>x\<rfloor>; d = x - of_int f
      in if d < 1/2 then f else if 1/2 < d then f + 1 else if even f then f else f + 1)"

definition quantize_currency :: "rat \<Rightarrow> rat" where
  "quantize_currency v = of_int (round_half_up (v * 100)) / 100"

definition quantize_default :: "rat \<Rightarrow> rat" where
  "quantize_default v = of_int (round_half_even (v * 100)) / 100"

definition db_decimal :: "rat \<Rightarrow> rat" where
  \<comment> \<open>what a \<^verbatim>\<open>DecimalField(decimal_places=2)\<close> column stores for a value written to it:
      PostgreSQL's \<^verbatim>\<open>numeric(n,2)\<close> rounds, ties away from zero\<close>
  "db_decimal v = of_int (round_half_up (v * 100)) / 100"

definition is_money :: "rat \<Rightarrow> bool" where
  "is_money v \<longleftrightarrow> of_int \<lfloor>v * 100\<rfloor> = v * 100"

subsection \<open>The 28-digit context\<close>

function num_digits :: "int \<Rightarrow> nat" where
  "num_digits k = (if k < 10 then 1 else Suc (num_digits (k div 10)))"
  by auto
termination by (relation "measure nat") auto

declare num_digits.simps [simp del]

definition lead_exp :: "rat \<Rightarrow> int" where
  \<comment> \<open>the exponent of the leading decimal digit of a non-zero number\<close>
  "lead_exp x =
     (let (p, q) = quotient_of \<bar>x\<bar>;
          d = int (num_digits p) - int (num_digits q)
      in if 10 powi d \<le> \<bar>x\<bar> then d else d - 1)"

definition ctx :: "rat \<Rightarrow> rat" where
  "ctx x = (if x = 0 then 0
            else let u = 10 powi (lead_exp x - 27) in of_int (round_half_even (x / u)) * u)"

definition dec_mul :: "rat \<Rightarrow> rat \<Rightarrow> rat" where
  "dec_mul a b = ctx (a * b)"

definition dec_div :: "rat \<Rightarrow> rat \<Rightarrow> rat" where
  "dec_div a b = ctx (a / b)"


subsection \<open>Facts about two-place amounts\<close>

lemma is_money_iff: "is_money x \<longleftrightarrow> (\<exists>k. x = of_int k / 100)"
proof
  assume "is_money x"
  then have eq: "x * 100 = of_int \<lfloor>x * 100\<rfloor>"
    unfolding is_money_def by (rule sym)
  have "x = (x * 100) / 100" by simp
  then have "x = of_int \<lfloor>x * 100\<rfloor> / 100" by (subst (asm) eq)
  then show "\<exists>k. x = of_int k / 100" by blast
qed (auto simp: is_money_def)

lemma is_money_zero [simp, money_simps]: "is_money 0"
  by (simp add: is_money_def)

lemma is_money_add [intro, money_simps]: "is_money x \<Longrightarrow> is_money y \<Longrightarrow> is_money (x + y)"
  by (auto simp: is_money_iff add_divide_distrib [symmetric] simp flip: of_int_add)

lemma is_money_diff [intro, money_simps]: "is_money x \<Longrightarrow> is_money y \<Longrightarrow> is_money (x - y)"
  by (auto simp: is_money_iff diff_divide_distrib [symmetric] simp flip: of_int_diff)

lemma is_money_min [intro, money_simps]: "is_money x \<Longrightarrow> is_money y \<Longrightarrow> is_money (min x y)"
  by (simp add: min_def)

lemma is_money_max [intro, money_simps]: "is_money x \<Longrightarrow> is_money y \<Longrightarrow> is_money (max x y)"
  by (simp add: max_def)

lemma is_money_quantize [simp, money_simps]: "is_money (quantize_currency x)"
  by (auto simp: is_money_iff quantize_currency_def)

lemma is_money_db_decimal [simp, money_simps]: "is_money (db_decimal x)"
  by (auto simp: is_money_iff db_decimal_def)

lemma round_half_up_int [simp]: "round_half_up (of_int k) = k"
proof -
  have "\<lfloor>(of_int k :: rat) + 1/2\<rfloor> = k" "\<lfloor>1/2 - (of_int k :: rat)\<rfloor> = - k"
    by (simp_all add: floor_eq_iff)
  then show ?thesis by (simp add: round_half_up_def)
qed

lemma quantize_money [simp, money_simps]: "is_money x \<Longrightarrow> quantize_currency x = x"
  by (auto simp: is_money_iff quantize_currency_def)

lemma db_decimal_money [simp, money_simps]: "is_money x \<Longrightarrow> db_decimal x = x"
  by (auto simp: is_money_iff db_decimal_def)

lemma quantize_zero [simp, money_simps]: "quantize_currency 0 = 0"
  by (simp add: quantize_money)

lemma round_half_up_mono: "x \<le> y \<Longrightarrow> round_half_up x \<le> round_half_up y"
proof -
  assume xy: "x \<le> y"
  consider "0 \<le> x" | "x < 0" "0 \<le> y" | "y < 0" by linarith
  then show ?thesis
  proof cases
    case 1 then show ?thesis using xy by (simp add: round_half_up_def floor_mono)
  next
    case 2
    have "0 \<le> \<lfloor>1/2 - x\<rfloor>" "0 \<le> \<lfloor>y + 1/2\<rfloor>" using 2 by simp_all
    then have "- \<lfloor>1/2 - x\<rfloor> \<le> \<lfloor>y + 1/2\<rfloor>" by linarith
    then show ?thesis using 2 by (simp add: round_half_up_def)
  next
    case 3
    then have "\<lfloor>1/2 - y\<rfloor> \<le> \<lfloor>1/2 - x\<rfloor>" using xy by (intro floor_mono) simp
    then show ?thesis using 3 xy by (simp add: round_half_up_def)
  qed
qed

lemma quantize_mono: "x \<le> y \<Longrightarrow> quantize_currency x \<le> quantize_currency y"
  by (simp add: quantize_currency_def divide_right_mono round_half_up_mono)

lemma quantize_nonneg [simp, money_simps]: "0 \<le> x \<Longrightarrow> 0 \<le> quantize_currency x"
  using quantize_mono [of 0 x] by simp

lemma quantize_le_money: "x \<le> m \<Longrightarrow> is_money m \<Longrightarrow> quantize_currency x \<le> m"
  using quantize_mono [of x m] by simp

lemma quantize_error: "\<bar>quantize_currency x - x\<bar> \<le> 1/200"
proof -
  have "\<bar>of_int (round_half_up y) - y\<bar> \<le> 1/2" for y :: rat
  proof (cases "0 \<le> y")
    case True
    then show ?thesis using floor_correct [of "y + 1/2"]
      by (simp only: round_half_up_def if_True abs_le_iff of_int_add of_int_1) linarith
  next
    case False
    then show ?thesis using floor_correct [of "1/2 - y"]
      by (simp only: round_half_up_def if_False abs_le_iff of_int_add of_int_1 of_int_minus) linarith
  qed
  then have "\<bar>of_int (round_half_up (x * 100)) - x * 100\<bar> \<le> 1/2" .
  then show ?thesis by (simp add: quantize_currency_def abs_le_iff field_simps)
qed

lemma is_money_sum_list [money_simps]:
  "(\<And>x. x \<in> set xs \<Longrightarrow> is_money x) \<Longrightarrow> is_money (sum_list xs)"
  by (induction xs) (auto simp: money_simps)

lemma sum_list_nonneg_rat: "(\<And>x. x \<in> set xs \<Longrightarrow> (0::rat) \<le> x) \<Longrightarrow> 0 \<le> sum_list xs"
  by (induction xs) (auto intro: add_nonneg_nonneg)

lemma round_half_even_nonneg: "0 \<le> x \<Longrightarrow> 0 \<le> round_half_even x"
  by (simp add: round_half_even_def Let_def)

section \<open>Calendar dates\<close>

text \<open>
  \<^verbatim>\<open>datetime.date\<close>, ordered as Python orders it: by year, then month, then day.  Only the
  order and the year and month components are used by the modelled code.
\<close>

datatype date = Date (d_year: int) (d_month: int) (d_day: int)

instantiation date :: linorder
begin

definition less_eq_date :: "date \<Rightarrow> date \<Rightarrow> bool" where
  "less_eq_date a b \<longleftrightarrow>
     d_year a < d_year b \<or> (d_year a = d_year b \<and>
       (d_month a < d_month b \<or> (d_month a = d_month b \<and> d_day a \<le> d_day b)))"

definition less_date :: "date \<Rightarrow> date \<Rightarrow> bool" where
  "less_date a b \<longleftrightarrow>
     d_year a < d_year b \<or> (d_year a = d_year b \<and>
       (d_month a < d_month b \<or> (d_month a = d_month b \<and> d_day a < d_day b)))"

instance
  by standard (auto simp: less_eq_date_def less_date_def intro: date.expand)

end

lemma Date_le [simp]:
  "Date y m d \<le> Date y' m' d' \<longleftrightarrow> y < y' \<or> (y = y' \<and> (m < m' \<or> (m = m' \<and> d \<le> d')))"
  by (simp add: less_eq_date_def)

lemma Date_less [simp]:
  "Date y m d < Date y' m' d' \<longleftrightarrow> y < y' \<or> (y = y' \<and> (m < m' \<or> (m = m' \<and> d < d')))"
  by (simp add: less_date_def)

section \<open>Strings\<close>

definition digit_char :: "nat \<Rightarrow> char" where
  "digit_char d = char_of (48 + d)"

function show_pos :: "int \<Rightarrow> string" where
  \<comment> \<open>the decimal digits of a number that is not negative\<close>
  "show_pos k = (if k < 10 then [digit_char (nat k)] else show_pos (k div 10) @ [digit_char (nat (k mod 10))])"
  by auto
termination by (relation "measure nat") auto

declare show_pos.simps [simp del]

definition show_nat :: "nat \<Rightarrow> string" where
  "show_nat n = show_pos (int n)"

definition after_last_dash :: "string \<Rightarrow> string" where
  \<comment> \<open>\<^verbatim>\<open>s.split('-')[-1]\<close>\<close>
  "after_last_dash s = rev (takeWhile (\<lambda>c. c \<noteq> CHR ''-'') (rev s))"

definition show_int :: "int \<Rightarrow> string" where
  "show_int i = (if i < 0 then ''-'' @ show_pos (- i) else show_pos i)"

definition zpad :: "nat \<Rightarrow> nat \<Rightarrow> string" where
  \<comment> \<open>\<^verbatim>\<open>f"{n:0wd}"\<close>\<close>
  "zpad w n = replicate (w - length (show_nat n)) (CHR ''0'') @ show_nat n"

definition show_money :: "rat \<Rightarrow> string" where
  \<comment> \<open>\<^verbatim>\<open>str\<close> of a \<^verbatim>\<open>Decimal\<close> with two places\<close>
  "show_money x =
     (let k = \<bar>\<lfloor>x * 100\<rfloor>\<bar>
      in (if x < 0 then ''-'' else '''') @ show_pos (k div 100) @ ''.'' @ zpad 2 (nat (k mod 100)))"

definition to_lower :: "string \<Rightarrow> string" where
  \<comment> \<open>\<^verbatim>\<open>str.lower\<close> on ASCII text\<close>
  "to_lower s = map (\<lambda>c. if 65 \<le> (of_char c :: nat) \<and> (of_char c :: nat) \<le> 90
                      then char_of ((of_char c :: nat) + 32) else c) s"

fun has_prefix :: "string \<Rightarrow> string \<Rightarrow> bool" where
  "has_prefix [] s = True"
| "has_prefix (c # p) [] = False"
| "has_prefix (c # p) (d # s) = (c = d \<and> has_prefix p s)"

fun contains_str :: "string \<Rightarrow> string \<Rightarrow> bool" where
  "contains_str p [] = (p = [])"
| "contains_str p (c # s) = (has_prefix p (c # s) \<or> contains_str p s)"

definition icontains :: "string \<Rightarrow> string \<Rightarrow> bool" where
  "icontains p s = contains_str (to_lower p) (to_lower s)"

section \<open>Row stores\<close>

text \<open>
  A table is the list of its rows in insertion order, keyed by primary key.  \<open>find_row\<close> is
  \<^verbatim>\<open>objects.filter(pk=k).first()\<close>, \<open>put_row\<close> is \<^verbatim>\<open>save()\<close> of an existing row, \<open>fresh_pk\<close> is the
  next value of the key sequence (rows are never deleted in the model) and \<open>qs_first\<close> is
  \<^verbatim>\<open>.first()\<close> of a queryset under the model's default ordering.
\<close>

definition find_row :: "('r \<Rightarrow> 'k) \<Rightarrow> 'k \<Rightarrow> 'r list \<Rightarrow> 'r option" where
  "find_row key k rows = find (\<lambda>r. key r = k) rows"

definition put_row :: "('r \<Rightarrow> 'k) \<Rightarrow> 'r \<Rightarrow> 'r list \<Rightarrow> 'r list" where
  "put_row key r rows = map (\<lambda>x. if key x = key r then r else x) rows"

definition fresh_pk :: "('r \<Rightarrow> nat) \<Rightarrow> 'r list \<Rightarrow> nat" where
  "fresh_pk key rows = Suc (fold max (map key rows) 0)"

definition qs_first :: "('r \<Rightarrow> 'k :: linorder) \<Rightarrow> 'r list \<Rightarrow> 'r option" where
  "qs_first key rows = (case sort_key key rows of [] \<Rightarrow> None | r # _ \<Rightarrow> Some r)"

lemma find_row_Nil [simp, row_simps]: "find_row key k [] = None"
  by (simp add: find_row_def)

lemma find_row_Cons [simp, row_simps]:
  "find_row key k (r # rows) = (if key r = k then Some r else find_row key k rows)"
  by (simp add: find_row_def)

lemma find_row_append [row_simps]:
  "find_row key k (xs @ ys) =
     (case find_row key k xs of None \<Rightarrow> find_row key k ys | Some r \<Rightarrow> Some r)"
  by (induction xs) auto

lemma find_row_SomeD: "find_row key k rows = Some r \<Longrightarrow> r \<in> set rows \<and> key r = k"
  by (induction rows) (auto split: if_splits)

lemma find_row_None_iff: "find_row key k rows = None \<longleftrightarrow> k \<notin> key ` set rows"
  by (induction rows) auto

lemma find_row_distinct:
  "distinct (map key rows) \<Longrightarrow> r \<in> set rows \<Longrightarrow> find_row key (key r) rows = Some r"
  by (induction rows) auto

lemma find_row_put_row [simp, row_simps]:
  "find_row key k (put_row key r rows) =
     (if k = key r \<and> k \<in> key ` set rows then Some r else find_row key k rows)"
  by (induction rows) (auto simp: put_row_def)

lemma map_key_put_row [simp, row_simps]: "map key (put_row key r rows) = map key rows"
  by (simp add: put_row_def)

lemma length_put_row [simp, row_simps]: "length (put_row key r rows) = length rows"
  by (simp add: put_row_def)

lemma set_put_row: "x \<in> set (put_row key r rows) \<Longrightarrow> x = r \<or> (x \<in> set rows \<and> key x \<noteq> key r)"
  by (auto simp: put_row_def split: if_splits)

lemma put_row_absent: "key r \<notin> key ` set rows \<Longrightarrow> put_row key r rows = rows"
  by (induction rows) (auto simp: put_row_def)

lemma sum_put_row:
  fixes f :: "'r \<Rightarrow> 'a :: ab_group_add"
  assumes "find_row key (key r) rows = Some r0" and "distinct (map key rows)"
  shows "sum_list (map f (put_row key r rows)) = sum_list (map f rows) - f r0 + f r"
  using assms
proof (induction rows)
  case (Cons x rows)
  show ?case
  proof (cases "key x = key r")
    case True
    then have "put_row key r rows = rows" "x = r0"
      using Cons.prems by (auto intro!: put_row_absent simp: image_iff)
    with True show ?thesis by (simp add: put_row_def)
  next
    case False
    with Cons show ?thesis by (simp add: put_row_def)
  qed
qed simp

lemma fold_max_ge: "(n :: nat) \<le> fold max xs n \<and> (\<forall>x \<in> set xs. x \<le> fold max xs n)"
proof (induction xs arbitrary: n)
  case (Cons x xs)
  have "max x n \<le> fold max xs (max x n)" using Cons by blast
  then have "x \<le> fold max xs (max x n)" "n \<le> fold max xs (max x n)" by simp_all
  moreover have "\<forall>y \<in> set xs. y \<le> fold max xs (max x n)" using Cons by blast
  ultimately show ?case by simp
qed simp

lemma fresh_pk_notin [simp, row_simps]: "fresh_pk key rows \<notin> key ` set rows"
proof
  assume "fresh_pk key rows \<in> key ` set rows"
  then obtain r where "r \<in> set rows" "fresh_pk key rows = key r" by auto
  moreover from this have "key r \<le> fold max (map key rows) 0"
    using fold_max_ge [of 0 "map key rows"] by auto
  ultimately show False by (simp add: fresh_pk_def)
qed

lemma find_row_fresh [simp, row_simps]: "find_row key (fresh_pk key rows) rows = None"
  by (simp add: find_row_None_iff)

lemma qs_first_SomeD: "qs_first key rows = Some r \<Longrightarrow> r \<in> set rows"
  by (auto simp: qs_first_def split: list.splits) (metis list.set_intros(1) set_sort)

lemma qs_first_least:
  assumes "qs_first key rows = Some r" and "x \<in> set rows"
  shows "key r \<le> key x"
proof -
  obtain rs where rs: "sort_key key rows = r # rs"
    using assms(1) by (auto simp: qs_first_def split: list.splits)
  have "sorted (map key (r # rs))" using sorted_sort_key [of key rows] by (simp add: rs)
  moreover have "x \<in> set (r # rs)" using assms(2) by (metis rs set_sort)
  ultimately show ?thesis by auto
qed

lemma qs_first_None [simp]: "qs_first key rows = None \<longleftrightarrow> rows = []"
  by (auto simp: qs_first_def split: list.splits) (metis length_0_conv length_sort)

lemma put_row_put_row [simp, row_simps]:
  "key a = key b \<Longrightarrow> put_row key a (put_row key b rows) = put_row key a rows"
  by (simp add: put_row_def)

lemma image_key_put_row [simp, row_simps]: "key ` set (put_row key r rows) = key ` set rows"
  by (metis map_key_put_row set_map)

lemma put_row_same:
  assumes "distinct (map key rows)" and "r \<in> set rows"
  shows "put_row key r rows = rows"
proof -
  have "x = r" if "x \<in> set rows" "key x = key r" for x
    using assms that by (simp add: distinct_map inj_on_def)
  then show ?thesis unfolding put_row_def by (intro map_idI) metis
qed

fun first_hit :: "('a \<Rightarrow> 'b option) \<Rightarrow> 'a list \<Rightarrow> 'b option" where
  \<comment> \<open>\<^verbatim>\<open>for x in xs: hit = f(x); if hit: return hit\<close>\<close>
  "first_hit f [] = None"
| "first_hit f (x # xs) = (case f x of Some h \<Rightarrow> Some h | None \<Rightarrow> first_hit f xs)"

lemma first_hit_Some_iff:
  "first_hit f xs = Some h \<longleftrightarrow>
     (\<exists>as x bs. xs = as @ x # bs \<and> f x = Some h \<and> (\<forall>a \<in> set as. f a = None))"
proof (induction xs)
  case (Cons y ys)
  show ?case
  proof (cases "f y")
    case None
    then have "first_hit f (y # ys) = first_hit f ys" by simp
    also have "\<dots> = Some h \<longleftrightarrow>
        (\<exists>as x bs. ys = as @ x # bs \<and> f x = Some h \<and> (\<forall>a \<in> set as. f a = None))"
      by (rule Cons.IH)
    also have "\<dots> \<longleftrightarrow> (\<exists>as x bs. y # ys = as @ x # bs \<and> f x = Some h \<and> (\<forall>a \<in> set as. f a = None))"
      (is "?l \<longleftrightarrow> ?r")
    proof
      assume ?l
      then obtain as x bs where "ys = as @ x # bs" "f x = Some h" "\<forall>a \<in> set as. f a = None" by blast
      with None have "y # ys = (y # as) @ x # bs \<and> f x = Some h \<and> (\<forall>a \<in> set (y # as). f a = None)" by simp
      then show ?r by blast
    next
      assume ?r
      then obtain as x bs where r: "y # ys = as @ x # bs" "f x = Some h" "\<forall>a \<in> set as. f a = None" by blast
      with None show ?l by (cases as) auto
    qed
    finally show ?thesis .
  next
    case (Some z)
    then show ?thesis
    proof (intro iffI)
      assume "first_hit f (y # ys) = Some h"
      with Some have "y # ys = [] @ y # ys \<and> f y = Some h \<and> (\<forall>a \<in> set []. f a = None)" by simp
      then show "\<exists>as x bs. y # ys = as @ x # bs \<and> f x = Some h \<and> (\<forall>a \<in> set as. f a = None)" by blast
    next
      assume "\<exists>as x bs. y # ys = as @ x # bs \<and> f x = Some h \<and> (\<forall>a \<in> set as. f a = None)"
      then obtain as x bs where r: "y # ys = as @ x # bs" "f x = Some h" "\<forall>a \<in> set as. f a = None" by blast
      with Some show "first_hit f (y # ys) = Some h" by (cases as) auto
    qed
  qed
qed simp

lemma first_hit_None_iff [simp]: "first_hit f xs = None \<longleftrightarrow> (\<forall>x \<in> set xs. f x = None)"
  by (induction xs) (auto split: option.splits)

section \<open>Updating columns of one row\<close>

text \<open>
  \<open>upd_row\<close> is \<^verbatim>\<open>filter(pk=k).update(...)\<close> and \<^verbatim>\<open>save(update_fields=[...])\<close>: the named columns of the
  row with key \<open>k\<close> are written, every other column and every other row is left alone, and
  nothing happens when there is no such row.
\<close>

definition upd_row :: "('r \<Rightarrow> 'k) \<Rightarrow> 'k \<Rightarrow> ('r \<Rightarrow> 'r) \<Rightarrow> 'r list \<Rightarrow> 'r list" where
  "upd_row key k f rows = map (\<lambda>r. if key r = k then f r else r) rows"

lemma upd_row_Nil [simp, row_simps]: "upd_row key k f [] = []"
  by (simp add: upd_row_def)

lemma map_upd_row [row_simps]:
  "(\<And>r. g (f r) = g r) \<Longrightarrow> map g (upd_row key k f rows) = map g rows"
  by (simp add: upd_row_def)

lemma length_upd_row [simp, row_simps]: "length (upd_row key k f rows) = length rows"
  by (simp add: upd_row_def)

lemma find_row_upd_row [row_simps]:
  "(\<And>r. key (f r) = key r) \<Longrightarrow>
     find_row key i (upd_row key k f rows) =
       (if i = k then map_option f (find_row key i rows) else find_row key i rows)"
  by (induction rows) (auto simp: upd_row_def)

lemma set_upd_row: "x \<in> set (upd_row key k f rows) \<Longrightarrow>
    x \<in> set rows \<and> key x \<noteq> k \<or> (\<exists>r \<in> set rows. key r = k \<and> x = f r)"
  by (auto simp: upd_row_def)

lemma upd_row_put_row:
  "find_row key k rows = Some r \<Longrightarrow> distinct (map key rows) \<Longrightarrow> key (f r) = k \<Longrightarrow>
     upd_row key k f rows = put_row key (f r) rows"
proof -
  assume r: "find_row key k rows = Some r" "distinct (map key rows)" "key (f r) = k"
  have "f x = f r" if "x \<in> set rows" "key x = k" for x
    using find_row_distinct [OF r(2) that(1)] that(2) r(1) by simp
  then show ?thesis using r(3) by (auto simp: upd_row_def put_row_def)
qed

lemma sum_upd_row:
  fixes g :: "'r \<Rightarrow> 'a :: ab_group_add"
  assumes "find_row key k rows = Some r" and "distinct (map key rows)" and "key (f r) = k"
  shows "sum_list (map g (upd_row key k f rows)) = sum_list (map g rows) - g r + g (f r)"
proof -
  have "upd_row key k f rows = put_row key (f r) rows"
    by (rule upd_row_put_row [where f = f, OF assms])
  moreover have "find_row key (key (f r)) rows = Some r" using assms(1,3) by simp
  ultimately show ?thesis by (simp add: sum_put_row [OF _ assms(2)])
qed

lemma upd_row_absent: "find_row key k rows = None \<Longrightarrow> upd_row key k f rows = rows"
  by (induction rows) (auto simp: upd_row_def split: if_splits)

lemma image_upd_row:
  "(\<And>r. g (f r) = g r) \<Longrightarrow> g ` set (upd_row key k f rows) = g ` set rows"
  by (metis map_upd_row set_map)

section \<open>The 28-digit context on non-negative numbers\<close>

lemma ctx_nonneg: "0 \<le> x \<Longrightarrow> 0 \<le> ctx x"
  unfolding ctx_def Let_def
  by (auto intro!: mult_nonneg_nonneg round_half_even_nonneg divide_nonneg_nonneg zero_le_power_int)

lemma dec_mul_nonneg: "0 \<le> a \<Longrightarrow> 0 \<le> b \<Longrightarrow> 0 \<le> dec_mul a b"
  by (simp add: dec_mul_def ctx_nonneg)

lemma dec_div_nonneg: "0 \<le> a \<Longrightarrow> 0 \<le> b \<Longrightarrow> 0 \<le> dec_div a b"
  by (simp add: dec_div_def ctx_nonneg)

end
