(* ===== verification/Periods.thy ===== *)
theory Periods
  imports Prelude
begin

text \<open>
  Period control: \<^verbatim>\<open>accounting/services/period_control.py\<close> over the two calendars it keeps in
  step, \<^verbatim>\<open>BudgetPeriod\<close> (\<^verbatim>\<open>accounting/models/balances.py\<close>) and \<^verbatim>\<open>FiscalPeriod\<close>
  (\<^verbatim>\<open>accounting/models/advanced.py\<close>).  Statuses and period types are the strings the columns
  hold, because the service compares them with literal lists in mixed case.  Messages and
  display names of the result are not modelled.
\<close>

section \<open>The calendars\<close>

record budget_period =
  bp_id :: nat
  bp_fiscal_year :: int
  bp_type :: string
  bp_number :: int
  bp_start :: date
  bp_end :: date
  bp_status :: string
  bp_allow_postings :: bool
  bp_allow_adjustments :: bool

record fiscal_period =
  fp_id :: nat
  fp_fiscal_year :: int
  fp_type :: string
  fp_number :: int
  fp_start :: date
  fp_end :: date
  fp_is_closed :: bool
  fp_is_locked :: bool
  fp_status :: string
  fp_allow_journal :: bool
  fp_allow_invoice :: bool
  fp_allow_payment :: bool

record period_state =
  budget_periods :: "budget_period list"
  fiscal_periods :: "fiscal_period list"
  today :: date

definition bp_order :: "budget_period \<Rightarrow> int list" where
  \<comment> \<open>\<^verbatim>\<open>ordering = ['-fiscal_year', '-period_number']\<close>\<close>
  "bp_order p = [- bp_fiscal_year p, - bp_number p]"

definition fp_order :: "fiscal_period \<Rightarrow> int list" where
  "fp_order p = [fp_fiscal_year p, fp_number p]"

definition bp_can_post :: "budget_period \<Rightarrow> bool" where
  "bp_can_post p \<longleftrightarrow> bp_status p \<in> {''OPEN'', ''ADJUSTMENT''} \<and> bp_allow_postings p"

definition bp_can_adjust :: "budget_period \<Rightarrow> bool" where
  "bp_can_adjust p \<longleftrightarrow> bp_status p \<in> {''OPEN'', ''ADJUSTMENT''} \<and> bp_allow_adjustments p"

definition bp_close :: "budget_period \<Rightarrow> budget_period" where
  "bp_close p = p\<lparr>bp_status := ''CLOSED'', bp_allow_postings := False\<rparr>"

definition bp_lock :: "budget_period \<Rightarrow> budget_period" where
  "bp_lock p = p\<lparr>bp_status := ''LOCKED'', bp_allow_postings := False,
                 bp_allow_adjustments := False\<rparr>"

definition bp_reopen :: "budget_period \<Rightarrow> err + budget_period" where
  "bp_reopen p =
     (if bp_status p = ''LOCKED'' then Inl PermissionError
      else Inr (p\<lparr>bp_status := ''OPEN'', bp_allow_postings := True\<rparr>))"

section \<open>The service\<close>

definition LOCKED_STATUSES :: "string list" where
  "LOCKED_STATUSES = [''CLOSED'', ''LOCKED'', ''Closed'', ''Locked'']"

definition budget_period_for_date :: "date \<Rightarrow> string \<Rightarrow> 'z period_state_scheme \<Rightarrow> budget_period option" where
  \<comment> \<open>\<^verbatim>\<open>get_period_for_date\<close> for an upper-case period type\<close>
  "budget_period_for_date d ty s =
     qs_first bp_order
       (filter (\<lambda>p. bp_start p \<le> d \<and> d \<le> bp_end p \<and> bp_type p = ty) (budget_periods s))"

definition fiscal_period_for_date :: "date \<Rightarrow> string \<Rightarrow> 'z period_state_scheme \<Rightarrow> fiscal_period option" where
  \<comment> \<open>\<^verbatim>\<open>get_period_for_date\<close> for any other period type\<close>
  "fiscal_period_for_date d ty s =
     qs_first fp_order
       (filter (\<lambda>p. fp_start p \<le> d \<and> d \<le> fp_end p \<and> icontains (to_lower ty) (fp_type p))
         (fiscal_periods s))"

record period_status =
  can_post :: bool
  can_adjust :: bool
  can_invoice :: bool
  can_payment :: bool
  ps_status :: string

definition no_access :: "period_status \<Rightarrow> period_status" where
  "no_access r = r\<lparr>can_post := False, can_adjust := False, can_invoice := False,
                   can_payment := False\<rparr>"

definition apply_budget_period :: "budget_period \<Rightarrow> period_status \<Rightarrow> period_status" where
  "apply_budget_period p r0 =
     (let r1 = r0\<lparr>ps_status := bp_status p\<rparr>;
          r2 = (if bp_status p \<in> set LOCKED_STATUSES then no_access r1 else r1);
          r3 = (if \<not> bp_allow_postings p then r2\<lparr>can_post := False\<rparr> else r2)
      in if \<not> bp_allow_adjustments p then r3\<lparr>can_adjust := False\<rparr> else r3)"

definition apply_fiscal_period :: "fiscal_period \<Rightarrow> period_status \<Rightarrow> period_status" where
  "apply_fiscal_period p r0 =
     (let r1 = (if fp_status p \<in> set LOCKED_STATUSES then no_access r0
                else if fp_is_closed p then r0\<lparr>can_post := False\<rparr> else r0);
          r2 = (if \<not> fp_allow_journal p then r1\<lparr>can_post := False\<rparr> else r1);
          r3 = (if \<not> fp_allow_invoice p then r2\<lparr>can_invoice := False\<rparr> else r2)
      in if \<not> fp_allow_payment p then r3\<lparr>can_payment := False\<rparr> else r3)"

definition check_period_status :: "date \<Rightarrow> 'z period_state_scheme \<Rightarrow> period_status" where
  "check_period_status d s =
     (let b = budget_period_for_date d ''MONTHLY'' s;
          f = fiscal_period_for_date d ''Monthly'' s;
          r0 = \<lparr>can_post = True, can_adjust = True, can_invoice = True, can_payment = True,
                ps_status = ''Open''\<rparr>;
          r1 = (case b of None \<Rightarrow> r0 | Some p \<Rightarrow> apply_budget_period p r0);
          r2 = (case f of None \<Rightarrow> r1 | Some p \<Rightarrow> apply_fiscal_period p r1)
      in if b = None \<and> f = None then no_access r2 else r2)"

text \<open>
  \<^verbatim>\<open>check_user_period_access\<close> looks the date up in the default, monthly, \<^emph>\<open>budget\<close> calendar and
  then filters \<^verbatim>\<open>PeriodAccess\<close> with \<^verbatim>\<open>Q(period=period)\<close>.  The foreign key \<^verbatim>\<open>PeriodAccess.period\<close>
  points at \<^verbatim>\<open>FiscalPeriod\<close>, and Django refuses a query value of another model with
  \<^verbatim>\<open>ValueError\<close> before any row is read, so the grants table plays no part.
\<close>

definition check_user_period_access :: "date \<Rightarrow> 'z period_state_scheme \<Rightarrow> err + bool" where
  "check_user_period_access d s =
     (case budget_period_for_date d ''MONTHLY'' s of
        None \<Rightarrow> Inr False
      | Some p \<Rightarrow> Inl ValueError)"

definition can_post_to_period :: "date \<Rightarrow> nat option \<Rightarrow> 'z period_state_scheme \<Rightarrow> err + bool" where
  "can_post_to_period d user s =
     (let r = check_period_status d s
      in if user \<noteq> None \<and> \<not> can_post r then
           rbind (check_user_period_access d s)
             (\<lambda>has_access. Inr (if has_access then True else can_post r))
         else Inr (can_post r))"

definition validate_fiscal_period :: "date \<Rightarrow> nat option \<Rightarrow> 'z period_state_scheme \<Rightarrow> err + unit" where
  "validate_fiscal_period d user s =
     rbind (can_post_to_period d user s)
       (\<lambda>allowed. if allowed then Inr () else Inl TransactionPostingError)"

subsection \<open>Locking and synchronisation\<close>

definition save_budget_period :: "budget_period \<Rightarrow> 'z period_state_scheme \<Rightarrow> 'z period_state_scheme" where
  "save_budget_period p s = s\<lparr>budget_periods := put_row bp_id p (budget_periods s)\<rparr>"

definition save_fiscal_period :: "fiscal_period \<Rightarrow> 'z period_state_scheme \<Rightarrow> 'z period_state_scheme" where
  "save_fiscal_period p s = s\<lparr>fiscal_periods := put_row fp_id p (fiscal_periods s)\<rparr>"

definition qs_get :: "'r list \<Rightarrow> err + 'r" where
  \<comment> \<open>\<^verbatim>\<open>objects.get(...)\<close> on the rows its filter selects\<close>
  "qs_get rows = (case rows of [] \<Rightarrow> Inl DoesNotExist | [r] \<Rightarrow> Inr r
                  | _ \<Rightarrow> Inl MultipleObjectsReturned)"

fun remove_ly :: "string \<Rightarrow> string" where
  "remove_ly (a # b # s) =
     (if a = CHR ''l'' \<and> b = CHR ''y'' then remove_ly s else a # remove_ly (b # s))"
| "remove_ly s = s"

definition matching_budget_period :: "fiscal_period \<Rightarrow> 'z period_state_scheme \<Rightarrow> budget_period option" where
  "matching_budget_period f s =
     qs_first bp_order
       (filter (\<lambda>b. bp_fiscal_year b = fp_fiscal_year f
                   \<and> icontains (remove_ly (to_lower (fp_type f))) (bp_type b)
                   \<and> (bp_number b = fp_number f \<or> d_month (bp_start b) = d_month (fp_start f)))
         (budget_periods s))"

definition synchronize_one :: "fiscal_period \<Rightarrow> 'z period_state_scheme \<Rightarrow> 'z period_state_scheme" where
  "synchronize_one f s =
     (case matching_budget_period f s of
        None \<Rightarrow> s
      | Some b \<Rightarrow>
          if fp_is_locked f \<and> bp_status b \<noteq> ''LOCKED''
          then save_budget_period (b\<lparr>bp_status := ''LOCKED''\<rparr>) s
          else if fp_is_closed f \<and> bp_status b = ''OPEN''
          then save_budget_period (b\<lparr>bp_status := ''CLOSED''\<rparr>) s
          else s)"

definition synchronize_period_status :: "int \<Rightarrow> int option \<Rightarrow> 'z period_state_scheme \<Rightarrow> 'z period_state_scheme" where
  "synchronize_period_status fy n s =
     fold synchronize_one
       (sort_key fp_order
         (filter (\<lambda>f. fp_fiscal_year f = fy
                    \<and> (case n of None \<Rightarrow> True | Some k \<Rightarrow> k = 0 \<or> fp_number f = k))
           (fiscal_periods s))) s"

text \<open>
  \<^verbatim>\<open>lock_period\<close> and \<^verbatim>\<open>close_period\<close> run outside a transaction: what was saved before an
  exception stays saved, so the state is returned beside the result.
\<close>

definition lock_budget_period :: "int \<Rightarrow> int \<Rightarrow> 'z period_state_scheme \<Rightarrow> err + 'z period_state_scheme" where
  "lock_budget_period fy n s =
     (case qs_get (filter (\<lambda>b. bp_fiscal_year b = fy \<and> bp_number b = n) (budget_periods s)) of
        Inl e \<Rightarrow> if e = DoesNotExist then Inr s else Inl e
      | Inr b \<Rightarrow> Inr (save_budget_period (bp_lock b) s))"

definition lock_period :: "int \<Rightarrow> int \<Rightarrow> 'z period_state_scheme \<Rightarrow> (err + bool) \<times> 'z period_state_scheme" where
  "lock_period fy n s =
     (case lock_budget_period fy n s of
        Inl e \<Rightarrow> (Inl e, s)
      | Inr s1 \<Rightarrow>
          (case qs_get (filter (\<lambda>f. fp_fiscal_year f = fy \<and> fp_number f = n) (fiscal_periods s1)) of
             Inl e \<Rightarrow> (if e = DoesNotExist then Inr False else Inl e, s1)
           | Inr f \<Rightarrow> (Inr True, save_fiscal_period (f\<lparr>fp_is_locked := True\<rparr>) s1)))"

definition close_period :: "int \<Rightarrow> int \<Rightarrow> 'z period_state_scheme \<Rightarrow> (err + bool) \<times> 'z period_state_scheme" where
  "close_period fy n s =
     (if fy < 1 \<or> 9999 < fy \<or> n < 1 \<or> 12 < n then (Inl ValueError, s)
      else if \<not> can_adjust (check_period_status (Date fy n 1) s) then (Inr False, s)
      else lock_period fy n s)"

section \<open>When a posting is allowed\<close>

lemma no_access_simps [simp]:
  "\<not> can_post (no_access r)" "\<not> can_adjust (no_access r)" "\<not> can_invoice (no_access r)"
  "\<not> can_payment (no_access r)" "ps_status (no_access r) = ps_status r"
  by (simp_all add: no_access_def)

lemma can_post_budget_period [simp]:
  "can_post (apply_budget_period p r) \<longleftrightarrow>
     can_post r \<and> bp_status p \<notin> set LOCKED_STATUSES \<and> bp_allow_postings p"
  by (auto simp: apply_budget_period_def Let_def)

lemma can_post_fiscal_period [simp]:
  "can_post (apply_fiscal_period p r) \<longleftrightarrow>
     can_post r \<and> fp_status p \<notin> set LOCKED_STATUSES \<and> \<not> fp_is_closed p \<and> fp_allow_journal p"
  by (auto simp: apply_fiscal_period_def Let_def)

definition period_open_for_posting :: "date \<Rightarrow> 'z period_state_scheme \<Rightarrow> bool" where
  "period_open_for_posting d s \<longleftrightarrow>
     (let b = budget_period_for_date d ''MONTHLY'' s; f = fiscal_period_for_date d ''Monthly'' s
      in (b \<noteq> None \<or> f \<noteq> None)
         \<and> (case b of None \<Rightarrow> True
              | Some p \<Rightarrow> bp_status p \<notin> set LOCKED_STATUSES \<and> bp_allow_postings p)
         \<and> (case f of None \<Rightarrow> True
              | Some p \<Rightarrow> fp_status p \<notin> set LOCKED_STATUSES \<and> \<not> fp_is_closed p \<and> fp_allow_journal p))"

lemma can_post_iff: "can_post (check_period_status d s) \<longleftrightarrow> period_open_for_posting d s"
  by (auto simp: check_period_status_def period_open_for_posting_def Let_def split: option.splits)

lemma period_for_date_covers:
  "budget_period_for_date d ty s = Some p \<Longrightarrow>
     p \<in> set (budget_periods s) \<and> bp_start p \<le> d \<and> d \<le> bp_end p \<and> bp_type p = ty"
  "fiscal_period_for_date d ty s = Some f \<Longrightarrow>
     f \<in> set (fiscal_periods s) \<and> fp_start f \<le> d \<and> d \<le> fp_end f"
  by (auto simp: budget_period_for_date_def fiscal_period_for_date_def dest: qs_first_SomeD)

lemma check_period_status_cong:
  "budget_periods s' = budget_periods s \<Longrightarrow> fiscal_periods s' = fiscal_periods s \<Longrightarrow>
     check_period_status d s' = check_period_status d s"
  by (simp add: check_period_status_def budget_period_for_date_def fiscal_period_for_date_def)

subsection \<open>Locking\<close>

lemma sort_key_filter_map:
  assumes "\<And>x. key (f x) = key x" and "\<And>x. P (f x) = P x"
  shows "sort_key key (filter P (map f xs)) = map f (sort_key key (filter P xs))"
proof (induction xs)
  case (Cons x xs)
  have "insort_key key (f x) (map f ys) = map f (insort_key key x ys)" for ys
    by (induction ys) (simp_all add: assms(1))
  with Cons assms(2) show ?case by simp
qed simp

lemma qs_first_map:
  assumes "\<And>x. key (f x) = key x" and "\<And>x. P (f x) = P x"
  shows "qs_first key (filter P (map f xs)) = map_option f (qs_first key (filter P xs))"
  using sort_key_filter_map [of key f P xs, OF assms]
  by (simp add: qs_first_def split: list.splits)

lemma qs_get_Inr_iff [simp]: "qs_get rows = Inr r \<longleftrightarrow> rows = [r]"
  by (auto simp: qs_get_def split: list.splits)

lemma qs_get_DoesNotExist [simp]: "qs_get rows = Inl DoesNotExist \<longleftrightarrow> rows = []"
  by (auto simp: qs_get_def split: list.splits)

lemma fp_order_lock [simp]: "fp_order (f\<lparr>fp_is_locked := b\<rparr>) = fp_order f"
  by (simp add: fp_order_def)

lemma bp_lock_simps [simp]:
  "bp_id (bp_lock p) = bp_id p" "bp_order (bp_lock p) = bp_order p"
  "bp_start (bp_lock p) = bp_start p" "bp_end (bp_lock p) = bp_end p"
  "bp_type (bp_lock p) = bp_type p" "bp_status (bp_lock p) = ''LOCKED''"
  "\<not> bp_allow_postings (bp_lock p)"
  by (simp_all add: bp_lock_def bp_order_def)

lemma put_row_update:
  assumes "distinct (map key rows)" and "r \<in> set rows" and "\<And>x. key (f x) = key x"
  shows "put_row key (f r) rows = map (\<lambda>x. if key x = key r then f x else x) rows"
proof -
  have "x = r" if "x \<in> set rows" "key x = key r" for x
    using assms(1,2) that by (simp add: distinct_map inj_on_def)
  then show ?thesis using assms(3) by (auto simp: put_row_def)
qed

lemma budget_period_after_lock:
  assumes "distinct (map bp_id (budget_periods s))"
    and "budget_period_for_date d ty s = Some b"
  shows "budget_period_for_date d ty (save_budget_period (bp_lock b) s) = Some (bp_lock b)"
proof -
  let ?f = "\<lambda>x. if bp_id x = bp_id b then bp_lock x else x"
  have "b \<in> set (budget_periods s)"
    using assms(2) period_for_date_covers by blast
  then have "budget_periods (save_budget_period (bp_lock b) s) = map ?f (budget_periods s)"
    using assms(1) by (simp add: save_budget_period_def put_row_update)
  then have "budget_period_for_date d ty (save_budget_period (bp_lock b) s)
      = map_option ?f (budget_period_for_date d ty s)"
    unfolding budget_period_for_date_def by (simp add: qs_first_map)
  with assms(2) show ?thesis by simp
qed

lemma lock_period_TrueD:
  assumes "lock_period fy n s = (Inr True, s')"
  obtains s1 f where "lock_budget_period fy n s = Inr s1" "s' = save_fiscal_period (f\<lparr>fp_is_locked := True\<rparr>) s1"
    "f \<in> set (fiscal_periods s1)"
proof -
  obtain s1 where s1: "lock_budget_period fy n s = Inr s1"
    using assms by (cases "lock_budget_period fy n s") (simp_all add: lock_period_def)
  define fs where "fs = filter (\<lambda>f. fp_fiscal_year f = fy \<and> fp_number f = n) (fiscal_periods s1)"
  obtain f where f: "qs_get fs = Inr f" "s' = save_fiscal_period (f\<lparr>fp_is_locked := True\<rparr>) s1"
    using assms by (cases "qs_get fs")
      (simp_all add: lock_period_def s1 flip: fs_def split: if_splits)
  from f(1) have "fs = [f]" by simp
  then have "f \<in> set fs" by simp
  then have "f \<in> set (fiscal_periods s1)" by (simp add: fs_def)
  with that s1 f(2) show ?thesis by blast
qed

lemma budget_period_for_date_fiscal [simp]:
  "budget_period_for_date d ty (save_fiscal_period f s) = budget_period_for_date d ty s"
  by (simp add: budget_period_for_date_def save_fiscal_period_def)

section \<open>Properties\<close>

text \<open>
  C31: The posting gate of \<^verbatim>\<open>BasePostingService._validate_fiscal_period\<close> lets a posting through
  exactly when some period covers the date and neither the monthly budget period nor the
  monthly fiscal period that covers it is locked, closed or switched off for postings.  It
  fails closed when no period is defined, and the answer does not depend on the user: the
  temporary-access override can never let a posting through.
\<close>

theorem posting_gate_exact:
  "validate_fiscal_period d user s = Inr () \<longleftrightarrow> period_open_for_posting d s"
proof (cases "can_post (check_period_status d s)")
  case True
  then show ?thesis
    by (simp add: validate_fiscal_period_def can_post_to_period_def Let_def can_post_iff)
next
  case False
  then show ?thesis
    by (simp add: validate_fiscal_period_def can_post_to_period_def Let_def
        check_user_period_access_def can_post_iff res_simps split: option.splits)
qed

text \<open>
  C32: After \<^verbatim>\<open>lock_period\<close> has reported success, no date governed by the locked monthly budget
  period accepts a posting.
\<close>

theorem lock_period_blocks_posting:
  assumes "distinct (map bp_id (budget_periods s))"
    and "lock_period fy n s = (Inr True, s')"
    and "budget_period_for_date d ''MONTHLY'' s = Some b"
    and "bp_fiscal_year b = fy" and "bp_number b = n"
  shows "\<not> period_open_for_posting d s'"
proof -
  obtain s1 f where s1: "lock_budget_period fy n s = Inr s1"
    and s': "s' = save_fiscal_period (f\<lparr>fp_is_locked := True\<rparr>) s1"
    using assms(2) by (rule lock_period_TrueD)
  let ?bs = "filter (\<lambda>b. bp_fiscal_year b = fy \<and> bp_number b = n) (budget_periods s)"
  have "b \<in> set ?bs" using assms(3-5) period_for_date_covers(1) by auto
  then have "qs_get ?bs \<noteq> Inl DoesNotExist" "qs_get ?bs = Inr x \<Longrightarrow> x = b" for x
    by (auto simp: filter_empty_conv)
  with s1 have "s1 = save_budget_period (bp_lock b) s"
    by (auto simp: lock_budget_period_def simp del: qs_get_Inr_iff split: sum.splits if_splits)
  then have "budget_period_for_date d ''MONTHLY'' s' = Some (bp_lock b)"
    using budget_period_after_lock [OF assms(1,3)] by (simp add: s')
  then show ?thesis by (simp add: period_open_for_posting_def LOCKED_STATUSES_def)
qed

definition demo_budget_period :: budget_period where
  "demo_budget_period = \<lparr>bp_id = 1, bp_fiscal_year = 2026, bp_type = ''MONTHLY'', bp_number = 3,
     bp_start = Date 2026 3 1, bp_end = Date 2026 3 31, bp_status = ''OPEN'',
     bp_allow_postings = True, bp_allow_adjustments = True\<rparr>"

definition demo_fiscal_period :: fiscal_period where
  "demo_fiscal_period = \<lparr>fp_id = 1, fp_fiscal_year = 2026, fp_type = ''Monthly'', fp_number = 3,
     fp_start = Date 2026 3 1, fp_end = Date 2026 3 31, fp_is_closed = False, fp_is_locked = False,
     fp_status = ''Open'', fp_allow_journal = True, fp_allow_invoice = True,
     fp_allow_payment = True\<rparr>"

definition demo_periods :: period_state where
  "demo_periods = \<lparr>budget_periods = [demo_budget_period], fiscal_periods = [demo_fiscal_period],
     today = Date 2026 3 15\<rparr>"

theorem lock_period_blocks_posting_witness:
  "\<not> period_open_for_posting (Date 2026 3 10) (snd (lock_period 2026 3 demo_periods))"
proof (rule lock_period_blocks_posting [of demo_periods 2026 3 _ _ demo_budget_period])
  show "lock_period 2026 3 demo_periods = (Inr True, snd (lock_period 2026 3 demo_periods))"
    by code_simp
qed (code_simp)+

text \<open>
  A tenant that keeps only fiscal periods gets no protection from \<^verbatim>\<open>lock_period\<close>.  The
  operation reports success and raises the \<^verbatim>\<open>is_locked\<close> flag, but the gate reads only the
  status, which \<^verbatim>\<open>lock_period\<close> leaves alone, so the same dates stay open for posting.
\<close>

theorem fiscal_lock_alone_has_no_effect:
  assumes "budget_periods s = []" and "distinct (map fp_id (fiscal_periods s))"
    and "lock_period fy n s = (Inr True, s')"
  shows "period_open_for_posting d s' \<longleftrightarrow> period_open_for_posting d s"
proof -
  obtain s1 f where s1: "lock_budget_period fy n s = Inr s1"
    and s': "s' = save_fiscal_period (f\<lparr>fp_is_locked := True\<rparr>) s1" "f \<in> set (fiscal_periods s1)"
    using assms(3) by (rule lock_period_TrueD)
  from s1 have "s1 = s" by (simp add: lock_budget_period_def assms(1) qs_get_def)
  let ?g = "\<lambda>x. if fp_id x = fp_id f then x\<lparr>fp_is_locked := True\<rparr> else x"
  have "fiscal_periods s' = map ?g (fiscal_periods s)"
    using put_row_update [of fp_id "fiscal_periods s" f "\<lambda>x. x\<lparr>fp_is_locked := True\<rparr>"] assms(2) s'
    by (simp add: save_fiscal_period_def \<open>s1 = s\<close>)
  then have "fiscal_period_for_date d ty s' = map_option ?g (fiscal_period_for_date d ty s)" for ty
    unfolding fiscal_period_for_date_def by (simp add: qs_first_map)
  moreover have "budget_period_for_date d ty s' = None" "budget_period_for_date d ty s = None" for ty
    by (simp_all add: budget_period_for_date_def s' save_fiscal_period_def \<open>s1 = s\<close> assms(1))
  ultimately show ?thesis
    by (auto simp: period_open_for_posting_def split: option.splits)
qed

theorem fiscal_lock_alone_has_no_effect_witness:
  "period_open_for_posting (Date 2026 3 10)
     (snd (lock_period 2026 3 (demo_periods\<lparr>budget_periods := []\<rparr>)))"
proof -
  let ?s = "demo_periods\<lparr>budget_periods := []\<rparr>"
  have "lock_period 2026 3 ?s = (Inr True, snd (lock_period 2026 3 ?s))" by code_simp
  from fiscal_lock_alone_has_no_effect [OF _ _ this, of "Date 2026 3 10"]
  have "period_open_for_posting (Date 2026 3 10) (snd (lock_period 2026 3 ?s))
      \<longleftrightarrow> period_open_for_posting (Date 2026 3 10) ?s"
    by (simp add: demo_periods_def)
  moreover have "period_open_for_posting (Date 2026 3 10) ?s" by code_simp
  ultimately show ?thesis by blast
qed

section \<open>Synchronisation only tightens\<close>

definition tightened :: "budget_period \<Rightarrow> budget_period \<Rightarrow> bool" where
  "tightened p q \<longleftrightarrow>
     q = p \<or> q = p\<lparr>bp_status := ''LOCKED''\<rparr>
     \<or> (bp_status p = ''OPEN'' \<and> q = p\<lparr>bp_status := ''CLOSED''\<rparr>)"

lemma tightened_trans: "tightened p q \<Longrightarrow> tightened q r \<Longrightarrow> tightened p r"
  by (auto simp: tightened_def)

lemma synchronize_one_tightens:
  assumes "distinct (map bp_id (budget_periods s))"
  shows "list_all2 tightened (budget_periods s) (budget_periods (synchronize_one f s))"
proof (cases "matching_budget_period f s")
  case None
  then show ?thesis by (simp add: synchronize_one_def tightened_def list_all2_same)
next
  case (Some b)
  have b: "b \<in> set (budget_periods s)"
    using Some by (auto simp: matching_budget_period_def dest: qs_first_SomeD)
  have same: "x = b" if "x \<in> set (budget_periods s)" "bp_id x = bp_id b" for x
    using assms b that by (simp add: distinct_map inj_on_def)
  have put: "list_all2 tightened (budget_periods s) (put_row bp_id q (budget_periods s))"
    if "tightened b q" "bp_id q = bp_id b" for q
    using that same by (auto simp: put_row_def list_all2_map2 list_all2_same tightened_def)
  show ?thesis
    using Some by (auto simp: synchronize_one_def save_budget_period_def list_all2_same
        intro!: put) (simp_all add: tightened_def)
qed

lemma tightened_ids:
  "list_all2 tightened ps qs \<Longrightarrow> map bp_id qs = map bp_id ps"
  by (induction rule: list_all2_induct) (auto simp: tightened_def)

lemma synchronize_tightens:
  assumes "distinct (map bp_id (budget_periods s))"
  shows "list_all2 tightened (budget_periods s) (budget_periods (synchronize_period_status fy n s))"
proof -
  have "list_all2 tightened (budget_periods s) (budget_periods (fold synchronize_one fs s))" for fs
    using assms
  proof (induction fs arbitrary: s)
    case Nil
    then show ?case by (simp add: list_all2_same tightened_def)
  next
    case (Cons f fs)
    have one: "list_all2 tightened (budget_periods s) (budget_periods (synchronize_one f s))"
      using Cons.prems by (rule synchronize_one_tightens)
    then have "distinct (map bp_id (budget_periods (synchronize_one f s)))"
      using Cons.prems by (simp add: tightened_ids)
    from list_all2_trans [OF tightened_trans one Cons.IH [OF this]] show ?case by simp
  qed
  then show ?thesis by (simp add: synchronize_period_status_def)
qed

end
