(* ===== verification/LedgerData.thy ===== *)
theory LedgerData
  imports Periods "HOL-Library.AList"
begin

text \<open>
  The tables of the general ledger (\<^verbatim>\<open>accounting/models/gl.py\<close>, \<^verbatim>\<open>accounting/models/balances.py\<close>,
  \<^verbatim>\<open>accounting/models/ncoa.py\<close>), the account resolvers of \<^verbatim>\<open>base_posting.py\<close> and
  \<^verbatim>\<open>procurement_posting.py\<close>, and the number sequences.  Descriptions, memos and timestamps are
  not modelled.
\<close>

section \<open>Data\<close>

datatype account_type = AT_Asset | AT_Liability | AT_Equity | AT_Income | AT_Expense

record account =
  ac_id :: nat
  ac_code :: string
  ac_name :: string
  ac_type :: account_type
  ac_parent :: "nat option"
  ac_is_active :: bool
  ac_is_postable :: bool
  ac_is_reconciliation :: bool
  ac_reconciliation_type :: string

text \<open>
  An NCoA code with its economic classifier (a GL account) and, per segment, the legacy
  dimension the segment is bridged to; \<open>None\<close> where the segment or its bridge is absent.
\<close>

record ncoa =
  n_id :: nat
  n_economic :: nat
  n_administrative :: nat
  n_fund :: nat
  n_legacy_fund :: "nat option"
  n_legacy_function :: "nat option"
  n_legacy_program :: "nat option"
  n_legacy_geo :: "nat option"
  n_legacy_mda :: "nat option"
  n_active :: bool

datatype jstatus = J_Draft | J_Pending | J_Approved | J_Posted | J_Rejected

record jline =
  l_account :: nat
  l_debit :: rat
  l_credit :: rat
  l_ncoa :: "nat option"
  l_asset :: "nat option"

record journal =
  j_id :: nat
  j_date :: date
  j_ref :: string
  j_document :: string
  j_mda :: "nat option"
  j_fund :: "nat option"
  j_function :: "nat option"
  j_program :: "nat option"
  j_geo :: "nat option"
  j_status :: jstatus
  j_source_module :: "string option"
  j_source_id :: "nat option"
  j_posted_by :: "nat option"
  j_is_reversed :: bool
  j_is_deleted :: bool
  j_lines :: "jline list"

record gl_key =
  gk_account :: nat
  gk_fund :: "nat option"
  gk_function :: "nat option"
  gk_program :: "nat option"
  gk_geo :: "nat option"
  gk_mda :: "nat option"
  gk_year :: int
  gk_period :: int

type_synonym gl_rows = "(gl_key \<times> rat \<times> rat) list"

record ledger = period_state +
  accounts :: "account list"
  ncoa_codes :: "ncoa list"
  default_gl :: "(string \<times> string) list"
  journals :: "journal list"
  reversals :: "(nat \<times> nat) list"
  gl_balances :: gl_rows
  sequences :: "(string \<times> string \<times> nat) list"
  je_audit :: "(string \<times> nat) list"

section \<open>Accounts\<close>

definition account_of :: "nat \<Rightarrow> 'z ledger_scheme \<Rightarrow> account option" where
  "account_of a s = find_row ac_id a (accounts s)"

definition account_by_code :: "string \<Rightarrow> 'z ledger_scheme \<Rightarrow> account option" where
  "account_by_code c s = qs_first ac_code (filter (\<lambda>a. ac_code a = c) (accounts s))"

fun nonempty :: "string option \<Rightarrow> bool" where
  \<comment> \<open>Python truth of an optional string\<close>
  "nonempty None = False"
| "nonempty (Some t) = (t \<noteq> [])"

definition get_gl_account :: "string \<Rightarrow> account_type option \<Rightarrow> string option \<Rightarrow> 'z ledger_scheme \<Rightarrow> account option" where
  "get_gl_account key ty name s =
     (let configured = (case map_of (default_gl s) key of
                          Some code \<Rightarrow> if code = [] then None else account_by_code code s
                        | None \<Rightarrow> None)
      in if configured \<noteq> None then configured
         else if nonempty name \<and> ty \<noteq> None then
           qs_first ac_code (filter (\<lambda>a. ac_type a = the ty \<and> icontains (the name) (ac_name a))
                               (accounts s))
         else if nonempty name then
           qs_first ac_code (filter (\<lambda>a. icontains (the name) (ac_name a)) (accounts s))
         else None)"

text \<open>
  The vendor as the AP resolver sees it: whether there is a vendor, whether it has a category
  and which reconciliation account that category names.
\<close>

record vendor_info =
  ve_id :: nat
  ve_category :: "nat option option" \<comment> \<open>the category's reconciliation account\<close>

definition get_vendor_ap_account :: "vendor_info option \<Rightarrow> 'z ledger_scheme \<Rightarrow> err + account" where
  "get_vendor_ap_account v s =
     (case v of None \<Rightarrow> Inl TransactionPostingError
      | Some vendor \<Rightarrow>
          (case Option.bind (Option.bind (ve_category vendor) id) (\<lambda>a. account_of a s) of
             Some acct \<Rightarrow> Inr acct
           | None \<Rightarrow>
               (case qs_first ac_code
                       (filter (\<lambda>a. ac_reconciliation_type a = ''accounts_payable'' \<and> ac_is_active a)
                         (accounts s)) of
                  Some acct \<Rightarrow> Inr acct
                | None \<Rightarrow>
                    (case get_gl_account ''ACCOUNTS_PAYABLE'' (Some AT_Liability) (Some ''Payable'') s of
                       Some acct \<Rightarrow> Inr acct
                     | None \<Rightarrow> Inl TransactionPostingError))))"

section \<open>Journals\<close>

definition sequence_next :: "string \<Rightarrow> string \<Rightarrow> 'z ledger_scheme \<Rightarrow> string \<times> 'z ledger_scheme" where
  \<comment> \<open>\<^verbatim>\<open>TransactionSequence.get_next\<close>\<close>
  "sequence_next name prefix s =
     (let (p, v) = (case map_of (sequences s) name of Some pv \<Rightarrow> pv | None \<Rightarrow> (prefix, 1))
      in (p @ zpad 6 v,
          s\<lparr>sequences := AList.update name (p, Suc v) (sequences s)\<rparr>))"

definition journal_of :: "nat \<Rightarrow> 'z ledger_scheme \<Rightarrow> journal option" where
  \<comment> \<open>\<^verbatim>\<open>JournalHeader.all_objects.get(pk=i)\<close>\<close>
  "journal_of i s = find_row j_id i (journals s)"

definition journal_unique :: "journal \<Rightarrow> journal list \<Rightarrow> bool" where
  \<comment> \<open>the two unique constraints of \<^verbatim>\<open>JournalHeader.Meta\<close>\<close>
  "journal_unique j js \<longleftrightarrow>
     (\<forall>k \<in> set js. j_id k \<noteq> j_id j \<longrightarrow>
        (j_ref j \<noteq> [] \<longrightarrow> j_ref k \<noteq> j_ref j) \<and>
        (j_status j = J_Posted \<and> j_status k = J_Posted \<and> j_source_module j \<noteq> None
           \<and> j_source_id j \<noteq> None \<longrightarrow>
           \<not> (j_source_module k = j_source_module j \<and> j_source_id k = j_source_id j)))"

end
