(* ===== verification/Budget.thy ===== *)
theory Budget
  imports LedgerData
begin

text \<open>
  Budget control: the check rules of \<^verbatim>\<open>accounting/services/budget_check_rules.py\<close>, the
  appropriation with its live and cached totals (\<^verbatim>\<open>budget/models.py\<close>,
  \<^verbatim>\<open>accounting/services/appropriation_totals.py\<close>), the expenditure gate of
  \<^verbatim>\<open>budget/services.py\<close>, warrants, and virements (\<^verbatim>\<open>budget/services_virement.py\<close>).
\<close>

section \<open>Data\<close>

record check_rule =
  cr_id :: nat
  cr_gl_from :: string
  cr_gl_to :: string
  cr_level :: string
  cr_threshold :: rat
  cr_priority :: int
  cr_is_active :: bool

text \<open>An NCoA segment with the legacy entity it is bridged to, and such an entity.\<close>

record segment =
  sg_id :: nat
  sg_code :: string
  sg_legacy :: "nat option"

record legacy_entity =
  le_id :: nat
  le_code :: string

record fiscal_year =
  fy_id :: nat
  fy_year :: int
  fy_start :: date
  fy_end :: date

record appropriation =
  ap_id :: nat
  ap_fiscal_year :: nat
  ap_admin :: nat
  ap_economic :: nat
  ap_fund :: nat
  ap_amount :: rat
  ap_status :: string
  ap_cached_committed :: "rat option"
  ap_cached_expended :: "rat option"

record commitment =
  cm_po :: nat
  cm_appropriation :: nat
  cm_amount :: rat
  cm_status :: string

record warrant =
  wa_id :: nat
  wa_appropriation :: nat
  wa_from :: "date option"
  wa_to :: "date option"
  wa_amount :: rat
  wa_status :: string

record vendor_invoice =
  vi_id :: nat
  vi_number :: string
  vi_reference :: string
  vi_vendor :: nat
  vi_status :: string
  vi_po :: "nat option"
  vi_mda :: "nat option"
  vi_account :: "nat option"
  vi_fund :: "nat option"
  vi_date :: date
  vi_subtotal :: rat
  vi_total :: rat
  vi_paid :: rat
  vi_retention :: rat \<comment> \<open>the lien \<^verbatim>\<open>retention_withheld\<close>\<close>

record voucher =
  pv_id :: nat
  pv_number :: string
  pv_payment_type :: string
  pv_ncoa :: nat
  pv_appropriation :: "nat option"
  pv_status :: string
  pv_gross :: rat
  pv_wht :: rat
  pv_net :: rat
  pv_source_document :: string
  pv_invoice_number :: string
  pv_tsa :: nat

record virement =
  vr_id :: nat
  vr_ref :: string
  vr_from :: nat
  vr_to :: nat
  vr_amount :: rat
  vr_status :: string
  vr_snapshots :: "(rat \<times> rat \<times> rat \<times> rat) option"

record budget_state = ledger +
  check_rules :: "check_rule list"
  default_control_level :: string
  admin_segments :: "segment list"
  fund_segments :: "segment list"
  legacy_mdas :: "legacy_entity list"
  legacy_funds :: "legacy_entity list"
  fiscal_years :: "fiscal_year list"
  appropriations :: "appropriation list"
  commitments :: "commitment list"
  warrants :: "warrant list"
  vendor_invoices :: "vendor_invoice list"
  vouchers :: "voucher list"
  virements :: "virement list"
  enforce_warrant :: bool
  warrant_before_payment :: bool \<comment> \<open>\<^verbatim>\<open>WARRANT_ENFORCEMENT_STAGE\<close> is not \<^verbatim>\<open>'payment'\<close>\<close>

section \<open>Check rules\<close>

definition parse_digits :: "string \<Rightarrow> int option" where
  "parse_digits s =
     (if s \<noteq> [] \<and> list_all (\<lambda>c. 48 \<le> (of_char c :: nat) \<and> (of_char c :: nat) \<le> 57) s
      then Some (fold (\<lambda>c n. n * 10 + int (of_char c - 48)) s 0) else None)"

definition parse_int :: "string \<Rightarrow> int option" where
  \<comment> \<open>\<^verbatim>\<open>int(s)\<close> on text without blanks and underscores; \<open>None\<close> is \<^verbatim>\<open>ValueError\<close>\<close>
  "parse_int s =
     (case s of
        [] \<Rightarrow> None
      | c # t \<Rightarrow> if c = CHR ''-'' then map_option uminus (parse_digits t)
                else if c = CHR ''+'' then parse_digits t else parse_digits s)"

definition rule_contains :: "check_rule \<Rightarrow> string \<Rightarrow> bool" where
  "rule_contains r code \<longleftrightarrow> code \<noteq> [] \<and> cr_gl_from r \<le> code \<and> code \<le> cr_gl_to r"

definition rule_width :: "check_rule \<Rightarrow> int" where
  "rule_width r =
     (case (parse_int (cr_gl_to r), parse_int (cr_gl_from r)) of
        (Some b, Some a) \<Rightarrow> b - a
      | _ \<Rightarrow> int (length (cr_gl_to r)) + int (length (cr_gl_from r)))"

definition ordered_rules :: "check_rule list \<Rightarrow> check_rule list" where
  \<comment> \<open>\<^verbatim>\<open>ordering = ['gl_from', '-priority']\<close>\<close>
  "ordered_rules rs = sort_key cr_gl_from (sort_key (\<lambda>r. - cr_priority r) rs)"

fun narrower :: "check_rule \<Rightarrow> check_rule option \<Rightarrow> check_rule option" where
  \<comment> \<open>one iteration of the loop over the candidates\<close>
  "narrower r None = Some r"
| "narrower r (Some best) =
     (if rule_width r < rule_width best
         \<or> (rule_width r = rule_width best \<and> cr_priority r > cr_priority best)
      then Some r else Some best)"

definition resolve_rule_for_account :: "string \<Rightarrow> 'z budget_state_scheme \<Rightarrow> check_rule option" where
  "resolve_rule_for_account code s =
     (if code = [] then None
      else fold narrower
        (filter (\<lambda>r. cr_is_active r \<and> cr_gl_from r \<le> code \<and> code \<le> cr_gl_to r)
          (ordered_rules (check_rules s))) None)"

definition effective_level :: "check_rule option \<Rightarrow> 'z budget_state_scheme \<Rightarrow> string" where
  "effective_level r s = (case r of Some x \<Rightarrow> cr_level x | None \<Rightarrow> default_control_level s)"

record check_result =
  ck_level :: string
  ck_blocked :: bool
  ck_warned :: bool
  ck_utilisation :: "rat option"

definition opt_amount :: "rat option \<Rightarrow> rat" where
  \<comment> \<open>\<^verbatim>\<open>x or 0\<close>\<close>
  "opt_amount x = (case x of Some v \<Rightarrow> v | None \<Rightarrow> 0)"

definition appropriation_available :: "appropriation \<Rightarrow> rat" where
  \<comment> \<open>\<^verbatim>\<open>_appropriation_available\<close>: from the cached columns only\<close>
  "appropriation_available a =
     ap_amount a - opt_amount (ap_cached_expended a) - opt_amount (ap_cached_committed a)"

definition utilisation :: "appropriation \<Rightarrow> rat option" where
  "utilisation a =
     (if 0 < ap_amount a
      then Some (dec_mul (dec_div (opt_amount (ap_cached_expended a) + opt_amount (ap_cached_committed a))
                   (ap_amount a)) 100)
      else None)"

definition check_policy :: "string \<Rightarrow> appropriation option \<Rightarrow> rat option \<Rightarrow> 'z budget_state_scheme \<Rightarrow> check_result" where
  "check_policy code appr requested s =
     (let rule = resolve_rule_for_account code s;
          level = effective_level rule s;
          ok = \<lparr>ck_level = level, ck_blocked = False, ck_warned = False, ck_utilisation = None\<rparr>
      in if level = ''NONE'' then ok
         else if level = ''STRICT'' then
           (case appr of
              None \<Rightarrow> ok\<lparr>ck_blocked := True\<rparr>
            | Some a \<Rightarrow> (case requested of
                          Some r \<Rightarrow> ok\<lparr>ck_blocked := (r > appropriation_available a)\<rparr>
                        | None \<Rightarrow> ok))
         else
           (let threshold = (case rule of Some x \<Rightarrow> cr_threshold x | None \<Rightarrow> 80)
            in case appr of
                 None \<Rightarrow> ok\<lparr>ck_level := ''WARNING'', ck_warned := True\<rparr>
               | Some a \<Rightarrow> ok\<lparr>ck_level := ''WARNING'',
                     ck_warned := (case utilisation a of Some u \<Rightarrow> u \<ge> threshold | None \<Rightarrow> False),
                     ck_utilisation := utilisation a\<rparr>))"

section \<open>Matching an appropriation\<close>

text \<open>
  \<^verbatim>\<open>account_levels\<close> climbs the parent chain; with one starting account every level has one
  account.  The climb ends for the charts \<^verbatim>\<open>Account.clean\<close> admits (no circular parents), and then
  it has at most one step per account, so the fuel \<open>length (accounts s)\<close> is enough
  (\<open>climb_stable\<close>).
\<close>

fun climb :: "nat \<Rightarrow> nat \<Rightarrow> 'z ledger_scheme \<Rightarrow> account list" where
  "climb 0 a s = []"
| "climb (Suc n) a s =
     (case account_of a s of
        None \<Rightarrow> []
      | Some x \<Rightarrow> x # (case ac_parent x of None \<Rightarrow> [] | Some p \<Rightarrow> climb n p s))"

definition account_levels :: "nat \<Rightarrow> 'z ledger_scheme \<Rightarrow> account list" where
  "account_levels a s = climb (length (accounts s)) a s"

definition segment_code :: "segment list \<Rightarrow> nat \<Rightarrow> string" where
  "segment_code segs i = (case find_row sg_id i segs of Some g \<Rightarrow> sg_code g | None \<Rightarrow> [])"

definition ordered_appropriations :: "'z budget_state_scheme \<Rightarrow> appropriation list" where
  \<comment> \<open>\<^verbatim>\<open>ordering = ['fiscal_year', 'administrative', 'economic']\<close>: each relation sorts by the related
      model's own ordering, which is descending year, segment code and account code\<close>
  "ordered_appropriations s =
     sort_key (\<lambda>a. case find_row fy_id (ap_fiscal_year a) (fiscal_years s) of Some y \<Rightarrow> - fy_year y | None \<Rightarrow> 0)
       (sort_key (\<lambda>a. segment_code (admin_segments s) (ap_admin a))
         (sort_key (\<lambda>a. case account_of (ap_economic a) s of Some x \<Rightarrow> ac_code x | None \<Rightarrow> [])
           (appropriations s)))"

definition nearest_appropriation :: "nat \<Rightarrow> (appropriation \<Rightarrow> bool) \<Rightarrow> 'z budget_state_scheme \<Rightarrow> appropriation option" where
  \<comment> \<open>the queryset is the predicate the caller filters with\<close>
  "nearest_appropriation account Q s =
     first_hit (\<lambda>x. List.find (\<lambda>a. Q a \<and> ap_economic a = ac_id x) (ordered_appropriations s))
       (account_levels account s)"

definition is_active_ci :: "string \<Rightarrow> bool" where
  \<comment> \<open>\<^verbatim>\<open>status__iexact='ACTIVE'\<close>\<close>
  "is_active_ci t \<longleftrightarrow> to_lower t = ''active''"

definition bridged_to :: "segment list \<Rightarrow> nat \<Rightarrow> nat \<Rightarrow> bool" where
  "bridged_to segs i legacy \<longleftrightarrow>
     (case find_row sg_id i segs of Some g \<Rightarrow> sg_legacy g = Some legacy | None \<Rightarrow> False)"

definition in_year :: "int option \<Rightarrow> appropriation \<Rightarrow> 'z budget_state_scheme \<Rightarrow> bool" where
  \<comment> \<open>\<^verbatim>\<open>_apply_year\<close>: no filter when the year is absent or zero\<close>
  "in_year y a s \<longleftrightarrow>
     (case y of None \<Rightarrow> True
      | Some n \<Rightarrow> n = 0 \<or> (case find_row fy_id (ap_fiscal_year a) (fiscal_years s) of
                             Some f \<Rightarrow> fy_year f = n | None \<Rightarrow> False))"

definition match_at :: "legacy_entity \<Rightarrow> legacy_entity \<Rightarrow> int option \<Rightarrow> 'z budget_state_scheme \<Rightarrow> account \<Rightarrow> appropriation option" where
  "match_at mda fund y s x =
     (let here = (\<lambda>a. ap_economic a = ac_id x \<and> in_year y a s);
          bridge = (\<lambda>a. bridged_to (admin_segments s) (ap_admin a) (le_id mda)
                      \<and> bridged_to (fund_segments s) (ap_fund a) (le_id fund));
          code = (\<lambda>a. le_code mda \<noteq> [] \<and> le_code fund \<noteq> []
                    \<and> segment_code (admin_segments s) (ap_admin a) = le_code mda
                    \<and> segment_code (fund_segments s) (ap_fund a) = le_code fund)
      in first_hit (\<lambda>Q. List.find (\<lambda>a. here a \<and> Q a) (ordered_appropriations s))
           [\<lambda>a. bridge a \<and> ap_status a = ''ACTIVE'', \<lambda>a. code a \<and> ap_status a = ''ACTIVE'',
            \<lambda>a. bridge a \<and> is_active_ci (ap_status a), \<lambda>a. code a \<and> is_active_ci (ap_status a)])"

definition find_matching_appropriation ::
    "legacy_entity option \<Rightarrow> legacy_entity option \<Rightarrow> nat option \<Rightarrow> int option \<Rightarrow> 'z budget_state_scheme \<Rightarrow> appropriation option" where
  "find_matching_appropriation mda fund account y s =
     (case (mda, fund, account) of
        (Some m, Some f, Some a) \<Rightarrow> first_hit (match_at m f y s) (account_levels a s)
      | _ \<Rightarrow> None)"

section \<open>Totals of an appropriation\<close>

definition sum_amounts :: "('r \<Rightarrow> rat) \<Rightarrow> ('r \<Rightarrow> bool) \<Rightarrow> 'r list \<Rightarrow> rat" where
  \<comment> \<open>\<^verbatim>\<open>filter(...).aggregate(Sum(...)) or 0\<close>\<close>
  "sum_amounts f P rows = sum_list (map f (filter P rows))"

definition open_commitments :: "nat \<Rightarrow> 'z budget_state_scheme \<Rightarrow> rat" where
  "open_commitments i s =
     sum_amounts cm_amount (\<lambda>c. cm_appropriation c = i \<and> cm_status c \<in> {''ACTIVE'', ''INVOICED''}) (commitments s)"

definition closed_commitments :: "nat \<Rightarrow> 'z budget_state_scheme \<Rightarrow> rat" where
  "closed_commitments i s =
     sum_amounts cm_amount (\<lambda>c. cm_appropriation c = i \<and> cm_status c = ''CLOSED'') (commitments s)"

definition total_committed :: "appropriation \<Rightarrow> 'z budget_state_scheme \<Rightarrow> rat" where
  "total_committed a s =
     (case ap_cached_committed a of Some c \<Rightarrow> c | None \<Rightarrow> open_commitments (ap_id a) s)"

text \<open>
  The account subtree: all accounts below a frontier, level by level, as the code's \<open>while\<close> loop
  collects them; the fuel is the number of accounts, one more than the depth of a tree on them.
\<close>

fun subtree :: "nat \<Rightarrow> nat list \<Rightarrow> 'z ledger_scheme \<Rightarrow> nat list" where
  "subtree 0 frontier s = []"
| "subtree (Suc n) frontier s =
     (if frontier = [] then []
      else let children = map ac_id (filter (\<lambda>x. case ac_parent x of Some p \<Rightarrow> p \<in> set frontier
                                               | None \<Rightarrow> False) (accounts s))
           in children @ subtree n children s)"

definition account_subtree :: "nat \<Rightarrow> 'z ledger_scheme \<Rightarrow> nat list" where
  "account_subtree a s = a # subtree (length (accounts s)) [a] s"

definition fy_covers :: "nat \<Rightarrow> date \<Rightarrow> 'z budget_state_scheme \<Rightarrow> bool" where
  \<comment> \<open>the fiscal-year window; both bounds are mandatory columns of \<^verbatim>\<open>FiscalYear\<close>\<close>
  "fy_covers y d s =
     (case find_row fy_id y (fiscal_years s) of Some f \<Rightarrow> fy_start f \<le> d \<and> d \<le> fy_end f | None \<Rightarrow> True)"

definition legacy_of :: "segment list \<Rightarrow> nat \<Rightarrow> nat option" where
  "legacy_of segs i = Option.bind (find_row sg_id i segs) sg_legacy"

definition direct_invoices :: "appropriation \<Rightarrow> nat \<Rightarrow> nat \<Rightarrow> 'z budget_state_scheme \<Rightarrow> rat" where
  "direct_invoices a mda fund s =
     sum_amounts vi_total
       (\<lambda>v. vi_status v = ''Posted'' \<and> vi_po v = None \<and> vi_mda v = Some mda
          \<and> vi_account v \<in> Some ` set (account_subtree (ap_economic a) s) \<and> vi_fund v = Some fund
          \<and> fy_covers (ap_fiscal_year a) (vi_date v) s) (vendor_invoices s)"

definition direct_vouchers :: "appropriation \<Rightarrow> 'z budget_state_scheme \<Rightarrow> rat" where
  "direct_vouchers a s =
     sum_amounts pv_net
       (\<lambda>p. pv_appropriation p = Some (ap_id a) \<and> pv_status p = ''PAID'' \<and> pv_source_document p = [])
       (vouchers s)"

definition expense_lines :: "(string option \<Rightarrow> bool) \<Rightarrow> appropriation \<Rightarrow> nat \<Rightarrow> nat \<Rightarrow> 'z budget_state_scheme \<Rightarrow> jline list" where
  \<comment> \<open>posted journal lines on the appropriation's accounts, by source module\<close>
  "expense_lines src a mda fund s =
     concat (map (\<lambda>j. if j_status j = J_Posted \<and> j_mda j = Some mda \<and> j_fund j = Some fund
                       \<and> src (j_source_module j) \<and> fy_covers (ap_fiscal_year a) (j_date j) s
                    then filter (\<lambda>l. l_account l \<in> set (account_subtree (ap_economic a) s)) (j_lines j)
                    else []) (journals s))"

definition net_expense :: "jline list \<Rightarrow> rat" where
  "net_expense ls =
     sum_amounts l_debit (\<lambda>l. True) ls - sum_amounts l_credit (\<lambda>l. l_asset l = None) ls"

definition live_source :: "string option \<Rightarrow> bool" where
  "live_source m \<longleftrightarrow> m = None \<or> m = Some []"

definition direct_source :: "string option \<Rightarrow> bool" where
  "direct_source m \<longleftrightarrow>
     m \<notin> Some ` {''ap.vendor_invoice'', ''ap.payment_voucher'', ''ar.invoice'', ''ar.credit_memo'',
               ''ar.receipt'', ''year_end_close'', ''year_end_close.opening''}"

definition compute_direct_disbursements :: "appropriation \<Rightarrow> 'z budget_state_scheme \<Rightarrow> rat" where
  "compute_direct_disbursements a s =
     (case (legacy_of (admin_segments s) (ap_admin a), legacy_of (fund_segments s) (ap_fund a)) of
        (Some m, Some f) \<Rightarrow>
          direct_invoices a m f s + direct_vouchers a s + net_expense (expense_lines direct_source a m f s)
      | _ \<Rightarrow> 0)"

definition total_expended :: "appropriation \<Rightarrow> 'z budget_state_scheme \<Rightarrow> rat" where
  "total_expended a s =
     (case ap_cached_expended a of Some c \<Rightarrow> c
      | None \<Rightarrow>
          closed_commitments (ap_id a) s + direct_vouchers a s
          + (case (legacy_of (admin_segments s) (ap_admin a), legacy_of (fund_segments s) (ap_fund a)) of
               (Some m, Some f) \<Rightarrow> direct_invoices a m f s + net_expense (expense_lines live_source a m f s)
             | _ \<Rightarrow> 0))"

definition available_balance :: "appropriation \<Rightarrow> 'z budget_state_scheme \<Rightarrow> rat" where
  "available_balance a s = ap_amount a - total_committed a s - total_expended a s"

definition execution_rate :: "appropriation \<Rightarrow> 'z budget_state_scheme \<Rightarrow> rat" where
  "execution_rate a s =
     (if ap_amount a \<le> 0 then 0 else dec_mul (dec_div (total_expended a s) (ap_amount a)) 100)"

definition save_appropriation :: "appropriation \<Rightarrow> 'z budget_state_scheme \<Rightarrow> 'z budget_state_scheme" where
  "save_appropriation a s = s\<lparr>appropriations := put_row ap_id a (appropriations s)\<rparr>"

definition refresh_totals :: "nat \<Rightarrow> 'z budget_state_scheme \<Rightarrow> err + 'z budget_state_scheme" where
  "refresh_totals i s =
     (case find_row ap_id i (appropriations s) of
        None \<Rightarrow> Inl DoesNotExist
      | Some a \<Rightarrow>
          Inr (save_appropriation
                (a\<lparr>ap_cached_committed := Some (open_commitments i s),
                   ap_cached_expended := Some (closed_commitments i s + compute_direct_disbursements a s)\<rparr>) s))"

definition refresh_many :: "nat list \<Rightarrow> 'z budget_state_scheme \<Rightarrow> err + 'z budget_state_scheme" where
  "refresh_many is s = rfold refresh_totals is s"

definition appropriation_clean :: "appropriation \<Rightarrow> 'z budget_state_scheme \<Rightarrow> err + unit" where
  "appropriation_clean a s =
     (if ap_status a = ''DRAFT'' then Inr ()
      else if legacy_of (admin_segments s) (ap_admin a) = None
            \<or> legacy_of (fund_segments s) (ap_fund a) = None
      then Inl ValidationError else Inr ())"

section \<open>Warrants\<close>

definition unexpired :: "warrant \<Rightarrow> 'z period_state_scheme \<Rightarrow> bool" where
  "unexpired w s \<longleftrightarrow> (case wa_to w of None \<Rightarrow> True | Some d \<Rightarrow> today s \<le> d)"

definition total_warrants_released :: "nat \<Rightarrow> 'z budget_state_scheme \<Rightarrow> rat" where
  "total_warrants_released i s =
     sum_amounts wa_amount (\<lambda>w. wa_appropriation w = i \<and> wa_status w = ''RELEASED'' \<and> unexpired w s) (warrants s)"

definition effective_status :: "warrant \<Rightarrow> 'z period_state_scheme \<Rightarrow> string" where
  "effective_status w s =
     (if wa_status w \<in> {''SUSPENDED'', ''EXHAUSTED'', ''CANCELLED''} then wa_status w
      else if \<not> unexpired w s then ''EXPIRED'' else wa_status w)"

definition warrant_range_error :: "warrant \<Rightarrow> warrant list \<Rightarrow> bool" where
  "warrant_range_error w others \<longleftrightarrow>
     (case (wa_from w, wa_to w) of
        (Some f, Some t) \<Rightarrow>
          t < f \<or> list_ex (\<lambda>x. case (wa_from x, wa_to x) of
                            (Some f', Some t') \<Rightarrow> f' \<le> t \<and> f \<le> t' | _ \<Rightarrow> False) others
      | _ \<Rightarrow> False)"

definition warrant_clean :: "warrant \<Rightarrow> 'z budget_state_scheme \<Rightarrow> err + unit" where
  "warrant_clean w s =
     (let others = filter (\<lambda>x. wa_appropriation x = wa_appropriation w
                             \<and> wa_status x \<in> {''PENDING'', ''RELEASED''} \<and> wa_id x \<noteq> wa_id w) (warrants s)
      in if warrant_range_error w others then Inl ValidationError
         else (case find_row ap_id (wa_appropriation w) (appropriations s) of
                 None \<Rightarrow> Inl DoesNotExist
               | Some a \<Rightarrow> if sum_amounts wa_amount (\<lambda>x. unexpired x s) others + wa_amount w > ap_amount a
                          then Inl ValidationError else Inr ()))"

definition last_active_warrant :: "nat \<Rightarrow> 'z budget_state_scheme \<Rightarrow> warrant option" where
  \<comment> \<open>\<^verbatim>\<open>.last()\<close> under \<^verbatim>\<open>ordering = ['appropriation', '-effective_from']\<close>: the earliest start,
      rows without a start after all others\<close>
  "last_active_warrant i s =
     (let active = filter (\<lambda>w. wa_appropriation w = i \<and> wa_status w = ''RELEASED'' \<and> unexpired w s) (warrants s)
      in case qs_first (\<lambda>w. the (wa_from w)) (filter (\<lambda>w. wa_from w \<noteq> None) active) of
           Some w \<Rightarrow> Some w
         | None \<Rightarrow> (case active of [] \<Rightarrow> None | w # _ \<Rightarrow> Some w))"

definition check_warrant_availability ::
    "nat option \<Rightarrow> nat option \<Rightarrow> nat \<Rightarrow> rat \<Rightarrow> bool \<Rightarrow> 'z budget_state_scheme \<Rightarrow> bool" where
  \<comment> \<open>the verdict, for the callers that exclude no purchase order\<close>
  "check_warrant_availability mda fund account amount strict s =
     (case (mda, fund) of
        (Some m, Some f) \<Rightarrow>
          (case (List.find (\<lambda>g. sg_legacy g = Some m) (admin_segments s),
                 List.find (\<lambda>g. sg_legacy g = Some f) (fund_segments s)) of
             (Some ag, Some fg) \<Rightarrow>
               (case nearest_appropriation account
                       (\<lambda>a. ap_admin a = sg_id ag \<and> ap_fund a = sg_id fg \<and> is_active_ci (ap_status a)) s of
                  None \<Rightarrow> \<not> strict
                | Some a \<Rightarrow>
                    let consumed = max 0 (ap_amount a - available_balance a s)
                    in amount \<le> total_warrants_released (ap_id a) s - consumed)
           | _ \<Rightarrow> \<not> strict)
      | _ \<Rightarrow> \<not> strict)"

section \<open>The expenditure gate\<close>

record gate_result =
  gr_appropriation :: "nat option"
  gr_warrant :: "nat option"
  gr_available :: "rat option"
  gr_warned :: bool

definition pass_unchecked :: gate_result where
  "pass_unchecked = \<lparr>gr_appropriation = None, gr_warrant = None, gr_available = None, gr_warned = False\<rparr>"

definition warrant_gate :: "nat \<Rightarrow> 'z budget_state_scheme \<Rightarrow> err + nat option" where
  "warrant_gate i s =
     (if \<not> enforce_warrant s then Inr None
      else (case last_active_warrant i s of None \<Rightarrow> Inl BudgetExceededError | Some w \<Rightarrow> Inr (Some (wa_id w))))"

definition balance_gate :: "check_rule option \<Rightarrow> appropriation \<Rightarrow> rat \<Rightarrow> 'z budget_state_scheme \<Rightarrow> err + bool" where
  \<comment> \<open>step 3: whether a warning is attached\<close>
  "balance_gate rule a amount s =
     (let available = available_balance a s; level = map_option cr_level rule
      in if amount > available then
           (if level = Some ''WARNING'' then Inr True else Inl BudgetExceededError)
         else Inr (level = Some ''WARNING'' \<and> cr_threshold (the rule) \<noteq> 0 \<and> 0 < ap_amount a
                   \<and> dec_mul (dec_div (ap_amount a - available) (ap_amount a)) 100 \<ge> cr_threshold (the rule)))"

definition validate_expenditure ::
    "nat \<Rightarrow> nat \<Rightarrow> nat \<Rightarrow> nat \<Rightarrow> rat \<Rightarrow> 'z budget_state_scheme \<Rightarrow> err + gate_result" where
  "validate_expenditure admin economic fund fy amount s =
     (let econ = account_of economic s;
          code = (case econ of Some x \<Rightarrow> ac_code x | None \<Rightarrow> []);
          rule = resolve_rule_for_account code s
      in if has_prefix ''1'' code then Inr pass_unchecked
         else (case List.find (\<lambda>a. ap_admin a = admin \<and> ap_economic a = economic \<and> ap_fund a = fund
                                \<and> ap_fiscal_year a = fy \<and> is_active_ci (ap_status a))
                     (ordered_appropriations s) of
                 None \<Rightarrow>
                   (let policy = check_policy code None (Some amount) s
                    in if ck_level policy = ''NONE'' then Inr pass_unchecked
                       else if ck_level policy = ''WARNING'' then Inr (pass_unchecked\<lparr>gr_warned := True\<rparr>)
                       else Inl BudgetExceededError)
               | Some a \<Rightarrow>
                   if map_option cr_level rule = Some ''NONE''
                   then Inr \<lparr>gr_appropriation = Some (ap_id a), gr_warrant = None,
                             gr_available = Some (available_balance a s), gr_warned = False\<rparr>
                   else rbind (warrant_gate (ap_id a) s)
                     (\<lambda>w. rbind (balance_gate rule a amount s)
                       (\<lambda>warned. Inr \<lparr>gr_appropriation = Some (ap_id a), gr_warrant = w,
                                     gr_available = Some (available_balance a s), gr_warned = warned\<rparr>))))"

section \<open>The budget receivers of journal saves\<close>

definition STATUTORY_SOURCES :: "string list" where
  "STATUTORY_SOURCES = [''debt_service'', ''pension_payroll'', ''pensions'', ''judicial_salary'',
     ''statutory_charge'', ''cfs'']"

definition legacy_mda_of :: "nat option \<Rightarrow> 'z budget_state_scheme \<Rightarrow> legacy_entity option" where
  "legacy_mda_of m s = Option.bind m (\<lambda>i. find_row le_id i (legacy_mdas s))"

definition legacy_fund_of :: "nat option \<Rightarrow> 'z budget_state_scheme \<Rightarrow> legacy_entity option" where
  "legacy_fund_of f s = Option.bind f (\<lambda>i. find_row le_id i (legacy_funds s))"

definition line_appropriation :: "journal \<Rightarrow> jline \<Rightarrow> 'z budget_state_scheme \<Rightarrow> appropriation option" where
  "line_appropriation j l s =
     find_matching_appropriation (legacy_mda_of (j_mda j) s) (legacy_fund_of (j_fund j) s)
       (Some (l_account l)) (Some (d_year (j_date j))) s"

definition line_violates :: "journal \<Rightarrow> jline \<Rightarrow> 'z budget_state_scheme \<Rightarrow> bool" where
  "line_violates j l s \<longleftrightarrow>
     (case account_of (l_account l) s of
        None \<Rightarrow> False
      | Some acct \<Rightarrow>
          0 < l_debit l + l_credit l \<and> 0 < l_debit l
          \<and> (resolve_rule_for_account (ac_code acct) s \<noteq> None \<or> ac_type acct = AT_Expense)
          \<and> (let a = line_appropriation j l s;
                 result = check_policy (ac_code acct) a (Some (l_debit l)) s
             in ck_blocked result
                \<or> (enforce_warrant s \<and> warrant_before_payment s \<and> ck_level result = ''STRICT'' \<and> a \<noteq> None
                   \<and> ac_type acct = AT_Expense
                   \<and> (case j_source_module j of Some m \<Rightarrow> m \<notin> set STATUTORY_SOURCES | None \<Rightarrow> True)
                   \<and> \<not> check_warrant_availability (j_mda j) (j_fund j) (l_account l) (l_debit l) True s)))"

definition enforce_budget_on_journal_post :: "journal option \<Rightarrow> journal \<Rightarrow> 'z budget_state_scheme \<Rightarrow> err + unit" where
  \<comment> \<open>the \<^verbatim>\<open>pre_save\<close> receiver; the prior row, and the instance with its lines as stored\<close>
  "enforce_budget_on_journal_post prior j s =
     (if j_status j = J_Posted \<and> (case prior of Some p \<Rightarrow> j_status p \<noteq> J_Posted | None \<Rightarrow> False)
         \<and> list_ex (\<lambda>l. line_violates j l s) (case prior of Some p \<Rightarrow> j_lines p | None \<Rightarrow> [])
      then Inl ValidationError else Inr ())"

definition refresh_after_post :: "journal \<Rightarrow> jline list \<Rightarrow> 'z budget_state_scheme \<Rightarrow> err + 'z budget_state_scheme" where
  \<comment> \<open>the \<^verbatim>\<open>post_save\<close> receiver, with the lines of the saved header\<close>
  "refresh_after_post j ls s =
     (if j_status j \<noteq> J_Posted then Inr s
      else let touched = map ap_id (List.map_filter
                  (\<lambda>l. if 0 < l_debit l + l_credit l then line_appropriation j l s else None) ls)
           in refresh_many (map ap_id (filter (\<lambda>a. ap_id a \<in> set touched) (ordered_appropriations s))) s)"

section \<open>Refreshing touches nothing but the caches\<close>

definition strip_cache :: "appropriation \<Rightarrow> appropriation" where
  "strip_cache a = a\<lparr>ap_cached_committed := None, ap_cached_expended := None\<rparr>"

definition recached :: "appropriation list \<Rightarrow> appropriation list \<Rightarrow> bool" where
  \<comment> \<open>the same budget lines up to the two cached columns\<close>
  "recached as bs \<longleftrightarrow> map strip_cache bs = map strip_cache as"

lemma recached_refl [simp]: "recached as as"
  by (simp add: recached_def)

lemma recached_trans: "recached as bs \<Longrightarrow> recached bs cs \<Longrightarrow> recached as cs"
  by (simp add: recached_def)

lemma recached_map:
  assumes "recached as bs" and "\<And>a. f (strip_cache a) = f a"
  shows "map f bs = map f as"
proof -
  have "map f xs = map f (map strip_cache xs)" for xs by (simp add: assms(2))
  with assms(1) show ?thesis by (metis recached_def)
qed

lemma recached_ids [simp]: "recached as bs \<Longrightarrow> map ap_id bs = map ap_id as"
  by (rule recached_map) (simp_all add: strip_cache_def)

lemma recached_amounts: "recached as bs \<Longrightarrow> map ap_amount bs = map ap_amount as"
  by (rule recached_map) (simp_all add: strip_cache_def)

lemma refresh_totalsD:
  assumes "refresh_totals i s = Inr s'" and "distinct (map ap_id (appropriations s))"
  shows "\<exists>ap. s' = s\<lparr>appropriations := ap\<rparr> \<and> recached (appropriations s) ap"
proof -
  obtain a x y where a: "find_row ap_id i (appropriations s) = Some a"
    and s': "s' = save_appropriation (a\<lparr>ap_cached_committed := x, ap_cached_expended := y\<rparr>) s"
    using assms(1) by (auto simp: refresh_totals_def split: option.splits)
  let ?b = "a\<lparr>ap_cached_committed := x, ap_cached_expended := y\<rparr>"
  have "a \<in> set (appropriations s)" using find_row_SomeD [OF a] by simp
  then have "put_row ap_id ?b (appropriations s)
      = map (\<lambda>z. if ap_id z = ap_id a then z\<lparr>ap_cached_committed := x, ap_cached_expended := y\<rparr> else z)
          (appropriations s)"
    using put_row_update [of ap_id "appropriations s" a "\<lambda>z. z\<lparr>ap_cached_committed := x, ap_cached_expended := y\<rparr>"]
      assms(2) by simp
  then have "recached (appropriations s) (put_row ap_id ?b (appropriations s))"
    by (simp add: recached_def strip_cache_def)
  then show ?thesis using s' by (auto simp: save_appropriation_def)
qed

lemma refresh_manyD:
  "refresh_many is s = Inr s' \<Longrightarrow> distinct (map ap_id (appropriations s)) \<Longrightarrow>
     \<exists>ap. s' = s\<lparr>appropriations := ap\<rparr> \<and> recached (appropriations s) ap"
  unfolding refresh_many_def
proof (induction "is" arbitrary: s)
  case Nil
  then have "s' = s\<lparr>appropriations := appropriations s\<rparr>" by simp
  then show ?case using recached_refl by blast
next
  case (Cons i "is")
  obtain s1 where s1: "refresh_totals i s = Inr s1" "rfold refresh_totals is s1 = Inr s'"
    using Cons.prems(1) by (auto simp: rbind_eq_Inr)
  obtain ap where ap: "s1 = s\<lparr>appropriations := ap\<rparr>" "recached (appropriations s) ap"
    using refresh_totalsD [OF s1(1) Cons.prems(2)] by blast
  have "distinct (map ap_id (appropriations s1))" using ap Cons.prems(2) by simp
  from Cons.IH [OF s1(2) this] obtain ap' where
    "s' = s1\<lparr>appropriations := ap'\<rparr>" "recached ap ap'" using ap(1) by auto
  then show ?case using ap by (auto intro: recached_trans)
qed

lemma refresh_after_postD:
  assumes "refresh_after_post j ls s = Inr s'" and "distinct (map ap_id (appropriations s))"
  shows "\<exists>ap. s' = s\<lparr>appropriations := ap\<rparr> \<and> recached (appropriations s) ap"
proof (cases "j_status j = J_Posted")
  case True
  then show ?thesis using assms refresh_manyD by (fastforce simp: refresh_after_post_def Let_def)
next
  case False
  then have "s' = s\<lparr>appropriations := appropriations s\<rparr>"
    using assms(1) by (simp add: refresh_after_post_def)
  then show ?thesis using recached_refl by blast
qed

section \<open>The rule resolver picks the narrowest rule\<close>

definition preferred :: "check_rule \<Rightarrow> check_rule \<Rightarrow> bool" where
  \<comment> \<open>narrower, or as narrow and of at least the same priority\<close>
  "preferred r r' \<longleftrightarrow> rule_width r < rule_width r'
     \<or> (rule_width r = rule_width r' \<and> cr_priority r' \<le> cr_priority r)"

lemma preferred_trans: "preferred a b \<Longrightarrow> preferred b c \<Longrightarrow> preferred a c"
  by (auto simp: preferred_def)

lemma fold_narrower_Some: "\<exists>r. fold narrower rs (Some b) = Some r \<and> r \<in> set (b # rs) \<and> (\<forall>x \<in> set (b # rs). preferred r x)"
proof (induction rs arbitrary: b)
  case Nil
  then show ?case by (simp add: preferred_def)
next
  case (Cons y ys)
  obtain c where c: "narrower y (Some b) = Some c" "c \<in> {b, y}" "preferred c b" "preferred c y"
  proof (cases "rule_width y < rule_width b \<or> (rule_width y = rule_width b \<and> cr_priority y > cr_priority b)")
    case True
    then show ?thesis by (intro that [of y]) (auto simp: preferred_def)
  next
    case False
    then show ?thesis by (intro that [of b]) (auto simp: preferred_def)
  qed
  obtain r where "fold narrower ys (Some c) = Some r" "r \<in> set (c # ys)" "\<forall>x \<in> set (c # ys). preferred r x"
    using Cons.IH by blast
  moreover from this c have "preferred r b" "preferred r y" by (auto intro: preferred_trans)
  ultimately show ?case using c by auto
qed

lemma fold_narrower: "fold narrower rs None = (case rs of [] \<Rightarrow> None | r # rs' \<Rightarrow> fold narrower rs' (Some r))"
  by (cases rs) simp_all

lemma set_ordered_rules [simp]: "set (ordered_rules rs) = set rs"
  by (simp add: ordered_rules_def)

lemma set_ordered_appropriations [simp]: "set (ordered_appropriations s) = set (appropriations s)"
  by (simp add: ordered_appropriations_def)

text \<open>
  C37: The resolver returns an active rule that covers the account code, none that covers it is
  narrower, and among those as narrow none has a higher priority; it returns nothing exactly
  when no active rule covers the code.
\<close>

theorem resolve_rule_narrowest:
  "case resolve_rule_for_account code s of
     None \<Rightarrow> \<forall>r \<in> set (check_rules s). cr_is_active r \<longrightarrow> \<not> rule_contains r code
   | Some r \<Rightarrow> r \<in> set (check_rules s) \<and> cr_is_active r \<and> rule_contains r code
       \<and> (\<forall>x \<in> set (check_rules s). cr_is_active x \<and> rule_contains x code \<longrightarrow> preferred r x)"
proof (cases "code = []")
  case True
  then show ?thesis by (simp add: resolve_rule_for_account_def rule_contains_def)
next
  case False
  define cs where "cs = filter (\<lambda>r. cr_is_active r \<and> cr_gl_from r \<le> code \<and> code \<le> cr_gl_to r)
                         (ordered_rules (check_rules s))"
  have res: "resolve_rule_for_account code s = fold narrower cs None"
    using False by (simp add: resolve_rule_for_account_def cs_def)
  have mem: "x \<in> set cs \<longleftrightarrow> x \<in> set (check_rules s) \<and> cr_is_active x \<and> rule_contains x code" for x
    using False by (auto simp: cs_def rule_contains_def)
  show ?thesis
  proof (cases cs)
    case Nil
    then show ?thesis using mem by (auto simp: res)
  next
    case (Cons c cs')
    obtain r where r: "fold narrower cs' (Some c) = Some r" "r \<in> set cs" "\<forall>x \<in> set cs. preferred r x"
      using fold_narrower_Some [of cs' c] Cons by auto
    then have "resolve_rule_for_account code s = Some r" by (simp add: res Cons)
    then show ?thesis using r(2,3) mem by auto
  qed
qed

section \<open>The nearest budget line wins\<close>

lemma find_SomeD: "List.find P xs = Some x \<Longrightarrow> x \<in> set xs \<and> P x"
  by (auto simp: find_Some_iff)

lemma is_active_ACTIVE [simp]: "is_active_ci ''ACTIVE''"
  by code_simp

definition budget_line_for :: "legacy_entity \<Rightarrow> legacy_entity \<Rightarrow> int option \<Rightarrow> 'z budget_state_scheme \<Rightarrow> account \<Rightarrow> appropriation \<Rightarrow> bool" where
  \<comment> \<open>an active line on exactly this account, for the MDA and the fund by bridge or by code\<close>
  "budget_line_for m f y s x a \<longleftrightarrow>
     ap_economic a = ac_id x \<and> in_year y a s \<and> is_active_ci (ap_status a)
     \<and> (bridged_to (admin_segments s) (ap_admin a) (le_id m) \<and> bridged_to (fund_segments s) (ap_fund a) (le_id f)
        \<or> le_code m \<noteq> [] \<and> le_code f \<noteq> [] \<and> segment_code (admin_segments s) (ap_admin a) = le_code m
          \<and> segment_code (fund_segments s) (ap_fund a) = le_code f)"

lemma match_at_None_iff:
  "match_at m f y s x = None \<longleftrightarrow> (\<forall>a \<in> set (appropriations s). \<not> budget_line_for m f y s x a)"
  unfolding match_at_def Let_def first_hit_None_iff find_None_iff budget_line_for_def
  by auto

lemma match_at_is_line:
  assumes "match_at m f y s x = Some a"
  shows "a \<in> set (appropriations s) \<and> budget_line_for m f y s x a"
proof -
  from assms obtain Q where "Q \<in> {\<lambda>a. (bridged_to (admin_segments s) (ap_admin a) (le_id m)
          \<and> bridged_to (fund_segments s) (ap_fund a) (le_id f)) \<and> ap_status a = ''ACTIVE'',
       \<lambda>a. (le_code m \<noteq> [] \<and> le_code f \<noteq> [] \<and> segment_code (admin_segments s) (ap_admin a) = le_code m
          \<and> segment_code (fund_segments s) (ap_fund a) = le_code f) \<and> ap_status a = ''ACTIVE'',
       \<lambda>a. (bridged_to (admin_segments s) (ap_admin a) (le_id m)
          \<and> bridged_to (fund_segments s) (ap_fund a) (le_id f)) \<and> is_active_ci (ap_status a),
       \<lambda>a. (le_code m \<noteq> [] \<and> le_code f \<noteq> [] \<and> segment_code (admin_segments s) (ap_admin a) = le_code m
          \<and> segment_code (fund_segments s) (ap_fund a) = le_code f) \<and> is_active_ci (ap_status a)}"
    and "List.find (\<lambda>a. (ap_economic a = ac_id x \<and> in_year y a s) \<and> Q a) (ordered_appropriations s) = Some a"
    unfolding match_at_def Let_def first_hit_Some_iff by (auto simp: append_eq_Cons_conv Cons_eq_append_conv)
  then show ?thesis by (auto simp: budget_line_for_def dest!: find_SomeD)
qed

text \<open>
  C38: a posting is charged to the nearest budget line.  The line found is an active one for the
  MDA, the fund and the year on some account of the parent chain, and no account before it on
  the chain, the posted account itself included, has any such line; nothing is found only when
  the whole chain has none.
\<close>

theorem nearest_budget_line_charged:
  "case find_matching_appropriation (Some m) (Some f) (Some acct) y s of
     None \<Rightarrow> \<forall>x \<in> set (account_levels acct s). \<forall>a \<in> set (appropriations s). \<not> budget_line_for m f y s x a
   | Some a \<Rightarrow> \<exists>near x far. account_levels acct s = near @ x # far
       \<and> a \<in> set (appropriations s) \<and> budget_line_for m f y s x a
       \<and> (\<forall>n \<in> set near. \<forall>b \<in> set (appropriations s). \<not> budget_line_for m f y s n b)"
proof (cases "first_hit (match_at m f y s) (account_levels acct s)")
  case None
  then have "\<forall>x \<in> set (account_levels acct s). match_at m f y s x = None" by simp
  moreover have "find_matching_appropriation (Some m) (Some f) (Some acct) y s = None"
    using None unfolding find_matching_appropriation_def by simp
  ultimately show ?thesis by (simp add: match_at_None_iff)
next
  case (Some a)
  then obtain near x far where "account_levels acct s = near @ x # far" "match_at m f y s x = Some a"
    "\<forall>n \<in> set near. match_at m f y s n = None"
    by (auto simp: first_hit_Some_iff)
  moreover have "find_matching_appropriation (Some m) (Some f) (Some acct) y s = Some a"
    using Some unfolding find_matching_appropriation_def by simp
  ultimately show ?thesis
    using match_at_is_line by (simp add: match_at_None_iff) blast
qed

text \<open>The fuel of \<open>account_levels\<close> suffices for every chart without circular parents.\<close>

lemma climb_stable:
  assumes rank: "\<And>i x p. account_of i s = Some x \<Longrightarrow> ac_parent x = Some p \<Longrightarrow> r p < (r i :: nat)"
    and "r a < n"
  shows "climb (n + k) a s = climb n a s"
  using assms(2)
proof (induction n arbitrary: a)
  case (Suc n)
  show ?case
  proof (cases "account_of a s")
    case (Some x)
    then show ?thesis
    proof (cases "ac_parent x")
      case (Some p)
      then have "r p < n" using rank [OF \<open>account_of a s = Some x\<close> Some] Suc.prems by simp
      then show ?thesis using Suc.IH \<open>account_of a s = Some x\<close> Some by simp
    qed simp
  qed simp
qed simp

section \<open>What the gates guarantee\<close>

text \<open>
  Strict control really blocks.  A line under a STRICT rule is refused exactly when it has no
  appropriation or asks for more than the approved amount less the cached expenditure and
  commitments; under NONE and WARNING nothing is ever refused.
\<close>

lemma check_policy_blocked_iff:
  "ck_blocked (check_policy code appr (Some r) s) \<longleftrightarrow>
     effective_level (resolve_rule_for_account code s) s = ''STRICT''
     \<and> (case appr of None \<Rightarrow> True
        | Some a \<Rightarrow> ap_amount a < r + opt_amount (ap_cached_expended a) + opt_amount (ap_cached_committed a))"
  by (auto simp: check_policy_def Let_def appropriation_available_def split: option.splits)

lemma check_policy_level [simp]:
  "ck_level (check_policy code appr r s) =
     (let level = effective_level (resolve_rule_for_account code s) s
      in if level = ''NONE'' \<or> level = ''STRICT'' then level else ''WARNING'')"
  by (auto simp: check_policy_def Let_def split: option.splits)

text \<open>
  C40: when an expenditure is approved and the answer names an appropriation, and the rule of the
  account is neither NONE nor WARNING, then the appropriation is that of the MDA, account, fund and year,
  the amount fits in its available balance, and where the tenant enforces warrants a released and
  unexpired warrant exists for the line.  Where no appropriation exists, default control approves without
  naming one and nothing is checked (\<open>unbudgeted_expenditure_passes\<close>).
\<close>

theorem approved_expenditure_is_covered:
  assumes "validate_expenditure admin economic fund fy amount s = Inr r"
    and "gr_appropriation r = Some i"
    and "account_of economic s = Some acct"
    and "map_option cr_level (resolve_rule_for_account (ac_code acct) s) \<notin> {Some ''NONE'', Some ''WARNING''}"
  shows "\<exists>a \<in> set (appropriations s). ap_id a = i \<and> ap_admin a = admin \<and> ap_economic a = economic
    \<and> ap_fund a = fund \<and> ap_fiscal_year a = fy \<and> amount \<le> available_balance a s
    \<and> (enforce_warrant s \<longrightarrow> (\<exists>w \<in> set (warrants s). wa_appropriation w = i \<and> wa_status w = ''RELEASED''
          \<and> unexpired w s \<and> gr_warrant r = Some (wa_id w)))"
proof -
  define P where "P = (\<lambda>a :: appropriation. ap_admin a = admin \<and> ap_economic a = economic \<and> ap_fund a = fund
                         \<and> ap_fiscal_year a = fy \<and> is_active_ci (ap_status a))"
  define rule where "rule = resolve_rule_for_account (ac_code acct) s"
  obtain a where a: "List.find P (ordered_appropriations s) = Some a"
    using assms(1-3)
    by (cases "List.find P (ordered_appropriations s)")
      (auto simp: validate_expenditure_def Let_def pass_unchecked_def simp flip: P_def split: if_splits)
  have "\<not> has_prefix ''1'' (ac_code acct)"
    using assms(1-3) by (auto simp: validate_expenditure_def Let_def pass_unchecked_def)
  then have "rbind (warrant_gate (ap_id a) s)
      (\<lambda>w. rbind (balance_gate rule a amount s)
        (\<lambda>warned. Inr \<lparr>gr_appropriation = Some (ap_id a), gr_warrant = w,
                      gr_available = Some (available_balance a s), gr_warned = warned\<rparr>)) = Inr r"
    using assms(1,3,4) a
    by (simp add: validate_expenditure_def Let_def rule_def flip: P_def del: map_option_eq_Some)
  then obtain w warned where w: "warrant_gate (ap_id a) s = Inr w" and b: "balance_gate rule a amount s = Inr warned"
    and r: "gr_appropriation r = Some (ap_id a)" "gr_warrant r = w"
    by (auto simp: rbind_eq_Inr)
  have "amount \<le> available_balance a s"
    using b assms(4) by (auto simp: balance_gate_def Let_def rule_def split: if_splits)
  moreover have "\<exists>x \<in> set (warrants s). wa_appropriation x = ap_id a \<and> wa_status x = ''RELEASED''
      \<and> unexpired x s \<and> w = Some (wa_id x)" if on: "enforce_warrant s"
  proof -
    obtain x where "last_active_warrant (ap_id a) s = Some x" "w = Some (wa_id x)"
      using w on by (auto simp: warrant_gate_def split: option.splits if_splits)
    then show ?thesis
      by (auto simp: last_active_warrant_def Let_def filter_eq_Cons_iff dest!: qs_first_SomeD
          split: option.splits list.splits)
  qed
  ultimately show ?thesis
    using find_SomeD [OF a] assms(2) r by (intro bexI [of _ a]) (auto simp: P_def)
qed

definition demo_state :: budget_state where
  "demo_state = \<lparr>budget_periods = [], fiscal_periods = [], today = Date 2026 3 15,
      accounts = [\<lparr>ac_id = 1, ac_code = ''22010100'', ac_name = ''Salaries'', ac_type = AT_Expense,
                   ac_parent = None, ac_is_active = True, ac_is_postable = True,
                   ac_is_reconciliation = False, ac_reconciliation_type = []\<rparr>],
      ncoa_codes = [], default_gl = [], journals = [], reversals = [], gl_balances = [], sequences = [],
      je_audit = [],
      check_rules = [\<lparr>cr_id = 1, cr_gl_from = ''20000000'', cr_gl_to = ''29999999'', cr_level = ''STRICT'',
                      cr_threshold = 80, cr_priority = 0, cr_is_active = True\<rparr>],
      default_control_level = ''NONE'',
      admin_segments = [\<lparr>sg_id = 1, sg_code = ''0111'', sg_legacy = Some 1\<rparr>],
      fund_segments = [\<lparr>sg_id = 1, sg_code = ''02'', sg_legacy = Some 1\<rparr>],
      legacy_mdas = [\<lparr>le_id = 1, le_code = ''0111''\<rparr>], legacy_funds = [\<lparr>le_id = 1, le_code = ''02''\<rparr>],
      fiscal_years = [\<lparr>fy_id = 1, fy_year = 2026, fy_start = Date 2026 1 1, fy_end = Date 2026 12 31\<rparr>],
      appropriations = [\<lparr>ap_id = 1, ap_fiscal_year = 1, ap_admin = 1, ap_economic = 1, ap_fund = 1,
                         ap_amount = 1000, ap_status = ''ACTIVE'', ap_cached_committed = None,
                         ap_cached_expended = None\<rparr>,
                        \<lparr>ap_id = 2, ap_fiscal_year = 1, ap_admin = 1, ap_economic = 2, ap_fund = 1,
                         ap_amount = 400, ap_status = ''ACTIVE'', ap_cached_committed = None,
                         ap_cached_expended = None\<rparr>],
      commitments = [\<lparr>cm_po = 1, cm_appropriation = 1, cm_amount = 300, cm_status = ''ACTIVE''\<rparr>],
      warrants = [\<lparr>wa_id = 1, wa_appropriation = 1, wa_from = Some (Date 2026 1 1),
                   wa_to = Some (Date 2026 12 31), wa_amount = 800, wa_status = ''RELEASED''\<rparr>],
      vendor_invoices = [], vouchers = [], virements = [], enforce_warrant = True,
      warrant_before_payment = False\<rparr>"

theorem nearest_budget_line_charged_witness:
  "\<exists>a. find_matching_appropriation (Some (hd (legacy_mdas demo_state))) (Some (hd (legacy_funds demo_state)))
         (Some 1) (Some 2026) demo_state = Some a \<and> ap_id a = 1
     \<and> (\<exists>x \<in> set (account_levels 1 demo_state).
          budget_line_for (hd (legacy_mdas demo_state)) (hd (legacy_funds demo_state)) (Some 2026) demo_state x a)"
proof -
  let ?m = "hd (legacy_mdas demo_state)" and ?f = "hd (legacy_funds demo_state)"
    and ?a = "hd (appropriations demo_state)"
  have f: "find_matching_appropriation (Some ?m) (Some ?f) (Some 1) (Some 2026) demo_state = Some ?a"
    by code_simp
  have i: "ap_id ?a = 1" by code_simp
  have "\<exists>x \<in> set (account_levels 1 demo_state). budget_line_for ?m ?f (Some 2026) demo_state x ?a"
    using nearest_budget_line_charged [where m = ?m and f = ?f and acct = 1 and y = "Some 2026" and s = demo_state] unfolding f by auto
  with f i show ?thesis by blast
qed

definition demo_rules :: "check_rule list" where
  "demo_rules =
     [\<lparr>cr_id = 1, cr_gl_from = ''20000000'', cr_gl_to = ''29999999'', cr_level = ''WARNING'',
        cr_threshold = 80, cr_priority = 5, cr_is_active = True\<rparr>,
      \<lparr>cr_id = 2, cr_gl_from = ''22000000'', cr_gl_to = ''22999999'', cr_level = ''STRICT'',
        cr_threshold = 80, cr_priority = 0, cr_is_active = True\<rparr>]"

theorem resolve_rule_narrowest_witness:
  "\<exists>r. resolve_rule_for_account ''22010100'' (demo_state\<lparr>check_rules := demo_rules\<rparr>) = Some r
     \<and> cr_id r = 2 \<and> preferred r (hd demo_rules)"
proof -
  have "resolve_rule_for_account ''22010100'' (demo_state\<lparr>check_rules := demo_rules\<rparr>) = Some (demo_rules ! 1)"
    by code_simp
  moreover have "cr_is_active (hd demo_rules) \<and> rule_contains (hd demo_rules) ''22010100''" by code_simp
  moreover have "cr_id (demo_rules ! 1) = 2 \<and> hd demo_rules \<in> set demo_rules" by (simp add: demo_rules_def)
  ultimately show ?thesis
    using resolve_rule_narrowest [of "demo_state\<lparr>check_rules := demo_rules\<rparr>" "''22010100''"] by simp
qed

theorem approved_expenditure_is_covered_witness:
  "\<exists>a \<in> set (appropriations demo_state). ap_id a = 1 \<and> 700 \<le> available_balance a demo_state"
proof -
  let ?g = "\<lparr>gr_appropriation = Some 1, gr_warrant = Some 1, gr_available = Some 700, gr_warned = False\<rparr>"
  have "validate_expenditure 1 1 1 1 700 demo_state = Inr ?g" by code_simp
  moreover have "account_of 1 demo_state = Some (hd (accounts demo_state))" by code_simp
  moreover have "map_option cr_level (resolve_rule_for_account (ac_code (hd (accounts demo_state))) demo_state)
      \<notin> {Some ''NONE'', Some ''WARNING''}" by code_simp
  ultimately show ?thesis
    using approved_expenditure_is_covered [of 1 1 1 1 700 demo_state ?g 1 "hd (accounts demo_state)"] by auto
qed

text \<open>
  A missing budget line is treated more leniently than an exhausted one.  On an account no
  rule covers, with the default level NONE, an expenditure of any amount passes when there is no
  appropriation at all, although with an appropriation the same amount is refused as soon as it
  exceeds the balance.
\<close>

theorem unbudgeted_expenditure_passes:
  assumes "account_of economic s = Some acct" and "\<not> has_prefix ''1'' (ac_code acct)"
    and "resolve_rule_for_account (ac_code acct) s = None" and "default_control_level s = ''NONE''"
    and "\<not> enforce_warrant s"
  shows "validate_expenditure admin economic fund fy amount s =
    (case List.find (\<lambda>a. ap_admin a = admin \<and> ap_economic a = economic \<and> ap_fund a = fund
             \<and> ap_fiscal_year a = fy \<and> is_active_ci (ap_status a)) (ordered_appropriations s) of
       None \<Rightarrow> Inr pass_unchecked
     | Some a \<Rightarrow> if available_balance a s < amount then Inl BudgetExceededError
                else Inr \<lparr>gr_appropriation = Some (ap_id a), gr_warrant = None,
                          gr_available = Some (available_balance a s), gr_warned = False\<rparr>)"
  using assms
  by (simp add: validate_expenditure_def Let_def effective_level_def warrant_gate_def balance_gate_def
      split: option.splits)

theorem unbudgeted_expenditure_passes_witness:
  "validate_expenditure 9 1 1 1 1000000 (demo_state\<lparr>check_rules := [], enforce_warrant := False\<rparr>) = Inr pass_unchecked
   \<and> validate_expenditure 1 1 1 1 1000000 (demo_state\<lparr>check_rules := [], enforce_warrant := False\<rparr>) = Inl BudgetExceededError"
proof -
  let ?s = "demo_state\<lparr>check_rules := [], enforce_warrant := False\<rparr>"
  have h: "account_of 1 ?s = Some (hd (accounts demo_state))" "\<not> has_prefix ''1'' (ac_code (hd (accounts demo_state)))"
    "resolve_rule_for_account (ac_code (hd (accounts demo_state))) ?s = None"
    "default_control_level ?s = ''NONE''" "\<not> enforce_warrant ?s"
    by code_simp+
  have "List.find (\<lambda>a. ap_admin a = 9 \<and> ap_economic a = 1 \<and> ap_fund a = 1
             \<and> ap_fiscal_year a = 1 \<and> is_active_ci (ap_status a)) (ordered_appropriations ?s) = None"
    "List.find (\<lambda>a. ap_admin a = 1 \<and> ap_economic a = 1 \<and> ap_fund a = 1
             \<and> ap_fiscal_year a = 1 \<and> is_active_ci (ap_status a)) (ordered_appropriations ?s)
       = Some (hd (appropriations demo_state))"
    "available_balance (hd (appropriations demo_state)) ?s < 1000000"
    by code_simp+
  then show ?thesis
    using unbudgeted_expenditure_passes [OF h, of 9 1 1 1000000]
      unbudgeted_expenditure_passes [OF h, of 1 1 1 1000000] by simp
qed

definition funnelled_source :: "string option \<Rightarrow> bool" where
  "funnelled_source m \<longleftrightarrow> direct_source m \<and> \<not> live_source m"

lemma live_is_direct: "live_source m \<Longrightarrow> direct_source m"
  by (auto simp: live_source_def direct_source_def)

lemma net_expense_append [simp]: "net_expense (xs @ ys) = net_expense xs + net_expense ys"
  by (simp add: net_expense_def sum_amounts_def)

lemma net_expense_Nil [simp]: "net_expense [] = 0"
  by (simp add: net_expense_def sum_amounts_def)

lemma expense_lines_split:
  "net_expense (expense_lines direct_source a m f s)
   = net_expense (expense_lines live_source a m f s) + net_expense (expense_lines funnelled_source a m f s)"
proof -
  define body where "body = (\<lambda>src (js :: journal list). net_expense (concat (map
     (\<lambda>j. if j_status j = J_Posted \<and> j_mda j = Some m \<and> j_fund j = Some f
             \<and> src (j_source_module j) \<and> fy_covers (ap_fiscal_year a) (j_date j) s
          then filter (\<lambda>l. l_account l \<in> set (account_subtree (ap_economic a) s)) (j_lines j) else []) js)))"
  have "body direct_source js = body live_source js + body funnelled_source js" for js
    by (induction js) (auto simp: body_def funnelled_source_def live_is_direct)
  from this [of "journals s"] show ?thesis unfolding expense_lines_def body_def .
qed

text \<open>
  The cached and the live expenditure of an appropriation disagree.  After
  \<^verbatim>\<open>refresh_totals\<close> the expenditure the gates read exceeds the live computation of the same
  property by the posted lines of every journal with a source module that is not on the
  exclude list, which the live path ignores.
\<close>

theorem cached_expenditure_exceeds_live:
  assumes "find_row ap_id i (appropriations s) = Some a" and "ap_cached_expended a = None"
    and "legacy_of (admin_segments s) (ap_admin a) = Some m" and "legacy_of (fund_segments s) (ap_fund a) = Some f"
    and "refresh_totals i s = Inr s'"
  shows "\<exists>b. find_row ap_id i (appropriations s') = Some b
    \<and> total_expended b s' = total_expended a s + net_expense (expense_lines funnelled_source a m f s)"
proof -
  let ?b = "a\<lparr>ap_cached_committed := Some (open_commitments i s),
              ap_cached_expended := Some (closed_commitments i s + compute_direct_disbursements a s)\<rparr>"
  have id: "ap_id a = i" "a \<in> set (appropriations s)" using find_row_SomeD [OF assms(1)] by simp_all
  then have "i \<in> ap_id ` set (appropriations s)" by force
  then have "find_row ap_id i (appropriations s') = Some ?b"
    using assms(1,5) id(1) by (auto simp: refresh_totals_def save_appropriation_def)
  then show ?thesis
    using assms(2-4) id(1) by (simp add: total_expended_def compute_direct_disbursements_def expense_lines_split)
qed

definition demo_spent :: budget_state where
  "demo_spent = demo_state\<lparr>journals := [\<lparr>j_id = 1, j_date = Date 2026 2 1, j_ref = ''DEP/1'', j_document = ''JV-1'',
     j_mda = Some 1, j_fund = Some 1, j_function = None, j_program = None, j_geo = None, j_status = J_Posted,
     j_source_module = Some ''depreciation'', j_source_id = Some 4, j_posted_by = None, j_is_reversed = False,
     j_is_deleted = False,
     j_lines = [\<lparr>l_account = 1, l_debit = 120, l_credit = 0, l_ncoa = None, l_asset = None\<rparr>]\<rparr>]\<rparr>"

theorem cached_expenditure_exceeds_live_witness:
  "\<exists>b. find_row ap_id 1 (appropriations (projr (refresh_totals 1 demo_spent))) = Some b
     \<and> total_expended b (projr (refresh_totals 1 demo_spent))
       = total_expended (hd (appropriations demo_state)) demo_spent + 120"
proof -
  let ?a = "hd (appropriations demo_state)"
  have "find_row ap_id 1 (appropriations demo_spent) = Some ?a" "ap_cached_expended ?a = None"
    "legacy_of (admin_segments demo_spent) (ap_admin ?a) = Some 1"
    "legacy_of (fund_segments demo_spent) (ap_fund ?a) = Some 1"
    "refresh_totals 1 demo_spent = Inr (projr (refresh_totals 1 demo_spent))"
    "net_expense (expense_lines funnelled_source ?a 1 1 demo_spent) = 120"
    by code_simp+
  with cached_expenditure_exceeds_live [OF this(1-5)] show ?thesis by simp
qed

text \<open>
  An approved warrant keeps the appropriation covered: when \<^verbatim>\<open>Warrant.clean\<close> accepts a
  warrant, its amount and the unexpired pending and released warrants of the appropriation add
  up to at most the approved amount.
\<close>

theorem warrants_within_appropriation:
  assumes "warrant_clean w s = Inr ()"
  shows "\<exists>a \<in> set (appropriations s). ap_id a = wa_appropriation w
    \<and> wa_amount w + sum_amounts wa_amount (\<lambda>x. wa_appropriation x = wa_appropriation w
          \<and> wa_status x \<in> {''PENDING'', ''RELEASED''} \<and> wa_id x \<noteq> wa_id w \<and> unexpired x s) (warrants s)
      \<le> ap_amount a"
proof -
  obtain a where a: "find_row ap_id (wa_appropriation w) (appropriations s) = Some a"
    and le: "sum_amounts wa_amount (\<lambda>x. unexpired x s)
       (filter (\<lambda>x. wa_appropriation x = wa_appropriation w \<and> wa_status x \<in> {''PENDING'', ''RELEASED''}
                 \<and> wa_id x \<noteq> wa_id w) (warrants s)) + wa_amount w \<le> ap_amount a"
    using assms by (auto simp: warrant_clean_def Let_def not_less split: option.splits if_splits)
  from le have "wa_amount w + sum_amounts wa_amount (\<lambda>x. wa_appropriation x = wa_appropriation w
          \<and> wa_status x \<in> {''PENDING'', ''RELEASED''} \<and> wa_id x \<noteq> wa_id w \<and> unexpired x s) (warrants s)
      \<le> ap_amount a"
    by (simp add: sum_amounts_def conj_commute conj_left_commute add.commute)
  then show ?thesis using find_row_SomeD [OF a] by blast
qed

theorem warrants_within_appropriation_witness:
  "\<exists>a \<in> set (appropriations demo_state). ap_id a = 1 \<and> 200 \<le> ap_amount a"
proof -
  let ?w = "\<lparr>wa_id = 2, wa_appropriation = 1, wa_from = Some (Date 2027 1 1), wa_to = Some (Date 2027 3 31),
             wa_amount = 200, wa_status = ''PENDING''\<rparr>"
  have "warrant_clean ?w demo_state = Inr ()" by code_simp
  from warrants_within_appropriation [OF this] show ?thesis
    by (auto simp: sum_amounts_def demo_state_def split: if_splits)
qed

end
