(* ===== verification/Ledger.thy ===== *)
theory Ledger
  imports Budget
begin

text \<open>
  Journals: the guards of \<^verbatim>\<open>JournalHeader.save\<close> and \<^verbatim>\<open>JournalLine\<close>, with the budget receivers
  that listen to every header save (\<^verbatim>\<open>accounting/signals/budget_enforcement.py\<close>), and the
  posting pipeline of \<^verbatim>\<open>accounting/services/ipsas_journal_service.py\<close>.  The JSON payload of the
  audit log is not modelled; neither is the report cache, which the code treats as best effort.
\<close>

section \<open>Saving a header\<close>

definition insert_journal :: "journal \<Rightarrow> 'z budget_state_scheme \<Rightarrow> err + (nat \<times> 'z budget_state_scheme)" where
  \<comment> \<open>the first \<^verbatim>\<open>save()\<close> of a header: allocates the key and, when blank, the document number\<close>
  "insert_journal j s =
     (let (doc, s1) = (if j_document j = [] then sequence_next ''journal_voucher'' ''JV-'' s
                       else (j_document j, s));
          i = fresh_pk j_id (journals s);
          j1 = j\<lparr>j_id := i, j_document := doc, j_lines := []\<rparr>
      in if journal_unique j1 (journals s)
         then Inr (i, s1\<lparr>journals := journals s @ [j1]\<rparr>)
         else Inl IntegrityError)"

datatype jfield = F_posting_date | F_reference | F_document | F_mda | F_fund | F_function
  | F_program | F_geo | F_status | F_source | F_posted_by | F_is_reversed | F_is_deleted
  | F_updated_at

definition POST_POSTING_MUTABLE_FIELDS :: "jfield list" where
  "POST_POSTING_MUTABLE_FIELDS = [F_status, F_posted_by, F_is_reversed, F_is_deleted, F_updated_at]"

fun field_differs :: "journal \<Rightarrow> journal \<Rightarrow> jfield \<Rightarrow> bool" where
  "field_differs a b F_posting_date = (j_date a \<noteq> j_date b)"
| "field_differs a b F_reference = (j_ref a \<noteq> j_ref b)"
| "field_differs a b F_document = (j_document a \<noteq> j_document b)"
| "field_differs a b F_mda = (j_mda a \<noteq> j_mda b)"
| "field_differs a b F_fund = (j_fund a \<noteq> j_fund b)"
| "field_differs a b F_function = (j_function a \<noteq> j_function b)"
| "field_differs a b F_program = (j_program a \<noteq> j_program b)"
| "field_differs a b F_geo = (j_geo a \<noteq> j_geo b)"
| "field_differs a b F_status = (j_status a \<noteq> j_status b)"
| "field_differs a b F_source =
     (j_source_module a \<noteq> j_source_module b \<or> j_source_id a \<noteq> j_source_id b)"
| "field_differs a b F_posted_by = (j_posted_by a \<noteq> j_posted_by b)"
| "field_differs a b F_is_reversed = (j_is_reversed a \<noteq> j_is_reversed b)"
| "field_differs a b F_is_deleted = (j_is_deleted a \<noteq> j_is_deleted b)"
| "field_differs a b F_updated_at = False"

definition changed_fields :: "journal \<Rightarrow> journal \<Rightarrow> jfield list" where
  \<comment> \<open>the columns in which two snapshots of a header differ\<close>
  "changed_fields a b =
     filter (field_differs a b)
       [F_posting_date, F_reference, F_document, F_mda, F_fund, F_function, F_program, F_geo,
        F_status, F_source, F_posted_by, F_is_reversed, F_is_deleted]"

definition write_fields :: "jfield list \<Rightarrow> journal \<Rightarrow> journal \<Rightarrow> journal" where
  \<comment> \<open>the row after \<^verbatim>\<open>UPDATE\<close> of the given columns; the lines are rows of another table\<close>
  "write_fields fs old new =
     old\<lparr>j_date := (if F_posting_date \<in> set fs then j_date new else j_date old),
         j_ref := (if F_reference \<in> set fs then j_ref new else j_ref old),
         j_document := (if F_document \<in> set fs then j_document new else j_document old),
         j_mda := (if F_mda \<in> set fs then j_mda new else j_mda old),
         j_fund := (if F_fund \<in> set fs then j_fund new else j_fund old),
         j_function := (if F_function \<in> set fs then j_function new else j_function old),
         j_program := (if F_program \<in> set fs then j_program new else j_program old),
         j_geo := (if F_geo \<in> set fs then j_geo new else j_geo old),
         j_status := (if F_status \<in> set fs then j_status new else j_status old),
         j_source_module := (if F_source \<in> set fs then j_source_module new else j_source_module old),
         j_source_id := (if F_source \<in> set fs then j_source_id new else j_source_id old),
         j_posted_by := (if F_posted_by \<in> set fs then j_posted_by new else j_posted_by old),
         j_is_reversed := (if F_is_reversed \<in> set fs then j_is_reversed new else j_is_reversed old),
         j_is_deleted := (if F_is_deleted \<in> set fs then j_is_deleted new else j_is_deleted old)\<rparr>"

definition mutable_in_save :: "jfield list option \<Rightarrow> jfield list" where
  \<comment> \<open>a full save compares the \<^verbatim>\<open>attname\<close> of each column (\<^verbatim>\<open>posted_by_id\<close>) with the names of the
      allow-list (\<^verbatim>\<open>posted_by\<close>), so that it does not recognise the poster as mutable\<close>
  "mutable_in_save fs =
     (case fs of Some f \<Rightarrow> POST_POSTING_MUTABLE_FIELDS
      | None \<Rightarrow> removeAll F_posted_by POST_POSTING_MUTABLE_FIELDS)"

lemma mutable_in_save_subset: "set (mutable_in_save fs) \<subseteq> set POST_POSTING_MUTABLE_FIELDS"
  by (auto simp: mutable_in_save_def split: option.splits)

definition save_journal :: "jfield list option \<Rightarrow> journal \<Rightarrow> 'z budget_state_scheme \<Rightarrow> err + 'z budget_state_scheme" where
  \<comment> \<open>\<^verbatim>\<open>save(update_fields=fs)\<close>, or \<^verbatim>\<open>save()\<close> for \<open>None\<close>, of an existing header\<close>
  "save_journal fs j s =
     (case journal_of (j_id j) s of
        None \<Rightarrow> Inl DoesNotExist
      | Some old \<Rightarrow>
          let touched = (case fs of Some f \<Rightarrow> f | None \<Rightarrow> changed_fields old j)
          in if j_status old = J_Posted \<and> \<not> set touched \<subseteq> set (mutable_in_save fs)
             then Inl ValidationError
             else rbind (enforce_budget_on_journal_post (Some old) j s)
               (\<lambda>_. let j1 = write_fields touched old j
                    in if journal_unique j1 (journals s)
                       then refresh_after_post j (j_lines old)
                              (s\<lparr>journals := put_row j_id j1 (journals s)\<rparr>)
                       else Inl IntegrityError))"

subsection \<open>Journal lines\<close>

definition line_check :: "jline \<Rightarrow> bool" where
  \<comment> \<open>the four \<^verbatim>\<open>CheckConstraint\<close>s of \<^verbatim>\<open>JournalLine\<close>\<close>
  "line_check l \<longleftrightarrow> 0 \<le> l_debit l \<and> 0 \<le> l_credit l \<and> \<not> (0 < l_debit l \<and> 0 < l_credit l)
                 \<and> (0 < l_debit l \<or> 0 < l_credit l)"

definition jline_clean :: "jline \<Rightarrow> 'z budget_state_scheme \<Rightarrow> err + unit" where
  \<comment> \<open>\<^verbatim>\<open>JournalLine.clean\<close>, run by forms only\<close>
  "jline_clean l s =
     (if 0 < l_debit l \<and> 0 < l_credit l then Inl ValidationError
      else if l_debit l = 0 \<and> l_credit l = 0 then Inl ValidationError
      else (case account_of (l_account l) s of
              Some a \<Rightarrow> if ac_is_postable a then Inr () else Inl ValidationError
            | None \<Rightarrow> Inr ()))"

definition round_line :: "jline \<Rightarrow> jline" where
  "round_line l = l\<lparr>l_debit := db_decimal (l_debit l), l_credit := db_decimal (l_credit l)\<rparr>"

definition create_jline :: "nat \<Rightarrow> jline \<Rightarrow> 'z budget_state_scheme \<Rightarrow> err + 'z budget_state_scheme" where
  \<comment> \<open>\<^verbatim>\<open>JournalLine.objects.create\<close>: a new row has no key yet, so the posted-journal guard of
      \<^verbatim>\<open>save\<close> does not look at its header\<close>
  "create_jline i l s =
     (let l1 = round_line l
      in case journal_of i s of
           None \<Rightarrow> Inl IntegrityError
         | Some j \<Rightarrow>
             if line_check l1
             then Inr (s\<lparr>journals := put_row j_id (j\<lparr>j_lines := j_lines j @ [l1]\<rparr>) (journals s)\<rparr>)
             else Inl IntegrityError)"

definition update_jline :: "nat \<Rightarrow> nat \<Rightarrow> jline \<Rightarrow> 'z budget_state_scheme \<Rightarrow> err + 'z budget_state_scheme" where
  \<comment> \<open>\<^verbatim>\<open>JournalLine.save()\<close> of the \<open>n\<close>-th line of journal \<open>i\<close>\<close>
  "update_jline i n l s =
     (case journal_of i s of
        None \<Rightarrow> Inl DoesNotExist
      | Some j \<Rightarrow>
          if length (j_lines j) \<le> n then Inl DoesNotExist
          else if j_status j = J_Posted \<and> j_lines j ! n \<noteq> l then Inl ValidationError
          else if line_check (round_line l)
          then Inr (s\<lparr>journals := put_row j_id (j\<lparr>j_lines := (j_lines j)[n := round_line l]\<rparr>) (journals s)\<rparr>)
          else Inl IntegrityError)"

definition delete_jline :: "nat \<Rightarrow> nat \<Rightarrow> 'z budget_state_scheme \<Rightarrow> err + 'z budget_state_scheme" where
  "delete_jline i n s =
     (case journal_of i s of
        None \<Rightarrow> Inl DoesNotExist
      | Some j \<Rightarrow>
          if length (j_lines j) \<le> n then Inl DoesNotExist
          else if j_status j = J_Posted then Inl ValidationError
          else Inr (s\<lparr>journals := put_row j_id
                      (j\<lparr>j_lines := take n (j_lines j) @ drop (Suc n) (j_lines j)\<rparr>) (journals s)\<rparr>))"

section \<open>Validation\<close>

datatype jerror = TooFewLines | BothSides | NegativeAmount | ZeroAmount | NotPostingLevel
  | ControlAccount | HeaderAccount | NotBalanced

definition total_debit :: "jline list \<Rightarrow> rat" where
  "total_debit ls = sum_list (map l_debit ls)"

definition total_credit :: "jline list \<Rightarrow> rat" where
  "total_credit ls = sum_list (map l_credit ls)"

definition ncoa_errors :: "jline \<Rightarrow> 'z budget_state_scheme \<Rightarrow> jerror list" where
  "ncoa_errors l s =
     (case Option.bind (l_ncoa l) (\<lambda>n. find_row n_id n (ncoa_codes s)) of
        None \<Rightarrow> []
      | Some n \<Rightarrow>
          (case account_of (n_economic n) s of
             None \<Rightarrow> []
           | Some eco \<Rightarrow> (if \<not> ac_is_postable eco then [NotPostingLevel] else [])
                        @ (if ac_is_reconciliation eco then [ControlAccount] else [])))"

definition header_errors :: "jline \<Rightarrow> 'z budget_state_scheme \<Rightarrow> jerror list" where
  "header_errors l s =
     (case account_of (l_account l) s of
        None \<Rightarrow> []
      | Some a \<Rightarrow> if \<not> ac_is_postable a then [HeaderAccount] else [])"

definition line_errors :: "bool \<Rightarrow> jline \<Rightarrow> 'z budget_state_scheme \<Rightarrow> jerror list" where
  "line_errors is_reversal l s =
     (if 0 < l_debit l \<and> 0 < l_credit l then [BothSides] else []) @
     (if l_debit l < 0 \<or> l_credit l < 0 then [NegativeAmount] else []) @
     (if l_debit l = 0 \<and> l_credit l = 0 then [ZeroAmount] else []) @
     (if is_reversal then [] else ncoa_errors l s @ header_errors l s)"

definition validate_journal :: "string option \<Rightarrow> jline list \<Rightarrow> 'z budget_state_scheme \<Rightarrow> jerror list" where
  "validate_journal source ls s =
     (if length ls < 2 then [TooFewLines]
      else concat (map (\<lambda>l. line_errors (source = Some ''reversal'') l s) ls)
           @ (if total_debit ls \<noteq> total_credit ls then [NotBalanced] else []))"

section \<open>Posting\<close>

fun gl_add :: "gl_key \<Rightarrow> rat \<Rightarrow> rat \<Rightarrow> gl_rows \<Rightarrow> gl_rows" where
  \<comment> \<open>\<^verbatim>\<open>get_or_create\<close> of the bucket and the increment through \<^verbatim>\<open>F()\<close> expressions\<close>
  "gl_add k d c [] = [(k, d, c)]"
| "gl_add k d c ((k', d', c') # rows) =
     (if k' = k then (k', d' + d, c' + c) # rows else (k', d', c') # gl_add k d c rows)"

definition line_key :: "journal \<Rightarrow> jline \<Rightarrow> gl_key" where
  "line_key j l = \<lparr>gk_account = l_account l, gk_fund = j_fund j, gk_function = j_function j,
     gk_program = j_program j, gk_geo = j_geo j, gk_mda = j_mda j,
     gk_year = d_year (j_date j), gk_period = d_month (j_date j)\<rparr>"

definition assert_balanced :: "jline list \<Rightarrow> err + unit" where
  "assert_balanced ls = (if total_debit ls \<noteq> total_credit ls then Inl TransactionPostingError else Inr ())"

definition update_gl_balances :: "journal \<Rightarrow> 'z budget_state_scheme \<Rightarrow> err + 'z budget_state_scheme" where
  \<comment> \<open>\<^verbatim>\<open>IPSASJournalService._update_gl_balances\<close>\<close>
  "update_gl_balances j s =
     rbind (assert_balanced (j_lines j))
       (\<lambda>_. Inr (s\<lparr>gl_balances :=
              fold (\<lambda>l. gl_add (line_key j l) (l_debit l) (l_credit l)) (j_lines j) (gl_balances s)\<rparr>))"

definition fill :: "'a option \<Rightarrow> 'a option \<Rightarrow> 'a option" where
  \<comment> \<open>the present dimension, or the bridged one when the journal has none\<close>
  "fill present bridged = (if present = None then bridged else present)"

definition first_ncoa :: "journal \<Rightarrow> 'z budget_state_scheme \<Rightarrow> ncoa option" where
  \<comment> \<open>\<^verbatim>\<open>journal.lines.filter(ncoa_code__isnull=False).first().ncoa_code\<close>\<close>
  "first_ncoa j s =
     Option.bind (List.find (\<lambda>l. l_ncoa l \<noteq> None) (j_lines j))
       (\<lambda>l. Option.bind (l_ncoa l) (\<lambda>n. find_row n_id n (ncoa_codes s)))"

definition bridge_dimensions :: "ncoa \<Rightarrow> journal \<Rightarrow> journal" where
  "bridge_dimensions n j =
     j\<lparr>j_fund := fill (j_fund j) (n_legacy_fund n),
       j_function := fill (j_function j) (n_legacy_function n),
       j_program := fill (j_program j) (n_legacy_program n),
       j_geo := fill (j_geo j) (n_legacy_geo n),
       j_mda := fill (j_mda j) (n_legacy_mda n)\<rparr>"

definition dimension_fields :: "journal \<Rightarrow> journal \<Rightarrow> jfield list" where
  "dimension_fields a b =
     filter (field_differs a b) [F_fund, F_function, F_program, F_geo, F_mda]"

definition sync_legacy_dimensions :: "journal \<Rightarrow> 'z budget_state_scheme \<Rightarrow> err + (journal \<times> 'z budget_state_scheme)" where
  "sync_legacy_dimensions j s =
     (case first_ncoa j s of
        None \<Rightarrow> Inr (j, s)
      | Some n \<Rightarrow>
          let j1 = bridge_dimensions n j; fields = dimension_fields j j1
          in if fields = [] then Inr (j, s)
             else rbind (save_journal (Some (fields @ [F_updated_at])) j1 s) (\<lambda>s1. Inr (j1, s1)))"

definition POSTABLE_STATUSES :: "jstatus list" where
  "POSTABLE_STATUSES = [J_Draft, J_Pending, J_Approved]"

definition log_je :: "string \<Rightarrow> nat \<Rightarrow> 'z budget_state_scheme \<Rightarrow> 'z budget_state_scheme" where
  "log_je action i s = s\<lparr>je_audit := je_audit s @ [(action, i)]\<rparr>"

definition post_locked :: "journal \<Rightarrow> nat option \<Rightarrow> 'z budget_state_scheme \<Rightarrow> err + 'z budget_state_scheme" where
  \<comment> \<open>\<^verbatim>\<open>post_journal\<close> from the row lock on\<close>
  "post_locked j user s =
     (if j_is_deleted j then Inl DoesNotExist
      else if j_status j \<notin> set POSTABLE_STATUSES then Inl JournalPostingError
      else rbind (sync_legacy_dimensions j s)
        (\<lambda>(j1, s1). let j2 = j1\<lparr>j_status := J_Posted, j_posted_by := user\<rparr>
           in rbind (save_journal (Some [F_status, F_posted_by, F_updated_at]) j2 s1)
                (\<lambda>s2. rbind (update_gl_balances j2 s2) (\<lambda>s3. Inr (log_je ''POST'' (j_id j) s3)))))"

definition post_journal :: "nat \<Rightarrow> nat option \<Rightarrow> bool \<Rightarrow> 'z budget_state_scheme \<Rightarrow> err + 'z budget_state_scheme" where
  "post_journal i user force_period_open s =
     (case journal_of i s of
        None \<Rightarrow> Inl JournalPostingError \<comment> \<open>no lines: validation fails\<close>
      | Some j \<Rightarrow>
          if validate_journal (j_source_module j) (j_lines j) s \<noteq> [] then Inl JournalPostingError
          else if \<not> force_period_open \<and> \<not> can_post (check_period_status (j_date j) s)
          then Inl JournalPostingError
          else post_locked j user s)"

definition reversed_line :: "jline \<Rightarrow> jline" where
  "reversed_line l = \<lparr>l_account = l_account l, l_debit = l_credit l, l_credit = l_debit l, l_ncoa = None, l_asset = None\<rparr>"

definition create_lines :: "nat \<Rightarrow> jline list \<Rightarrow> 'z budget_state_scheme \<Rightarrow> err + 'z budget_state_scheme" where
  "create_lines i ls s = rfold (create_jline i) ls s"

definition reversal_header :: "journal \<Rightarrow> date \<Rightarrow> journal" where
  "reversal_header j d =
     \<lparr>j_id = 0, j_date = d, j_ref = ''REV-'' @ j_ref j, j_document = [],
      j_mda = j_mda j, j_fund = j_fund j, j_function = j_function j, j_program = j_program j,
      j_geo = j_geo j, j_status = J_Draft, j_source_module = Some ''reversal'',
      j_source_id = Some (j_id j), j_posted_by = None, j_is_reversed = False,
      j_is_deleted = False, j_lines = []\<rparr>"

definition post_new_journal :: "journal \<Rightarrow> jline list \<Rightarrow> nat option \<Rightarrow> 'z budget_state_scheme \<Rightarrow> err + (nat \<times> 'z budget_state_scheme)" where
  \<comment> \<open>save a header, create its lines, post it: the shape every posting of the program has\<close>
  "post_new_journal h ls user s =
     rbind (insert_journal h s)
       (\<lambda>(i, s1). rbind (create_lines i ls s1)
         (\<lambda>s2. rbind (post_journal i user False s2) (\<lambda>s3. Inr (i, s3))))"

definition reverse_journal :: "nat \<Rightarrow> nat option \<Rightarrow> string \<Rightarrow> 'z budget_state_scheme \<Rightarrow> err + (nat \<times> 'z budget_state_scheme)" where
  "reverse_journal i user reason s =
     (case journal_of i s of
        None \<Rightarrow> Inl DoesNotExist
      | Some j \<Rightarrow>
          if j_status j \<noteq> J_Posted then Inl JournalPostingError
          else if reason = [] then Inl JournalPostingError
          else rbind (post_new_journal (reversal_header j (today s)) (map reversed_line (j_lines j)) user s)
            (\<lambda>(r, s3). rbind (save_journal (Some [F_is_reversed, F_updated_at])
                               (j\<lparr>j_is_reversed := True\<rparr>) s3)
              (\<lambda>s4. Inr (r, log_je ''REVERSE'' i (s4\<lparr>reversals := reversals s4 @ [(i, r)]\<rparr>)))))"

section \<open>The ledger is the replay of its posted journals\<close>

subsection \<open>Buckets\<close>

definition gl_debit :: "gl_key \<Rightarrow> gl_rows \<Rightarrow> rat" where
  "gl_debit k rows = sum_list (map (\<lambda>(k', d, c). if k' = k then d else 0) rows)"

definition gl_credit :: "gl_key \<Rightarrow> gl_rows \<Rightarrow> rat" where
  "gl_credit k rows = sum_list (map (\<lambda>(k', d, c). if k' = k then c else 0) rows)"

definition tb_debit :: "gl_rows \<Rightarrow> rat" where
  "tb_debit rows = sum_list (map (\<lambda>(k, d, c). d) rows)"

definition tb_credit :: "gl_rows \<Rightarrow> rat" where
  "tb_credit rows = sum_list (map (\<lambda>(k, d, c). c) rows)"

lemma gl_add_simps [simp]:
  "gl_debit k (gl_add k' d c rows) = gl_debit k rows + (if k' = k then d else 0)"
  "gl_credit k (gl_add k' d c rows) = gl_credit k rows + (if k' = k then c else 0)"
  "tb_debit (gl_add k' d c rows) = tb_debit rows + d"
  "tb_credit (gl_add k' d c rows) = tb_credit rows + c"
  "fst ` set (gl_add k' d c rows) = insert k' (fst ` set rows)"
  by (induction k' d c rows rule: gl_add.induct)
    (auto simp: gl_debit_def gl_credit_def tb_debit_def tb_credit_def)

lemma gl_add_distinct [simp]:
  "distinct (map fst (gl_add k d c rows)) \<longleftrightarrow> distinct (map fst rows)"
proof (induction k d c rows rule: gl_add.induct)
  case (2 k d c k' d' c' rows)
  have "fst ` set (gl_add k d c rows) = insert k (fst ` set rows)" by simp
  with 2 show ?case by auto
qed simp

definition gl_post :: "journal \<Rightarrow> gl_rows \<Rightarrow> gl_rows" where
  "gl_post j rows = fold (\<lambda>l. gl_add (line_key j l) (l_debit l) (l_credit l)) (j_lines j) rows"

definition journal_debit :: "gl_key \<Rightarrow> journal \<Rightarrow> rat" where
  "journal_debit k j = sum_list (map (\<lambda>l. if line_key j l = k then l_debit l else 0) (j_lines j))"

definition journal_credit :: "gl_key \<Rightarrow> journal \<Rightarrow> rat" where
  "journal_credit k j = sum_list (map (\<lambda>l. if line_key j l = k then l_credit l else 0) (j_lines j))"

lemma gl_post_simps [simp]:
  "gl_debit k (gl_post j rows) = gl_debit k rows + journal_debit k j"
  "gl_credit k (gl_post j rows) = gl_credit k rows + journal_credit k j"
  "tb_debit (gl_post j rows) = tb_debit rows + total_debit (j_lines j)"
  "tb_credit (gl_post j rows) = tb_credit rows + total_credit (j_lines j)"
  "distinct (map fst (gl_post j rows)) \<longleftrightarrow> distinct (map fst rows)"
proof -
  have "gl_debit k (fold (\<lambda>l. gl_add (line_key j l) (l_debit l) (l_credit l)) ls rows)
        = gl_debit k rows + sum_list (map (\<lambda>l. if line_key j l = k then l_debit l else 0) ls)"
    and "gl_credit k (fold (\<lambda>l. gl_add (line_key j l) (l_debit l) (l_credit l)) ls rows)
        = gl_credit k rows + sum_list (map (\<lambda>l. if line_key j l = k then l_credit l else 0) ls)"
    and "tb_debit (fold (\<lambda>l. gl_add (line_key j l) (l_debit l) (l_credit l)) ls rows)
        = tb_debit rows + sum_list (map l_debit ls)"
    and "tb_credit (fold (\<lambda>l. gl_add (line_key j l) (l_debit l) (l_credit l)) ls rows)
        = tb_credit rows + sum_list (map l_credit ls)"
    and "distinct (map fst (fold (\<lambda>l. gl_add (line_key j l) (l_debit l) (l_credit l)) ls rows))
        \<longleftrightarrow> distinct (map fst rows)" for ls
    by (induction ls arbitrary: rows) (simp_all add: add.assoc)
  then show "gl_debit k (gl_post j rows) = gl_debit k rows + journal_debit k j"
    "gl_credit k (gl_post j rows) = gl_credit k rows + journal_credit k j"
    "tb_debit (gl_post j rows) = tb_debit rows + total_debit (j_lines j)"
    "tb_credit (gl_post j rows) = tb_credit rows + total_credit (j_lines j)"
    "distinct (map fst (gl_post j rows)) \<longleftrightarrow> distinct (map fst rows)"
    by (simp_all add: gl_post_def journal_debit_def journal_credit_def total_debit_def total_credit_def)
qed

subsection \<open>What posting does\<close>

lemma write_fields_lines [simp]:
  "j_lines (write_fields fs a b) = j_lines a" "j_id (write_fields fs a b) = j_id a"
  by (simp_all add: write_fields_def)

lemma write_status [simp]:
  "write_fields [F_status, F_posted_by, F_updated_at] j (j\<lparr>j_status := st, j_posted_by := u\<rparr>)
   = j\<lparr>j_status := st, j_posted_by := u\<rparr>"
  by (simp add: write_fields_def)

definition same_document :: "journal \<Rightarrow> journal \<Rightarrow> bool" where
  \<comment> \<open>what a posting never touches\<close>
  "same_document a b \<longleftrightarrow> j_id b = j_id a \<and> j_date b = j_date a \<and> j_ref b = j_ref a
     \<and> j_document b = j_document a \<and> j_source_module b = j_source_module a
     \<and> j_source_id b = j_source_id a \<and> j_lines b = j_lines a \<and> j_is_deleted b = j_is_deleted a
     \<and> j_is_reversed b = j_is_reversed a"

lemma same_document_refl [simp]: "same_document j j"
  by (simp add: same_document_def)

definition keys_ok :: "'z budget_state_scheme \<Rightarrow> bool" where
  "keys_ok s \<longleftrightarrow> distinct (map j_id (journals s)) \<and> distinct (map ap_id (appropriations s))"

lemma save_journal_cases:
  assumes "save_journal fs j s = Inr s'" and "keys_ok s"
  obtains old ap where "journal_of (j_id j) s = Some old"
    "j_status old = J_Posted \<longrightarrow>
       set (case fs of Some f \<Rightarrow> f | None \<Rightarrow> changed_fields old j) \<subseteq> set POST_POSTING_MUTABLE_FIELDS"
    "s' = s\<lparr>journals := put_row j_id
       (write_fields (case fs of Some f \<Rightarrow> f | None \<Rightarrow> changed_fields old j) old j) (journals s),
       appropriations := ap\<rparr>"
    "recached (appropriations s) ap" "j_status j \<noteq> J_Posted \<longrightarrow> ap = appropriations s"
proof -
  obtain old where old: "journal_of (j_id j) s = Some old"
    using assms(1) by (auto simp: save_journal_def split: option.splits)
  define f where "f = (case fs of Some f \<Rightarrow> f | None \<Rightarrow> changed_fields old j)"
  define s1 where "s1 = s\<lparr>journals := put_row j_id (write_fields f old j) (journals s)\<rparr>"
  have guard: "j_status old = J_Posted \<longrightarrow> set f \<subseteq> set (mutable_in_save fs)"
    and r: "refresh_after_post j (j_lines old) s1 = Inr s'"
    using assms(1) by (auto simp: save_journal_def Let_def old rbind_eq_Inr s1_def simp flip: f_def split: if_splits)
  have "distinct (map ap_id (appropriations s1))" using assms(2) by (simp add: s1_def keys_ok_def)
  from refresh_after_postD [OF r this] obtain ap where
    ap: "s' = s1\<lparr>appropriations := ap\<rparr>" "recached (appropriations s) ap" by (auto simp: s1_def)
  have "ap = appropriations s" if "j_status j \<noteq> J_Posted"
  proof -
    from r that have "s' = s1" by (simp add: refresh_after_post_def)
    then have "appropriations s' = appropriations s" by (simp add: s1_def)
    then show ?thesis by (simp add: ap(1))
  qed
  moreover have "j_status old = J_Posted \<longrightarrow> set f \<subseteq> set POST_POSTING_MUTABLE_FIELDS"
    using guard mutable_in_save_subset by blast
  ultimately show ?thesis using that [of old ap] old ap by (simp add: s1_def f_def)
qed

lemma journal_of_ids: "journal_of i s = Some j \<Longrightarrow> j_id j = i \<and> j \<in> set (journals s)"
  using find_row_SomeD by (fastforce simp: journal_of_def)

lemma in_dimension_fields:
  "f \<in> set (dimension_fields a b) \<longleftrightarrow>
     f \<in> {F_fund, F_function, F_program, F_geo, F_mda} \<and> field_differs a b f"
  unfolding dimension_fields_def set_filter by simp

lemma put_journal_same:
  assumes "journal_of (j_id j) s = Some j" and "keys_ok s"
  shows "s\<lparr>journals := put_row j_id j (journals s)\<rparr> = s"
proof -
  have "put_row j_id j (journals s) = journals s"
    using assms(2) journal_of_ids [OF assms(1)] by (intro put_row_same) (simp_all add: keys_ok_def)
  then show ?thesis by simp
qed

lemma sync_legacy_dimensionsD:
  assumes "sync_legacy_dimensions j s = Inr (j1, s1)"
    and "journal_of (j_id j) s = Some j" and "keys_ok s" and "j_status j \<noteq> J_Posted"
  shows "same_document j j1 \<and> j_status j1 = j_status j \<and> j_posted_by j1 = j_posted_by j
       \<and> s1 = s\<lparr>journals := put_row j_id j1 (journals s)\<rparr>"
proof (cases "first_ncoa j s")
  case None
  then have "j1 = j" "s1 = s" using assms(1) by (simp_all add: sync_legacy_dimensions_def)
  then show ?thesis using put_journal_same [OF assms(2,3)] by simp
next
  case (Some n)
  define k fs where "k = bridge_dimensions n j" and "fs = dimension_fields j k"
  have k: "same_document j k" "j_status k = j_status j" "j_posted_by k = j_posted_by j" "j_id k = j_id j"
    by (simp_all add: k_def bridge_dimensions_def same_document_def)
  have wf: "write_fields (fs @ [F_updated_at]) j k = k"
    by (simp add: write_fields_def fs_def in_dimension_fields k_def bridge_dimensions_def)
  show ?thesis
  proof (cases "fs = []")
    case True
    then have "j1 = j" "s1 = s"
      using assms(1) Some by (simp_all add: sync_legacy_dimensions_def Let_def flip: k_def fs_def)
    then show ?thesis using put_journal_same [OF assms(2,3)] by simp
  next
    case False
    then have "rbind (save_journal (Some (fs @ [F_updated_at])) k s) (\<lambda>s1. Inr (k, s1)) = Inr (j1, s1)"
      using assms(1) Some by (simp add: sync_legacy_dimensions_def Let_def flip: k_def fs_def)
    then have save: "save_journal (Some (fs @ [F_updated_at])) k s = Inr s1 \<and> k = j1"
      unfolding rbind_eq_Inr by blast
    from save_journal_cases [OF conjunct1 [OF save] assms(3)] obtain old ap where
      "journal_of (j_id k) s = Some old"
      "s1 = s\<lparr>journals := put_row j_id (write_fields (fs @ [F_updated_at]) old k) (journals s),
        appropriations := ap\<rparr>" "j_status k \<noteq> J_Posted \<longrightarrow> ap = appropriations s"
      unfolding option.case by metis
    then have "s1 = s\<lparr>journals := put_row j_id k (journals s)\<rparr>"
      using k wf assms(2,4) by simp
    then show ?thesis using k save by simp
  qed
qed

text \<open>
  The effect of a posting: the row becomes \<open>Posted\<close> with its document unchanged, and the
  buckets take up exactly its lines.
\<close>

definition posting_effect :: "journal \<Rightarrow> nat option \<Rightarrow> journal \<Rightarrow> 'z budget_state_scheme \<Rightarrow> 'z budget_state_scheme \<Rightarrow> bool" where
  "posting_effect j user j' s s' \<longleftrightarrow>
     same_document j j' \<and> j_status j' = J_Posted \<and> j_posted_by j' = user
     \<and> total_debit (j_lines j) = total_credit (j_lines j)
     \<and> (\<exists>ap. recached (appropriations s) ap
          \<and> s' = s\<lparr>journals := put_row j_id j' (journals s), appropriations := ap,
              gl_balances := gl_post j' (gl_balances s),
              je_audit := je_audit s @ [(''POST'', j_id j)]\<rparr>)"

lemma post_lockedD:
  assumes "post_locked j user s = Inr s'"
    and "journal_of (j_id j) s = Some j" and "keys_ok s"
  shows "j_status j \<noteq> J_Posted \<and> \<not> j_is_deleted j \<and> (\<exists>j'. posting_effect j user j' s s')"
proof -
  from assms(1) obtain j1 s1 s2 s3 where
    st: "j_status j \<in> set POSTABLE_STATUSES" "\<not> j_is_deleted j"
    and sync: "sync_legacy_dimensions j s = Inr (j1, s1)"
    and save: "save_journal (Some [F_status, F_posted_by, F_updated_at])
                 (j1\<lparr>j_status := J_Posted, j_posted_by := user\<rparr>) s1 = Inr s2"
    and upd: "update_gl_balances (j1\<lparr>j_status := J_Posted, j_posted_by := user\<rparr>) s2 = Inr s3"
    and s': "s' = log_je ''POST'' (j_id j) s3"
    by (auto simp: post_locked_def rbind_eq_Inr Let_def split: if_splits)
  define j2 where "j2 = j1\<lparr>j_status := J_Posted, j_posted_by := user\<rparr>"
  have j1: "same_document j j1" "s1 = s\<lparr>journals := put_row j_id j1 (journals s)\<rparr>"
    using sync_legacy_dimensionsD [OF sync assms(2,3)] st(1) by (auto simp: POSTABLE_STATUSES_def)
  then have "journal_of (j_id j) s1 = Some j1"
    using assms(2) by (auto simp: journal_of_def same_document_def dest: find_row_SomeD)
  moreover have "keys_ok s1" using assms(3) j1(2) by (simp add: keys_ok_def)
  moreover from this obtain old ap where old: "journal_of (j_id j2) s1 = Some old"
    and "s2 = s1\<lparr>journals := put_row j_id (write_fields [F_status, F_posted_by, F_updated_at] old j2) (journals s1),
        appropriations := ap\<rparr>" and ap: "recached (appropriations s1) ap"
    using save_journal_cases [OF save [folded j2_def]] unfolding option.case by metis
  ultimately have "s2 = s1\<lparr>journals := put_row j_id j2 (journals s1), appropriations := ap\<rparr>"
    using j1(1) by (simp add: j2_def same_document_def)
  then have s2: "s2 = s\<lparr>journals := put_row j_id j2 (journals s), appropriations := ap\<rparr>"
    by (simp add: j1(2) j2_def)
  have ap: "recached (appropriations s) ap" using ap by (simp add: j1(2))
  from upd have s3: "s3 = s2\<lparr>gl_balances := gl_post j2 (gl_balances s2)\<rparr>"
    and bal: "total_debit (j_lines j2) = total_credit (j_lines j2)"
    by (auto simp: update_gl_balances_def rbind_eq_Inr assert_balanced_def gl_post_def
        simp flip: j2_def split: if_splits)
  have "posting_effect j user j2 s s'"
    using j1(1) bal ap by (auto simp: posting_effect_def j2_def same_document_def s' s3 s2 log_je_def
        intro!: exI [of _ ap])
  with st show ?thesis by (auto simp: POSTABLE_STATUSES_def)
qed

subsection \<open>The invariant\<close>

definition posted_debit :: "gl_key \<Rightarrow> journal list \<Rightarrow> rat" where
  "posted_debit k js = sum_list (map (\<lambda>j. if j_status j = J_Posted then journal_debit k j else 0) js)"

definition posted_credit :: "gl_key \<Rightarrow> journal list \<Rightarrow> rat" where
  "posted_credit k js = sum_list (map (\<lambda>j. if j_status j = J_Posted then journal_credit k j else 0) js)"

definition lines_ok :: "journal \<Rightarrow> bool" where
  "lines_ok j \<longleftrightarrow> (\<forall>l \<in> set (j_lines j). line_check l \<and> is_money (l_debit l) \<and> is_money (l_credit l))"

definition balanced :: "journal \<Rightarrow> bool" where
  "balanced j \<longleftrightarrow> total_debit (j_lines j) = total_credit (j_lines j)"

definition rows_ok :: "journal list \<Rightarrow> gl_rows \<Rightarrow> bool" where
  "rows_ok js gl \<longleftrightarrow>
     distinct (map j_id js) \<and> distinct (map fst gl)
     \<and> (\<forall>j \<in> set js. lines_ok j \<and> (j_status j = J_Posted \<longrightarrow> balanced j))
     \<and> tb_debit gl = tb_credit gl
     \<and> (\<forall>k. gl_debit k gl = posted_debit k js \<and> gl_credit k gl = posted_credit k js)"

definition ledger_ok :: "'z budget_state_scheme \<Rightarrow> bool" where
  \<comment> \<open>the trial balance is balanced and every bucket is the replay of the posted journals\<close>
  "ledger_ok s \<longleftrightarrow> rows_ok (journals s) (gl_balances s) \<and> distinct (map ap_id (appropriations s))"

lemma ledger_ok_cong:
  "journals s' = journals s \<Longrightarrow> gl_balances s' = gl_balances s \<Longrightarrow>
     map ap_id (appropriations s') = map ap_id (appropriations s) \<Longrightarrow> ledger_ok s' = ledger_ok s"
  by (simp add: ledger_ok_def)

lemma journal_amounts_same [simp]:
  assumes "same_document j j'" and "j_mda j' = j_mda j" "j_fund j' = j_fund j"
    "j_function j' = j_function j" "j_program j' = j_program j" "j_geo j' = j_geo j"
  shows "journal_debit k j' = journal_debit k j" "journal_credit k j' = journal_credit k j"
  using assms by (simp_all add: journal_debit_def journal_credit_def line_key_def same_document_def)

lemma ledger_okD:
  assumes "ledger_ok s"
  shows "keys_ok s" "tb_debit (gl_balances s) = tb_credit (gl_balances s)"
    "j \<in> set (journals s) \<Longrightarrow> lines_ok j"
    "j \<in> set (journals s) \<Longrightarrow> j_status j = J_Posted \<Longrightarrow> balanced j"
    "gl_debit k (gl_balances s) = posted_debit k (journals s)"
    "gl_credit k (gl_balances s) = posted_credit k (journals s)"
  using assms by (auto simp: ledger_ok_def rows_ok_def keys_ok_def)

lemma post_journalD:
  assumes "post_journal i user force s = Inr s'" and "keys_ok s"
  obtains j j' where "journal_of i s = Some j" "j_id j = i" "posting_effect j user j' s s'"
    "j_status j \<noteq> J_Posted" "\<not> j_is_deleted j"
    "validate_journal (j_source_module j) (j_lines j) s = []"
    "force \<or> can_post (check_period_status (j_date j) s)"
proof -
  obtain j where j: "journal_of i s = Some j" "post_locked j user s = Inr s'"
    "validate_journal (j_source_module j) (j_lines j) s = []"
    "force \<or> can_post (check_period_status (j_date j) s)"
    using assms(1) by (auto simp: post_journal_def split: option.splits if_splits)
  have id: "j_id j = i" using journal_of_ids [OF j(1)] by simp
  with j(1) have "journal_of (j_id j) s = Some j" by simp
  from post_lockedD [OF j(2) this assms(2)] id j that show ?thesis by blast
qed

subsection \<open>Building a journal\<close>

lemma insert_journalD:
  assumes "insert_journal h s = Inr (i, s1)"
  obtains doc sq where "i = fresh_pk j_id (journals s)"
    "s1 = s\<lparr>sequences := sq, journals := journals s @ [h\<lparr>j_id := i, j_document := doc, j_lines := []\<rparr>]\<rparr>"
    "journal_unique (h\<lparr>j_id := i, j_document := doc, j_lines := []\<rparr>) (journals s)"
proof (cases "j_document h = []")
  case True
  then show ?thesis using assms that
    by (auto simp: insert_journal_def sequence_next_def Let_def split: if_splits prod.splits)
next
  case False
  then have "s1 = s\<lparr>sequences := sequences s, journals := journals s
      @ [h\<lparr>j_id := i, j_document := j_document h, j_lines := []\<rparr>]\<rparr>"
    "i = fresh_pk j_id (journals s)"
    "journal_unique (h\<lparr>j_id := i, j_document := j_document h, j_lines := []\<rparr>) (journals s)"
    using assms by (auto simp: insert_journal_def Let_def split: if_splits)
  then show ?thesis by (intro that)
qed

lemma round_line_money [simp]:
  "is_money (l_debit l) \<Longrightarrow> is_money (l_credit l) \<Longrightarrow> round_line l = l"
  by (simp add: round_line_def)

lemma round_line_is_money [simp]:
  "is_money (l_debit (round_line l))" "is_money (l_credit (round_line l))"
  "l_account (round_line l) = l_account l"
  by (simp_all add: round_line_def)

lemma create_linesD:
  assumes "create_lines i ls s = Inr s'"
    and "journal_of i s = Some j" and "keys_ok s"
  shows "s' = s\<lparr>journals := put_row j_id (j\<lparr>j_lines := j_lines j @ map round_line ls\<rparr>) (journals s)\<rparr>
       \<and> (\<forall>l \<in> set ls. line_check (round_line l))"
  using assms unfolding create_lines_def
proof (induction ls arbitrary: s j)
  case Nil
  have "j_id j = i" using journal_of_ids [OF Nil(2)] by simp
  then show ?case using Nil put_journal_same [of j s] by simp
next
  case (Cons l ls)
  have id: "j_id j = i" "j \<in> set (journals s)" using journal_of_ids [OF Cons(3)] by simp_all
  define j1 where "j1 = j\<lparr>j_lines := j_lines j @ [round_line l]\<rparr>"
  define s1 where "s1 = s\<lparr>journals := put_row j_id j1 (journals s)\<rparr>"
  obtain s2 where "create_jline i l s = Inr s2" and rest: "rfold (create_jline i) ls s2 = Inr s'"
    using Cons(2) by (auto simp: rbind_eq_Inr)
  then have "line_check (round_line l) \<and> s2 = s1"
    using Cons(3) by (auto simp: create_jline_def Let_def s1_def j1_def split: if_splits)
  with rest have step: "line_check (round_line l)" "rfold (create_jline i) ls s1 = Inr s'" by simp_all
  have "journal_of i s1 = Some j1"
    using id by (auto simp: journal_of_def s1_def j1_def)
  with Cons.IH [OF step(2), of j1] Cons(4) step(1)
  show ?case by (simp add: s1_def j1_def keys_ok_def)
qed

lemma put_row_last:
  "key r = key x \<Longrightarrow> key x \<notin> key ` set rows \<Longrightarrow> put_row key r (rows @ [x]) = rows @ [r]"
  by (simp add: put_row_def) (rule map_idI, metis imageI)

definition posted_new :: "journal \<Rightarrow> jline list \<Rightarrow> nat option \<Rightarrow> journal \<Rightarrow> 'z budget_state_scheme \<Rightarrow> 'z budget_state_scheme \<Rightarrow> bool" where
  \<comment> \<open>the effect of \<open>post_new_journal\<close>: one more row, \<open>Posted\<close>, and its lines in the buckets\<close>
  "posted_new h ls user j s s' \<longleftrightarrow>
     j_id j = fresh_pk j_id (journals s) \<and> j_lines j = map round_line ls \<and> j_status j = J_Posted
     \<and> j_posted_by j = user \<and> j_date j = j_date h \<and> j_ref j = j_ref h
     \<and> j_source_module j = j_source_module h \<and> j_source_id j = j_source_id h
     \<and> j_is_deleted j = j_is_deleted h
     \<and> lines_ok j \<and> balanced j \<and> 2 \<le> length ls
     \<and> (\<exists>sq au ap. recached (appropriations s) ap
          \<and> s' = s\<lparr>sequences := sq, journals := journals s @ [j], appropriations := ap,
              gl_balances := gl_post j (gl_balances s), je_audit := au\<rparr>)"

lemma post_new_journalD:
  assumes "post_new_journal h ls user s = Inr (i, s')" and "keys_ok s"
  obtains j where "i = j_id j" "posted_new h ls user j s s'" "j_status h \<noteq> J_Posted"
    "can_post (check_period_status (j_date h) s)"
    "journal_unique (j\<lparr>j_status := j_status h\<rparr>) (journals s)"
proof -
  obtain s1 s2 where ins: "insert_journal h s = Inr (i, s1)" and cr: "create_lines i ls s1 = Inr s2"
    and po: "post_journal i user False s2 = Inr s'"
    using assms(1) by (auto simp: post_new_journal_def rbind_eq_Inr)
  from insert_journalD [OF ins] obtain doc sq where i: "i = fresh_pk j_id (journals s)"
    and s1: "s1 = s\<lparr>sequences := sq, journals := journals s @ [h\<lparr>j_id := i, j_document := doc, j_lines := []\<rparr>]\<rparr>"
    and uni: "journal_unique (h\<lparr>j_id := i, j_document := doc, j_lines := []\<rparr>) (journals s)" by metis
  define j0 where "j0 = h\<lparr>j_id := i, j_document := doc, j_lines := []\<rparr>"
  define j1 where "j1 = j0\<lparr>j_lines := map round_line ls\<rparr>"
  have new: "i \<notin> j_id ` set (journals s)" by (simp add: i)
  then have none: "find_row j_id i (journals s) = None" by (simp add: find_row_None_iff)
  have "journal_of i s1 = Some j0" "keys_ok s1"
    using none new assms(2) by (auto simp: journal_of_def s1 j0_def find_row_append keys_ok_def)
  from create_linesD [OF cr this] have lc: "\<forall>l \<in> set ls. line_check (round_line l)"
    and s2: "s2 = s\<lparr>sequences := sq, journals := journals s @ [j1]\<rparr>"
    using new by (auto simp: s1 j0_def j1_def put_row_last)
  have "keys_ok s2" using assms(2) new by (simp add: s2 j1_def j0_def keys_ok_def)
  from post_journalD [OF po this] obtain k j where k: "journal_of i s2 = Some k" "posting_effect k user j s2 s'"
    "j_status k \<noteq> J_Posted" "validate_journal (j_source_module k) (j_lines k) s2 = []"
    "can_post (check_period_status (j_date k) s2)" by (metis (full_types))
  have "k = j1" using k(1) none by (simp add: journal_of_def s2 find_row_append j1_def j0_def)
  have len: "2 \<le> length ls" using k(4) by (auto simp: \<open>k = j1\<close> j1_def validate_journal_def split: if_splits)
  have doc: "same_document j1 j" "j_status j = J_Posted" "j_posted_by j = user"
    "total_debit (j_lines j1) = total_credit (j_lines j1)"
    using k(2) by (simp_all add: posting_effect_def \<open>k = j1\<close>)
  obtain ap where s': "recached (appropriations s) ap"
    "s' = s2\<lparr>journals := put_row j_id j (journals s2), appropriations := ap,
       gl_balances := gl_post j (gl_balances s2), je_audit := je_audit s2 @ [(''POST'', i)]\<rparr>"
    using k(2) by (auto simp: posting_effect_def \<open>k = j1\<close> j1_def j0_def s2)
  have "put_row j_id j (journals s2) = journals s @ [j]"
    using doc(1) new by (auto simp: s2 same_document_def j1_def j0_def intro: put_row_last)
  then have pn: "posted_new h ls user j s s'"
  proof -
    have "s' = s\<lparr>sequences := sq, journals := journals s @ [j], appropriations := ap,
        gl_balances := gl_post j (gl_balances s), je_audit := je_audit s @ [(''POST'', i)]\<rparr>"
      using \<open>put_row j_id j (journals s2) = journals s @ [j]\<close> by (simp add: s'(2) s2)
    then have "\<exists>sq au ap. recached (appropriations s) ap
        \<and> s' = s\<lparr>sequences := sq, journals := journals s @ [j], appropriations := ap,
              gl_balances := gl_post j (gl_balances s), je_audit := au\<rparr>"
      using s'(1) by blast
    then show ?thesis using doc lc len
      by (simp add: posted_new_def same_document_def j1_def j0_def i lines_ok_def balanced_def)
  qed
  have "check_period_status (j_date h) s2 = check_period_status (j_date h) s"
    by (rule check_period_status_cong) (simp_all add: s2)
  then have "can_post (check_period_status (j_date h) s)"
    using k(5) by (simp add: \<open>k = j1\<close> j1_def j0_def)
  moreover have "journal_unique (j\<lparr>j_status := j_status h\<rparr>) (journals s)"
    using uni doc(1) by (simp add: journal_unique_def same_document_def j1_def j0_def)
  moreover have "i = j_id j" "j_status h \<noteq> J_Posted"
    using k(3) doc(1) by (simp_all add: \<open>k = j1\<close> j1_def j0_def same_document_def)
  ultimately show ?thesis using that pn by blast
qed

lemma rows_ok_append:
  assumes "rows_ok js gl" and "j_id j \<notin> j_id ` set js" and "lines_ok j" "balanced j" "j_status j = J_Posted"
  shows "rows_ok (js @ [j]) (gl_post j gl)"
  using assms by (auto simp: rows_ok_def posted_debit_def posted_credit_def balanced_def)

lemma posted_newD:
  assumes "posted_new h ls user j s s'"
  shows "journals s' = journals s @ [j]" "gl_balances s' = gl_post j (gl_balances s)"
    "journal_of (j_id j) s' = Some j" "j_lines j = map round_line ls" "j_status j = J_Posted"
    "balanced j" "lines_ok j" "recached (appropriations s) (appropriations s')" "today s' = today s"
    "budget_periods s' = budget_periods s" "fiscal_periods s' = fiscal_periods s"
    "journal_of k s = Some x \<Longrightarrow> journal_of k s' = Some x"
  using assms by (auto simp: posted_new_def journal_of_def find_row_append find_row_None_iff)

lemma ledger_ok_posted_new:
  assumes "ledger_ok s" and "posted_new h ls user j s s'"
  shows "ledger_ok s'"
proof -
  have "j_id j \<notin> j_id ` set (journals s)" using assms(2) by (simp add: posted_new_def)
  then show ?thesis
    using assms(1) posted_newD [OF assms(2)] by (simp add: ledger_ok_def rows_ok_append)
qed

subsection \<open>Reversal\<close>

definition account_net :: "nat \<Rightarrow> gl_rows \<Rightarrow> rat" where
  \<comment> \<open>debits less credits of an account over all its buckets\<close>
  "account_net a rows = sum_list (map (\<lambda>(k, d, c). if gk_account k = a then d - c else 0) rows)"

definition lines_net :: "nat \<Rightarrow> jline list \<Rightarrow> rat" where
  "lines_net a ls = sum_list (map (\<lambda>l. if l_account l = a then l_debit l - l_credit l else 0) ls)"

lemma account_net_gl_add:
  "account_net a (gl_add k d c rows) = account_net a rows + (if gk_account k = a then d - c else 0)"
  by (induction k d c rows rule: gl_add.induct) (auto simp: account_net_def)

lemma account_net_gl_post: "account_net a (gl_post j rows) = account_net a rows + lines_net a (j_lines j)"
proof -
  have "account_net a (fold (\<lambda>l. gl_add (line_key j l) (l_debit l) (l_credit l)) ls rows)
      = account_net a rows + lines_net a ls" for ls
    by (induction ls arbitrary: rows) (simp_all add: account_net_gl_add line_key_def lines_net_def)
  then show ?thesis by (simp add: gl_post_def)
qed

lemma reversed_line_simps [simp]:
  "l_account (reversed_line l) = l_account l" "l_debit (reversed_line l) = l_credit l"
  "l_credit (reversed_line l) = l_debit l" "l_ncoa (reversed_line l) = None"
  by (simp_all add: reversed_line_def)

lemma lines_net_reversed: "lines_net a (map reversed_line ls) = - lines_net a ls"
  by (induction ls) (auto simp: lines_net_def)

lemma total_reversed [simp]:
  "total_debit (map reversed_line ls) = total_credit ls"
  "total_credit (map reversed_line ls) = total_debit ls"
  by (simp_all add: total_debit_def total_credit_def comp_def)

lemma round_reversed: "lines_ok j \<Longrightarrow> map round_line (map reversed_line (j_lines j)) = map reversed_line (j_lines j)"
  by (auto simp: lines_ok_def)

lemma line_check_reversed [simp]: "line_check (reversed_line l) = line_check l"
  by (auto simp: line_check_def)

lemma validate_reversal:
  "validate_journal (Some ''reversal'') (map reversed_line ls) s = [] \<longleftrightarrow>
     2 \<le> length ls \<and> (\<forall>l \<in> set ls. line_check l) \<and> total_debit ls = total_credit ls"
  by (auto simp: validate_journal_def line_errors_def line_check_def not_less concat_eq_Nil_conv)

lemma reverse_journalD:
  assumes "reverse_journal i user reason s = Inr (r, s')" and "keys_ok s"
  obtains j k s3 ap where "journal_of i s = Some j" "j_status j = J_Posted" "reason \<noteq> []"
    "posted_new (reversal_header j (today s)) (map reversed_line (j_lines j)) user k s s3" "r = j_id k"
    "recached (appropriations s3) ap"
    "s' = s3\<lparr>journals := put_row j_id (j\<lparr>j_is_reversed := True\<rparr>) (journals s3), appropriations := ap,
             reversals := reversals s3 @ [(i, r)], je_audit := je_audit s3 @ [(''REVERSE'', i)]\<rparr>"
proof -
  obtain j s3 s4 where j: "journal_of i s = Some j" "j_status j = J_Posted" "reason \<noteq> []"
    and p: "post_new_journal (reversal_header j (today s)) (map reversed_line (j_lines j)) user s = Inr (r, s3)"
    and sv: "save_journal (Some [F_is_reversed, F_updated_at]) (j\<lparr>j_is_reversed := True\<rparr>) s3 = Inr s4"
    and s': "s' = log_je ''REVERSE'' i (s4\<lparr>reversals := reversals s4 @ [(i, r)]\<rparr>)"
    using assms(1) by (auto simp: reverse_journal_def rbind_eq_Inr split: option.splits if_splits)
  from post_new_journalD [OF p assms(2)] obtain k where
    k: "r = j_id k" "posted_new (reversal_header j (today s)) (map reversed_line (j_lines j)) user k s s3"
    by metis
  have "j_id j = i" using journal_of_ids [OF j(1)] by simp
  moreover have "journal_of i s3 = Some j" using posted_newD(12) [OF k(2) j(1)] .
  moreover have "keys_ok s3"
    using k(2) assms(2) by (auto simp: posted_new_def keys_ok_def)
  moreover from this obtain old ap where "journal_of (j_id (j\<lparr>j_is_reversed := True\<rparr>)) s3 = Some old"
    and "s4 = s3\<lparr>journals := put_row j_id (write_fields [F_is_reversed, F_updated_at] old (j\<lparr>j_is_reversed := True\<rparr>))
        (journals s3), appropriations := ap\<rparr>" and ap: "recached (appropriations s3) ap"
    using save_journal_cases [OF sv] unfolding option.case by metis
  ultimately have "s4 = s3\<lparr>journals := put_row j_id (j\<lparr>j_is_reversed := True\<rparr>) (journals s3), appropriations := ap\<rparr>"
    by (simp add: write_fields_def)
  then show ?thesis using that [OF j k(2,1) ap] by (simp add: s' log_je_def)
qed

section \<open>The posting interface\<close>

text \<open>
  What the contract services rely on when they post: the call keeps the books consistent,
  returns a posted and balanced journal that carries the caller's source, leaves every other
  journal alone, and moves each account by exactly the lines it was given.
\<close>

locale posting_service =
  fixes post :: "journal \<Rightarrow> jline list \<Rightarrow> nat option \<Rightarrow> 's \<Rightarrow> err + (nat \<times> 's)"
    and inv :: "'s \<Rightarrow> bool"
    and lookup :: "nat \<Rightarrow> 's \<Rightarrow> journal option"
    and net :: "nat \<Rightarrow> 's \<Rightarrow> rat"
  assumes post_inv: "inv s \<Longrightarrow> post h ls u s = Inr (i, s') \<Longrightarrow> inv s'"
    and post_lookup: "inv s \<Longrightarrow> post h ls u s = Inr (i, s') \<Longrightarrow>
      \<exists>j. lookup i s' = Some j \<and> j_status j = J_Posted \<and> balanced j
          \<and> j_lines j = map round_line ls \<and> j_source_id j = j_source_id h
          \<and> j_source_module j = j_source_module h"
    and post_keeps: "inv s \<Longrightarrow> post h ls u s = Inr (i, s') \<Longrightarrow> lookup k s = Some x \<Longrightarrow>
      lookup k s' = Some x"
    and post_net: "inv s \<Longrightarrow> post h ls u s = Inr (i, s') \<Longrightarrow>
      net a s' = net a s + lines_net a (map round_line ls)"
begin

definition post_all :: "(journal \<times> jline list) list \<Rightarrow> nat option \<Rightarrow> 's \<Rightarrow> err + 's" where
  "post_all ds u s = rfold (\<lambda>(h, ls) s. rbind (post h ls u s) (\<lambda>(i, s'). Inr s')) ds s"

lemma post_all_inv: "inv s \<Longrightarrow> post_all ds u s = Inr s' \<Longrightarrow> inv s'"
  unfolding post_all_def
  by (erule rfold_invariant) (auto simp: rbind_eq_Inr intro: post_inv)

lemma post_all_keeps:
  assumes "inv s" and "post_all ds u s = Inr s'" and "lookup k s = Some x"
  shows "lookup k s' = Some x"
proof -
  have "inv s' \<and> lookup k s' = Some x"
    using assms(2) unfolding post_all_def
    by (rule rfold_invariant [where P = "\<lambda>s. inv s \<and> lookup k s = Some x"])
      (use assms(1,3) in \<open>auto simp: rbind_eq_Inr intro: post_inv post_keeps\<close>)
  then show ?thesis ..
qed

lemma post_all_net:
  "inv s \<Longrightarrow> post_all ds u s = Inr s' \<Longrightarrow>
     net a s' = net a s + sum_list (map (\<lambda>(h, ls). lines_net a (map round_line ls)) ds)"
  unfolding post_all_def
proof (induction ds arbitrary: s)
  case (Cons d ds)
  obtain h ls where d: "d = (h, ls)" by (cases d)
  with Cons.prems obtain i s1 where
    "post h ls u s = Inr (i, s1)" "rfold (\<lambda>(h, ls) s. rbind (post h ls u s) (\<lambda>(i, s'). Inr s')) ds s1 = Inr s'"
    by (auto simp: rbind_eq_Inr)
  with Cons.IH [of s1] Cons.prems(1) post_inv post_net [of s h ls u i s1 a]
  show ?case by (simp add: d)
qed simp

end

interpretation ipsas: posting_service post_new_journal ledger_ok journal_of
  "\<lambda>a s. account_net a (gl_balances s)"
proof
  fix s :: "'z budget_state_scheme" and h ls u i s'
  assume inv: "ledger_ok s" and post: "post_new_journal h ls u s = Inr (i, s')"
  obtain j where j: "i = j_id j" "posted_new h ls u j s s'"
    using post_new_journalD [OF post ledger_okD(1) [OF inv]] by metis
  show "ledger_ok s'" using ledger_ok_posted_new [OF inv j(2)] .
  show "\<exists>j. journal_of i s' = Some j \<and> j_status j = J_Posted \<and> balanced j
          \<and> j_lines j = map round_line ls \<and> j_source_id j = j_source_id h
          \<and> j_source_module j = j_source_module h"
    using posted_newD [OF j(2)] j by (auto simp: posted_new_def)
  show "journal_of k s' = Some x" if "journal_of k s = Some x" for k x
    using posted_newD(12) [OF j(2) that] .
  show "account_net a (gl_balances s') = account_net a (gl_balances s) + lines_net a (map round_line ls)" for a
    using posted_newD [OF j(2)] by (simp add: account_net_gl_post)
qed

section \<open>Properties\<close>

definition demo_account :: "nat \<Rightarrow> string \<Rightarrow> account_type \<Rightarrow> account" where
  "demo_account i code ty = \<lparr>ac_id = i, ac_code = code, ac_name = code, ac_type = ty, ac_parent = None,
     ac_is_active = True, ac_is_postable = True, ac_is_reconciliation = False,
     ac_reconciliation_type = []\<rparr>"

definition demo_header :: journal where
  "demo_header = \<lparr>j_id = 0, j_date = Date 2026 3 10, j_ref = ''JV/1'', j_document = [], j_mda = Some 1,
     j_fund = None, j_function = None, j_program = None, j_geo = None, j_status = J_Draft,
     j_source_module = Some ''manual'', j_source_id = Some 7, j_posted_by = None,
     j_is_reversed = False, j_is_deleted = False, j_lines = []\<rparr>"

definition demo_lines :: "jline list" where
  "demo_lines = [\<lparr>l_account = 1, l_debit = 250, l_credit = 0, l_ncoa = None, l_asset = None\<rparr>,
                 \<lparr>l_account = 2, l_debit = 0, l_credit = 250, l_ncoa = None, l_asset = None\<rparr>]"

definition demo_books :: ledger where
  "demo_books = period_state.extend demo_periods
     \<lparr>accounts = [demo_account 1 ''22010100'' AT_Expense, demo_account 2 ''31010100'' AT_Asset],
      ncoa_codes = [], default_gl = [], journals = [], reversals = [], gl_balances = [],
      sequences = [], je_audit = []\<rparr>"

definition demo_ledger :: budget_state where
  "demo_ledger = ledger.extend demo_books
     \<lparr>check_rules = [], default_control_level = ''NONE'', admin_segments = [], fund_segments = [],
      legacy_mdas = [], legacy_funds = [], fiscal_years = [], appropriations = [], commitments = [],
      warrants = [], vendor_invoices = [], vouchers = [], virements = [], enforce_warrant = False,
      warrant_before_payment = False\<rparr>"

definition demo_posted :: budget_state where
  "demo_posted = snd (projr (post_new_journal demo_header demo_lines (Some 9) demo_ledger))"

definition demo_reversed :: budget_state where
  "demo_reversed = snd (projr (reverse_journal 1 (Some 9) ''error'' demo_posted))"

lemma demo_post: "post_new_journal demo_header demo_lines (Some 9) demo_ledger = Inr (1, demo_posted)"
  by code_simp

lemma demo_reverse: "reverse_journal 1 (Some 9) ''error'' demo_posted = Inr (2, demo_reversed)"
  by code_simp

lemma demo_ledger_ok: "ledger_ok demo_ledger"
  by (simp add: ledger_ok_def rows_ok_def demo_ledger_def demo_books_def ledger.defs period_state.defs tb_debit_def tb_credit_def
      gl_debit_def gl_credit_def posted_debit_def posted_credit_def)

lemma demo_posted_ok: "ledger_ok demo_posted"
  using ipsas.post_inv [OF demo_ledger_ok demo_post] .

lemma account_checks:
  "ncoa_errors l s = [] \<Longrightarrow> l_ncoa l = Some n \<Longrightarrow> find_row n_id n (ncoa_codes s) = Some m \<Longrightarrow>
     account_of (n_economic m) s = Some eco \<Longrightarrow> ac_is_postable eco \<and> \<not> ac_is_reconciliation eco"
  "header_errors l s = [] \<Longrightarrow> account_of (l_account l) s = Some a \<Longrightarrow> ac_is_postable a"
  by (auto simp: ncoa_errors_def header_errors_def split: if_splits)

text \<open>
  C28: \<^verbatim>\<open>post_journal\<close> succeeds only for an undeleted draft, pending or approved journal with at
  least two one-sided positive lines that balance, in a period open for posting (unless
  forced), and, unless it is a reversal, only on postable accounts and on NCoA codes that are
  neither headers nor control accounts.  The journal is posted and its document unchanged.
\<close>

theorem post_journal_sound:
  assumes "post_journal i user force s = Inr s'" and "keys_ok s"
  shows "\<exists>j j'. journal_of i s = Some j \<and> journal_of i s' = Some j'
    \<and> j_status j \<in> set POSTABLE_STATUSES \<and> \<not> j_is_deleted j
    \<and> j_status j' = J_Posted \<and> same_document j j'
    \<and> 2 \<le> length (j_lines j) \<and> total_debit (j_lines j) = total_credit (j_lines j)
    \<and> (force \<or> period_open_for_posting (j_date j) s)
    \<and> (\<forall>l \<in> set (j_lines j). line_check l
         \<and> (j_source_module j \<noteq> Some ''reversal'' \<longrightarrow>
             (\<forall>a. account_of (l_account l) s = Some a \<longrightarrow> ac_is_postable a)
             \<and> (\<forall>n m eco. l_ncoa l = Some n \<longrightarrow> find_row n_id n (ncoa_codes s) = Some m \<longrightarrow>
                   account_of (n_economic m) s = Some eco \<longrightarrow>
                   ac_is_postable eco \<and> \<not> ac_is_reconciliation eco)))"
proof -
  from post_journalD [OF assms] obtain j j' where j: "journal_of i s = Some j" "j_id j = i"
    "posting_effect j user j' s s'" "j_status j \<noteq> J_Posted" "\<not> j_is_deleted j"
    and v: "validate_journal (j_source_module j) (j_lines j) s = []"
    and p: "force \<or> can_post (check_period_status (j_date j) s)" by metis
  have pl: "post_locked j user s = Inr s'"
    using assms(1) j(1) by (simp add: post_journal_def split: if_splits)
  then have st: "j_status j \<in> set POSTABLE_STATUSES" by (simp add: post_locked_def split: if_splits)
  have doc: "same_document j j'" "j_status j' = J_Posted" "j_id j' = i"
    using j(2,3) by (auto simp: posting_effect_def same_document_def)
  have "i \<in> j_id ` set (journals s)" using j(1,2) journal_of_ids [OF j(1)] by force
  then have j': "journal_of i s' = Some j'"
    using j(3) doc(3) by (auto simp: posting_effect_def journal_of_def)
  from v have ls: "2 \<le> length (j_lines j)" "total_debit (j_lines j) = total_credit (j_lines j)"
    and es: "\<And>l. l \<in> set (j_lines j) \<Longrightarrow> line_errors (j_source_module j = Some ''reversal'') l s = []"
    by (auto simp: validate_journal_def split: if_splits)
  have "line_check l" if "l \<in> set (j_lines j)" for l
    using es [OF that] by (auto simp: line_errors_def line_check_def split: if_splits)
  moreover have "ncoa_errors l s = []" "header_errors l s = []"
    if "l \<in> set (j_lines j)" "j_source_module j \<noteq> Some ''reversal''" for l
    using es [OF that(1)] that(2) by (simp_all add: line_errors_def)
  ultimately show ?thesis
    using j(1,5) j' st doc(1,2) ls p
    by - (rule exI [of _ j], rule exI [of _ j'], simp add: can_post_iff,
        intro impI ballI conjI allI; blast dest: account_checks)
qed

definition demo_draft :: budget_state where
  "demo_draft = demo_ledger\<lparr>journals := [demo_header\<lparr>j_id := 1, j_lines := demo_lines\<rparr>]\<rparr>"

lemma demo_draft_keys: "keys_ok demo_draft"
  by (simp add: keys_ok_def demo_draft_def demo_ledger_def demo_books_def ledger.defs period_state.defs)

theorem post_journal_sound_witness:
  "\<exists>j'. journal_of 1 (projr (post_journal 1 (Some 9) False demo_draft)) = Some j' \<and> j_status j' = J_Posted"
proof -
  have "post_journal 1 (Some 9) False demo_draft = Inr (projr (post_journal 1 (Some 9) False demo_draft))"
    by code_simp
  from post_journal_sound [OF this demo_draft_keys] show ?thesis by blast
qed

text \<open>
  A journal is posted at most once.  After a successful post every further attempt, by any
  user and even with the period gate forced open, is refused with \<^verbatim>\<open>JournalPostingError\<close>.
\<close>

theorem post_journal_once:
  assumes "post_journal i user force s = Inr s'" and "keys_ok s"
  shows "post_journal i user' force' s' = Inl JournalPostingError"
proof -
  from post_journalD [OF assms] obtain j j' where j: "journal_of i s = Some j" "j_id j = i"
    "posting_effect j user j' s s'" "\<not> j_is_deleted j" by metis
  have j': "j_status j' = J_Posted" "\<not> j_is_deleted j'" "j_id j' = i"
    using j by (auto simp: posting_effect_def same_document_def)
  have "i \<in> j_id ` set (journals s)" using j(1,2) journal_of_ids [OF j(1)] by force
  then have "journal_of i s' = Some j'"
    using j(3) j'(3) by (auto simp: posting_effect_def journal_of_def)
  then show ?thesis using j'
    by (simp add: post_journal_def post_locked_def POSTABLE_STATUSES_def)
qed

theorem post_journal_once_witness:
  "post_journal 1 (Some 3) True (projr (post_journal 1 (Some 9) False demo_draft)) = Inl JournalPostingError"
proof -
  have "post_journal 1 (Some 9) False demo_draft = Inr (projr (post_journal 1 (Some 9) False demo_draft))"
    by code_simp
  from post_journal_once [OF this demo_draft_keys] show ?thesis .
qed

lemma reverse_journal_effect:
  assumes "reverse_journal i user reason s = Inr (r, s')" and "ledger_ok s"
    and "journal_of i s = Some j"
  obtains k where "j_status j = J_Posted" "journal_of r s' = Some k" "j_status k = J_Posted" "balanced k"
    "j_lines k = map reversed_line (j_lines j)" "j_ref k = ''REV-'' @ j_ref j" "r \<noteq> i"
    "journal_of i s' = Some (j\<lparr>j_is_reversed := True\<rparr>)" "(i, r) \<in> set (reversals s')"
    "gl_balances s' = gl_post k (gl_balances s)"
proof -
  from reverse_journalD [OF assms(1) ledger_okD(1) [OF assms(2)]] obtain j0 k s3 ap where
    j0: "journal_of i s = Some j0" and st: "j_status j0 = J_Posted"
    and p: "posted_new (reversal_header j0 (today s)) (map reversed_line (j_lines j0)) user k s s3"
    and r: "r = j_id k"
    and s': "s' = s3\<lparr>journals := put_row j_id (j0\<lparr>j_is_reversed := True\<rparr>) (journals s3), appropriations := ap,
             reversals := reversals s3 @ [(i, r)], je_audit := je_audit s3 @ [(''REVERSE'', i)]\<rparr>" .
  have "j0 = j" using j0 assms(3) by simp
  have id: "j_id j = i" "j \<in> set (journals s)" using journal_of_ids [OF assms(3)] by simp_all
  have "lines_ok j" using ledger_okD(3) [OF assms(2)] id(2) .
  then have lines: "j_lines k = map reversed_line (j_lines j)"
    using posted_newD(4) [OF p] round_reversed by (simp add: \<open>j0 = j\<close>)
  have "r = fresh_pk j_id (journals s)" "j_ref k = ''REV-'' @ j_ref j"
    using p by (simp_all add: posted_new_def r reversal_header_def \<open>j0 = j\<close>)
  then have "r \<notin> j_id ` set (journals s)" by simp
  then have "r \<noteq> i" using id by force
  have i3: "journal_of i s3 = Some j" using posted_newD(12) [OF p assms(3)] .
  then have "i \<in> j_id ` set (journals s3)" using journal_of_ids [OF i3] by force
  then have "journal_of i s' = Some (j\<lparr>j_is_reversed := True\<rparr>)" "journal_of r s' = Some k"
    using id(1) \<open>r \<noteq> i\<close> posted_newD(3) [OF p] by (simp_all add: s' journal_of_def \<open>j0 = j\<close> r)
  moreover have "gl_balances s' = gl_post k (gl_balances s)"
    using posted_newD(2) [OF p] by (simp add: s')
  ultimately show ?thesis
    using that [of k] posted_newD(5,6) [OF p] lines \<open>j_ref k = _\<close> \<open>r \<noteq> i\<close> st
    by (simp add: s' \<open>j0 = j\<close>)
qed

text \<open>
  C29: a reversal takes the original posting back.  On every account it moves the balance by the
  negated lines of the original journal, it is itself posted and balanced, it is recorded
  against the original, and the original keeps its document and its \<open>Posted\<close> status.
\<close>

theorem reverse_journal_nets_out:
  assumes "reverse_journal i user reason s = Inr (r, s')" and "ledger_ok s"
    and "journal_of i s = Some j"
  shows "account_net a (gl_balances s') = account_net a (gl_balances s) - lines_net a (j_lines j)
    \<and> (\<exists>k. journal_of r s' = Some k \<and> j_status k = J_Posted \<and> balanced k
         \<and> j_lines k = map reversed_line (j_lines j))
    \<and> journal_of i s' = Some (j\<lparr>j_is_reversed := True\<rparr>)
    \<and> (i, r) \<in> set (reversals s')"
  using assms by (rule reverse_journal_effect) (simp add: account_net_gl_post lines_net_reversed)

theorem reverse_journal_nets_out_witness:
  "account_net 1 (gl_balances demo_reversed) = account_net 1 (gl_balances demo_posted) - 250"
proof -
  obtain j where "journal_of 1 demo_posted = Some j" and l: "j_lines j = map round_line demo_lines"
    using ipsas.post_lookup [OF demo_ledger_ok demo_post] by blast
  from reverse_journal_nets_out [OF demo_reverse demo_posted_ok this(1), of 1]
  have "account_net 1 (gl_balances demo_reversed)
      = account_net 1 (gl_balances demo_posted) - lines_net 1 (j_lines j)" by blast
  moreover have "lines_net 1 (map round_line demo_lines) = 250" by code_simp
  ultimately show ?thesis by (simp add: l)
qed

lemma insert_journal_duplicate_ref:
  assumes "k \<in> set (journals s)" and "j_ref k = j_ref h" and "j_ref h \<noteq> []"
  shows "insert_journal h s = Inl IntegrityError"
proof -
  have "j_id k \<noteq> fresh_pk j_id (journals s)" using assms(1) fresh_pk_notin [of j_id "journals s"] by (metis imageI)
  then have "\<not> journal_unique (h\<lparr>j_id := fresh_pk j_id (journals s), j_document := d, j_lines := []\<rparr>) (journals s)" for d
    using assms by (auto simp: journal_unique_def)
  then show ?thesis by (simp add: insert_journal_def Let_def split: prod.splits)
qed

text \<open>
  A journal is reversed at most once: a second \<^verbatim>\<open>reverse_journal\<close> runs into the unique
  reference number \<^verbatim>\<open>REV-...\<close> of the first.
\<close>

theorem reverse_journal_once:
  assumes "reverse_journal i user reason s = Inr (r, s')" and "ledger_ok s" and "reason' \<noteq> []"
  shows "reverse_journal i user' reason' s' = Inl IntegrityError"
proof -
  obtain j where j: "journal_of i s = Some j"
    using assms(1) by (auto simp: reverse_journal_def split: option.splits)
  from assms(1,2) j obtain k where st: "j_status j = J_Posted"
    and k: "journal_of r s' = Some k" "j_ref k = ''REV-'' @ j_ref j"
    and i': "journal_of i s' = Some (j\<lparr>j_is_reversed := True\<rparr>)"
    by (rule reverse_journal_effect)
  have "insert_journal (reversal_header (j\<lparr>j_is_reversed := True\<rparr>) (today s')) s' = Inl IntegrityError"
    using journal_of_ids [OF k(1)] k(2)
    by (intro insert_journal_duplicate_ref [of k]) (simp_all add: reversal_header_def)
  then show ?thesis
    using i' st assms(3) by (simp add: reverse_journal_def post_new_journal_def)
qed

theorem reverse_journal_once_witness:
  "reverse_journal 1 (Some 4) ''again'' demo_reversed = Inl IntegrityError"
  by (rule reverse_journal_once [OF demo_reverse demo_posted_ok]) simp

text \<open>
  C30: a posted journal is frozen: any save of its header that succeeds leaves the date, the
  reference, the document number, the source, the dimensions and the lines as they were.
\<close>

theorem posted_journal_frozen:
  assumes "save_journal fs j s = Inr s'" and "journal_of (j_id j) s = Some old"
    and "j_status old = J_Posted" and "keys_ok s"
  shows "\<exists>new. journal_of (j_id j) s' = Some new \<and> j_date new = j_date old \<and> j_ref new = j_ref old
    \<and> j_document new = j_document old \<and> j_source_module new = j_source_module old
    \<and> j_source_id new = j_source_id old \<and> j_mda new = j_mda old \<and> j_fund new = j_fund old
    \<and> j_function new = j_function old \<and> j_program new = j_program old \<and> j_geo new = j_geo old
    \<and> j_lines new = j_lines old"
proof -
  define f where "f = (case fs of Some f \<Rightarrow> f | None \<Rightarrow> changed_fields old j)"
  from save_journal_cases [OF assms(1,4)] assms(2,3) obtain ap where
    f: "set f \<subseteq> set POST_POSTING_MUTABLE_FIELDS"
    and s': "s' = s\<lparr>journals := put_row j_id (write_fields f old j) (journals s), appropriations := ap\<rparr>"
    unfolding f_def by (metis option.inject)
  have id: "j_id old = j_id j" "old \<in> set (journals s)" using journal_of_ids [OF assms(2)] by simp_all
  then have "j_id j \<in> j_id ` set (journals s)" by (metis imageI)
  then have "journal_of (j_id j) s' = Some (write_fields f old j)"
    using id by (simp add: s' journal_of_def)
  moreover have "x \<notin> set f" if "x \<notin> set POST_POSTING_MUTABLE_FIELDS" for x using f that by blast
  ultimately show ?thesis
    by (simp add: write_fields_def POST_POSTING_MUTABLE_FIELDS_def)
qed

theorem posted_journal_frozen_witness:
  "save_journal (Some [F_is_deleted]) (the (journal_of 1 demo_posted)\<lparr>j_is_deleted := True\<rparr>) demo_posted
     \<noteq> Inl ValidationError
   \<and> (\<exists>new. journal_of 1 (projr (save_journal (Some [F_is_deleted])
           (the (journal_of 1 demo_posted)\<lparr>j_is_deleted := True\<rparr>) demo_posted)) = Some new
         \<and> j_ref new = ''JV/1'')"
proof -
  let ?j = "the (journal_of 1 demo_posted)\<lparr>j_is_deleted := True\<rparr>"
  let ?r = "save_journal (Some [F_is_deleted]) ?j demo_posted"
  have r: "?r = Inr (projr ?r)" by code_simp
  have "j_id ?j = 1" "journal_of (j_id ?j) demo_posted = Some (the (journal_of 1 demo_posted))"
    "j_status (the (journal_of 1 demo_posted)) = J_Posted"
    "j_ref (the (journal_of 1 demo_posted)) = ''JV/1''"
    by code_simp+
  with posted_journal_frozen [OF r this(2,3) ledger_okD(1) [OF demo_posted_ok]] have
    "\<exists>new. journal_of 1 (projr ?r) = Some new \<and> j_ref new = ''JV/1''" by auto
  moreover have "?r \<noteq> Inl ValidationError" by code_simp
  ultimately show ?thesis by blast
qed

text \<open>
  The lines are not: \<^verbatim>\<open>JournalLine.save\<close> consults the header only for rows that already have
  a key, so creating one more line on a posted journal succeeds, and the posted journal is then
  unbalanced although the GL balances are not.
\<close>

theorem posted_journal_accepts_new_line:
  assumes "journal_of i s = Some j" and "j_status j = J_Posted" and "balanced j"
    and "line_check (round_line l)"
  shows "\<exists>s' j'. create_jline i l s = Inr s' \<and> journal_of i s' = Some j'
    \<and> j_status j' = J_Posted \<and> \<not> balanced j' \<and> gl_balances s' = gl_balances s"
proof -
  have id: "j_id j = i" "j \<in> set (journals s)" using journal_of_ids [OF assms(1)] by simp_all
  then have "i \<in> j_id ` set (journals s)" by (metis imageI)
  moreover have "\<not> balanced (j\<lparr>j_lines := j_lines j @ [round_line l]\<rparr>)"
    using assms(3,4) by (auto simp: balanced_def total_debit_def total_credit_def line_check_def)
  ultimately show ?thesis using assms(1,2,4) id(1)
    by (simp add: create_jline_def Let_def journal_of_def)
qed

theorem posted_journal_accepts_new_line_witness:
  "\<exists>s' j'. create_jline 1 \<lparr>l_account = 2, l_debit = 40, l_credit = 0, l_ncoa = None, l_asset = None\<rparr> demo_posted = Inr s'
     \<and> journal_of 1 s' = Some j' \<and> j_status j' = J_Posted \<and> \<not> balanced j'
     \<and> gl_balances s' = gl_balances demo_posted"
proof -
  have "journal_of 1 demo_posted = Some (the (journal_of 1 demo_posted))"
    "j_status (the (journal_of 1 demo_posted)) = J_Posted" "balanced (the (journal_of 1 demo_posted))"
    "line_check (round_line \<lparr>l_account = 2, l_debit = 40, l_credit = 0, l_ncoa = None, l_asset = None\<rparr>)"
    by code_simp+
  then show ?thesis by (rule posted_journal_accepts_new_line)
qed

text \<open>
  Re-classifying an account never strands a journal.  A posted, balanced journal can be
  reversed whatever the chart of accounts says today, as long as the period of the reversal is
  open and the journal was not reversed before.
\<close>

theorem reversal_ignores_reclassification:
  assumes "validate_journal src (j_lines j) s0 = []"
  shows "validate_journal (j_source_module (reversal_header j d)) (map reversed_line (j_lines j)) s = []"
proof -
  have "2 \<le> length (j_lines j) \<and> (\<forall>l \<in> set (j_lines j). line_check l) \<and> total_debit (j_lines j) = total_credit (j_lines j)"
    using assms by (auto simp: validate_journal_def line_errors_def line_check_def not_less split: if_splits)
  then show ?thesis by (simp add: reversal_header_def validate_reversal)
qed

theorem reversal_ignores_reclassification_witness:
  "validate_journal (Some ''reversal'') (map reversed_line demo_lines)
     (demo_ledger\<lparr>accounts := map (\<lambda>a. a\<lparr>ac_is_postable := False\<rparr>) (accounts demo_ledger)\<rparr>) = []"
proof -
  have "validate_journal (Some ''manual'') (j_lines (demo_header\<lparr>j_lines := demo_lines\<rparr>)) demo_ledger = []"
    by code_simp
  from reversal_ignores_reclassification [OF this] show ?thesis by (simp add: reversal_header_def)
qed

text \<open>
  No stored header is saved into \<open>Posted\<close> past strict budget control: every debit line on an account
  under a STRICT rule has an appropriation, and alone it fits in what the approved amount leaves
  after the cached expenditure and commitments.  A header that is inserted as \<open>Posted\<close>, as payroll,
  depreciation and the year-end close do, has no lines yet when the receiver runs and passes unchecked.
\<close>

theorem posting_respects_strict_rules:
  assumes "save_journal fs j s = Inr s'" and "j_status j = J_Posted"
    and "journal_of (j_id j) s = Some old" and "j_status old \<noteq> J_Posted"
    and "l \<in> set (j_lines old)" and "0 < l_debit l" and "0 \<le> l_credit l"
    and "account_of (l_account l) s = Some acct"
    and "resolve_rule_for_account (ac_code acct) s = Some r" and "cr_level r = ''STRICT''"
  shows "\<exists>a. line_appropriation j l s = Some a
    \<and> l_debit l + opt_amount (ap_cached_expended a) + opt_amount (ap_cached_committed a) \<le> ap_amount a"
proof -
  have "enforce_budget_on_journal_post (Some old) j s = Inr ()"
    using assms(1,3) by (auto simp: save_journal_def Let_def rbind_eq_Inr split: if_splits)
  then have "\<not> line_violates j l s"
    using assms(2,4,5) by (auto simp: enforce_budget_on_journal_post_def list_ex_iff split: if_splits)
  then have "\<not> ck_blocked (check_policy (ac_code acct) (line_appropriation j l s) (Some (l_debit l)) s)"
    using assms(6-9) by (simp add: line_violates_def Let_def)
  then show ?thesis
    using assms(9,10)
    by (auto simp: check_policy_blocked_iff effective_level_def add.assoc split: option.splits)
qed

definition demo_strict :: budget_state where
  "demo_strict = demo_state\<lparr>budget_periods := [demo_budget_period],
     accounts := accounts demo_state @ [demo_account 3 ''41010100'' AT_Liability],
     appropriations := [(hd (appropriations demo_state))\<lparr>ap_cached_committed := Some 0, ap_cached_expended := Some 0\<rparr>],
     commitments := [],
     journals := [demo_header\<lparr>j_id := 1, j_fund := Some 1,
       j_lines := [\<lparr>l_account = 1, l_debit = 600, l_credit = 0, l_ncoa = None, l_asset = None\<rparr>,
                   \<lparr>l_account = 1, l_debit = 600, l_credit = 0, l_ncoa = None, l_asset = None\<rparr>,
                   \<lparr>l_account = 3, l_debit = 0, l_credit = 1200, l_ncoa = None, l_asset = None\<rparr>]\<rparr>]\<rparr>"

theorem posting_respects_strict_rules_witness:
  "\<exists>a. line_appropriation (the (journal_of 1 demo_strict)) (hd (j_lines (the (journal_of 1 demo_strict)))) demo_strict
     = Some a \<and> 600 \<le> ap_amount a"
proof -
  let ?old = "the (journal_of 1 demo_strict)"
  let ?l = "hd (j_lines ?old)"
  let ?j = "?old\<lparr>j_status := J_Posted\<rparr>"
  have "save_journal (Some [F_status]) ?j demo_strict = Inr (projr (save_journal (Some [F_status]) ?j demo_strict))"
    "j_status ?j = J_Posted" "journal_of (j_id ?j) demo_strict = Some ?old" "j_status ?old \<noteq> J_Posted"
    "?l \<in> set (j_lines ?old)" "0 < l_debit ?l" "0 \<le> l_credit ?l"
    "account_of (l_account ?l) demo_strict = Some (hd (accounts demo_strict))"
    "resolve_rule_for_account (ac_code (hd (accounts demo_strict))) demo_strict = Some (hd (check_rules demo_strict))"
    "cr_level (hd (check_rules demo_strict)) = ''STRICT''"
    by code_simp+
  from posting_respects_strict_rules [OF this] obtain a where
    "line_appropriation ?j ?l demo_strict = Some a"
    "l_debit ?l + opt_amount (ap_cached_expended a) + opt_amount (ap_cached_committed a) \<le> ap_amount a" by blast
  moreover have "line_appropriation ?j ?l demo_strict = line_appropriation ?old ?l demo_strict"
    by (simp add: line_appropriation_def)
  moreover have "line_appropriation ?old ?l demo_strict = Some (hd (appropriations demo_strict))"
    "l_debit ?l = 600" "opt_amount (ap_cached_expended (hd (appropriations demo_strict))) = 0"
    "opt_amount (ap_cached_committed (hd (appropriations demo_strict))) = 0"
    by code_simp+
  ultimately show ?thesis by auto
qed

text \<open>
  The check is made line by line against the same cached totals, so a journal can overdraw a
  strictly controlled appropriation: with 1000 approved and nothing spent, one journal with two
  debit lines of 600 posts, and the refreshed line has 200 less than nothing left.
\<close>

theorem strict_control_is_per_line:
  "\<exists>s' a. post_journal 1 (Some 9) False demo_strict = Inr s'
     \<and> find_row ap_id 1 (appropriations demo_strict) = Some a \<and> appropriation_available a = 1000
     \<and> (\<exists>b. find_row ap_id 1 (appropriations s') = Some b \<and> appropriation_available b = - 200)"
proof -
  let ?s = "projr (post_journal 1 (Some 9) False demo_strict)"
  let ?a = "hd (appropriations demo_strict)" and ?b = "hd (appropriations ?s)"
  have "post_journal 1 (Some 9) False demo_strict = Inr ?s"
    "find_row ap_id 1 (appropriations demo_strict) = Some ?a" "appropriation_available ?a = 1000"
    "find_row ap_id 1 (appropriations ?s) = Some ?b" "appropriation_available ?b = - 200"
    by code_simp+
  then show ?thesis by blast
qed

end
