(* ===== verification/ContractData.thy ===== *)
theory ContractData
  imports Ledger
begin

text \<open>
  The contract register (\<^verbatim>\<open>contracts/models/\<close>): contracts, their balance row with the constraints
  and the trigger of \<^verbatim>\<open>contracts/migrations/0002_contract_balance_trigger.py\<close>, year plans,
  milestones, measurement books, payment certificates (IPCs), mobilization advances, retention
  releases, variations, completion certificates and the approval trail, together with the
  methods of these models and the numbering service.  Titles, narratives, documents and
  timestamps are not modelled.
\<close>

section \<open>Statuses\<close>

datatype contract_status = CS_DRAFT | CS_ACTIVATED | CS_IN_PROGRESS | CS_PRACTICAL_COMPLETION
  | CS_DEFECTS_LIABILITY | CS_FINAL_COMPLETION | CS_CLOSED

datatype ipc_status = IPC_DRAFT | IPC_SUBMITTED | IPC_CERTIFIER_REVIEWED | IPC_APPROVED
  | IPC_VOUCHER_RAISED | IPC_PAID | IPC_REJECTED

datatype variation_status = VS_DRAFT | VS_SUBMITTED | VS_REVIEWED | VS_APPROVED | VS_REJECTED

datatype variation_type = ADDITION | OMISSION | SUBSTITUTION | EXTENSION_OF_TIME

datatype approval_tier = TIER_LOCAL | TIER_BOARD | TIER_BPP_REQUIRED

datatype mb_status = MB_DRAFT | MB_SUBMITTED | MB_APPROVED | MB_REJECTED

datatype mob_status = MP_PENDING | MP_APPROVED | MP_CANCELLED | MP_PAID | MP_PARTIALLY_RECOVERED
  | MP_FULLY_RECOVERED

datatype release_status = RR_PENDING | RR_APPROVED | RR_PAID | RR_REJECTED

datatype milestone_status = MS_PENDING | MS_IN_PROGRESS | MS_COMPLETED | MS_INVOICED | MS_WAIVED

datatype certificate_type = CT_PRACTICAL | CT_DEFECTS_LIABILITY | CT_FINAL

datatype approval_action = ACT_APPROVE | ACT_REJECT | ACT_REQUEST_INFO | ACT_ESCALATE | ACT_CERTIFY
  | ACT_VERIFY

datatype approval_object = OT_IPC | OT_VARIATION | OT_COMPLETION | OT_MOBILIZATION | OT_RETENTION
  | OT_CONTRACT

fun contract_next :: "contract_status \<Rightarrow> contract_status list" where
  "contract_next CS_DRAFT = [CS_ACTIVATED]"
| "contract_next CS_ACTIVATED = [CS_IN_PROGRESS]"
| "contract_next CS_IN_PROGRESS = [CS_PRACTICAL_COMPLETION]"
| "contract_next CS_PRACTICAL_COMPLETION = [CS_DEFECTS_LIABILITY]"
| "contract_next CS_DEFECTS_LIABILITY = [CS_FINAL_COMPLETION]"
| "contract_next CS_FINAL_COMPLETION = [CS_CLOSED]"
| "contract_next CS_CLOSED = []"

fun ipc_next :: "ipc_status \<Rightarrow> ipc_status list" where
  "ipc_next IPC_DRAFT = [IPC_SUBMITTED]"
| "ipc_next IPC_SUBMITTED = [IPC_CERTIFIER_REVIEWED, IPC_REJECTED]"
| "ipc_next IPC_CERTIFIER_REVIEWED = [IPC_APPROVED, IPC_REJECTED]"
| "ipc_next IPC_APPROVED = [IPC_VOUCHER_RAISED]"
| "ipc_next IPC_VOUCHER_RAISED = [IPC_PAID]"
| "ipc_next IPC_PAID = []"
| "ipc_next IPC_REJECTED = [IPC_DRAFT]"

fun variation_next :: "variation_status \<Rightarrow> variation_status list" where
  "variation_next VS_DRAFT = [VS_SUBMITTED]"
| "variation_next VS_SUBMITTED = [VS_REVIEWED, VS_REJECTED]"
| "variation_next VS_REVIEWED = [VS_APPROVED, VS_REJECTED]"
| "variation_next VS_APPROVED = []"
| "variation_next VS_REJECTED = [VS_DRAFT]"

section \<open>Rows\<close>

record vendor = vendor_info +
  ve_withholding :: "nat option"
  ve_wht_exempt :: bool

record contract =
  co_id :: nat
  co_number :: string
  co_type :: string
  co_status :: contract_status
  co_vendor :: nat
  co_mda :: nat
  co_ncoa :: nat
  co_appropriation :: "nat option"
  co_fiscal_year :: nat
  co_sum :: rat
  co_mob_rate :: rat
  co_ret_rate :: rat
  co_signed :: "date option"
  co_start :: "date option"
  co_end :: "date option"

record contract_balance =
  cb_contract :: nat
  cb_ceiling :: rat
  cb_certified :: rat
  cb_submitted :: rat \<comment> \<open>\<^verbatim>\<open>last_cumulative_submitted\<close>\<close>
  cb_pending :: rat
  cb_paid :: rat
  cb_mob_paid :: rat
  cb_mob_recovered :: rat
  cb_ret_held :: rat
  cb_ret_released :: rat
  cb_version :: int

record year_plan =
  yp_contract :: nat
  yp_fiscal_year :: nat
  yp_appropriation :: "nat option"
  yp_planned :: rat
  yp_carried :: rat
  yp_sequence :: nat

record milestone =
  ms_id :: nat
  ms_contract :: nat
  ms_number :: nat
  ms_value :: rat
  ms_weight :: rat
  ms_status :: milestone_status
  ms_completed :: "date option"
  ms_lines :: "(nat \<times> rat) list" \<comment> \<open>the coding lines: account and amount\<close>

text \<open>An entry of the JSON list \<^verbatim>\<open>items\<close>: not an object, an object with an amount, or one whose amount does not parse.\<close>

datatype mb_item = MB_skip | MB_amount rat | MB_malformed

record measurement_book =
  mb_id :: nat
  mb_contract :: nat
  mb_items :: "mb_item list"
  mb_total :: rat
  mb_status :: mb_status

record ipc =
  ip_id :: nat
  ip_contract :: nat
  ip_number :: string
  ip_mb :: "nat option"
  ip_milestone :: "nat option"
  ip_tax_code :: "nat option"
  ip_withholding :: "nat option"
  ip_wht_exempt :: bool
  ip_date :: date
  ip_cumulative :: rat
  ip_previous :: rat
  ip_gross :: rat
  ip_recovery :: rat
  ip_retention :: rat
  ip_ld :: rat
  ip_variation :: rat
  ip_vat :: rat
  ip_wht :: rat
  ip_net :: rat
  ip_status :: ipc_status
  ip_engineer :: "nat option"
  ip_hash :: string
  ip_accrual :: "nat option"
  ip_voucher :: "nat option"

record mobilization =
  mo_id :: nat
  mo_contract :: nat
  mo_amount :: rat
  mo_voucher :: "nat option"
  mo_date :: "date option"
  mo_status :: mob_status

record retention_release =
  rr_id :: nat
  rr_contract :: nat
  rr_type :: string
  rr_amount :: rat
  rr_voucher :: "nat option"
  rr_date :: "date option"
  rr_status :: release_status
  rr_accrual :: "nat option"
  rr_approved_by :: "nat option"
  rr_updated :: date

record variation =
  va_id :: nat
  va_contract :: nat
  va_number :: nat
  va_type :: variation_type
  va_status :: variation_status
  va_tier :: approval_tier
  va_amount :: rat
  va_bpp :: string
  va_approved_by :: "nat option"

record completion =
  ce_id :: nat
  ce_contract :: nat
  ce_type :: certificate_type
  ce_issued :: date
  ce_effective :: date

record approval_step =
  as_type :: approval_object
  as_object :: nat
  as_contract :: nat
  as_number :: nat
  as_role :: string
  as_action :: approval_action
  as_by :: nat

record treasury_account =
  ta_id :: nat
  ta_number :: string
  ta_type :: string
  ta_mda :: "nat option"
  ta_active :: bool

record sys = budget_state +
  require_warrant :: bool \<comment> \<open>\<^verbatim>\<open>warrant_enforcement_enabled()\<close>\<close>
  vendors :: "vendor list"
  tax_rates :: "(nat \<times> rat) list"
  wht_rates :: "(nat \<times> rat) list"
  treasury_accounts :: "treasury_account list"
  contracts :: "contract list"
  balances :: "contract_balance list"
  year_plans :: "year_plan list"
  milestones :: "milestone list"
  mbooks :: "measurement_book list"
  ipcs :: "ipc list"
  mobs :: "mobilization list"
  releases :: "retention_release list"
  variations :: "variation list"
  completions :: "completion list"
  steps :: "approval_step list"
  cascade_failures :: "(nat \<times> bool) list" \<comment> \<open>IPC and \<^verbatim>\<open>resolved\<close>\<close>
  status_verifications :: "(nat \<times> int) list" \<comment> \<open>vendor and year\<close>

section \<open>The contract\<close>

definition contract_of :: "nat \<Rightarrow> sys \<Rightarrow> contract option" where
  "contract_of k s = find_row co_id k (contracts s)"

definition mobilization_amount :: "contract \<Rightarrow> rat" where
  "mobilization_amount c = quantize_currency (co_sum c * co_mob_rate c / 100)"

definition approved_variations_total :: "nat \<Rightarrow> sys \<Rightarrow> rat" where
  "approved_variations_total k s =
     quantize_currency (sum_amounts va_amount (\<lambda>v. va_contract v = k \<and> va_status v = VS_APPROVED) (variations s))"

definition retention_reserve :: "contract \<Rightarrow> rat" where
  "retention_reserve c = quantize_currency (co_sum c * co_ret_rate c / 100)"

definition contract_ceiling :: "contract \<Rightarrow> sys \<Rightarrow> rat" where
  "contract_ceiling c s =
     quantize_currency (co_sum c + approved_variations_total (co_id c) s - retention_reserve c)"

definition contract_transition :: "contract \<Rightarrow> contract_status \<Rightarrow> sys \<Rightarrow> err + sys" where
  \<comment> \<open>\<^verbatim>\<open>Contract.transition_to\<close> on the caller's instance; only the status column is written\<close>
  "contract_transition c new s =
     (if new \<notin> set (contract_next (co_status c)) then Inl ValidationError
      else if contract_of (co_id c) s = None then Inl DatabaseError
      else Inr (s\<lparr>contracts := upd_row co_id (co_id c) (\<lambda>r. r\<lparr>co_status := new\<rparr>) (contracts s)\<rparr>))"

definition contract_clean :: "contract \<Rightarrow> err + unit" where
  "contract_clean c =
     (case (co_start c, co_end c) of
        (Some a, Some b) \<Rightarrow> if b < a then Inl ValidationError else Inr ()
      | _ \<Rightarrow> Inr ())"

section \<open>Numbering\<close>

definition lstrip :: "string \<Rightarrow> string \<Rightarrow> string" where
  \<comment> \<open>\<^verbatim>\<open>s.lstrip(chars)\<close>\<close>
  "lstrip cs s = dropWhile (\<lambda>c. c \<in> set cs) s"

definition next_contract_number :: "string \<Rightarrow> int \<Rightarrow> sys \<Rightarrow> string \<times> sys" where
  "next_contract_number ty year s =
     (let (raw, s') = sequence_next (''contracts_contract_'' @ ty @ ''_'' @ show_int year) [] s;
          n = (case parse_int (after_last_dash (lstrip ''PV-'' (lstrip ''-'' raw))) of Some i \<Rightarrow> i | None \<Rightarrow> 1)
      in (''DSG/'' @ ty @ ''/'' @ show_int year @ ''/'' @ zpad 3 (nat n), s'))"

definition next_ipc_number :: "contract \<Rightarrow> sys \<Rightarrow> string" where
  "next_ipc_number c s =
     co_number c @ ''/IPC/'' @ zpad 2 (Suc (length (filter (\<lambda>i. ip_contract i = co_id c) (ipcs s))))"

definition next_variation_number :: "contract \<Rightarrow> sys \<Rightarrow> nat" where
  "next_variation_number c s = Suc (length (filter (\<lambda>v. va_contract v = co_id c) (variations s)))"

definition contract_checks :: "contract \<Rightarrow> bool" where
  \<comment> \<open>the CHECK constraints of the table\<close>
  "contract_checks c \<longleftrightarrow> 0 < co_sum c \<and> 0 \<le> co_mob_rate c \<and> co_mob_rate c \<le> 30
     \<and> 0 \<le> co_ret_rate c \<and> co_ret_rate c \<le> 20"

definition year_of_contract :: "contract \<Rightarrow> sys \<Rightarrow> int" where
  "year_of_contract c s =
     (case find_row fy_id (co_fiscal_year c) (fiscal_years s) of
        Some f \<Rightarrow> if fy_year f = 0 then int (co_fiscal_year c) else fy_year f
      | None \<Rightarrow> int (co_fiscal_year c))"

definition insert_contract :: "contract \<Rightarrow> sys \<Rightarrow> err + (nat \<times> sys)" where
  \<comment> \<open>the first \<^verbatim>\<open>Contract.save()\<close>: the number is drawn from the sequence when blank\<close>
  "insert_contract c s =
     (let (num, s1) = (if co_number c = [] \<and> co_type c \<noteq> [] \<and> year_of_contract c s \<noteq> 0
                       then next_contract_number (co_type c) (year_of_contract c s) s
                       else (co_number c, s));
          k = fresh_pk co_id (contracts s);
          row = c\<lparr>co_id := k, co_number := num, co_sum := db_decimal (co_sum c),
                  co_mob_rate := db_decimal (co_mob_rate c), co_ret_rate := db_decimal (co_ret_rate c)\<rparr>
      in if \<not> contract_checks row \<or> num \<in> co_number ` set (contracts s) then Inl IntegrityError
         else Inr (k, s1\<lparr>contracts := contracts s @ [row]\<rparr>))"

section \<open>The balance row\<close>

definition balance_of :: "nat \<Rightarrow> sys \<Rightarrow> contract_balance option" where
  "balance_of k s = find_row cb_contract k (balances s)"

definition get_balance :: "nat \<Rightarrow> sys \<Rightarrow> err + contract_balance" where
  \<comment> \<open>\<^verbatim>\<open>ContractBalance.objects.select_for_update().get(pk=k)\<close>\<close>
  "get_balance k s = (case balance_of k s of None \<Rightarrow> Inl DoesNotExist | Some b \<Rightarrow> Inr b)"

definition balance_guard :: "contract_balance option \<Rightarrow> contract_balance \<Rightarrow> bool" where
  \<comment> \<open>the trigger \<^verbatim>\<open>contracts_balance_guard\<close>: \<open>OLD\<close> is absent on INSERT\<close>
  "balance_guard old new \<longleftrightarrow>
     cb_paid new \<le> cb_certified new
     \<and> cb_certified new + cb_pending new \<le> cb_ceiling new
     \<and> cb_mob_recovered new \<le> cb_mob_paid new
     \<and> cb_ret_released new \<le> cb_ret_held new
     \<and> (case old of Some b \<Rightarrow> cb_version b < cb_version new | None \<Rightarrow> True)"

definition balance_checks :: "contract_balance \<Rightarrow> bool" where
  \<comment> \<open>the CHECK constraints of \<^verbatim>\<open>ContractBalance.Meta\<close>\<close>
  "balance_checks b \<longleftrightarrow> 0 \<le> cb_certified b \<and> 0 \<le> cb_paid b \<and> cb_paid b \<le> cb_certified b
     \<and> cb_mob_recovered b \<le> cb_mob_paid b \<and> cb_ret_released b \<le> cb_ret_held b \<and> 0 < cb_ceiling b"

definition round_balance :: "contract_balance \<Rightarrow> contract_balance" where
  \<comment> \<open>the columns are \<^verbatim>\<open>numeric(20,2)\<close>\<close>
  "round_balance b = b\<lparr>cb_ceiling := db_decimal (cb_ceiling b), cb_certified := db_decimal (cb_certified b),
     cb_submitted := db_decimal (cb_submitted b), cb_pending := db_decimal (cb_pending b),
     cb_paid := db_decimal (cb_paid b), cb_mob_paid := db_decimal (cb_mob_paid b),
     cb_mob_recovered := db_decimal (cb_mob_recovered b), cb_ret_held := db_decimal (cb_ret_held b),
     cb_ret_released := db_decimal (cb_ret_released b)\<rparr>"

definition insert_balance :: "contract_balance \<Rightarrow> sys \<Rightarrow> err + sys" where
  "insert_balance b s =
     (let new = round_balance b
      in if balance_of (cb_contract b) s \<noteq> None \<or> \<not> balance_guard None new \<or> \<not> balance_checks new
         then Inl IntegrityError else Inr (s\<lparr>balances := balances s @ [new]\<rparr>))"

definition written :: "nat \<Rightarrow> (contract_balance \<Rightarrow> contract_balance) \<Rightarrow> contract_balance \<Rightarrow> contract_balance" where
  \<comment> \<open>the row an UPDATE stores: \<open>f\<close> writes the named columns, \<^verbatim>\<open>version=F('version') + 1\<close>\<close>
  "written k f b = (round_balance (f b))\<lparr>cb_contract := k, cb_version := cb_version b + 1\<rparr>"

definition update_balance :: "nat \<Rightarrow> (contract_balance \<Rightarrow> contract_balance) \<Rightarrow> sys \<Rightarrow> err + sys" where
  \<comment> \<open>\<^verbatim>\<open>ContractBalance.objects.filter(pk=k).update(...)\<close>, the only way the services write the row\<close>
  "update_balance k f s =
     (case balance_of k s of
        None \<Rightarrow> Inr s
      | Some b \<Rightarrow>
          if balance_guard (Some b) (written k f b) \<and> balance_checks (written k f b)
          then Inr (s\<lparr>balances := put_row cb_contract (written k f b) (balances s)\<rparr>)
          else Inl IntegrityError)"

definition available_for_certification :: "contract_balance \<Rightarrow> rat" where
  "available_for_certification b = max 0 (cb_ceiling b - cb_certified b - cb_pending b)"

definition mobilization_outstanding :: "contract_balance \<Rightarrow> rat" where
  "mobilization_outstanding b = max 0 (cb_mob_paid b - cb_mob_recovered b)"

definition retention_balance :: "contract_balance \<Rightarrow> rat" where
  "retention_balance b = max 0 (cb_ret_held b - cb_ret_released b)"

section \<open>The approval trail\<close>

definition record_step ::
    "approval_object \<Rightarrow> nat \<Rightarrow> nat \<Rightarrow> string \<Rightarrow> approval_action \<Rightarrow> nat \<Rightarrow> sys \<Rightarrow> sys" where
  "record_step ty i k role act user s =
     s\<lparr>steps := steps s @
        [\<lparr>as_type = ty, as_object = i, as_contract = k,
          as_number = Suc (length (filter (\<lambda>a. as_type a = ty \<and> as_object a = i) (steps s))),
          as_role = role, as_action = act, as_by = user\<rparr>]\<rparr>"

section \<open>Measurement books\<close>

fun item_total :: "mb_item list \<Rightarrow> err + rat" where
  "item_total [] = Inr 0"
| "item_total (MB_skip # xs) = item_total xs"
| "item_total (MB_malformed # xs) = Inl InvalidOperation"
| "item_total (MB_amount a # xs) = rbind (item_total xs) (\<lambda>t. Inr (a + t))"

definition save_measurement_book :: "measurement_book \<Rightarrow> bool \<Rightarrow> sys \<Rightarrow> err + sys" where
  \<comment> \<open>\<^verbatim>\<open>MeasurementBook.save()\<close> of an existing row; \<open>status_only\<close> is the \<^verbatim>\<open>update_fields\<close> of a status change,
      which recomputes the total of the instance but writes the status alone\<close>
  "save_measurement_book m status_only s =
     (if \<not> status_only \<and> (\<exists>i \<in> set (ipcs s). ip_mb i = Some (mb_id m) \<and> ip_status i \<notin> {IPC_DRAFT, IPC_REJECTED})
      then Inl ValueError
      else rbind (item_total (mb_items m))
        (\<lambda>t. Inr (s\<lparr>mbooks := upd_row mb_id (mb_id m)
                    (\<lambda>r. if status_only then r\<lparr>mb_status := mb_status m\<rparr>
                         else m\<lparr>mb_total := quantize_currency t\<rparr>) (mbooks s)\<rparr>)))"

section \<open>Payment certificates\<close>

definition compute_net_payable :: "ipc \<Rightarrow> rat" where
  "compute_net_payable i =
     quantize_currency (ip_gross i - ip_recovery i - ip_retention i - ip_ld i + ip_variation i + ip_vat i - ip_wht i)"

definition show_date :: "date \<Rightarrow> string" where
  "show_date d = zpad 4 (nat (d_year d)) @ ''-'' @ zpad 2 (nat (d_month d)) @ ''-'' @ zpad 2 (nat (d_day d))"

definition integrity_raw :: "ipc \<Rightarrow> string" where
  "integrity_raw i = show_nat (ip_contract i) @ ''|'' @ show_date (ip_date i) @ ''|'' @ show_money (ip_cumulative i)"

definition ipc_checks :: "ipc \<Rightarrow> bool" where
  "ipc_checks i \<longleftrightarrow> 0 \<le> ip_cumulative i \<and> 0 \<le> ip_gross i \<and> 0 \<le> ip_net i \<and> 0 \<le> ip_recovery i
     \<and> 0 \<le> ip_retention i \<and> 0 \<le> ip_ld i"

definition hash_active :: "ipc \<Rightarrow> bool" where
  \<comment> \<open>the rows of the partial index \<^verbatim>\<open>contracts_ipc_unique_active_hash\<close>\<close>
  "hash_active i \<longleftrightarrow> ip_status i \<notin> {IPC_REJECTED, IPC_DRAFT}"

definition ipc_unique :: "ipc \<Rightarrow> ipc list \<Rightarrow> bool" where
  \<comment> \<open>the partial index, \<^verbatim>\<open>unique_together\<close> and the one-to-one column \<^verbatim>\<open>milestone\<close>\<close>
  "ipc_unique i rows \<longleftrightarrow>
     (\<forall>k \<in> set rows. ip_id k \<noteq> ip_id i \<longrightarrow>
        (hash_active i \<and> hash_active k \<longrightarrow> ip_hash k \<noteq> ip_hash i)
        \<and> \<not> (ip_contract k = ip_contract i \<and> ip_number k = ip_number i)
        \<and> (ip_milestone i \<noteq> None \<longrightarrow> ip_milestone k \<noteq> ip_milestone i))"

definition insert_ipc :: "(string \<Rightarrow> string) \<Rightarrow> ipc \<Rightarrow> sys \<Rightarrow> err + (nat \<times> sys)" where
  \<comment> \<open>the first \<^verbatim>\<open>save()\<close>; \<open>sha256\<close> is the hexadecimal digest of \<^verbatim>\<open>hashlib\<close>\<close>
  "insert_ipc sha256 i s =
     (let k = fresh_pk ip_id (ipcs s);
          row = i\<lparr>ip_id := k, ip_net := compute_net_payable i,
                  ip_hash := (if ip_hash i = [] then sha256 (integrity_raw i) else ip_hash i)\<rparr>
      in if ipc_checks row \<and> ipc_unique row (ipcs s) then Inr (k, s\<lparr>ipcs := ipcs s @ [row]\<rparr>)
         else Inl IntegrityError)"

definition update_ipc :: "nat \<Rightarrow> (ipc \<Rightarrow> ipc) \<Rightarrow> sys \<Rightarrow> err + sys" where
  \<comment> \<open>\<^verbatim>\<open>save(update_fields=[...])\<close>; \<open>f\<close> writes the named columns\<close>
  "update_ipc k f s =
     (case find_row ip_id k (ipcs s) of
        None \<Rightarrow> Inl DatabaseError
      | Some r \<Rightarrow>
          if ipc_checks (f r) \<and> ipc_unique (f r) (ipcs s)
          then Inr (s\<lparr>ipcs := put_row ip_id ((f r)\<lparr>ip_id := k\<rparr>) (ipcs s)\<rparr>)
          else Inl IntegrityError)"

definition ipc_transition :: "ipc \<Rightarrow> ipc_status \<Rightarrow> sys \<Rightarrow> err + sys" where
  \<comment> \<open>\<^verbatim>\<open>transition_to\<close> on the caller's instance\<close>
  "ipc_transition i new s =
     (if new \<notin> set (ipc_next (ip_status i)) then Inl ValidationError
      else update_ipc (ip_id i) (\<lambda>r. r\<lparr>ip_status := new\<rparr>) s)"

section \<open>Vouchers\<close>

definition live_voucher :: "voucher \<Rightarrow> bool" where
  \<comment> \<open>the rows of \<^verbatim>\<open>uniq_live_pv_source_document\<close>\<close>
  "live_voucher v \<longleftrightarrow> pv_source_document v \<noteq> [] \<and> pv_status v \<notin> {''CANCELLED'', ''REVERSED''}"

definition insert_voucher :: "voucher \<Rightarrow> sys \<Rightarrow> err + (nat \<times> sys)" where
  \<comment> \<open>the first \<^verbatim>\<open>PaymentVoucherGov.save()\<close>: the net is the gross less the withholding\<close>
  "insert_voucher v s =
     (let k = fresh_pk pv_id (vouchers s); row = v\<lparr>pv_id := k, pv_net := pv_gross v - pv_wht v\<rparr>
      in if pv_number row \<in> pv_number ` set (vouchers s)
            \<or> live_voucher row \<and> (\<exists>x \<in> set (vouchers s). live_voucher x \<and> pv_source_document x = pv_source_document row)
         then Inl IntegrityError else Inr (k, s\<lparr>vouchers := vouchers s @ [row]\<rparr>))"

definition ordered_tsa :: "sys \<Rightarrow> treasury_account list" where
  \<comment> \<open>\<^verbatim>\<open>ordering = ['account_type', 'account_number']\<close>\<close>
  "ordered_tsa s = sort_key ta_type (sort_key ta_number (treasury_accounts s))"

end
