(* ===== verification/ContractBalance.thy ===== *)
theory ContractBalance
  imports ContractData
begin

text \<open>
  What a write to the balance row guarantees.  The interface \<open>guarded_row\<close> is what the contract
  services rely on: a committed write leaves the row within its constraints, raises its version
  and touches no other row.  Its interpretation proves this of \<open>update_balance\<close>, that is, of the
  trigger and the CHECK constraints.
\<close>

section \<open>The interface\<close>

locale guarded_row =
  fixes lookup :: "'k \<Rightarrow> 's \<Rightarrow> 'b option"
    and store :: "'k \<Rightarrow> ('b \<Rightarrow> 'b) \<Rightarrow> 's \<Rightarrow> err + 's"
    and ok :: "'b \<Rightarrow> bool"
    and version :: "'b \<Rightarrow> int"
  assumes store_ok: "store k f s = Inr s' \<Longrightarrow> lookup k s = Some b \<Longrightarrow>
      \<exists>b'. lookup k s' = Some b' \<and> ok b' \<and> version b < version b'"
    and store_other: "store k f s = Inr s' \<Longrightarrow> j \<noteq> k \<Longrightarrow> lookup j s' = lookup j s"
    and store_none: "lookup k s = None \<Longrightarrow> store k f s = Inr s' \<Longrightarrow> lookup k s' = None"
begin

definition all_ok :: "'s \<Rightarrow> bool" where
  "all_ok s \<longleftrightarrow> (\<forall>k b. lookup k s = Some b \<longrightarrow> ok b)"

definition stores :: "('k \<times> ('b \<Rightarrow> 'b)) list \<Rightarrow> 's \<Rightarrow> err + 's" where
  "stores ws s = rfold (\<lambda>(k, f). store k f) ws s"

lemma store_all_ok: "store k f s = Inr s' \<Longrightarrow> all_ok s \<Longrightarrow> all_ok s'"
  unfolding all_ok_def
  by (metis (no_types, lifting) not_None_eq option.inject store_none store_ok store_other)

lemma store_version:
  assumes "store k f s = Inr s'" and "lookup j s = Some b"
  shows "\<exists>b'. lookup j s' = Some b' \<and> version b \<le> version b'"
proof (cases "j = k")
  case True
  then show ?thesis using store_ok [OF assms(1)] assms(2) by fastforce
next
  case False
  then show ?thesis using store_other [OF assms(1) False] assms(2) by simp
qed

lemma stores_all_ok: "stores ws s = Inr s' \<Longrightarrow> all_ok s \<Longrightarrow> all_ok s'"
  unfolding stores_def by (rule rfold_invariant) (auto intro: store_all_ok)

lemma stores_version:
  assumes "stores ws s = Inr s'" and "lookup j s = Some b"
  shows "\<exists>b'. lookup j s' = Some b' \<and> version b \<le> version b'"
  using assms unfolding stores_def
proof (induction ws arbitrary: s b)
  case (Cons w ws)
  obtain k f where w: "w = (k, f)" by (cases w)
  with Cons.prems obtain s1 where s1: "store k f s = Inr s1" "rfold (\<lambda>(k, f). store k f) ws s1 = Inr s'"
    by (auto simp: rbind_eq_Inr)
  from store_version [OF s1(1) Cons.prems(2)] obtain b1 where "lookup j s1 = Some b1" "version b \<le> version b1"
    by blast
  with Cons.IH [OF s1(2)] show ?case by fastforce
qed simp

end

section \<open>The balance row\<close>

definition balance_money :: "contract_balance \<Rightarrow> bool" where
  "balance_money b \<longleftrightarrow> is_money (cb_ceiling b) \<and> is_money (cb_certified b) \<and> is_money (cb_submitted b)
     \<and> is_money (cb_pending b) \<and> is_money (cb_paid b) \<and> is_money (cb_mob_paid b)
     \<and> is_money (cb_mob_recovered b) \<and> is_money (cb_ret_held b) \<and> is_money (cb_ret_released b)"

definition balance_ok :: "contract_balance \<Rightarrow> bool" where
  "balance_ok b \<longleftrightarrow> balance_guard None b \<and> balance_checks b \<and> balance_money b"

lemma round_balance_sel [simp]:
  "cb_contract (round_balance b) = cb_contract b" "cb_ceiling (round_balance b) = db_decimal (cb_ceiling b)"
  "cb_certified (round_balance b) = db_decimal (cb_certified b)"
  "cb_submitted (round_balance b) = db_decimal (cb_submitted b)"
  "cb_pending (round_balance b) = db_decimal (cb_pending b)" "cb_paid (round_balance b) = db_decimal (cb_paid b)"
  "cb_mob_paid (round_balance b) = db_decimal (cb_mob_paid b)"
  "cb_mob_recovered (round_balance b) = db_decimal (cb_mob_recovered b)"
  "cb_ret_held (round_balance b) = db_decimal (cb_ret_held b)"
  "cb_ret_released (round_balance b) = db_decimal (cb_ret_released b)"
  "cb_version (round_balance b) = cb_version b"
  by (simp_all add: round_balance_def)

lemma balance_money_round [simp]: "balance_money (round_balance b)"
  by (simp add: balance_money_def)

lemma round_balance_id: "balance_money b \<Longrightarrow> round_balance b = b"
  by (simp add: round_balance_def balance_money_def)

definition balance_keys :: "sys \<Rightarrow> bool" where
  "balance_keys s \<longleftrightarrow> distinct (map cb_contract (balances s))"

lemma written_sel [simp]:
  "cb_contract (written k f b) = k" "cb_version (written k f b) = cb_version b + 1"
  "cb_ceiling (written k f b) = db_decimal (cb_ceiling (f b))"
  "cb_certified (written k f b) = db_decimal (cb_certified (f b))"
  "cb_submitted (written k f b) = db_decimal (cb_submitted (f b))"
  "cb_pending (written k f b) = db_decimal (cb_pending (f b))"
  "cb_paid (written k f b) = db_decimal (cb_paid (f b))"
  "cb_mob_paid (written k f b) = db_decimal (cb_mob_paid (f b))"
  "cb_mob_recovered (written k f b) = db_decimal (cb_mob_recovered (f b))"
  "cb_ret_held (written k f b) = db_decimal (cb_ret_held (f b))"
  "cb_ret_released (written k f b) = db_decimal (cb_ret_released (f b))"
  by (simp_all add: written_def)

lemma update_balanceD:
  assumes "update_balance k f s = Inr s'" and "balance_of k s = Some b"
  shows "balance_ok (written k f b) \<and> s' = s\<lparr>balances := put_row cb_contract (written k f b) (balances s)\<rparr>"
proof -
  have *: "(if balance_guard (Some b) (written k f b) \<and> balance_checks (written k f b)
      then Inr (s\<lparr>balances := put_row cb_contract (written k f b) (balances s)\<rparr>) else Inl IntegrityError) = Inr s'"
    using assms by (simp only: update_balance_def option.case)
  then have g: "balance_guard (Some b) (written k f b)" "balance_checks (written k f b)"
    by (auto split: if_splits)
  with * have "s' = s\<lparr>balances := put_row cb_contract (written k f b) (balances s)\<rparr>" by simp
  moreover have "balance_money (written k f b)" by (simp add: balance_money_def)
  ultimately show ?thesis using g by (simp add: balance_ok_def balance_guard_def)
qed

lemma update_balance_None: "balance_of k s = None \<Longrightarrow> update_balance k f s = Inr s"
  by (simp add: update_balance_def)

lemma balance_of_put:
  "balance_of j (s\<lparr>balances := put_row cb_contract b (balances s)\<rparr>) =
     (if j = cb_contract b \<and> balance_of j s \<noteq> None then Some b else balance_of j s)"
  by (auto simp: balance_of_def find_row_None_iff)

lemma balance_of_mem: "balance_of k s = Some b \<Longrightarrow> b \<in> set (balances s) \<and> cb_contract b = k"
  using find_row_SomeD by (fastforce simp: balance_of_def)

interpretation balance_row: guarded_row balance_of update_balance balance_ok cb_version
proof
  fix k f s s' b j
  assume w: "update_balance k f s = Inr s'"
  show "\<exists>b'. balance_of k s' = Some b' \<and> balance_ok b' \<and> cb_version b < cb_version b'"
    if "balance_of k s = Some b"
    using update_balanceD [OF w that] that by (simp add: balance_of_put)
  show "balance_of j s' = balance_of j s" if "j \<noteq> k"
    using update_balanceD [OF w] update_balance_None [of k s f] w that
    by (cases "balance_of k s") (auto simp: balance_of_put)
  show "balance_of k s' = None" if "balance_of k s = None"
    using update_balance_None [OF that] w that by simp
qed

lemma get_balance_Inr [simp, res_simps]: "get_balance k s = Inr b \<longleftrightarrow> balance_of k s = Some b"
  by (auto simp: get_balance_def split: option.splits)

lemma insert_balanceD:
  assumes "insert_balance b s = Inr s'"
  shows "balance_of (cb_contract b) s = None" "balance_ok (round_balance b)"
    "s' = s\<lparr>balances := balances s @ [round_balance b]\<rparr>"
  using assms by (auto simp: insert_balance_def Let_def balance_ok_def split: if_splits)

lemma balance_checks_ok [simp]:
  assumes "balance_ok b"
  shows "cb_paid b \<le> cb_certified b" "cb_certified b + cb_pending b \<le> cb_ceiling b"
    "cb_mob_recovered b \<le> cb_mob_paid b" "cb_ret_released b \<le> cb_ret_held b"
    "0 \<le> cb_certified b" "0 \<le> cb_paid b" "0 < cb_ceiling b"
  using assms by (simp_all add: balance_ok_def balance_guard_def balance_checks_def)

lemma balance_ok_money [simp]:
  assumes "balance_ok b"
  shows "is_money (cb_ceiling b)" "is_money (cb_certified b)" "is_money (cb_submitted b)"
    "is_money (cb_pending b)" "is_money (cb_paid b)" "is_money (cb_mob_paid b)"
    "is_money (cb_mob_recovered b)" "is_money (cb_ret_held b)" "is_money (cb_ret_released b)"
  using assms by (simp_all add: balance_ok_def balance_money_def)

section \<open>Writes to other tables\<close>

lemma record_step_frame [simp]:
  "ipcs (record_step ty i k role act u s) = ipcs s" "balances (record_step ty i k role act u s) = balances s"
  "contracts (record_step ty i k role act u s) = contracts s"
  "releases (record_step ty i k role act u s) = releases s" "mobs (record_step ty i k role act u s) = mobs s"
  "variations (record_step ty i k role act u s) = variations s"
  "milestones (record_step ty i k role act u s) = milestones s"
  "vouchers (record_step ty i k role act u s) = vouchers s"
  "vendor_invoices (record_step ty i k role act u s) = vendor_invoices s"
  "journals (record_step ty i k role act u s) = journals s"
  "gl_balances (record_step ty i k role act u s) = gl_balances s"
  "appropriations (record_step ty i k role act u s) = appropriations s"
  by (simp_all add: record_step_def)

end
