(* ===== verification/Envelope.thy ===== *)
theory Envelope
  imports ContractBalance
begin

text \<open>
  What the balance row of a contract promises, stated without its columns: an envelope with a
  ceiling, the part reserved by certificates under review and the part committed by approved
  work.  An envelope is allotted once; work is reserved, then committed or cancelled; an invoiced
  milestone is charged at once; the ceiling is resized.  \<open>evolves\<close> is the refinement: the rows of
  a register change as a list of such events says, applied to the envelope of one contract.
\<close>

record envelope =
  en_ceiling :: rat
  en_reserved :: rat
  en_committed :: rat

datatype envelope_event =
    Allot rat
  | Reserve rat
  | Cancel rat
  | Commit rat
  | Charge rat
  | Resize rat

definition env_when :: "bool \<Rightarrow> envelope \<Rightarrow> envelope option option" where
  "env_when g e = (if g then Some (Some e) else None)"

fun env_apply :: "envelope_event \<Rightarrow> envelope option \<Rightarrow> envelope option option" where
  \<comment> \<open>\<open>None\<close> for an event that is not allowed; a contract without an envelope has none to resize\<close>
  "env_apply (Allot c) None = env_when (0 \<le> c) \<lparr>en_ceiling = c, en_reserved = 0, en_committed = 0\<rparr>"
| "env_apply (Resize c) None = Some None"
| "env_apply (Reserve x) (Some e) =
     env_when (0 \<le> x \<and> en_committed e + en_reserved e + x \<le> en_ceiling e) (e\<lparr>en_reserved := en_reserved e + x\<rparr>)"
| "env_apply (Cancel x) (Some e) = env_when (0 \<le> x \<and> x \<le> en_reserved e) (e\<lparr>en_reserved := en_reserved e - x\<rparr>)"
| "env_apply (Commit x) (Some e) =
     env_when (0 \<le> x \<and> x \<le> en_reserved e) (e\<lparr>en_reserved := en_reserved e - x, en_committed := en_committed e + x\<rparr>)"
| "env_apply (Charge x) (Some e) =
     env_when (0 \<le> x \<and> en_committed e + en_reserved e + x \<le> en_ceiling e) (e\<lparr>en_committed := en_committed e + x\<rparr>)"
| "env_apply (Resize c) (Some e) = env_when (en_committed e + en_reserved e \<le> c) (e\<lparr>en_ceiling := c\<rparr>)"
| "env_apply _ _ = None"

fun env_run :: "envelope_event list \<Rightarrow> envelope option \<Rightarrow> envelope option option" where
  "env_run [] e = Some e"
| "env_run (v # vs) e = (case env_apply v e of None \<Rightarrow> None | Some e' \<Rightarrow> env_run vs e')"

lemma env_run_append: "env_run (vs @ ws) e = (case env_run vs e of None \<Rightarrow> None | Some e' \<Rightarrow> env_run ws e')"
  by (induction vs arbitrary: e) (auto split: option.split)

section \<open>What the events promise\<close>

definition envelope_ok :: "envelope \<Rightarrow> bool" where
  "envelope_ok e \<longleftrightarrow> 0 \<le> en_reserved e \<and> 0 \<le> en_committed e \<and> en_committed e + en_reserved e \<le> en_ceiling e"

lemma env_apply_ok: "env_apply v e = Some (Some e') \<Longrightarrow> pred_option envelope_ok e \<Longrightarrow> envelope_ok e'"
  by (induction v e rule: env_apply.induct) (auto simp: envelope_ok_def env_when_def split: if_splits)

lemma env_run_ok: "env_run vs e = Some e' \<Longrightarrow> pred_option envelope_ok e \<Longrightarrow> pred_option envelope_ok e'"
proof (induction vs arbitrary: e)
  case (Cons v vs)
  then obtain e1 where 1: "env_apply v e = Some e1" "env_run vs e1 = Some e'" by (auto split: option.splits)
  have "pred_option envelope_ok e1" by (cases e1) (use env_apply_ok [of v e] 1(1) Cons.prems(2) in auto)
  then show ?case using Cons.IH [OF 1(2)] by simp
qed simp

fun committed_by :: "envelope_event \<Rightarrow> rat" where
  "committed_by (Commit x) = x"
| "committed_by (Charge x) = x"
| "committed_by _ = 0"

lemma env_apply_committed:
  "env_apply v (Some e) = Some r \<Longrightarrow> \<exists>e'. r = Some e' \<and> en_committed e' = en_committed e + committed_by v"
  by (cases v; cases r) (auto simp: env_when_def split: if_splits)

lemma env_run_committed:
  "env_run vs (Some e) = Some r \<Longrightarrow> \<exists>e'. r = Some e' \<and> en_committed e' = en_committed e + sum_list (map committed_by vs)"
proof (induction vs arbitrary: e)
  case (Cons v vs)
  then obtain e1 where 1: "env_apply v (Some e) = Some e1" "env_run vs e1 = Some r" by (auto split: option.splits)
  obtain e2 where 2: "e1 = Some e2" "en_committed e2 = en_committed e + committed_by v"
    using env_apply_committed [OF 1(1)] by blast
  show ?case using Cons.IH [OF 1(2) [unfolded 2(1)]] 2(2) by (simp add: add.assoc)
qed auto

section \<open>The refinement\<close>

definition envelope_of :: "contract_balance \<Rightarrow> envelope" where
  "envelope_of b = \<lparr>en_ceiling = cb_ceiling b, en_reserved = cb_pending b, en_committed = cb_certified b\<rparr>"

lemma envelope_of_sel [simp]:
  "en_ceiling (envelope_of b) = cb_ceiling b" "en_reserved (envelope_of b) = cb_pending b"
  "en_committed (envelope_of b) = cb_certified b"
  by (simp_all add: envelope_of_def)

definition envelopes_of :: "sys \<Rightarrow> nat \<Rightarrow> envelope option" where
  "envelopes_of s k = map_option envelope_of (balance_of k s)"

definition envelopes :: "sys \<Rightarrow> sys \<Rightarrow> bool" where
  \<comment> \<open>nothing happens to any envelope\<close>
  "envelopes s s' \<longleftrightarrow> envelopes_of s' = envelopes_of s"

definition evolves :: "nat \<Rightarrow> envelope_event list \<Rightarrow> sys \<Rightarrow> sys \<Rightarrow> bool" where
  \<comment> \<open>the events happen to the envelope of contract \<open>k\<close>, and nothing to any other\<close>
  "evolves k vs s s' \<longleftrightarrow>
     (\<exists>e. env_run vs (envelopes_of s k) = Some e \<and> envelopes_of s' = (envelopes_of s)(k := e))"

lemma envelopes_same: "balances s' = balances s \<Longrightarrow> envelopes s s'"
  by (simp add: envelopes_def envelopes_of_def balance_of_def fun_eq_iff)

lemma envelopes_trans: "envelopes s s' \<Longrightarrow> envelopes s' s'' \<Longrightarrow> envelopes s s''"
  by (simp add: envelopes_def)

lemma evolves_Nil: "evolves k [] s s' \<longleftrightarrow> envelopes s s'"
  by (auto simp: evolves_def envelopes_def)

lemma evolves_trans:
  assumes "evolves k vs s s'" and "evolves k ws s' s''"
  shows "evolves k (vs @ ws) s s''"
  using assms by (auto simp: evolves_def env_run_append)

lemma evolves_same: "balances s' = balances s1 \<Longrightarrow> evolves k vs s s1 \<Longrightarrow> evolves k vs s s'"
  by (simp add: evolves_def envelopes_of_def balance_of_def fun_eq_iff)

lemma evolves_put:
  assumes "balance_of k s = Some b" and "balances s' = put_row cb_contract b' (balances s)" and "cb_contract b' = k"
    and "env_run vs (Some (envelope_of b)) = Some (Some (envelope_of b'))"
  shows "evolves k vs s s'"
proof -
  have "balance_of j s' = (if j = k then Some b' else balance_of j s)" for j
    using balance_of_put [where j = j and s = s and b = b'] assms(1-3) by (auto simp: balance_of_def)
  then show ?thesis using assms(1,4) by (simp add: evolves_def envelopes_of_def fun_eq_iff)
qed

lemma evolves_none: "balance_of k s = None \<Longrightarrow> env_run vs None = Some None \<Longrightarrow> evolves k vs s s"
  by (simp add: evolves_def envelopes_of_def fun_eq_iff)

lemma evolves_append:
  assumes "balances s' = balances s @ [b]" and "balance_of (cb_contract b) s = None"
    and "envelope_of b = \<lparr>en_ceiling = c, en_reserved = 0, en_committed = 0\<rparr>" "0 \<le> c"
  shows "evolves (cb_contract b) [Allot c] s s'"
  using assms
  by (auto simp: evolves_def envelopes_of_def balance_of_def find_row_append env_when_def fun_eq_iff split: option.splits)

lemma resized:
  assumes "cb_pending b' = cb_pending b" "cb_certified b' = cb_certified b" "balance_ok b'" "cb_ceiling b' = c"
  shows "env_run [Resize c] (Some (envelope_of b)) = Some (Some (envelope_of b'))"
  using assms balance_checks_ok(2) [of b'] by (auto simp: envelope_of_def env_when_def)

end
