(* ===== verification/ContractBooks.thy ===== *)
theory ContractBooks
  imports Envelope
begin

text \<open>
  The invariant of the contract register.  It ties every balance row to the certificates of its
  contract: what is pending is the value of the open certificates, what is certified covers the
  approved ones, what is recovered is the recovery of the approved ones, and what is released
  covers the paid releases.  The lemmas say how a new certificate, a changed certificate and a
  balance write act on it.
\<close>

definition certified_value :: "ipc \<Rightarrow> rat" where
  \<comment> \<open>\<^verbatim>\<open>this_certificate_gross + variation_claims\<close>: what a certificate reserves, certifies and pays\<close>
  "certified_value i = ip_gross i + ip_variation i"

definition awaiting :: "ipc \<Rightarrow> bool" where
  "awaiting i \<longleftrightarrow> ip_status i \<in> {IPC_SUBMITTED, IPC_CERTIFIER_REVIEWED}"

definition approved :: "ipc \<Rightarrow> bool" where
  "approved i \<longleftrightarrow> ip_status i \<in> {IPC_APPROVED, IPC_VOUCHER_RAISED, IPC_PAID}"

definition total :: "(ipc \<Rightarrow> rat) \<Rightarrow> (ipc \<Rightarrow> bool) \<Rightarrow> nat \<Rightarrow> ipc list \<Rightarrow> rat" where
  \<comment> \<open>the sum of a column over a contract's certificates in some status\<close>
  "total f P k is = sum_list (map (\<lambda>i. if ip_contract i = k \<and> P i then f i else 0) is)"

definition ipc_ok :: "ipc \<Rightarrow> bool" where
  "ipc_ok i \<longleftrightarrow> is_money (ip_gross i) \<and> is_money (ip_variation i) \<and> is_money (ip_recovery i)
     \<and> 0 \<le> ip_gross i \<and> 0 \<le> ip_variation i \<and> 0 \<le> ip_recovery i \<and> ip_retention i = 0
     \<and> ip_net i = compute_net_payable i"

definition covers :: "ipc list \<Rightarrow> contract_balance \<Rightarrow> bool" where
  "covers is b \<longleftrightarrow>
     cb_pending b = total certified_value awaiting (cb_contract b) is
     \<and> total certified_value approved (cb_contract b) is \<le> cb_certified b
     \<and> cb_mob_recovered b = total ip_recovery approved (cb_contract b) is"

definition books_ok :: "ipc list \<Rightarrow> contract_balance list \<Rightarrow> bool" where
  "books_ok is bs \<longleftrightarrow>
     distinct (map ip_id is) \<and> distinct (map cb_contract bs)
     \<and> (\<forall>b \<in> set bs. balance_ok b \<and> covers is b)
     \<and> (\<forall>i \<in> set is. ipc_ok i \<and> ip_contract i \<in> cb_contract ` set bs \<and> ipc_unique i is)"

section \<open>Totals\<close>

lemma total_append [simp]: "total f P k (is @ js) = total f P k is + total f P k js"
  by (simp add: total_def)

lemma total_Cons [simp]:
  "total f P k (i # is) = (if ip_contract i = k \<and> P i then f i else 0) + total f P k is"
  by (simp add: total_def)

lemma total_Nil [simp]: "total f P k [] = 0"
  by (simp add: total_def)

lemma total_put:
  assumes "find_row ip_id (ip_id r) is = Some r0" and "distinct (map ip_id is)"
  shows "total f P k (put_row ip_id r is) = total f P k is
     - (if ip_contract r0 = k \<and> P r0 then f r0 else 0) + (if ip_contract r = k \<and> P r then f r else 0)"
  unfolding total_def by (rule sum_put_row [OF assms])

lemma total_absent: "k \<notin> ip_contract ` set is \<Longrightarrow> total f P k is = 0"
  by (induction "is") auto

lemma total_nonneg: "(\<And>i. i \<in> set is \<Longrightarrow> 0 \<le> f i) \<Longrightarrow> 0 \<le> total f P k is"
  by (induction "is") auto

lemma total_mono:
  "(\<And>i. i \<in> set is \<Longrightarrow> 0 \<le> f i) \<Longrightarrow> (\<And>i. P i \<Longrightarrow> Q i) \<Longrightarrow> total f P k is \<le> total f Q k is"
  by (induction "is") (auto intro: add_mono add_increasing)

lemma total_member:
  "(\<And>j. j \<in> set is \<Longrightarrow> 0 \<le> f j) \<Longrightarrow> i \<in> set is \<Longrightarrow> P i \<Longrightarrow> f i \<le> total f P (ip_contract i) is"
proof (induction "is")
  case (Cons x xs)
  show ?case
  proof (cases "i = x")
    case True
    then show ?thesis using total_nonneg [of xs f] Cons.prems by simp
  next
    case False
    then have "f i \<le> total f P (ip_contract i) xs" using Cons by simp
    then show ?thesis using Cons.prems(1) [of x] by (auto intro: add_increasing)
  qed
qed simp

lemma certified_value_money [simp]: "ipc_ok i \<Longrightarrow> is_money (certified_value i)"
  by (simp add: ipc_ok_def certified_value_def is_money_add)

lemma certified_value_nonneg [simp]: "ipc_ok i \<Longrightarrow> 0 \<le> certified_value i"
  by (simp add: ipc_ok_def certified_value_def)

section \<open>Reading the invariant\<close>

lemma books_okD:
  assumes "books_ok is bs"
  shows "distinct (map ip_id is)" "distinct (map cb_contract bs)"
    "b \<in> set bs \<Longrightarrow> balance_ok b" "b \<in> set bs \<Longrightarrow> covers is b"
    "i \<in> set is \<Longrightarrow> ipc_ok i" "i \<in> set is \<Longrightarrow> ip_contract i \<in> cb_contract ` set bs"
    "i \<in> set is \<Longrightarrow> ipc_unique i is"
  using assms by (simp_all add: books_ok_def)

lemma pending_nonneg:
  assumes "books_ok is bs" and "b \<in> set bs"
  shows "0 \<le> cb_pending b"
  using assms books_okD(4) [OF assms] by (auto simp: covers_def books_ok_def intro!: total_nonneg)

lemma awaiting_le_pending:
  assumes "books_ok is bs" and "b \<in> set bs" and "i \<in> set is" and "ip_contract i = cb_contract b" and "awaiting i"
  shows "certified_value i \<le> cb_pending b"
  using books_okD(4) [OF assms(1,2)] total_member [of "is" certified_value i awaiting] books_okD(5) [OF assms(1)] assms
  by (simp add: covers_def)

section \<open>Changes that keep it\<close>

lemma books_ok_balance:
  assumes "books_ok is bs" and "find_row cb_contract k bs = Some b"
    and "balance_ok b'" "cb_contract b' = k" "cb_pending b' = cb_pending b"
    "cb_certified b \<le> cb_certified b'" "cb_mob_recovered b' = cb_mob_recovered b"
  shows "books_ok is (put_row cb_contract b' bs)"
proof -
  have b: "b \<in> set bs" "cb_contract b = k" using find_row_SomeD [OF assms(2)] by simp_all
  then have "covers is b'" using books_okD(4) [OF assms(1) b(1)] assms(3-7) by (simp add: covers_def)
  then show ?thesis using assms(1,3) by (auto simp: books_ok_def dest!: set_put_row)
qed

lemma ipc_unique_append:
  "(\<And>k. k \<in> set is \<Longrightarrow> ip_id k \<noteq> ip_id r) \<Longrightarrow> ipc_unique r is \<Longrightarrow> i \<in> set is \<Longrightarrow> ipc_unique i is \<Longrightarrow>
     ipc_unique i (is @ [r])"
  unfolding ipc_unique_def by (auto; metis)

lemma books_ok_append:
  assumes "books_ok is bs" and "find_row cb_contract (ip_contract r) bs = Some b"
    and "ip_id r = fresh_pk ip_id is" "ipc_ok r" "ipc_unique r is" "awaiting r"
    and "balance_ok b'" "cb_contract b' = cb_contract b" "cb_pending b' = cb_pending b + certified_value r"
    "cb_certified b' = cb_certified b" "cb_mob_recovered b' = cb_mob_recovered b"
  shows "books_ok (is @ [r]) (put_row cb_contract b' bs)"
proof -
  have b: "b \<in> set bs" "cb_contract b = ip_contract r" using find_row_SomeD [OF assms(2)] by simp_all
  have fresh: "ip_id r \<notin> ip_id ` set is" by (simp add: assms(3))
  have not: "\<not> approved r" using assms(6) by (auto simp: awaiting_def approved_def)
  have "covers (is @ [r]) b'"
    using books_okD(4) [OF assms(1) b(1)] b(2) assms(6-11) not by (simp add: covers_def)
  moreover have "covers (is @ [r]) x" if "x \<in> set bs" "cb_contract x \<noteq> cb_contract b'" for x
    using books_okD(4) [OF assms(1) that(1)] that(2) b(2) assms(8) by (simp add: covers_def)
  moreover have "ipc_unique i (is @ [r])" if "i \<in> set is" for i
    using that by (rule ipc_unique_append [rotated 2])
      (use fresh assms(5) books_okD(7) [OF assms(1) that] in \<open>auto simp: image_iff\<close>)
  moreover have "ipc_unique r (is @ [r])" using assms(5) by (simp add: ipc_unique_def)
  moreover have "ip_contract r \<in> cb_contract ` set bs" using b by (metis imageI)
  ultimately show ?thesis
    using assms(1,4,7) fresh b by (auto simp: books_ok_def dest!: set_put_row)
qed

lemma ipc_unique_put:
  assumes "\<And>k. k \<in> set is \<Longrightarrow> ipc_unique k is" and "ipc_unique r is" and "ip_id r \<in> ip_id ` set is"
    and "i \<in> set (put_row ip_id r is)"
  shows "ipc_unique i (put_row ip_id r is)"
  using assms unfolding ipc_unique_def by (auto dest!: set_put_row; metis)

lemma books_ok_put:
  assumes "books_ok is bs" and "find_row ip_id (ip_id r) is = Some r0"
    and "find_row cb_contract (ip_contract r) bs = Some b"
    and "ip_contract r = ip_contract r0" "ipc_ok r" "ipc_unique r is"
    and "balance_ok b'" "cb_contract b' = cb_contract b"
    and "cb_pending b' = cb_pending b - (if awaiting r0 then certified_value r0 else 0)
                                      + (if awaiting r then certified_value r else 0)"
    and "cb_certified b - (if approved r0 then certified_value r0 else 0)
                        + (if approved r then certified_value r else 0) \<le> cb_certified b'"
    and "cb_mob_recovered b' = cb_mob_recovered b - (if approved r0 then ip_recovery r0 else 0)
                                                  + (if approved r then ip_recovery r else 0)"
  shows "books_ok (put_row ip_id r is) (put_row cb_contract b' bs)"
proof -
  have b: "b \<in> set bs" "cb_contract b = ip_contract r" using find_row_SomeD [OF assms(3)] by simp_all
  have r0: "r0 \<in> set is" "ip_id r0 = ip_id r" using find_row_SomeD [OF assms(2)] by simp_all
  note put = total_put [OF assms(2) books_okD(1) [OF assms(1)]]
  have "covers (put_row ip_id r is) b'"
    using books_okD(4) [OF assms(1) b(1)] b(2) assms(4,8-11) by (simp add: covers_def put)
  moreover have "covers (put_row ip_id r is) x" if "x \<in> set bs" "cb_contract x \<noteq> cb_contract b'" for x
    using books_okD(4) [OF assms(1) that(1)] that(2) b(2) assms(4,8) by (simp add: covers_def put)
  moreover have "ipc_unique i (put_row ip_id r is)" if "i \<in> set (put_row ip_id r is)" for i
    using ipc_unique_put [OF books_okD(7) [OF assms(1)] assms(6) _ that] r0 by (metis imageI)
  moreover have "ip_contract r \<in> cb_contract ` set bs" using b by (metis imageI)
  ultimately show ?thesis
    using assms(1,5,7) b by (auto simp: books_ok_def dest!: set_put_row)
qed

section \<open>Certificate writes\<close>

lemma insert_ipcD:
  assumes "insert_ipc sha i s = Inr (k, s')"
  obtains row where "k = fresh_pk ip_id (ipcs s)"
    "row = i\<lparr>ip_id := k, ip_net := compute_net_payable i,
             ip_hash := (if ip_hash i = [] then sha (integrity_raw i) else ip_hash i)\<rparr>"
    "ipc_checks row" "ipc_unique row (ipcs s)" "s' = s\<lparr>ipcs := ipcs s @ [row]\<rparr>"
  using assms by (auto simp: insert_ipc_def Let_def split: if_splits)

lemma update_ipcD:
  assumes "update_ipc k f s = Inr s'" and "\<And>r. ip_id (f r) = ip_id r"
  obtains r where "find_row ip_id k (ipcs s) = Some r" "ip_id r = k" "ipc_checks (f r)"
    "ipc_unique (f r) (ipcs s)" "s' = s\<lparr>ipcs := put_row ip_id (f r) (ipcs s)\<rparr>"
proof -
  obtain r where r: "find_row ip_id k (ipcs s) = Some r" "ipc_checks (f r)" "ipc_unique (f r) (ipcs s)"
    "s' = s\<lparr>ipcs := put_row ip_id ((f r)\<lparr>ip_id := k\<rparr>) (ipcs s)\<rparr>"
    using assms(1) by (auto simp: update_ipc_def split: option.splits if_splits)
  moreover have "ip_id r = k" using find_row_SomeD [OF r(1)] by simp
  moreover have "(f r)\<lparr>ip_id := k\<rparr> = f r" using assms(2) [of r] \<open>ip_id r = k\<close> by (cases "f r") simp
  ultimately show ?thesis using that by simp
qed

lemma ipc_transitionD:
  assumes "ipc_transition i new s = Inr s'"
  obtains r where "new \<in> set (ipc_next (ip_status i))" "find_row ip_id (ip_id i) (ipcs s) = Some r"
    "ip_id r = ip_id i" "ipc_checks (r\<lparr>ip_status := new\<rparr>)" "ipc_unique (r\<lparr>ip_status := new\<rparr>) (ipcs s)"
    "s' = s\<lparr>ipcs := put_row ip_id (r\<lparr>ip_status := new\<rparr>) (ipcs s)\<rparr>"
proof -
  have l: "new \<in> set (ipc_next (ip_status i))" and u: "update_ipc (ip_id i) (\<lambda>r. r\<lparr>ip_status := new\<rparr>) s = Inr s'"
    using assms by (auto simp: ipc_transition_def split: if_splits)
  from u show ?thesis by (rule update_ipcD) (use l that in simp_all)
qed

lemma ipc_ok_cong:
  "ip_gross r = ip_gross i \<Longrightarrow> ip_variation r = ip_variation i \<Longrightarrow> ip_recovery r = ip_recovery i \<Longrightarrow>
   ip_retention r = ip_retention i \<Longrightarrow> ip_ld r = ip_ld i \<Longrightarrow> ip_vat r = ip_vat i \<Longrightarrow> ip_wht r = ip_wht i \<Longrightarrow>
   ip_net r = ip_net i \<Longrightarrow> ipc_ok r \<longleftrightarrow> ipc_ok i"
  by (simp add: ipc_ok_def compute_net_payable_def)

lemma certified_value_cong [simp]:
  "certified_value (i\<lparr>ip_status := st\<rparr>) = certified_value i"
  "certified_value (i\<lparr>ip_accrual := a\<rparr>) = certified_value i"
  "certified_value (i\<lparr>ip_voucher := v\<rparr>) = certified_value i"
  "certified_value (i\<lparr>ip_wht_exempt := b\<rparr>) = certified_value i"
  "certified_value (i\<lparr>ip_vat := x, ip_wht := y, ip_net := z\<rparr>) = certified_value i"
  by (simp_all add: certified_value_def)

text \<open>A certificate that stays on its side of the approval changes no balance.\<close>

lemma books_ok_same_side:
  assumes "books_ok is bs" and "find_row ip_id (ip_id r) is = Some r0"
    and "ip_contract r = ip_contract r0" "ipc_ok r" "ipc_unique r is"
    and "certified_value r = certified_value r0" "ip_recovery r = ip_recovery r0"
    and "awaiting r \<longleftrightarrow> awaiting r0" "approved r \<longleftrightarrow> approved r0"
  shows "books_ok (put_row ip_id r is) bs"
proof -
  have "r0 \<in> set is" using find_row_SomeD [OF assms(2)] by simp
  then obtain b where b: "b \<in> set bs" "cb_contract b = ip_contract r"
    using books_okD(6) [OF assms(1)] assms(3) by (metis imageE)
  then have "find_row cb_contract (ip_contract r) bs = Some b"
    using find_row_distinct [OF books_okD(2) [OF assms(1)] b(1)] by simp
  then have "books_ok (put_row ip_id r is) (put_row cb_contract b bs)"
    by (rule books_ok_put [OF assms(1,2) _ assms(3-5) books_okD(3) [OF assms(1) b(1)]])
      (use assms(6-9) in simp_all)
  moreover have "put_row cb_contract b bs = bs" by (rule put_row_same [OF books_okD(2) [OF assms(1)] b(1)])
  ultimately show ?thesis by simp
qed

section \<open>The invariant of the system\<close>

definition accrued :: "ipc \<Rightarrow> journal list \<Rightarrow> bool" where
  \<comment> \<open>the certificate points at a posted, balanced journal of its own that charges its gross\<close>
  "accrued i js \<longleftrightarrow>
     (\<exists>j. ip_accrual i = Some (j_id j) \<and> find_row j_id (j_id j) js = Some j \<and> j_status j = J_Posted
        \<and> balanced j \<and> j_source_module j = Some ''contract_ipc'' \<and> j_source_id j = Some (ip_id i)
        \<and> total_debit (j_lines j) = ip_gross i)"

definition accruals_ok :: "ipc list \<Rightarrow> journal list \<Rightarrow> bool" where
  "accruals_ok is js \<longleftrightarrow>
     (\<forall>i \<in> set is. (awaiting i \<longrightarrow> ip_accrual i = None \<and> ip_voucher i = None) \<and> (approved i \<longrightarrow> accrued i js))"

definition paid_out :: "nat \<Rightarrow> retention_release list \<Rightarrow> rat" where
  "paid_out k rs = sum_list (map (\<lambda>r. if rr_contract r = k \<and> rr_status r = RR_PAID then rr_amount r else 0) rs)"

definition releases_ok :: "retention_release list \<Rightarrow> contract_balance list \<Rightarrow> bool" where
  "releases_ok rs bs \<longleftrightarrow> distinct (map rr_id rs) \<and> (\<forall>r \<in> set rs. is_money (rr_amount r) \<and> 0 \<le> rr_amount r)
     \<and> rr_contract ` set rs \<subseteq> cb_contract ` set bs
     \<and> (\<forall>b \<in> set bs. paid_out (cb_contract b) rs \<le> cb_ret_released b)"

definition sys_ok :: "sys \<Rightarrow> bool" where
  "sys_ok s \<longleftrightarrow> ledger_ok s \<and> books_ok (ipcs s) (balances s) \<and> accruals_ok (ipcs s) (journals s)
     \<and> releases_ok (releases s) (balances s) \<and> distinct (map co_id (contracts s))"

lemma sys_okD:
  assumes "sys_ok s"
  shows "ledger_ok s" "books_ok (ipcs s) (balances s)" "accruals_ok (ipcs s) (journals s)"
    "releases_ok (releases s) (balances s)" "distinct (map co_id (contracts s))" "keys_ok s"
  using assms ledger_okD(1) by (auto simp: sys_ok_def)

lemma sys_ok_frame:
  assumes "sys_ok s"
    and "journals s' = journals s" "gl_balances s' = gl_balances s" "appropriations s' = appropriations s"
    and "ipcs s' = ipcs s" "balances s' = balances s" "releases s' = releases s"
    and "map co_id (contracts s') = map co_id (contracts s)"
  shows "sys_ok s'"
  using assms by (simp add: sys_ok_def ledger_ok_def keys_ok_def)

lemma ledger_ok_frame [simp]:
  "ledger_ok (s\<lparr>balances := bs\<rparr>) = ledger_ok s" "ledger_ok (s\<lparr>ipcs := is\<rparr>) = ledger_ok s"
  "ledger_ok (s\<lparr>releases := rs\<rparr>) = ledger_ok s" "ledger_ok (s\<lparr>vendor_invoices := vis\<rparr>) = ledger_ok s"
  "ledger_ok (s\<lparr>vouchers := vs\<rparr>) = ledger_ok s" "ledger_ok (s\<lparr>steps := st\<rparr>) = ledger_ok s"
  "ledger_ok (s\<lparr>contracts := cs\<rparr>) = ledger_ok s" "ledger_ok (s\<lparr>milestones := ms\<rparr>) = ledger_ok s"
  "ledger_ok (s\<lparr>year_plans := ps\<rparr>) = ledger_ok s" "ledger_ok (s\<lparr>sequences := sq\<rparr>) = ledger_ok s"
  by (simp_all add: ledger_ok_def keys_ok_def)

text \<open>
  What a handler keeps: the invariant, the envelopes, and (for all but activation and closure)
  the contract rows.  What has \<open>shifted\<close> does something to one envelope instead.
\<close>

definition kept :: "sys \<Rightarrow> sys \<Rightarrow> bool" where
  "kept s s' \<longleftrightarrow> sys_ok s' \<and> envelopes s s' \<and> contracts s' = contracts s"

lemma keptD: "kept s s' \<Longrightarrow> sys_ok s'" "kept s s' \<Longrightarrow> envelopes s s'" "kept s s' \<Longrightarrow> contracts s' = contracts s"
  by (simp_all add: kept_def)

lemma kept_trans: "kept s s' \<Longrightarrow> kept s' s'' \<Longrightarrow> kept s s''"
  unfolding kept_def using envelopes_trans by metis

lemma kept_refl [simp]: "kept s s = sys_ok s"
  by (simp add: kept_def envelopes_same)

lemma kept_step [simp]: "kept s (record_step ty i k role act u s') = kept s s'"
  by (simp add: kept_def envelopes_def envelopes_of_def fun_eq_iff balance_of_def sys_ok_def ledger_ok_def keys_ok_def)

definition shifted :: "nat \<Rightarrow> envelope_event list \<Rightarrow> sys \<Rightarrow> sys \<Rightarrow> bool" where
  "shifted k vs s s' \<longleftrightarrow> sys_ok s' \<and> evolves k vs s s' \<and> contracts s' = contracts s"

lemma shiftedD: "shifted k vs s s' \<Longrightarrow> sys_ok s'" "shifted k vs s s' \<Longrightarrow> evolves k vs s s'" "shifted k vs s s' \<Longrightarrow> contracts s' = contracts s"
  by (simp_all add: shifted_def)

lemma shifted_Nil: "shifted k [] s s' \<longleftrightarrow> kept s s'"
  by (simp add: shifted_def kept_def evolves_Nil)

lemma shifted_trans: "shifted k vs s s' \<Longrightarrow> shifted k ws s' s'' \<Longrightarrow> shifted k (vs @ ws) s s''"
  by (auto simp: shifted_def intro: evolves_trans)

lemma kept_shifted: "kept s s' \<Longrightarrow> shifted k vs s' s'' \<Longrightarrow> shifted k vs s s''"
  using shifted_trans [of k "[]" s s' vs s''] by (simp add: shifted_Nil)

lemma shifted_kept: "shifted k vs s s' \<Longrightarrow> kept s' s'' \<Longrightarrow> shifted k vs s s''"
  using shifted_trans [of k vs s s' "[]" s''] by (simp add: shifted_Nil)

lemma shifted_step [simp]: "shifted j vs s (record_step ty i k role act u s') = shifted j vs s s'"
  by (simp add: shifted_def evolves_def envelopes_of_def balance_of_def fun_eq_iff sys_ok_def ledger_ok_def keys_ok_def)

lemma balance_of_books:
  "books_ok is (balances s) \<Longrightarrow> balance_of k s = Some b \<Longrightarrow> balance_ok b \<and> cb_contract b = k \<and> b \<in> set (balances s)"
  using balance_of_mem books_okD(3) by blast

subsection \<open>Releases\<close>

lemma releases_ok_balance:
  assumes "releases_ok rs bs" and "find_row cb_contract k bs = Some b"
    and "cb_contract b' = k" "cb_ret_released b \<le> cb_ret_released b'"
  shows "releases_ok rs (put_row cb_contract b' bs)"
proof -
  have "b \<in> set bs" "cb_contract b = k" using find_row_SomeD [OF assms(2)] by simp_all
  then show ?thesis using assms by (auto simp: releases_ok_def dest!: set_put_row intro: order_trans)
qed

lemma paid_out_append [simp]: "paid_out k (rs @ [r]) = paid_out k rs
    + (if rr_contract r = k \<and> rr_status r = RR_PAID then rr_amount r else 0)"
  by (simp add: paid_out_def)

lemma paid_out_upd:
  assumes "find_row rr_id i rs = Some r" and "distinct (map rr_id rs)" and "rr_id (f r) = i"
  shows "paid_out k (upd_row rr_id i f rs) = paid_out k rs
    - (if rr_contract r = k \<and> rr_status r = RR_PAID then rr_amount r else 0)
    + (if rr_contract (f r) = k \<and> rr_status (f r) = RR_PAID then rr_amount (f r) else 0)"
  unfolding paid_out_def by (rule sum_upd_row [where f = f, OF assms])

lemma paid_out_absent: "k \<notin> rr_contract ` set rs \<Longrightarrow> paid_out k rs = 0"
  by (induction rs) (auto simp: paid_out_def)

lemma releases_ok_append:
  assumes "releases_ok rs bs" and "rr_id r = fresh_pk rr_id rs" "rr_status r \<noteq> RR_PAID"
    and "is_money (rr_amount r)" "0 \<le> rr_amount r" "rr_contract r \<in> cb_contract ` set bs"
  shows "releases_ok (rs @ [r]) bs"
  using assms by (auto simp: releases_ok_def)

lemma releases_ok_upd:
  assumes "releases_ok rs bs" and "find_row rr_id i rs = Some r"
    and "\<And>x. rr_id (f x) = rr_id x" "\<And>x. rr_contract (f x) = rr_contract x" "\<And>x. rr_amount (f x) = rr_amount x"
    and "find_row cb_contract (rr_contract r) bs = Some b" "cb_contract b' = rr_contract r"
    and "cb_ret_released b - (if rr_status r = RR_PAID then rr_amount r else 0)
           + (if rr_status (f r) = RR_PAID then rr_amount r else 0) \<le> cb_ret_released b'"
  shows "releases_ok (upd_row rr_id i f rs) (put_row cb_contract b' bs)"
proof -
  have r: "rr_id r = i" using find_row_SomeD [OF assms(2)] by simp
  have b: "b \<in> set bs" "cb_contract b = rr_contract r" using find_row_SomeD [OF assms(6)] by simp_all
  note po = paid_out_upd [OF assms(2), of f]
  have d: "distinct (map rr_id rs)" using assms(1) by (simp add: releases_ok_def)
  have "paid_out (cb_contract b') (upd_row rr_id i f rs) \<le> cb_ret_released b'"
    using assms(1) b assms(7,8) by (simp add: po [OF d] assms(3-5) r releases_ok_def) fastforce
  moreover have "paid_out (cb_contract x) (upd_row rr_id i f rs) \<le> cb_ret_released x"
    if "x \<in> set bs" "cb_contract x \<noteq> cb_contract b'" for x
    using assms(1) that assms(7) by (simp add: po [OF d] assms(3-5) r releases_ok_def)
  moreover have "rr_contract ` set (upd_row rr_id i f rs) = rr_contract ` set rs"
    "map rr_id (upd_row rr_id i f rs) = map rr_id rs" "rr_amount ` set (upd_row rr_id i f rs) = rr_amount ` set rs"
    using assms(3-5) by (simp_all add: image_upd_row map_upd_row)
  moreover have "\<forall>x \<in> set (upd_row rr_id i f rs). is_money (rr_amount x) \<and> 0 \<le> rr_amount x"
    using assms(1,5) by (auto simp: releases_ok_def dest!: set_upd_row)
  ultimately show ?thesis using assms(1) by (auto simp: releases_ok_def dest!: set_put_row)
qed

lemma releases_ok_same:
  assumes "releases_ok rs bs" and "find_row rr_id i rs = Some r" and "distinct (map cb_contract bs)"
    and "\<And>x. rr_id (f x) = rr_id x" "\<And>x. rr_contract (f x) = rr_contract x" "\<And>x. rr_amount (f x) = rr_amount x"
    and "rr_status (f r) = RR_PAID \<longleftrightarrow> rr_status r = RR_PAID"
  shows "releases_ok (upd_row rr_id i f rs) bs"
proof -
  have "r \<in> set rs" using find_row_SomeD [OF assms(2)] by simp
  then obtain b where b: "b \<in> set bs" "cb_contract b = rr_contract r"
    using assms(1) by (fastforce simp: releases_ok_def)
  then have "find_row cb_contract (rr_contract r) bs = Some b" using find_row_distinct [OF assms(3) b(1)] by simp
  then have "releases_ok (upd_row rr_id i f rs) (put_row cb_contract b bs)"
    by (rule releases_ok_upd [OF assms(1,2,4,5,6)]) (use b assms(7) in simp_all)
  then show ?thesis by (simp add: put_row_same [OF assms(3) b(1)])
qed

subsection \<open>Accruals\<close>

lemma accrued_more:
  "accrued i js \<Longrightarrow> (\<And>k x. find_row j_id k js = Some x \<Longrightarrow> find_row j_id k js' = Some x) \<Longrightarrow> accrued i js'"
  unfolding accrued_def by blast

lemma accruals_ok_more:
  "accruals_ok is js \<Longrightarrow> (\<And>k x. find_row j_id k js = Some x \<Longrightarrow> find_row j_id k js' = Some x) \<Longrightarrow> accruals_ok is js'"
  unfolding accruals_ok_def using accrued_more by metis

lemma accruals_ok_put:
  "accruals_ok is js \<Longrightarrow> (awaiting r \<Longrightarrow> ip_accrual r = None \<and> ip_voucher r = None) \<Longrightarrow> (approved r \<Longrightarrow> accrued r js) \<Longrightarrow>
     accruals_ok (put_row ip_id r is) js"
  unfolding accruals_ok_def by (blast dest: set_put_row)

lemma accruals_ok_append:
  "accruals_ok is js \<Longrightarrow> awaiting r \<Longrightarrow> ip_accrual r = None \<Longrightarrow> ip_voucher r = None \<Longrightarrow> accruals_ok (is @ [r]) js"
  by (auto simp: accruals_ok_def awaiting_def approved_def)

lemma accrued_cong:
  "ip_accrual r = ip_accrual i \<Longrightarrow> ip_id r = ip_id i \<Longrightarrow> ip_gross r = ip_gross i \<Longrightarrow> accrued r js \<longleftrightarrow> accrued i js"
  by (simp add: accrued_def)

lemma find_row_append_Some: "find_row key k xs = Some x \<Longrightarrow> find_row key k (xs @ ys) = Some x"
  by (simp add: find_row_append)

lemma kept_posted:
  assumes "sys_ok s" and "posted_new h ls u j s s'"
  shows "kept s s'"
proof -
  have "ledger_ok s'" using ledger_ok_posted_new [OF sys_okD(1) [OF assms(1)] assms(2)] .
  moreover have "ipcs s' = ipcs s" "balances s' = balances s" "releases s' = releases s" "contracts s' = contracts s"
    using assms(2) by (auto simp: posted_new_def)
  moreover have "accruals_ok (ipcs s) (journals s')"
    using sys_okD(3) [OF assms(1)] posted_newD(1) [OF assms(2)]
    by (auto intro: accruals_ok_more find_row_append_Some)
  ultimately show ?thesis using assms(1) by (simp add: kept_def sys_ok_def envelopes_same)
qed

subsection \<open>Balance writes and voucher writes\<close>

lemma shifted_balance:
  assumes "sys_ok s" and "update_balance k f s = Inr s'"
    and "\<And>b. cb_pending (f b) = cb_pending b" "\<And>b. cb_mob_recovered (f b) = cb_mob_recovered b"
    and "\<And>b. balance_of k s = Some b \<Longrightarrow> cb_certified b \<le> db_decimal (cb_certified (f b))"
    and "\<And>b. balance_of k s = Some b \<Longrightarrow> cb_ret_released b \<le> db_decimal (cb_ret_released (f b))"
    and env: "\<And>b. balance_of k s = Some b \<Longrightarrow> balance_ok (written k f b) \<Longrightarrow>
          env_run vs (Some (envelope_of b)) = Some (Some (envelope_of (written k f b)))"
    and none: "balance_of k s = None \<Longrightarrow> env_run vs None = Some None"
  shows "shifted k vs s s'"
proof (cases "balance_of k s")
  case None
  then show ?thesis using assms(1,2) none evolves_none [OF None] by (simp add: update_balance_None shifted_def)
next
  case (Some b)
  note ok = sys_okD [OF assms(1)]
  have b: "find_row cb_contract k (balances s) = Some b" using Some by (simp add: balance_of_def)
  have bok: "balance_ok b" "cb_contract b = k" using balance_of_books [OF ok(2) Some] by simp_all
  from update_balanceD [OF assms(2) Some] have w: "balance_ok (written k f b)"
    and s': "s' = s\<lparr>balances := put_row cb_contract (written k f b) (balances s)\<rparr>" by simp_all
  have "books_ok (ipcs s) (put_row cb_contract (written k f b) (balances s))"
    by (rule books_ok_balance [OF ok(2) b w]) (use assms(3,4,5) Some bok in simp_all)
  moreover have "releases_ok (releases s) (put_row cb_contract (written k f b) (balances s))"
    by (rule releases_ok_balance [OF ok(4) b]) (use assms(6) [OF Some] in simp_all)
  moreover have "evolves k vs s s'"
    by (rule evolves_put [OF Some _ _ env [OF Some w]]) (simp_all add: s')
  ultimately show ?thesis using ok by (simp add: shifted_def sys_ok_def s')
qed

text \<open>Most writes leave the ceiling, the reserved and the committed part alone.\<close>

lemma kept_columns:
  assumes "sys_ok s" and "update_balance k f s = Inr s'"
    and "\<And>b. cb_pending (f b) = cb_pending b" "\<And>b. cb_mob_recovered (f b) = cb_mob_recovered b"
    and "\<And>b. cb_certified (f b) = cb_certified b" "\<And>b. cb_ceiling (f b) = cb_ceiling b"
    and "\<And>b. balance_of k s = Some b \<Longrightarrow> cb_ret_released b \<le> db_decimal (cb_ret_released (f b))"
  shows "kept s s'"
  unfolding shifted_Nil [of k, symmetric]
proof (rule shifted_balance [OF assms(1,2)])
  fix b assume b: "balance_of k s = Some b"
  have ok: "balance_ok b" using balance_of_books [OF sys_okD(2) [OF assms(1)] b] by simp
  then show "cb_certified b \<le> db_decimal (cb_certified (f b))" by (simp add: assms(5))
  show "env_run [] (Some (envelope_of b)) = Some (Some (envelope_of (written k f b)))"
    using ok by (simp add: envelope_of_def assms(3,5,6))
qed (use assms in simp_all)

lemma shifted_ceiling:
  assumes "sys_ok s" and "update_balance k f s = Inr s'" and "is_money c"
    and "\<And>b. cb_pending (f b) = cb_pending b" "\<And>b. cb_mob_recovered (f b) = cb_mob_recovered b"
    and "\<And>b. cb_certified (f b) = cb_certified b" "\<And>b. cb_ceiling (f b) = c" "\<And>b. cb_ret_released (f b) = cb_ret_released b"
  shows "shifted k [Resize c] s s'"
proof (rule shifted_balance [OF assms(1,2)])
  fix b assume b: "balance_of k s = Some b"
  have ok: "balance_ok b" using balance_of_books [OF sys_okD(2) [OF assms(1)] b] by simp
  then show "cb_certified b \<le> db_decimal (cb_certified (f b))" "cb_ret_released b \<le> db_decimal (cb_ret_released (f b))"
    by (simp_all add: assms(6,8))
  show "env_run [Resize c] (Some (envelope_of b)) = Some (Some (envelope_of (written k f b)))" if "balance_ok (written k f b)"
    by (rule resized [OF _ _ that]) (use ok assms(3) in \<open>simp_all add: assms(4,6,7)\<close>)
qed (use assms in simp_all)

text \<open>A row that already has the ceiling is where the resizing leaves it.\<close>

lemma shifted_already:
  assumes "sys_ok s" and "\<And>b. balance_of k s = Some b \<Longrightarrow> cb_ceiling b = c"
  shows "shifted k [Resize c] s s"
proof (cases "balance_of k s")
  case None
  then show ?thesis using assms(1) evolves_none [OF None] by (simp add: shifted_def)
next
  case (Some b)
  have ok: "balance_ok b" using balance_of_books [OF sys_okD(2) [OF assms(1)] Some] by simp
  have b: "b \<in> set (balances s)" "cb_contract b = k" using balance_of_mem [OF Some] by simp_all
  have "env_run [Resize c] (Some (envelope_of b)) = Some (Some (envelope_of b))"
    by (rule resized [OF refl refl ok assms(2) [OF Some]])
  then have "evolves k [Resize c] s s"
    by (auto simp: evolves_def envelopes_of_def Some)
  then show ?thesis using assms(1) by (simp add: shifted_def)
qed

lemma insert_voucherD:
  assumes "insert_voucher v s = Inr (i, s')"
  shows "s' = s\<lparr>vouchers := vouchers s @ [v\<lparr>pv_id := i, pv_net := pv_gross v - pv_wht v\<rparr>]\<rparr>"
    "i = fresh_pk pv_id (vouchers s)"
    "live_voucher v \<Longrightarrow> x \<in> set (vouchers s) \<Longrightarrow> live_voucher x \<Longrightarrow> pv_source_document x \<noteq> pv_source_document v"
  using assms by (auto simp: insert_voucher_def Let_def live_voucher_def split: if_splits)

lemma sequence_next_frame:
  "sequence_next n p s = (num, s') \<Longrightarrow> \<exists>sq. s' = s\<lparr>sequences := sq\<rparr>"
  by (auto simp: sequence_next_def Let_def split: prod.splits)

definition same_core :: "sys \<Rightarrow> sys \<Rightarrow> bool" where
  \<comment> \<open>what the invariant reads\<close>
  "same_core s s' \<longleftrightarrow> journals s' = journals s \<and> gl_balances s' = gl_balances s
     \<and> appropriations s' = appropriations s \<and> ipcs s' = ipcs s \<and> balances s' = balances s
     \<and> releases s' = releases s \<and> contracts s' = contracts s"

lemma kept_core: "same_core s s' \<Longrightarrow> sys_ok s \<Longrightarrow> kept s s'"
  unfolding kept_def using sys_ok_frame [of s s'] by (simp add: same_core_def envelopes_same)

lemma same_core_trans: "same_core s s' \<Longrightarrow> same_core s' s'' \<Longrightarrow> same_core s s''"
  by (simp add: same_core_def)

lemma same_core_refl [simp]: "same_core s s"
  by (simp add: same_core_def)

lemma same_core_step [simp]: "same_core s (record_step ty i k role act u s') = same_core s s'"
  by (simp add: same_core_def)

lemma kept_contracts:
  assumes "sys_ok s" and "map co_id cs = map co_id (contracts s)"
  shows "sys_ok (s\<lparr>contracts := cs\<rparr>) \<and> envelopes s (s\<lparr>contracts := cs\<rparr>)"
  using assms by (simp add: sys_ok_def envelopes_same)

end
