(* ===== verification/Mobilization.thy ===== *)
theory Mobilization
  imports ContractBooks
begin

text \<open>
  The mobilization advance (\<^verbatim>\<open>contracts/services/mobilization_service.py\<close> and the factory of its
  voucher in \<^verbatim>\<open>accounting/services/pv_factory.py\<close>): issue, approval, cancellation, disbursement,
  the recovery computed for each certificate and its application to the balance row.  A handler
  takes the instance its caller holds where the code does, and reads the row again where the
  code locks and reloads it.
\<close>

section \<open>The appropriation guard\<close>

definition validate_appropriation :: "contract \<Rightarrow> sys \<Rightarrow> err + unit" where
  "validate_appropriation c s =
     (case find_row n_id (co_ncoa c) (ncoa_codes s) of
        None \<Rightarrow> Inl InvalidTransitionError
      | Some n \<Rightarrow>
          (case qs_first (\<lambda>a. - ap_amount a)
                  (filter (\<lambda>a. ap_admin a = n_administrative n \<and> ap_economic a = n_economic n
                             \<and> ap_fund a = n_fund n \<and> ap_fiscal_year a = co_fiscal_year c
                             \<and> ap_status a = ''ACTIVE'') (appropriations s)) of
             None \<Rightarrow> Inl InvalidTransitionError
           | Some a \<Rightarrow>
               let available = available_balance a s; required = mobilization_amount c
               in if available < required then Inl InvalidTransitionError
                  else if require_warrant s
                          \<and> total_warrants_released (ap_id a) s - (ap_amount a - available) < required
                  then Inl InvalidTransitionError
                  else Inr ()))"

section \<open>The advance voucher\<close>

definition mob_reference :: "mobilization \<Rightarrow> contract \<Rightarrow> string" where
  "mob_reference m c =
     take 90 (''MOB-'' @ (if co_number c = [] then ''CONTRACT-'' @ show_nat (mo_contract m) else co_number c))"

definition create_draft_voucher_from_mobilization :: "mobilization \<Rightarrow> sys \<Rightarrow> err + (nat \<times> sys)" where
  "create_draft_voucher_from_mobilization m s =
     (case mo_voucher m of
        Some v \<Rightarrow> Inr (v, s)
      | None \<Rightarrow>
          (case contract_of (mo_contract m) s of
             None \<Rightarrow> Inl DoesNotExist
           | Some c \<Rightarrow>
               if co_vendor c = 0 \<or> co_ncoa c = 0 then Inl PVFactoryError
               else (case filter ta_active (ordered_tsa s) of
                       [] \<Rightarrow> Inl PVFactoryError
                     | tsa # _ \<Rightarrow>
                         let (num, s1) = sequence_next ''payment_voucher'' ''PV-'' s
                         in insert_voucher
                              \<lparr>pv_id = 0, pv_number = num, pv_payment_type = ''ADVANCE'', pv_ncoa = co_ncoa c,
                               pv_appropriation = co_appropriation c, pv_status = ''DRAFT'',
                               pv_gross = mo_amount m, pv_wht = 0, pv_net = mo_amount m,
                               pv_source_document = mob_reference m c, pv_invoice_number = [],
                               pv_tsa = ta_id tsa\<rparr> s1)))"

definition update_mob :: "nat \<Rightarrow> (mobilization \<Rightarrow> mobilization) \<Rightarrow> sys \<Rightarrow> sys" where
  "update_mob i f s = s\<lparr>mobs := upd_row mo_id i f (mobs s)\<rparr>"

section \<open>Handlers\<close>

definition issue_advance :: "contract \<Rightarrow> sys \<Rightarrow> err + (nat \<times> sys)" where
  "issue_advance c s =
     (if co_mob_rate c \<le> 0 then Inl InvalidTransitionError
      else if (\<exists>m \<in> set (mobs s). mo_contract m = co_id c) then Inl InvalidTransitionError
      else rbind (validate_appropriation c s)
        (\<lambda>_. let i = fresh_pk mo_id (mobs s);
                 m = \<lparr>mo_id = i, mo_contract = co_id c, mo_amount = mobilization_amount c,
                      mo_voucher = None, mo_date = None, mo_status = MP_PENDING\<rparr>
             in if mo_amount m < 0 then Inl IntegrityError
                else rbind (create_draft_voucher_from_mobilization m (s\<lparr>mobs := mobs s @ [m]\<rparr>))
                  (\<lambda>(v, s1). Inr (i, update_mob i (\<lambda>r. r\<lparr>mo_voucher := Some v\<rparr>) s1))))"

definition mob_approve :: "mobilization \<Rightarrow> nat \<Rightarrow> sys \<Rightarrow> err + sys" where
  "mob_approve m user s =
     (if mo_status m \<noteq> MP_PENDING then Inl InvalidTransitionError
      else Inr (record_step OT_MOBILIZATION (mo_id m) (mo_contract m) ''contracts.approve_mobilization''
                  ACT_APPROVE user (update_mob (mo_id m) (\<lambda>r. r\<lparr>mo_status := MP_APPROVED\<rparr>) s)))"

definition mob_cancel :: "nat \<Rightarrow> nat \<Rightarrow> sys \<Rightarrow> err + sys" where
  "mob_cancel i user s =
     (case find_row mo_id i (mobs s) of
        None \<Rightarrow> Inl DoesNotExist
      | Some m \<Rightarrow>
          if mo_status m \<notin> {MP_PENDING, MP_APPROVED} then Inl InvalidTransitionError
          else Inr (record_step OT_MOBILIZATION i (mo_contract m) ''contracts.approve_mobilization''
                      ACT_REJECT user (update_mob i (\<lambda>r. r\<lparr>mo_status := MP_CANCELLED\<rparr>) s)))"

definition schedule_payment :: "nat \<Rightarrow> sys \<Rightarrow> err + (nat \<times> sys)" where
  "schedule_payment i s =
     (case find_row mo_id i (mobs s) of
        None \<Rightarrow> Inl DoesNotExist
      | Some m \<Rightarrow>
          if mo_status m \<notin> {MP_APPROVED, MP_PENDING} then Inl InvalidTransitionError
          else rbind (create_draft_voucher_from_mobilization m s)
            (\<lambda>(v, s1). Inr (v, if mo_voucher m = Some v then s1
                             else update_mob i (\<lambda>r. r\<lparr>mo_voucher := Some v\<rparr>) s1)))"

definition record_disbursement :: "nat \<Rightarrow> date \<Rightarrow> sys \<Rightarrow> err + sys" where
  "record_disbursement pv d s =
     (case qs_first mo_id (filter (\<lambda>m. mo_voucher m = Some pv) (mobs s)) of
        None \<Rightarrow> Inr s
      | Some m \<Rightarrow>
          if mo_status m \<in> {MP_PAID, MP_PARTIALLY_RECOVERED, MP_FULLY_RECOVERED} then Inr s
          else rbind (get_balance (mo_contract m) s)
            (\<lambda>b. let new_paid = quantize_currency (cb_mob_paid b + mo_amount m)
                 in rbind (catch_as IntegrityError ConcurrencyError
                             (update_balance (mo_contract m) (\<lambda>r. r\<lparr>cb_mob_paid := new_paid\<rparr>) s))
                   (\<lambda>s1. Inr (update_mob (mo_id m) (\<lambda>r. r\<lparr>mo_status := MP_PAID, mo_date := Some d\<rparr>) s1))))"

definition compute_recovery :: "contract \<Rightarrow> contract_balance \<Rightarrow> rat \<Rightarrow> rat" where
  "compute_recovery c b gross =
     (if cb_mob_paid b \<le> 0 then 0
      else let outstanding = cb_mob_paid b - cb_mob_recovered b
           in if outstanding \<le> 0 then 0
              else if co_sum c \<le> 0 then 0
              else quantize_currency (min (dec_div (dec_mul (cb_mob_paid b) gross) (co_sum c)) outstanding))"

definition apply_recovery :: "rat \<Rightarrow> contract_balance \<Rightarrow> err + contract_balance" where
  "apply_recovery amount b =
     (if amount < 0 then Inl MobilizationRecoveryError
      else let recovered = quantize_currency (cb_mob_recovered b + amount)
           in if cb_mob_paid b < recovered then Inl MobilizationRecoveryError
              else Inr (b\<lparr>cb_mob_recovered := recovered\<rparr>))"

definition reconcile_payment_status :: "nat \<Rightarrow> sys \<Rightarrow> err + sys" where
  "reconcile_payment_status k s =
     (case List.find (\<lambda>m. mo_contract m = k) (mobs s) of
        None \<Rightarrow> Inr s
      | Some m \<Rightarrow> rbind (get_balance k s)
          (\<lambda>b. if cb_mob_paid b \<le> 0 then Inr s
               else let new = (if cb_mob_paid b \<le> cb_mob_recovered b then MP_FULLY_RECOVERED
                               else if 0 < cb_mob_recovered b then MP_PARTIALLY_RECOVERED else MP_PAID)
                    in Inr (if mo_status m = new then s
                            else update_mob (mo_id m) (\<lambda>r. r\<lparr>mo_status := new\<rparr>) s)))"

section \<open>Effects\<close>

lemma create_mob_voucher_frame:
  assumes "create_draft_voucher_from_mobilization m s = Inr (v, s')"
  shows "same_core s s' \<and> mobs s' = mobs s"
  using assms unfolding create_draft_voucher_from_mobilization_def
  by (auto simp: same_core_def Let_def split: option.splits if_splits list.splits prod.splits
      dest!: sequence_next_frame insert_voucherD(1))

lemma update_mob_core [simp]: "same_core s (update_mob i f s') = same_core s s'"
  by (simp add: same_core_def update_mob_def)

lemma same_core_mobs [simp]: "same_core (s\<lparr>mobs := ms\<rparr>) s' = same_core s s'"
  by (simp add: same_core_def)

lemma issue_advance_core: "issue_advance c s = Inr (i, s') \<Longrightarrow> same_core s s'"
  unfolding issue_advance_def
  by (auto simp: Let_def rbind_eq_Inr split: if_splits prod.splits dest!: create_mob_voucher_frame)

lemma mob_approve_core: "mob_approve m u s = Inr s' \<Longrightarrow> same_core s s'"
  by (auto simp: mob_approve_def split: if_splits)

lemma mob_cancel_core: "mob_cancel i u s = Inr s' \<Longrightarrow> same_core s s'"
  by (auto simp: mob_cancel_def split: if_splits option.splits)

lemma schedule_payment_core: "schedule_payment i s = Inr (v, s') \<Longrightarrow> same_core s s'"
  by (auto simp: schedule_payment_def rbind_eq_Inr split: if_splits option.splits dest!: create_mob_voucher_frame)

lemma reconcile_core: "reconcile_payment_status k s = Inr s' \<Longrightarrow> same_core s s'"
  by (auto simp: reconcile_payment_status_def rbind_eq_Inr Let_def split: option.splits if_splits)

lemma kept_update_mob [simp]: "kept s (update_mob i f s') = kept s s'"
  by (simp add: kept_def sys_ok_def update_mob_def ledger_ok_def keys_ok_def envelopes_def envelopes_of_def fun_eq_iff balance_of_def)

lemma record_disbursement_kept:
  assumes "sys_ok s" and "record_disbursement pv d s = Inr s'"
  shows "kept s s'"
proof (cases "qs_first mo_id (filter (\<lambda>m. mo_voucher m = Some pv) (mobs s))")
  case (Some m)
  have *: "kept s s1" if "update_balance (mo_contract m) (\<lambda>r. r\<lparr>cb_mob_paid := x\<rparr>) s = Inr s1" for x s1
    by (rule kept_columns [OF assms(1) that])
      (use balance_of_books [OF sys_okD(2) [OF assms(1)]] in \<open>simp_all\<close>)
  show ?thesis
    using assms Some by (auto simp: record_disbursement_def rbind_eq_Inr Let_def split: if_splits dest: *)
next
  case None
  show ?thesis using assms unfolding record_disbursement_def None by simp
qed

section \<open>The recovery\<close>

lemma compute_recovery_money [simp]: "is_money (compute_recovery c b g)"
  by (simp add: compute_recovery_def Let_def)

lemma compute_recovery_nonneg:
  assumes "0 \<le> g" shows "0 \<le> compute_recovery c b g"
  using assms by (auto simp: compute_recovery_def Let_def not_le intro!: quantize_nonneg dec_div_nonneg dec_mul_nonneg)

lemma compute_recovery_le:
  assumes "balance_ok b"
  shows "compute_recovery c b g \<le> max 0 (cb_mob_paid b - cb_mob_recovered b)"
proof -
  have "quantize_currency (min x (cb_mob_paid b - cb_mob_recovered b)) \<le> cb_mob_paid b - cb_mob_recovered b" for x
    by (rule quantize_le_money) (use assms in \<open>auto intro: is_money_diff\<close>)
  then show ?thesis by (auto simp: compute_recovery_def Let_def max_def)
qed

lemma apply_recoveryD:
  "apply_recovery a b = Inr b' \<Longrightarrow>
     0 \<le> a \<and> b' = b\<lparr>cb_mob_recovered := quantize_currency (cb_mob_recovered b + a)\<rparr>"
  by (auto simp: apply_recovery_def Let_def split: if_splits)

end
