(* ===== verification/Retention.thy ===== *)
theory Retention
  imports ContractBooks
begin

text \<open>
  Retention money (\<^verbatim>\<open>contracts/services/retention_service.py\<close>): the deduction on a certificate,
  which the lump-sum model has reduced to zero, and the releases at practical and final
  completion with their accrual journal; and the ladders by which the contract services resolve
  the retention and the mobilization accounts.
\<close>

section \<open>Account ladders\<close>

fun rests_after :: "string \<Rightarrow> string \<Rightarrow> string list" where
  \<comment> \<open>what follows each occurrence of \<open>p\<close>\<close>
  "rests_after p [] = (if p = [] then [[]] else [])"
| "rests_after p (c # t) =
     (if has_prefix p (c # t) then [drop (length p) (c # t)] else []) @ rests_after p t"

definition gap_match :: "string \<Rightarrow> string \<Rightarrow> string \<Rightarrow> bool" where
  \<comment> \<open>the pattern \<^verbatim>\<open>p.+q\<close>, ignoring case\<close>
  "gap_match p q s =
     list_ex (\<lambda>t. t \<noteq> [] \<and> contains_str (to_lower q) (tl t)) (rests_after (to_lower p) (to_lower s))"

definition dot_match :: "string \<Rightarrow> string \<Rightarrow> string \<Rightarrow> bool" where
  \<comment> \<open>the pattern \<^verbatim>\<open>p.q\<close>, ignoring case\<close>
  "dot_match p q s =
     list_ex (\<lambda>t. t \<noteq> [] \<and> has_prefix (to_lower q) (tl t)) (rests_after (to_lower p) (to_lower s))"

definition resolve_by :: "string \<Rightarrow> string \<Rightarrow> (account \<Rightarrow> bool) \<Rightarrow> 'z ledger_scheme \<Rightarrow> account option" where
  \<comment> \<open>reconciliation type, then the configured code, then the fallback filter\<close>
  "resolve_by recon key P s =
     (let active = (\<lambda>Q. qs_first ac_code (filter (\<lambda>a. ac_is_active a \<and> Q a) (accounts s)))
      in case active (\<lambda>a. ac_reconciliation_type a = recon) of
           Some a \<Rightarrow> Some a
         | None \<Rightarrow>
             (case (case map_of (default_gl s) key of
                      None \<Rightarrow> None
                    | Some code \<Rightarrow> if code = [] then None else active (\<lambda>a. ac_code a = code)) of
                Some a \<Rightarrow> Some a
              | None \<Rightarrow> active P))"

definition resolve_retention_account :: "'z ledger_scheme \<Rightarrow> account option" where
  "resolve_retention_account =
     resolve_by ''retention_held'' ''RETENTION_HELD''
       (\<lambda>a. ac_type a = AT_Liability \<and> has_prefix ''41'' (ac_code a)
          \<and> (icontains ''retention'' (ac_name a) \<or> icontains ''holdback'' (ac_name a)
             \<or> dot_match ''security'' ''deposit'' (ac_name a)))"

definition resolve_mobilization_recovery_account :: "'z ledger_scheme \<Rightarrow> account option" where
  "resolve_mobilization_recovery_account =
     resolve_by ''mobilization_advance'' ''MOBILIZATION_ADVANCE''
       (\<lambda>a. ac_type a = AT_Asset
          \<and> (gap_match ''mobili'' ''advance'' (ac_name a) \<or> gap_match ''advance'' ''contractor'' (ac_name a)))"

section \<open>Deduction\<close>

definition compute_deduction :: "contract \<Rightarrow> contract_balance \<Rightarrow> rat \<Rightarrow> rat" where
  "compute_deduction c b gross = 0"

definition apply_deduction :: "rat \<Rightarrow> contract_balance \<Rightarrow> err + contract_balance" where
  "apply_deduction amount b =
     (if amount < 0 then Inl RetentionCapError
      else Inr (b\<lparr>cb_ret_held := quantize_currency (cb_ret_held b + amount)\<rparr>))"

section \<open>Posting under a contract\<close>

definition contract_header :: "contract \<Rightarrow> date \<Rightarrow> string \<Rightarrow> string \<Rightarrow> string \<Rightarrow> nat \<Rightarrow> nat \<Rightarrow> sys \<Rightarrow> journal" where
  \<comment> \<open>a draft header that carries the dimensions bridged from the contract's NCoA code\<close>
  "contract_header c d ref doc source i user s =
     (let n = find_row n_id (co_ncoa c) (ncoa_codes s)
      in \<lparr>j_id = 0, j_date = d, j_ref = ref, j_document = doc,
          j_mda = Option.bind n n_legacy_mda, j_fund = Option.bind n n_legacy_fund,
          j_function = Option.bind n n_legacy_function, j_program = Option.bind n n_legacy_program,
          j_geo = Option.bind n n_legacy_geo, j_status = J_Draft, j_source_module = Some source,
          j_source_id = Some i, j_posted_by = Some user, j_is_reversed = False,
          j_is_deleted = False, j_lines = []\<rparr>)"

definition debit_line :: "nat \<Rightarrow> rat \<Rightarrow> jline" where
  "debit_line a x = \<lparr>l_account = a, l_debit = x, l_credit = 0, l_ncoa = None, l_asset = None\<rparr>"

definition credit_line :: "nat \<Rightarrow> rat \<Rightarrow> jline" where
  "credit_line a x = \<lparr>l_account = a, l_debit = 0, l_credit = x, l_ncoa = None, l_asset = None\<rparr>"

definition vendor_of :: "nat \<Rightarrow> sys \<Rightarrow> vendor option" where
  "vendor_of i s = find_row ve_id i (vendors s)"

definition ap_account_of :: "contract \<Rightarrow> sys \<Rightarrow> err + account" where
  "ap_account_of c s = get_vendor_ap_account (map_option vendor_info.truncate (vendor_of (co_vendor c) s)) s"

section \<open>Releases\<close>

definition open_release_ipc :: "ipc \<Rightarrow> bool" where
  "open_release_ipc i \<longleftrightarrow> ip_status i \<in> {IPC_DRAFT, IPC_SUBMITTED, IPC_CERTIFIER_REVIEWED}"

definition create_release :: "contract \<Rightarrow> string \<Rightarrow> nat \<Rightarrow> sys \<Rightarrow> err + (nat \<times> sys)" where
  "create_release c ty user s =
     (if ty \<notin> {''PRACTICAL_COMPLETION'', ''FINAL_COMPLETION''} then Inl InvalidTransitionError
      else if co_status c \<noteq> (if ty = ''PRACTICAL_COMPLETION'' then CS_PRACTICAL_COMPLETION else CS_FINAL_COMPLETION)
      then Inl InvalidTransitionError
      else if (\<exists>r \<in> set (releases s). rr_contract r = co_id c \<and> rr_type r = ty) then Inl InvalidTransitionError
      else if (\<exists>i \<in> set (ipcs s). ip_contract i = co_id c \<and> open_release_ipc i) then Inl InvalidTransitionError
      else rbind (get_balance (co_id c) s)
        (\<lambda>b. let remaining = cb_ret_held b - cb_ret_released b;
                 amount = (if ty = ''PRACTICAL_COMPLETION''
                           then min (quantize_currency (cb_ret_held b * (1/2))) remaining else remaining);
                 i = fresh_pk rr_id (releases s)
             in if remaining \<le> 0 then Inl RetentionCapError
                else if db_decimal amount < 0 then Inl IntegrityError
                else Inr (i, record_step OT_RETENTION i (co_id c) ''contracts.approve_retention_release''
                               ACT_REQUEST_INFO user
                       (s\<lparr>releases := releases s @
                           [\<lparr>rr_id = i, rr_contract = co_id c, rr_type = ty, rr_amount = db_decimal amount,
                             rr_voucher = None, rr_date = None, rr_status = RR_PENDING, rr_accrual = None,
                             rr_approved_by = None, rr_updated = today s\<rparr>]\<rparr>))))"

definition post_release_accrual_journal :: "retention_release \<Rightarrow> nat \<Rightarrow> sys \<Rightarrow> err + (nat \<times> sys)" where
  "post_release_accrual_journal r user s =
     (case rr_accrual r of
        Some j \<Rightarrow> Inr (j, s)
      | None \<Rightarrow>
          (case contract_of (rr_contract r) s of
             None \<Rightarrow> Inl DoesNotExist
           | Some c \<Rightarrow>
               let amount = quantize_currency (rr_amount r)
               in if amount \<le> 0 then Inl InvalidTransitionError
                  else (case resolve_retention_account s of
                          None \<Rightarrow> Inl TransactionPostingError
                        | Some ret \<Rightarrow> rbind (ap_account_of c s)
                            (\<lambda>ap. post_new_journal
                               (contract_header c (rr_updated r) (''RR-'' @ show_nat (rr_id r) @ ''-'' @ rr_type r) []
                                  ''contract_retention_release'' (rr_id r) user s)
                               [debit_line (ac_id ret) amount, credit_line (ac_id ap) amount] (Some user) s))))"

definition release_approve :: "retention_release \<Rightarrow> nat \<Rightarrow> sys \<Rightarrow> err + sys" where
  "release_approve r user s =
     (if rr_status r \<noteq> RR_PENDING then Inl InvalidTransitionError
      else rbind (post_release_accrual_journal r user s)
        (\<lambda>(j, s1). Inr (record_step OT_RETENTION (rr_id r) (rr_contract r) ''contracts.approve_retention_release''
                          ACT_APPROVE user
             (s1\<lparr>releases := upd_row rr_id (rr_id r)
                   (\<lambda>x. x\<lparr>rr_status := RR_APPROVED, rr_approved_by := Some user, rr_accrual := Some j,
                          rr_updated := today s1\<rparr>) (releases s1)\<rparr>))))"

definition release_mark_paid :: "retention_release \<Rightarrow> nat \<Rightarrow> date \<Rightarrow> sys \<Rightarrow> err + sys" where
  "release_mark_paid r pv d s =
     (if rr_status r \<noteq> RR_APPROVED then Inl InvalidTransitionError
      else rbind (get_balance (rr_contract r) s)
        (\<lambda>b. let released = quantize_currency (cb_ret_released b + rr_amount r)
             in if cb_ret_held b < released then Inl RetentionCapError
                else rbind (catch_as IntegrityError InvalidTransitionError
                              (update_balance (rr_contract r) (\<lambda>x. x\<lparr>cb_ret_released := released\<rparr>) s))
                  (\<lambda>s1. Inr (s1\<lparr>releases := upd_row rr_id (rr_id r)
                       (\<lambda>x. x\<lparr>rr_status := RR_PAID, rr_voucher := Some pv, rr_date := Some d,
                              rr_updated := today s1\<rparr>) (releases s1)\<rparr>))))"


section \<open>Effects\<close>

lemma apply_deductionD:
  "apply_deduction a b = Inr b' \<Longrightarrow> 0 \<le> a \<and> b' = b\<lparr>cb_ret_held := quantize_currency (cb_ret_held b + a)\<rparr>"
  by (auto simp: apply_deduction_def split: if_splits)

lemma contract_header_draft [simp]:
  "j_status (contract_header c d ref doc src i u s) = J_Draft"
  "j_source_module (contract_header c d ref doc src i u s) = Some src"
  "j_source_id (contract_header c d ref doc src i u s) = Some i"
  "j_lines (contract_header c d ref doc src i u s) = []"
  by (simp_all add: contract_header_def Let_def)

lemma line_sides [simp]:
  "l_debit (debit_line a x) = x" "l_credit (debit_line a x) = 0"
  "l_debit (credit_line a x) = 0" "l_credit (credit_line a x) = x"
  by (simp_all add: debit_line_def credit_line_def)

lemma kept_releases:
  assumes "kept s s1" and "releases_ok rs (balances s1)"
  shows "kept s (s1\<lparr>releases := rs\<rparr>)"
  using assms by (auto simp: kept_def sys_ok_def envelopes_def envelopes_of_def fun_eq_iff balance_of_def)

lemma create_release_kept:
  assumes "sys_ok s" and "create_release c ty u s = Inr (i, s')"
  shows "kept s s'"
proof -
  obtain a b where b: "balance_of (co_id c) s = Some b" and a: "0 \<le> db_decimal a" "i = fresh_pk rr_id (releases s)"
    and s': "s' = record_step OT_RETENTION i (co_id c) ''contracts.approve_retention_release'' ACT_REQUEST_INFO u
               (s\<lparr>releases := releases s @
                   [\<lparr>rr_id = i, rr_contract = co_id c, rr_type = ty, rr_amount = db_decimal a,
                     rr_voucher = None, rr_date = None, rr_status = RR_PENDING, rr_accrual = None,
                     rr_approved_by = None, rr_updated = today s\<rparr>]\<rparr>)"
    using assms(2) unfolding create_release_def
    by (auto simp: rbind_eq_Inr Let_def not_less split: if_splits)
  have k: "kept s s" using assms(1) by simp
  have "co_id c \<in> cb_contract ` set (balances s)" using balance_of_mem [OF b] by (metis imageI)
  then show ?thesis unfolding s' kept_step
    by (intro kept_releases [OF k] releases_ok_append [OF sys_okD(4) [OF assms(1)]]) (use a in simp_all)
qed

lemma post_new_journal_kept:
  assumes "post_new_journal h ls u s = Inr (i, s')" and "sys_ok s"
  shows "kept s s'"
  by (rule post_new_journalD [OF assms(1) sys_okD(6) [OF assms(2)]]) (rule kept_posted [OF assms(2)])

lemma posted_new_frame:
  assumes "posted_new h ls u j s s'"
  shows "ipcs s' = ipcs s \<and> balances s' = balances s \<and> releases s' = releases s \<and> contracts s' = contracts s
    \<and> variations s' = variations s \<and> milestones s' = milestones s \<and> vouchers s' = vouchers s
    \<and> vendor_invoices s' = vendor_invoices s \<and> mobs s' = mobs s"
  using assms by (auto simp: posted_new_def)

lemma post_new_journal_frame:
  assumes "post_new_journal h ls u s = Inr (i, s')" and "keys_ok s"
  shows "ipcs s' = ipcs s \<and> balances s' = balances s \<and> releases s' = releases s \<and> contracts s' = contracts s
    \<and> variations s' = variations s \<and> milestones s' = milestones s \<and> vouchers s' = vouchers s
    \<and> vendor_invoices s' = vendor_invoices s \<and> mobs s' = mobs s"
  by (rule post_new_journalD [OF assms]) (rule posted_new_frame)

lemma post_releaseD:
  assumes "post_release_accrual_journal r u s = Inr (j, s1)" and "sys_ok s"
  shows "kept s s1 \<and> releases s1 = releases s"
proof (cases "rr_accrual r")
  case None
  then obtain h ls where p: "post_new_journal h ls (Some u) s = Inr (j, s1)"
    using assms(1) by (auto simp: post_release_accrual_journal_def rbind_eq_Inr Let_def split: option.splits if_splits)
  then show ?thesis using post_new_journal_kept [OF p assms(2)] post_new_journal_frame [OF p sys_okD(6) [OF assms(2)]]
    by simp
qed (use assms in \<open>auto simp: post_release_accrual_journal_def\<close>)

lemma release_approve_kept:
  assumes "sys_ok s" and "release_approve r u s = Inr s'"
    and "find_row rr_id (rr_id r) (releases s) = Some r"
  shows "kept s s'"
proof -
  obtain j s1 where j: "post_release_accrual_journal r u s = Inr (j, s1)"
    and s': "s' = record_step OT_RETENTION (rr_id r) (rr_contract r) ''contracts.approve_retention_release'' ACT_APPROVE u
         (s1\<lparr>releases := upd_row rr_id (rr_id r) (\<lambda>x. x\<lparr>rr_status := RR_APPROVED, rr_approved_by := Some u,
             rr_accrual := Some j, rr_updated := today s1\<rparr>) (releases s1)\<rparr>)"
    and st: "rr_status r = RR_PENDING"
    using assms(2) by (auto simp: release_approve_def rbind_eq_Inr split: if_splits prod.splits)
  have s1: "kept s s1" "releases s1 = releases s" using post_releaseD [OF j assms(1)] by simp_all
  note ok = sys_okD [OF keptD(1) [OF s1(1)]]
  have f: "find_row rr_id (rr_id r) (releases s1) = Some r" using assms(3) s1(2) by simp
  show ?thesis unfolding s' kept_step
    by (intro kept_releases [OF s1(1)] releases_ok_same [OF ok(4) f books_okD(2) [OF ok(2)]])
      (use st in simp_all)
qed

lemma release_mark_paid_kept:
  assumes "sys_ok s" and "release_mark_paid r pv d s = Inr s'"
    and r: "find_row rr_id (rr_id r) (releases s) = Some r"
  shows "kept s s'"
proof -
  obtain b s1 where b: "balance_of (rr_contract r) s = Some b" and st: "rr_status r = RR_APPROVED"
    and w: "update_balance (rr_contract r)
              (\<lambda>x. x\<lparr>cb_ret_released := quantize_currency (cb_ret_released b + rr_amount r)\<rparr>) s = Inr s1"
    and s': "s' = s1\<lparr>releases := upd_row rr_id (rr_id r) (\<lambda>x. x\<lparr>rr_status := RR_PAID, rr_voucher := Some pv,
               rr_date := Some d, rr_updated := today s1\<rparr>) (releases s1)\<rparr>"
    using assms(2) by (auto simp: release_mark_paid_def rbind_eq_Inr Let_def split: if_splits)
  note ok = sys_okD [OF assms(1)]
  have bok: "balance_ok b" "find_row cb_contract (rr_contract r) (balances s) = Some b"
    using balance_of_books [OF ok(2) b] b by (simp_all add: balance_of_def)
  have rm: "is_money (rr_amount r)" "0 \<le> rr_amount r"
    using ok(4) find_row_SomeD [OF r] by (simp_all add: releases_ok_def)
  have "kept s s1"
    by (rule kept_columns [OF assms(1) w]) (use b bok rm in \<open>simp_all add: is_money_add\<close>)
  moreover have "releases_ok (releases s') (balances s1)"
    unfolding s' using update_balanceD [OF w b] bok rm st
    by (simp, intro releases_ok_upd [OF ok(4) r _ _ _ bok(2)]) (simp_all add: is_money_add)
  ultimately show ?thesis using kept_releases [of s s1 "releases s'"] by (simp add: s')
qed

end
