(* ===== verification/Variation.thy ===== *)
theory Variation
  imports ContractBooks
begin

text \<open>
  Contract variations (\<^verbatim>\<open>contracts/services/variation_service.py\<close>,
  \<^verbatim>\<open>contracts/models/variation.py\<close>): the approval tier, the workflow from draft to approval, the
  cap of a write-up by the appropriation, and the refresh of the ceiling snapshot.  The
  permission test \<^verbatim>\<open>actor.has_perm\<close> is an argument of the approval.
\<close>

definition abs_amount :: "rat \<Rightarrow> rat" where
  "abs_amount x = (if x < 0 then - x else x)"

definition compute_approval_tier :: "variation \<Rightarrow> contract \<Rightarrow> sys \<Rightarrow> approval_tier" where
  "compute_approval_tier v c s =
     (if co_sum c \<le> 0 then TIER_BPP_REQUIRED
      else let total = approved_variations_total (co_id c) s;
               existing = (if va_status v = VS_APPROVED \<and> va_id v \<noteq> 0
                           then max 0 (total - abs_amount (va_amount v)) else total);
               pct = dec_mul (dec_div (existing + abs_amount (va_amount v)) (co_sum c)) 100
           in if pct \<le> 15 then TIER_LOCAL else if pct \<le> 25 then TIER_BOARD else TIER_BPP_REQUIRED)"

definition variation_checks :: "variation \<Rightarrow> bool" where
  "variation_checks v \<longleftrightarrow> (va_type v = EXTENSION_OF_TIME \<longrightarrow> va_amount v = 0)
     \<and> (va_type v = OMISSION \<longrightarrow> va_amount v \<le> 0) \<and> (va_type v = ADDITION \<longrightarrow> 0 \<le> va_amount v)"

definition blank :: "string \<Rightarrow> bool" where
  \<comment> \<open>\<^verbatim>\<open>not s.strip()\<close>\<close>
  "blank s = list_all (\<lambda>c. (of_char c :: nat) \<in> {9, 10, 11, 12, 13, 28, 29, 30, 31, 32}) s"

definition variation_clean :: "variation \<Rightarrow> err + unit" where
  "variation_clean v =
     (if va_amount v \<le> 0 then Inl ValidationError
      else if va_status v = VS_APPROVED \<and> va_tier v = TIER_BPP_REQUIRED \<and> blank (va_bpp v)
      then Inl ValidationError else Inr ())"

section \<open>The appropriation cap\<close>

definition resolve_appropriation :: "contract \<Rightarrow> sys \<Rightarrow> appropriation option" where
  "resolve_appropriation c s =
     (case find_row n_id (co_ncoa c) (ncoa_codes s) of
        None \<Rightarrow> None
      | Some n \<Rightarrow>
          qs_first (\<lambda>a. - int (ap_id a))
            (filter (\<lambda>a. ap_admin a = co_mda c \<and> ap_fund a = n_fund n \<and> ap_economic a = n_economic n
                       \<and> ap_fiscal_year a = co_fiscal_year c \<and> ap_status a = ''ACTIVE'') (appropriations s)))"

definition appropriation_headroom :: "contract \<Rightarrow> sys \<Rightarrow> rat option" where
  "appropriation_headroom c s = map_option (\<lambda>a. available_balance a s) (resolve_appropriation c s)"

definition assert_increase_within_budget :: "contract \<Rightarrow> rat \<Rightarrow> sys \<Rightarrow> err + unit" where
  "assert_increase_within_budget c delta s =
     (if delta \<le> 0 then Inr ()
      else (case appropriation_headroom c s of
              Some h \<Rightarrow> if h < delta then Inl InvalidTransitionError else Inr ()
            | None \<Rightarrow> Inr ()))"

section \<open>Workflow\<close>

fun tier_permission :: "approval_tier \<Rightarrow> string" where
  "tier_permission TIER_LOCAL = ''contracts.approve_variation_local''"
| "tier_permission TIER_BOARD = ''contracts.approve_variation_board''"
| "tier_permission TIER_BPP_REQUIRED = ''contracts.approve_variation_bpp''"

definition variation_step :: "variation \<Rightarrow> approval_action \<Rightarrow> nat \<Rightarrow> sys \<Rightarrow> sys" where
  "variation_step v act user s =
     record_step OT_VARIATION (va_id v) (va_contract v) (tier_permission (va_tier v)) act user s"

definition write_variation :: "nat \<Rightarrow> (variation \<Rightarrow> variation) \<Rightarrow> sys \<Rightarrow> sys" where
  "write_variation i f s = s\<lparr>variations := upd_row va_id i f (variations s)\<rparr>"

definition variation_transition :: "variation \<Rightarrow> variation_status \<Rightarrow> sys \<Rightarrow> err + sys" where
  \<comment> \<open>the tier recomputed by \<^verbatim>\<open>save()\<close> is not among the written columns\<close>
  "variation_transition v new s =
     (if new \<notin> set (variation_next (va_status v)) then Inl ValidationError
      else Inr (write_variation (va_id v) (\<lambda>r. r\<lparr>va_status := new\<rparr>) s))"

definition variation_create :: "contract \<Rightarrow> variation_type \<Rightarrow> rat \<Rightarrow> string \<Rightarrow> sys \<Rightarrow> err + (nat \<times> sys)" where
  "variation_create c ty amount bpp s =
     rbind (assert_increase_within_budget c amount s)
       (\<lambda>_. let i = fresh_pk va_id (variations s);
                v = \<lparr>va_id = 0, va_contract = co_id c, va_number = next_variation_number c s, va_type = ty,
                     va_status = VS_DRAFT, va_tier = TIER_LOCAL, va_amount = amount, va_bpp = bpp,
                     va_approved_by = None\<rparr>;
                row = v\<lparr>va_id := i, va_tier := compute_approval_tier v c s, va_amount := db_decimal amount\<rparr>
            in if \<not> variation_checks row
                  \<or> (\<exists>x \<in> set (variations s). va_contract x = co_id c \<and> va_number x = va_number row)
               then Inl IntegrityError else Inr (i, s\<lparr>variations := variations s @ [row]\<rparr>))"

definition variation_submit :: "variation \<Rightarrow> nat \<Rightarrow> sys \<Rightarrow> err + sys" where
  "variation_submit v user s =
     (if va_status v \<noteq> VS_DRAFT then Inl InvalidTransitionError
      else rbind (variation_transition v VS_SUBMITTED s) (\<lambda>s1. Inr (variation_step v ACT_REQUEST_INFO user s1)))"

definition variation_review :: "variation \<Rightarrow> nat \<Rightarrow> sys \<Rightarrow> err + sys" where
  "variation_review v user s =
     (if va_status v \<noteq> VS_SUBMITTED then Inl InvalidTransitionError
      else rbind (variation_transition v VS_REVIEWED s) (\<lambda>s1. Inr (variation_step v ACT_VERIFY user s1)))"

definition refresh_contract_ceiling :: "contract \<Rightarrow> sys \<Rightarrow> err + sys" where
  "refresh_contract_ceiling c s =
     (let new = contract_ceiling c s
      in case balance_of (co_id c) s of
           None \<Rightarrow> Inr s
         | Some b \<Rightarrow>
             if cb_ceiling b = new then Inr s
             else catch_as IntegrityError ConcurrencyError
                    (update_balance (co_id c) (\<lambda>r. r\<lparr>cb_ceiling := new\<rparr>) s))"

definition variation_approve :: "variation \<Rightarrow> nat \<Rightarrow> (string \<Rightarrow> bool) \<Rightarrow> sys \<Rightarrow> err + sys" where
  "variation_approve v user has_perm s =
     (if va_status v \<noteq> VS_REVIEWED then Inl InvalidTransitionError
      else if \<not> has_perm (tier_permission (va_tier v)) then Inl VariationApprovalError
      else if va_tier v = TIER_BPP_REQUIRED \<and> blank (va_bpp v) then Inl VariationApprovalError
      else (case contract_of (va_contract v) s of
              None \<Rightarrow> Inl DoesNotExist
            | Some c \<Rightarrow>
                rbind (refresh_contract_ceiling c
                         (write_variation (va_id v) (\<lambda>r. r\<lparr>va_status := VS_APPROVED, va_approved_by := Some user\<rparr>) s))
                  (\<lambda>s1. rbind (assert_increase_within_budget c (va_amount v) s1)
                    (\<lambda>_. Inr (variation_step v ACT_APPROVE user s1)))))"

definition variation_reject :: "variation \<Rightarrow> nat \<Rightarrow> sys \<Rightarrow> err + sys" where
  "variation_reject v user s =
     (if va_status v \<in> {VS_APPROVED, VS_REJECTED} then Inl InvalidTransitionError
      else Inr (variation_step v ACT_REJECT user
                  (write_variation (va_id v) (\<lambda>r. r\<lparr>va_status := VS_REJECTED\<rparr>) s)))"


section \<open>Effects\<close>

lemma same_core_variations [simp]: "same_core s (s'\<lparr>variations := vs\<rparr>) = same_core s s'"
  by (simp add: same_core_def)

lemma write_variation_core [simp]: "same_core s (write_variation i f s') = same_core s s'"
  by (simp add: write_variation_def)

lemma variation_step_core [simp]: "same_core s (variation_step v act u s') = same_core s s'"
  by (simp add: variation_step_def)

lemma variation_transition_core: "variation_transition v new s = Inr s' \<Longrightarrow> same_core s s'"
  by (auto simp: variation_transition_def split: if_splits)

lemma variation_create_core: "variation_create c ty x bpp s = Inr (i, s') \<Longrightarrow> same_core s s'"
  by (auto simp: variation_create_def rbind_eq_Inr Let_def split: if_splits)

lemma variation_submit_core: "variation_submit v u s = Inr s' \<Longrightarrow> same_core s s'"
  by (auto simp: variation_submit_def rbind_eq_Inr split: if_splits dest: variation_transition_core)

lemma variation_review_core: "variation_review v u s = Inr s' \<Longrightarrow> same_core s s'"
  by (auto simp: variation_review_def rbind_eq_Inr split: if_splits dest: variation_transition_core)

lemma variation_reject_core: "variation_reject v u s = Inr s' \<Longrightarrow> same_core s s'"
  by (auto simp: variation_reject_def split: if_splits)

lemma contract_ceiling_money [simp]: "is_money (contract_ceiling c s)"
  by (simp add: contract_ceiling_def)

lemma refresh_ceilingD:
  assumes "refresh_contract_ceiling c s = Inr s'"
  shows "s' = s \<or> update_balance (co_id c) (\<lambda>r. r\<lparr>cb_ceiling := contract_ceiling c s\<rparr>) s = Inr s'"
  using assms by (auto simp: refresh_contract_ceiling_def Let_def split: option.splits if_splits)

lemma refresh_shifted:
  assumes "sys_ok s" and "refresh_contract_ceiling c s = Inr s'"
  shows "shifted (co_id c) [Resize (contract_ceiling c s)] s s'"
proof (cases "update_balance (co_id c) (\<lambda>r. r\<lparr>cb_ceiling := contract_ceiling c s\<rparr>) s = Inr s'")
  case True
  then show ?thesis by (rule shifted_ceiling [OF assms(1)]) simp_all
next
  case False
  have "s' = s \<and> (\<forall>b. balance_of (co_id c) s = Some b \<longrightarrow> cb_ceiling b = contract_ceiling c s)"
    using assms(2) False by (auto simp: refresh_contract_ceiling_def Let_def split: option.splits if_splits)
  then show ?thesis using shifted_already [OF assms(1)] by blast
qed

lemma update_balance_frame:
  assumes "update_balance k f s = Inr s'"
  shows "\<exists>bs. s' = s\<lparr>balances := bs\<rparr>"
proof (cases "balance_of k s")
  case None
  then have "s' = s\<lparr>balances := balances s\<rparr>" using assms by (simp add: update_balance_None)
  then show ?thesis ..
next
  case (Some b)
  then show ?thesis using update_balanceD [OF assms] by blast
qed

lemma refresh_frame:
  assumes "refresh_contract_ceiling c s = Inr s'"
  shows "\<exists>bs. s' = s\<lparr>balances := bs\<rparr>"
proof -
  have "s = s\<lparr>balances := balances s\<rparr>" by simp
  then show ?thesis using refresh_ceilingD [OF assms] update_balance_frame by metis
qed

lemma contract_ceiling_frame:
  "variations s' = variations s \<Longrightarrow> contract_ceiling c s' = contract_ceiling c s"
  by (simp add: contract_ceiling_def approved_variations_total_def)

lemma variation_approve_shifted:
  assumes "sys_ok s" and "variation_approve v u perm s = Inr s'" and "contract_of (va_contract v) s = Some c"
  shows "shifted (va_contract v) [Resize (contract_ceiling c s')] s s'"
proof -
  obtain s1 f where r: "refresh_contract_ceiling c (write_variation (va_id v) f s) = Inr s1"
    and s': "s' = variation_step v ACT_APPROVE u s1"
    using assms(2,3) by (auto simp: variation_approve_def rbind_eq_Inr split: if_splits)
  have k: "kept s (write_variation (va_id v) f s)" using assms(1) by (simp add: kept_core)
  have c: "co_id c = va_contract v" using assms(3) find_row_SomeD by (fastforce simp: contract_of_def)
  have "contract_ceiling c s' = contract_ceiling c (write_variation (va_id v) f s)"
    using refresh_frame [OF r] by (auto simp: s' variation_step_def intro: contract_ceiling_frame)
  then have "shifted (va_contract v) [Resize (contract_ceiling c s')] s s1"
    using kept_shifted [OF k refresh_shifted [OF keptD(1) [OF k] r]] by (simp add: c)
  then show ?thesis by (simp add: s' variation_step_def)
qed

end
