(* ===== verification/Activation.thy ===== *)
theory Activation
  imports ContractBooks
begin

text \<open>
  Activation of a contract (\<^verbatim>\<open>contracts/services/contract_activation.py\<close>): the year plans, the
  number, and the balance row seeded with the ceiling and the retention reserve.
\<close>

definition plans_of :: "nat \<Rightarrow> sys \<Rightarrow> year_plan list" where
  \<comment> \<open>\<^verbatim>\<open>contract.year_plans\<close>, ordered by sequence\<close>
  "plans_of k s = sort_key yp_sequence (filter (\<lambda>p. yp_contract p = k) (year_plans s))"

definition year_plan_checks :: "year_plan \<Rightarrow> bool" where
  "year_plan_checks p \<longleftrightarrow> 0 < yp_planned p \<and> 1 \<le> yp_sequence p \<and> 0 \<le> yp_carried p"

definition total_authorised_for_year :: "year_plan \<Rightarrow> rat" where
  "total_authorised_for_year p = yp_planned p + yp_carried p"

definition validate_or_create_year_plans :: "contract \<Rightarrow> sys \<Rightarrow> err + sys" where
  "validate_or_create_year_plans c s =
     (let plans = plans_of (co_id c) s
      in if plans = [] then
           (let p = \<lparr>yp_contract = co_id c, yp_fiscal_year = co_fiscal_year c, yp_appropriation = co_appropriation c,
                     yp_planned = co_sum c, yp_carried = 0, yp_sequence = 1\<rparr>
            in if year_plan_checks p then Inr (s\<lparr>year_plans := year_plans s @ [p]\<rparr>) else Inl IntegrityError)
         else
           (let delta = sum_list (map yp_planned plans) - co_sum c
            in if 1/10 < delta \<or> delta < - (1/10) then Inl ValidationError
               else if sort (map yp_sequence plans) \<noteq> [1 ..< Suc (length plans)] then Inl ValidationError
               else Inr s))"

definition seed_balance :: "contract \<Rightarrow> sys \<Rightarrow> err + sys" where
  \<comment> \<open>\<^verbatim>\<open>ContractBalance.objects.get_or_create\<close> and the refresh of a stale row\<close>
  "seed_balance c s =
     (let ceiling = contract_ceiling c s; reserve = retention_reserve c
      in case balance_of (co_id c) s of
           None \<Rightarrow> insert_balance
             \<lparr>cb_contract = co_id c, cb_ceiling = ceiling, cb_certified = 0, cb_submitted = 0,
              cb_pending = 0, cb_paid = 0, cb_mob_paid = 0, cb_mob_recovered = 0,
              cb_ret_held = reserve, cb_ret_released = 0, cb_version = 1\<rparr> s
         | Some b \<Rightarrow>
             if cb_ceiling b \<noteq> ceiling \<or> cb_ret_held b \<noteq> reserve
             then catch_as IntegrityError ConcurrencyError
                    (update_balance (co_id c) (\<lambda>r. r\<lparr>cb_ceiling := ceiling, cb_ret_held := reserve\<rparr>) s)
             else Inr s)"

definition activate :: "contract \<Rightarrow> nat \<Rightarrow> sys \<Rightarrow> err + sys" where
  "activate c user s =
     (if co_status c \<noteq> CS_DRAFT then Inl InvalidTransitionError
      else if co_signed c = None \<or> co_start c = None \<or> co_end c = None
              \<or> co_vendor c = 0 \<or> co_mda c = 0 \<or> co_ncoa c = 0
      then Inl ValidationError
      else
        let (num, s1) = (if co_number c = [] then next_contract_number (co_type c) (year_of_contract c s) s
                         else (co_number c, s))
        in rbind (validate_or_create_year_plans c s1)
          (\<lambda>s2. rbind (seed_balance c s2)
            (\<lambda>s3. rbind (contract_transition c CS_ACTIVATED s3)
              (\<lambda>s4. if \<exists>x \<in> set (contracts s4). co_id x \<noteq> co_id c \<and> co_number x = num
                    then Inl IntegrityError
                    else Inr (s4\<lparr>contracts := upd_row co_id (co_id c) (\<lambda>r. r\<lparr>co_number := num\<rparr>) (contracts s4),
                           steps := steps s4 @
                             [\<lparr>as_type = OT_CONTRACT, as_object = co_id c, as_contract = co_id c,
                               as_number = 1, as_role = ''contracts.activate_contract'',
                               as_action = ACT_APPROVE, as_by = user\<rparr>]\<rparr>)))))"

section \<open>Effects\<close>

lemma next_contract_number_core:
  "next_contract_number ty y s = (num, s') \<Longrightarrow> \<exists>sq. s' = s\<lparr>sequences := sq\<rparr>"
  by (auto simp: next_contract_number_def Let_def split: prod.splits dest: sequence_next_frame)

lemma year_plans_core:
  "validate_or_create_year_plans c s = Inr s' \<Longrightarrow> \<exists>ps. s' = s\<lparr>year_plans := ps\<rparr>"
proof -
  assume "validate_or_create_year_plans c s = Inr s'"
  then have "s' = s\<lparr>year_plans := year_plans s\<rparr> \<or> (\<exists>ps. s' = s\<lparr>year_plans := ps\<rparr>)"
    by (auto simp: validate_or_create_year_plans_def Let_def split: if_splits)
  then show ?thesis by blast
qed

text \<open>A balance row is created for a contract that has no certificate and no release yet.\<close>

lemma insert_balance_shifted:
  assumes "sys_ok s" and "insert_balance b s = Inr s'"
    and "cb_pending b = 0" "cb_certified b = 0" "cb_mob_recovered b = 0" "cb_ret_released b = 0"
  shows "shifted (cb_contract b) [Allot (db_decimal (cb_ceiling b))] s s'"
proof -
  note ins = insert_balanceD [OF assms(2)]
  note ok = sys_okD [OF assms(1)]
  have new: "cb_contract b \<notin> cb_contract ` set (balances s)"
    using ins(1) by (simp add: balance_of_def find_row_None_iff)
  then have none: "cb_contract b \<notin> ip_contract ` set (ipcs s)" "cb_contract b \<notin> rr_contract ` set (releases s)"
    using books_okD(6) [OF ok(2)] ok(4) by (auto simp: releases_ok_def)
  have "books_ok (ipcs s) (balances s @ [round_balance b])"
    using ok(2) ins(2) new none(1) assms(3-) by (auto simp: books_ok_def covers_def total_absent)
  moreover have "releases_ok (releases s) (balances s @ [round_balance b])"
    using ok(4) none(2) assms(3-) by (auto simp: releases_ok_def paid_out_absent)
  moreover have "evolves (cb_contract b) [Allot (db_decimal (cb_ceiling b))] s s'"
    using evolves_append [of s' s "round_balance b" "db_decimal (cb_ceiling b)"] ins(1,3) balance_checks_ok(7) [OF ins(2)] assms(3,4)
    by (simp add: envelope_of_def)
  ultimately show ?thesis using ok by (simp add: ins(3) shifted_def sys_ok_def)
qed

definition seeding :: "contract \<Rightarrow> sys \<Rightarrow> envelope_event" where
  \<comment> \<open>what activation does to the envelope\<close>
  "seeding c s = (if balance_of (co_id c) s = None then Allot (contract_ceiling c s) else Resize (contract_ceiling c s))"

lemma seed_balance_shifted:
  assumes "sys_ok s" and "seed_balance c s = Inr s'" and "is_money (contract_ceiling c s)"
  shows "shifted (co_id c) [seeding c s] s s'"
proof (cases "balance_of (co_id c) s")
  case None
  obtain b where b: "insert_balance b s = Inr s'" "cb_contract b = co_id c" "cb_ceiling b = contract_ceiling c s"
    "cb_pending b = 0" "cb_certified b = 0" "cb_mob_recovered b = 0" "cb_ret_released b = 0"
    using assms(2) None by (auto simp: seed_balance_def Let_def)
  show ?thesis using insert_balance_shifted [OF assms(1) b(1,4-7)] assms(3) None by (simp add: b(2,3) seeding_def)
next
  case (Some b)
  show ?thesis
  proof (cases "update_balance (co_id c) (\<lambda>r. r\<lparr>cb_ceiling := contract_ceiling c s, cb_ret_held := retention_reserve c\<rparr>) s = Inr s'")
    case True
    then show ?thesis using shifted_ceiling [OF assms(1) True assms(3)] Some by (simp add: seeding_def)
  next
    case False
    then have "s' = s" "cb_ceiling b = contract_ceiling c s"
      using assms(2) Some by (auto simp: seed_balance_def Let_def split: if_splits)
    then show ?thesis using shifted_already [OF assms(1), of "co_id c"] Some by (simp add: seeding_def)
  qed
qed

lemma contract_transitionD:
  assumes "contract_transition c new s = Inr s'"
  shows "new \<in> set (contract_next (co_status c))"
    "s' = s\<lparr>contracts := upd_row co_id (co_id c) (\<lambda>r. r\<lparr>co_status := new\<rparr>) (contracts s)\<rparr>"
  using assms by (auto simp: contract_transition_def split: if_splits)

lemma activateD:
  assumes "activate c u s = Inr s'" and "sys_ok s"
  obtains num s3 st where "shifted (co_id c) [seeding c s] s s3" "co_status c = CS_DRAFT"
    "s' = s3\<lparr>contracts := upd_row co_id (co_id c) (\<lambda>r. r\<lparr>co_number := num\<rparr>)
            (upd_row co_id (co_id c) (\<lambda>r. r\<lparr>co_status := CS_ACTIVATED\<rparr>) (contracts s3)), steps := st\<rparr>"
proof -
  obtain num s1 where
    s1: "(if co_number c = [] then next_contract_number (co_type c) (year_of_contract c s) s
          else (co_number c, s)) = (num, s1)" by (meson surj_pair)
  obtain s2 s3 s4 st where
    s2: "validate_or_create_year_plans c s1 = Inr s2" and s3: "seed_balance c s2 = Inr s3"
    and s4: "contract_transition c CS_ACTIVATED s3 = Inr s4" and d: "co_status c = CS_DRAFT"
    and s': "s' = s4\<lparr>contracts := upd_row co_id (co_id c) (\<lambda>r. r\<lparr>co_number := num\<rparr>) (contracts s4), steps := st\<rparr>"
    using assms(1) unfolding activate_def s1 by (auto simp: rbind_eq_Inr split: if_splits)
  have sq: "s1 = s \<or> (\<exists>sq. s1 = s\<lparr>sequences := sq\<rparr>)"
    using s1 next_contract_number_core by (auto split: if_splits)
  then have "same_core s s1" by (auto simp: same_core_def)
  moreover have "same_core s1 s2" using year_plans_core [OF s2] by (auto simp: same_core_def)
  ultimately have "kept s s2" using assms(2) same_core_trans kept_core by blast
  moreover have "balances s2 = balances s" "variations s2 = variations s"
    using sq year_plans_core [OF s2] by auto
  then have "seeding c s2 = seeding c s" "is_money (contract_ceiling c s2)"
    by (simp_all add: seeding_def balance_of_def contract_ceiling_def approved_variations_total_def)
  ultimately have "shifted (co_id c) [seeding c s] s s3" using kept_shifted seed_balance_shifted [OF keptD(1) s3] by metis
  then show ?thesis by (rule that [OF _ d]) (simp add: s' contract_transitionD(2) [OF s4])
qed

end
