(* ===== verification/Ipc.thy ===== *)
theory Ipc
  imports Mobilization Retention Variation Activation
begin

text \<open>
  Interim payment certificates (\<^verbatim>\<open>contracts/services/ipc_service.py\<close>): submission under the row
  lock of the balance, certification, approval with the appropriation gate, the accrual journal
  and the vendor invoice, voucher raising, payment and rejection.  A handler that works on the
  instance its caller loaded takes that instance as an argument; the segregation-of-duties hook
  is the no-op the code has.
\<close>

definition ipc_step :: "nat \<Rightarrow> nat \<Rightarrow> approval_action \<Rightarrow> nat \<Rightarrow> sys \<Rightarrow> sys" where
  "ipc_step i k act user s = record_step OT_IPC i k ''contracts.approve_ipc'' act user s"

section \<open>Submission\<close>

definition covering_plan :: "nat \<Rightarrow> date \<Rightarrow> sys \<Rightarrow> year_plan option" where
  "covering_plan k d s =
     List.find (\<lambda>p. case find_row fy_id (yp_fiscal_year p) (fiscal_years s) of
                      Some f \<Rightarrow> fy_start f \<le> d \<and> d \<le> fy_end f | None \<Rightarrow> False) (plans_of k s)"

definition previous_submitted :: "contract_balance \<Rightarrow> rat" where
  \<comment> \<open>\<^verbatim>\<open>balance.last_cumulative_submitted or balance.cumulative_gross_certified\<close>\<close>
  "previous_submitted b = (if cb_submitted b = 0 then cb_certified b else cb_submitted b)"

text \<open>What the caller passes to \<^verbatim>\<open>submit_ipc\<close>.\<close>

record ipc_request =
  rq_date :: date
  rq_cumulative :: rat
  rq_mb :: "nat option"
  rq_variation :: rat
  rq_ld :: rat
  rq_milestone :: "nat option"
  rq_tax_code :: "nat option"
  rq_withholding :: "nat option"
  rq_wht_exempt :: bool

definition valid_request :: "ipc_request \<Rightarrow> bool" where
  \<comment> \<open>the field validators of \<^verbatim>\<open>IPCSubmitSerializer\<close>\<close>
  "valid_request q \<longleftrightarrow> is_money (rq_cumulative q) \<and> 0 \<le> rq_cumulative q \<and> is_money (rq_variation q)
     \<and> 0 \<le> rq_variation q \<and> is_money (rq_ld q) \<and> 0 \<le> rq_ld q"

definition new_ipc :: "contract \<Rightarrow> contract_balance \<Rightarrow> ipc_request \<Rightarrow> sys \<Rightarrow> ipc" where
  "new_ipc c b q s =
     (let gross = quantize_currency (rq_cumulative q - previous_submitted b)
      in \<lparr>ip_id = 0, ip_contract = co_id c, ip_number = next_ipc_number c s, ip_mb = rq_mb q,
          ip_milestone = rq_milestone q, ip_tax_code = rq_tax_code q, ip_withholding = rq_withholding q,
          ip_wht_exempt = rq_wht_exempt q, ip_date = rq_date q,
          ip_cumulative = quantize_currency (rq_cumulative q), ip_previous = cb_certified b, ip_gross = gross,
          ip_recovery = compute_recovery c b gross, ip_retention = compute_deduction c b gross,
          ip_ld = quantize_currency (rq_ld q), ip_variation = quantize_currency (rq_variation q),
          ip_vat = 0, ip_wht = 0, ip_net = 0, ip_status = IPC_SUBMITTED, ip_engineer = None, ip_hash = [],
          ip_accrual = None, ip_voucher = None\<rparr>)"

definition submit_ipc :: "(string \<Rightarrow> string) \<Rightarrow> contract \<Rightarrow> ipc_request \<Rightarrow> nat \<Rightarrow> sys \<Rightarrow> err + (nat \<times> sys)" where
  "submit_ipc sha256 c q user s =
     (if co_status c \<notin> {CS_ACTIVATED, CS_IN_PROGRESS, CS_PRACTICAL_COMPLETION, CS_DEFECTS_LIABILITY}
      then Inl InvalidTransitionError
      else if covering_plan (co_id c) (rq_date q) s = None then Inl FiscalYearBoundaryError
      else rbind (get_balance (co_id c) s)
        (\<lambda>b. let gross = quantize_currency (rq_cumulative q - previous_submitted b);
                 projected = quantize_currency (cb_certified b + cb_pending b + gross + rq_variation q)
             in if rq_cumulative q \<le> previous_submitted b then Inl MonotonicityError
                else if gross < 0 then Inl CoherenceError
                else if cb_ceiling b < projected then Inl CeilingBreachError
                else rbind (catch_as IntegrityError DuplicateIPCError (insert_ipc sha256 (new_ipc c b q s) s))
                  (\<lambda>(i, s1). rbind (catch_as IntegrityError ConcurrencyError
                      (update_balance (co_id c)
                         (\<lambda>r. r\<lparr>cb_pending := quantize_currency (cb_pending b + gross + rq_variation q),
                                cb_submitted := rq_cumulative q\<rparr>) s1))
                    (\<lambda>s2. Inr (i, ipc_step i (co_id c) ACT_REQUEST_INFO user s2)))))"

definition create_from_milestone :: "(string \<Rightarrow> string) \<Rightarrow> milestone \<Rightarrow> date option \<Rightarrow> nat \<Rightarrow> sys \<Rightarrow> err + (nat \<times> sys)" where
  "create_from_milestone sha256 m d user s =
     (if ms_status m \<noteq> MS_COMPLETED then Inl InvalidTransitionError
      else if (\<exists>i \<in> set (ipcs s). ip_milestone i = Some (ms_id m)) then Inl InvalidTransitionError
      else (case contract_of (ms_contract m) s of
              None \<Rightarrow> Inl DoesNotExist
            | Some c \<Rightarrow>
                rbind (catch_as DoesNotExist InvalidTransitionError (get_balance (co_id c) s))
                  (\<lambda>b. let v = vendor_of (co_vendor c) s
                       in submit_ipc sha256 c
                            \<lparr>rq_date = (case d of Some x \<Rightarrow> x | None \<Rightarrow> today s),
                             rq_cumulative = quantize_currency (cb_certified b + ms_value m), rq_mb = None,
                             rq_variation = 0, rq_ld = 0, rq_milestone = Some (ms_id m),
                             rq_tax_code = None \<comment> \<open>the vendor model has no column \<^verbatim>\<open>tax_code\<close>\<close>,
                             rq_withholding = Option.bind v ve_withholding,
                             rq_wht_exempt = (case v of Some x \<Rightarrow> ve_wht_exempt x | None \<Rightarrow> False)\<rparr> user s)))"

section \<open>Certification\<close>

definition mb_gate :: "ipc \<Rightarrow> sys \<Rightarrow> err + unit" where
  "mb_gate i s =
     (case ip_mb i of
        None \<Rightarrow> Inr ()
      | Some m \<Rightarrow>
          (case find_row mb_id m (mbooks s) of
             None \<Rightarrow> Inl DoesNotExist
           | Some mb \<Rightarrow> if mb_status mb \<noteq> MB_APPROVED \<or> mb_total mb < ip_gross i then Inl ThreeWayMatchError
                        else Inr ()))"

definition certify :: "ipc \<Rightarrow> nat \<Rightarrow> sys \<Rightarrow> err + sys" where
  \<comment> \<open>\<^verbatim>\<open>transition_to\<close> writes the status alone: the certifying engineer set on the instance is not saved\<close>
  "certify i user s =
     (if ip_status i \<noteq> IPC_SUBMITTED then Inl InvalidTransitionError
      else rbind (mb_gate i s)
        (\<lambda>_. rbind (ipc_transition i IPC_CERTIFIER_REVIEWED s)
          (\<lambda>s1. Inr (ipc_step (ip_id i) (ip_contract i) ACT_CERTIFY user s1))))"

section \<open>Approval\<close>

definition contract_appropriation :: "contract \<Rightarrow> int \<Rightarrow> sys \<Rightarrow> appropriation option" where
  \<comment> \<open>the year plan of the posting year, else the line matched from the NCoA code\<close>
  "contract_appropriation c y s =
     (let planned = List.find (\<lambda>p. yp_appropriation p \<noteq> None
              \<and> (case find_row fy_id (yp_fiscal_year p) (fiscal_years s) of Some f \<Rightarrow> fy_year f = y | None \<Rightarrow> False))
            (plans_of (co_id c) s)
      in case Option.bind planned yp_appropriation of
           Some a \<Rightarrow> find_row ap_id a (appropriations s)
         | None \<Rightarrow>
             (case find_row n_id (co_ncoa c) (ncoa_codes s) of
                None \<Rightarrow> None
              | Some n \<Rightarrow>
                  find_matching_appropriation
                    (legacy_mda_of (case legacy_of (admin_segments s) (co_mda c) of
                                      Some m \<Rightarrow> Some m | None \<Rightarrow> n_legacy_mda n) s)
                    (legacy_fund_of (n_legacy_fund n) s) (Some (n_economic n)) (Some y) s))"

definition contract_account :: "contract \<Rightarrow> sys \<Rightarrow> account option" where
  \<comment> \<open>the economic classifier of the contract's NCoA code is a GL account\<close>
  "contract_account c s =
     Option.bind (find_row n_id (co_ncoa c) (ncoa_codes s)) (\<lambda>n. account_of (n_economic n) s)"

definition enforce_appropriation_gate :: "ipc \<Rightarrow> contract \<Rightarrow> sys \<Rightarrow> err + unit" where
  "enforce_appropriation_gate i c s =
     (if ck_blocked (check_policy (case contract_account c s of Some a \<Rightarrow> ac_code a | None \<Rightarrow> [])
                       (contract_appropriation c (d_year (ip_date i)) s) (Some (ip_gross i)) s)
      then Inl BudgetExceededError else Inr ())"

definition ap_credit :: "ipc \<Rightarrow> rat" where
  "ap_credit i = quantize_currency (ip_gross i - ip_recovery i - ip_retention i)"

definition accrual_lines :: "ipc \<Rightarrow> account \<Rightarrow> account \<Rightarrow> account option \<Rightarrow> account option \<Rightarrow> jline list" where
  \<comment> \<open>expense, payable, retention and mobilization accounts; a deduction without an account is
      folded into the payable\<close>
  "accrual_lines i expense ap ret mob =
     (let ap1 = (if 0 < ip_recovery i \<and> mob = None then quantize_currency (ap_credit i + ip_recovery i) else ap_credit i);
          ap2 = (if 0 < ip_retention i \<and> ret = None then quantize_currency (ap1 + ip_retention i) else ap1)
      in (if 0 < ip_gross i then [debit_line (ac_id expense) (ip_gross i)] else [])
         @ (case mob of Some m \<Rightarrow> if 0 < ip_recovery i then [credit_line (ac_id m) (ip_recovery i)] else [] | None \<Rightarrow> [])
         @ (case ret of Some r \<Rightarrow> if 0 < ip_retention i then [credit_line (ac_id r) (ip_retention i)] else [] | None \<Rightarrow> [])
         @ (if 0 < ap2 then [credit_line (ac_id ap) ap2] else []))"

definition post_accrual_journal :: "ipc \<Rightarrow> contract \<Rightarrow> nat \<Rightarrow> sys \<Rightarrow> err + (nat \<times> sys)" where
  "post_accrual_journal i c user s =
     (case ip_accrual i of
        Some j \<Rightarrow> Inr (j, s)
      | None \<Rightarrow>
          (case contract_account c s of
             None \<Rightarrow> Inl TransactionPostingError
           | Some expense \<Rightarrow> rbind (ap_account_of c s)
               (\<lambda>ap. if ap_credit i < 0 then Inl TransactionPostingError
                     else post_new_journal
                            (contract_header c (ip_date i) (ip_number i) (ip_number i) ''contract_ipc'' (ip_id i) user s)
                            (accrual_lines i expense ap (resolve_retention_account s)
                               (resolve_mobilization_recovery_account s)) (Some user) s)))"

definition ensure_vendor_invoice :: "ipc \<Rightarrow> contract \<Rightarrow> nat \<Rightarrow> sys \<Rightarrow> sys" where
  \<comment> \<open>an invoice with the certificate's number is left as it is\<close>
  "ensure_vendor_invoice i c j s =
     (if ip_number i \<in> vi_number ` set (vendor_invoices s) then s
      else s\<lparr>vendor_invoices := vendor_invoices s @
          [\<lparr>vi_id = fresh_pk vi_id (vendor_invoices s), vi_number = ip_number i, vi_reference = co_number c,
            vi_vendor = co_vendor c, vi_status = ''Posted'', vi_po = None,
            vi_mda = Option.bind (journal_of j s) j_mda,
            vi_account = map_option ac_id (contract_account c s),
            vi_fund = Option.bind (journal_of j s) j_fund, vi_date = ip_date i, vi_subtotal = ap_credit i,
            vi_total = ap_credit i, vi_paid = 0, vi_retention = 0\<rparr>]\<rparr>)"

definition approve_balance :: "ipc \<Rightarrow> contract_balance \<Rightarrow> err + (contract_balance \<Rightarrow> contract_balance)" where
  \<comment> \<open>coherence, ceiling, recovery and deduction: the columns the approval writes\<close>
  "approve_balance i b =
     (if 1/100 < \<bar>compute_net_payable i - ip_net i\<bar> then Inl CoherenceError
      else let certified = quantize_currency (cb_certified b + certified_value i);
               pending = max 0 (quantize_currency (cb_pending b - certified_value i))
           in if cb_ceiling b < certified + pending then Inl CeilingBreachError
              else rbind (apply_recovery (ip_recovery i) b)
                (\<lambda>b1. rbind (apply_deduction (ip_retention i) b1)
                  (\<lambda>b2. Inr (\<lambda>r. r\<lparr>cb_certified := certified, cb_pending := pending,
                                    cb_mob_recovered := cb_mob_recovered b2, cb_ret_held := cb_ret_held b2\<rparr>))))"

definition approve_posting :: "ipc \<Rightarrow> contract \<Rightarrow> nat \<Rightarrow> sys \<Rightarrow> err + sys" where
  \<comment> \<open>the second half of \<^verbatim>\<open>approve\<close>, after the balance row is written\<close>
  "approve_posting i c user s =
     rbind (enforce_appropriation_gate i c s)
       (\<lambda>_. rbind (post_accrual_journal i c user s)
         (\<lambda>(j, s1). rbind (ipc_transition i IPC_APPROVED (ensure_vendor_invoice i c j s1))
           (\<lambda>s2. rbind (update_ipc (ip_id i) (\<lambda>r. r\<lparr>ip_accrual := Some j\<rparr>) s2)
             (\<lambda>s3. Inr (ipc_step (ip_id i) (ip_contract i) ACT_APPROVE user s3)))))"

definition approve :: "ipc \<Rightarrow> nat \<Rightarrow> sys \<Rightarrow> err + sys" where
  "approve i user s =
     (if ip_status i \<noteq> IPC_CERTIFIER_REVIEWED then Inl InvalidTransitionError
      else (case contract_of (ip_contract i) s of
              None \<Rightarrow> Inl DoesNotExist
            | Some c \<Rightarrow>
                rbind (get_balance (ip_contract i) s)
                  (\<lambda>_. rbind (refresh_contract_ceiling c s)
                    (\<lambda>s1. rbind (get_balance (ip_contract i) s1)
                      (\<lambda>b. rbind (approve_balance i b)
                        (\<lambda>f. rbind (catch_as IntegrityError ConcurrencyError (update_balance (ip_contract i) f s1))
                          (approve_posting i c user)))))))"

section \<open>Vouchers\<close>

definition raise_voucher :: "nat \<Rightarrow> nat \<Rightarrow> rat \<Rightarrow> nat \<Rightarrow> sys \<Rightarrow> err + sys" where
  \<comment> \<open>the row is locked and read again\<close>
  "raise_voucher k pv gross user s =
     (case find_row ip_id k (ipcs s) of
        None \<Rightarrow> Inl DoesNotExist
      | Some i \<Rightarrow>
          if ip_status i \<noteq> IPC_APPROVED then Inl InvalidTransitionError
          else if ip_voucher i \<noteq> None then Inl InvalidTransitionError
          else if 1/100 < \<bar>quantize_currency gross - ip_net i\<bar> then Inl ThreeWayMatchError
          else if pv \<notin> pv_id ` set (vouchers s) then Inl IntegrityError \<comment> \<open>the foreign key\<close>
          else rbind (update_ipc k (\<lambda>r. r\<lparr>ip_voucher := Some pv\<rparr>) s)
            (\<lambda>s1. rbind (ipc_transition i IPC_VOUCHER_RAISED s1)
              (\<lambda>s2. Inr (ipc_step k (ip_contract i) ACT_APPROVE user s2))))"

definition select_tsa :: "nat \<Rightarrow> sys \<Rightarrow> treasury_account option" where
  \<comment> \<open>the ladder over the active accounts; the contract always has an MDA\<close>
  "select_tsa mda s =
     (let active = filter ta_active (treasury_accounts s); by_pk = sort_key ta_id
      in first_hit (\<lambda>xs. case xs of [] \<Rightarrow> None | t # _ \<Rightarrow> Some t)
           [sort_key ta_type (by_pk (filter (\<lambda>t. ta_mda t = Some mda \<and> ta_type t \<in> {''ZERO_BALANCE'', ''SUB_ACCOUNT''}) active)),
            by_pk (filter (\<lambda>t. ta_mda t = Some mda) active),
            by_pk (filter (\<lambda>t. ta_mda t = None \<and> ta_type t = ''MAIN_TSA'') active), by_pk active])"

definition create_draft_voucher :: "ipc \<Rightarrow> nat \<Rightarrow> sys \<Rightarrow> err + (nat \<times> sys)" where
  "create_draft_voucher i user s =
     (case ip_voucher i of
        Some v \<Rightarrow> Inr (v, s)
      | None \<Rightarrow>
          if ip_status i \<noteq> IPC_APPROVED then Inl InvalidTransitionError
          else (case contract_of (ip_contract i) s of
                  None \<Rightarrow> Inl DoesNotExist
                | Some c \<Rightarrow>
                    (case select_tsa (co_mda c) s of
                       None \<Rightarrow> Inl InvalidTransitionError
                     | Some tsa \<Rightarrow>
                         let (num, s1) = sequence_next ''payment_voucher'' ''PV-'' s
                         in rbind (insert_voucher
                              \<lparr>pv_id = 0, pv_number = num, pv_payment_type = ''VENDOR'', pv_ncoa = co_ncoa c,
                               pv_appropriation = None, pv_status = ''DRAFT'', pv_gross = ip_net i, pv_wht = 0,
                               pv_net = ip_net i,
                               pv_source_document = (if co_number c = [] then ''CONTRACT-'' @ show_nat (co_id c)
                                                     else co_number c),
                               pv_invoice_number = [], pv_tsa = ta_id tsa\<rparr> s1)
                             (\<lambda>(v, s2). rbind (update_ipc (ip_id i) (\<lambda>r. r\<lparr>ip_voucher := Some v\<rparr>) s2)
                               (\<lambda>s3. rbind (ipc_transition i IPC_VOUCHER_RAISED s3)
                                 (\<lambda>s4. Inr (v, ipc_step (ip_id i) (ip_contract i) ACT_APPROVE user s4)))))))"

section \<open>Payment and rejection\<close>

definition rate_in :: "(nat \<times> rat) list \<Rightarrow> nat option \<Rightarrow> rat" where
  "rate_in rates code = (case Option.bind code (map_of rates) of Some r \<Rightarrow> r | None \<Rightarrow> 0)"

definition derive_taxes :: "ipc \<Rightarrow> contract \<Rightarrow> sys \<Rightarrow> rat \<times> rat" where
  "derive_taxes i c s =
     (let gross = ip_gross i;
          vat = rate_in (tax_rates s) (ip_tax_code i);
          wht = rate_in (wht_rates s) (ip_withholding i);
          exempt = ip_wht_exempt i \<or> (case vendor_of (co_vendor c) s of Some v \<Rightarrow> ve_wht_exempt v | None \<Rightarrow> False)
      in if gross \<le> 0 then (0, 0)
         else (if 0 < vat then quantize_currency (gross * vat / 100) else 0,
               if \<not> exempt \<and> 0 < wht then quantize_currency (gross * wht / 100) else 0))"

definition final_tax :: "rat option \<Rightarrow> rat \<Rightarrow> rat" where
  "final_tax given derived = (case given of Some x \<Rightarrow> if 0 < x then quantize_currency x else derived | None \<Rightarrow> derived)"

definition mark_paid :: "ipc \<Rightarrow> rat option \<Rightarrow> rat option \<Rightarrow> nat \<Rightarrow> sys \<Rightarrow> err + sys" where
  "mark_paid i vat wht user s =
     (if ip_status i \<noteq> IPC_VOUCHER_RAISED then Inl InvalidTransitionError
      else (case contract_of (ip_contract i) s of
              None \<Rightarrow> Inl DoesNotExist
            | Some c \<Rightarrow>
                rbind (get_balance (ip_contract i) s)
                  (\<lambda>b. let (dv, dw) = derive_taxes i c s;
                           i1 = i\<lparr>ip_vat := final_tax vat dv, ip_wht := final_tax wht dw\<rparr>;
                           net = compute_net_payable i1;
                           new_paid = quantize_currency (cb_paid b + certified_value i)
                       in if cb_certified b < new_paid then Inl CeilingBreachError
                          else rbind (catch_as IntegrityError ConcurrencyError
                                        (update_balance (ip_contract i) (\<lambda>r. r\<lparr>cb_paid := new_paid\<rparr>) s))
                            (\<lambda>s1. rbind (update_ipc (ip_id i)
                                           (\<lambda>r. r\<lparr>ip_vat := ip_vat i1, ip_wht := ip_wht i1, ip_net := net\<rparr>) s1)
                              (\<lambda>s2. rbind (ipc_transition i IPC_PAID s2)
                                (\<lambda>s3. reconcile_payment_status (ip_contract i)
                                        (ipc_step (ip_id i) (ip_contract i) ACT_APPROVE user s3)))))))"

definition reject :: "ipc \<Rightarrow> string \<Rightarrow> nat \<Rightarrow> sys \<Rightarrow> err + sys" where
  "reject i reason user s =
     (if ip_status i \<notin> {IPC_SUBMITTED, IPC_CERTIFIER_REVIEWED} then Inl InvalidTransitionError
      else if blank reason then Inl InvalidTransitionError
      else rbind (get_balance (ip_contract i) s)
        (\<lambda>b. let pending = max 0 (quantize_currency (cb_pending b - certified_value i))
             in rbind (catch_as IntegrityError ConcurrencyError
                         (update_balance (ip_contract i) (\<lambda>r. r\<lparr>cb_pending := pending\<rparr>) s))
               (\<lambda>s1. rbind (ipc_transition i IPC_REJECTED s1)
                 (\<lambda>s2. Inr (ipc_step (ip_id i) (ip_contract i) ACT_REJECT user s2)))))"

definition set_wht_exemption :: "ipc \<Rightarrow> bool \<Rightarrow> sys \<Rightarrow> err + sys" where
  "set_wht_exemption i flag s =
     (if ip_status i \<in> {IPC_PAID, IPC_REJECTED} then Inl ValidationError
      else update_ipc (ip_id i) (\<lambda>r. r\<lparr>ip_wht_exempt := flag\<rparr>) s)"


section \<open>Effects on the invariant\<close>

lemma ipc_step_kept [simp]:
  "kept s (ipc_step i k act u s') = kept s s'" "shifted j vs s (ipc_step i k act u s') = shifted j vs s s'"
  by (simp_all add: ipc_step_def)

lemma new_ipc_shifted:
  assumes "sys_ok s" and "balance_of (ip_contract row) s = Some b"
    and "ip_id row = fresh_pk ip_id (ipcs s)" "ipc_ok row" "ipc_unique row (ipcs s)" "awaiting row"
    and "ip_accrual row = None" "ip_voucher row = None"
    and up: "update_balance (ip_contract row) f (s\<lparr>ipcs := ipcs s @ [row]\<rparr>) = Inr s2"
    and f: "db_decimal (cb_pending (f b)) = cb_pending b + certified_value row" "cb_certified (f b) = cb_certified b"
      "cb_mob_recovered (f b) = cb_mob_recovered b" "cb_ret_released (f b) = cb_ret_released b"
      "cb_ceiling (f b) = cb_ceiling b"
  shows "shifted (ip_contract row) [Reserve (certified_value row)] s s2"
proof -
  note ok = sys_okD [OF assms(1)]
  have bf: "find_row cb_contract (ip_contract row) (balances s) = Some b" using assms(2) by (simp add: balance_of_def)
  have bok: "balance_ok b" "cb_contract b = ip_contract row" using balance_of_books [OF ok(2) assms(2)] by simp_all
  define nb where "nb = written (ip_contract row) f b"
  have "balance_of (ip_contract row) (s\<lparr>ipcs := ipcs s @ [row]\<rparr>) = Some b" using bf by (simp add: balance_of_def)
  from update_balanceD [OF up this] have w: "balance_ok nb"
    and s2: "s2 = s\<lparr>ipcs := ipcs s @ [row], balances := put_row cb_contract nb (balances s)\<rparr>"
    by (simp_all add: nb_def)
  have "books_ok (ipcs s @ [row]) (put_row cb_contract nb (balances s))"
    by (rule books_ok_append [OF ok(2) bf assms(3-6) w]) (use f bok in \<open>simp_all add: nb_def\<close>)
  moreover have "releases_ok (releases s) (put_row cb_contract nb (balances s))"
    by (rule releases_ok_balance [OF ok(4) bf]) (use f bok in \<open>simp_all add: nb_def\<close>)
  moreover have "accruals_ok (ipcs s @ [row]) (journals s)" by (rule accruals_ok_append [OF ok(3) assms(6-8)])
  moreover have "evolves (ip_contract row) [Reserve (certified_value row)] s s2"
  proof (rule evolves_put [OF assms(2)])
    have "envelope_of nb = (envelope_of b)\<lparr>en_reserved := en_reserved (envelope_of b) + certified_value row\<rparr>"
      using f bok by (simp add: envelope_of_def nb_def)
    moreover have "cb_certified b + (cb_pending b + certified_value row) \<le> cb_ceiling b"
      using balance_checks_ok(2) [OF w] f bok by (simp add: nb_def)
    ultimately show "env_run [Reserve (certified_value row)] (Some (envelope_of b)) = Some (Some (envelope_of nb))"
      using assms(4) by (simp add: env_when_def add.assoc)
  qed (simp_all add: s2 nb_def)
  ultimately show ?thesis using ok by (simp add: s2 shifted_def sys_ok_def)
qed

lemma previous_submitted_money [simp]: "balance_ok b \<Longrightarrow> is_money (previous_submitted b)"
  by (simp add: previous_submitted_def)

lemma new_ipc_sel [simp]:
  "ip_contract (new_ipc c b q s) = co_id c" "ip_status (new_ipc c b q s) = IPC_SUBMITTED"
  "ip_accrual (new_ipc c b q s) = None" "ip_voucher (new_ipc c b q s) = None" "ip_hash (new_ipc c b q s) = []"
  "ip_gross (new_ipc c b q s) = quantize_currency (rq_cumulative q - previous_submitted b)"
  "ip_variation (new_ipc c b q s) = quantize_currency (rq_variation q)"
  "ip_recovery (new_ipc c b q s) = compute_recovery c b (quantize_currency (rq_cumulative q - previous_submitted b))"
  "ip_retention (new_ipc c b q s) = 0" "ip_cumulative (new_ipc c b q s) = quantize_currency (rq_cumulative q)"
  "ip_date (new_ipc c b q s) = rq_date q"
  by (simp_all add: new_ipc_def Let_def compute_deduction_def)

lemma submit_ipcD:
  assumes "submit_ipc sha c q u s = Inr (i, s')"
  obtains b s1 s2 where "balance_of (co_id c) s = Some b" "previous_submitted b < rq_cumulative q"
    "quantize_currency (cb_certified b + cb_pending b + quantize_currency (rq_cumulative q - previous_submitted b)
        + rq_variation q) \<le> cb_ceiling b"
    "insert_ipc sha (new_ipc c b q s) s = Inr (i, s1)"
    "update_balance (co_id c) (\<lambda>r. r\<lparr>cb_pending := quantize_currency (cb_pending b
        + quantize_currency (rq_cumulative q - previous_submitted b) + rq_variation q),
        cb_submitted := rq_cumulative q\<rparr>) s1 = Inr s2"
    "s' = ipc_step i (co_id c) ACT_REQUEST_INFO u s2"
    "co_status c \<in> {CS_ACTIVATED, CS_IN_PROGRESS, CS_PRACTICAL_COMPLETION, CS_DEFECTS_LIABILITY}"
  using assms unfolding submit_ipc_def
  by (auto simp: rbind_eq_Inr Let_def not_le not_less split: if_splits prod.splits)

lemma submit_ipc_shifted:
  assumes "sys_ok s" and "valid_request q" and "submit_ipc sha c q u s = Inr (i, s')"
  obtains r where "find_row ip_id i (ipcs s') = Some r" "shifted (co_id c) [Reserve (certified_value r)] s s'"
proof -
  obtain b s1 s2 where b: "balance_of (co_id c) s = Some b" and lt: "previous_submitted b < rq_cumulative q"
    and ins: "insert_ipc sha (new_ipc c b q s) s = Inr (i, s1)"
    and up: "update_balance (co_id c) (\<lambda>r. r\<lparr>cb_pending := quantize_currency (cb_pending b
        + quantize_currency (rq_cumulative q - previous_submitted b) + rq_variation q),
        cb_submitted := rq_cumulative q\<rparr>) s1 = Inr s2"
    and s': "s' = ipc_step i (co_id c) ACT_REQUEST_INFO u s2"
    using submit_ipcD [OF assms(3)] by metis
  note ok = sys_okD [OF assms(1)]
  have bok: "balance_ok b" using balance_of_books [OF ok(2) b] by simp
  obtain row where row: "row = (new_ipc c b q s)\<lparr>ip_id := i, ip_net := compute_net_payable (new_ipc c b q s),
        ip_hash := (if ip_hash (new_ipc c b q s) = [] then sha (integrity_raw (new_ipc c b q s)) else ip_hash (new_ipc c b q s))\<rparr>"
    and i: "i = fresh_pk ip_id (ipcs s)" and uni: "ipc_unique row (ipcs s)" and s1: "s1 = s\<lparr>ipcs := ipcs s @ [row]\<rparr>"
    using insert_ipcD [OF ins] by metis
  have money: "is_money (rq_cumulative q - previous_submitted b)" "is_money (rq_variation q)" "0 \<le> rq_variation q"
    using assms(2) bok by (auto simp: valid_request_def intro: is_money_diff)
  have "compute_net_payable row = compute_net_payable (new_ipc c b q s)"
    by (simp add: row compute_net_payable_def)
  then have "ipc_ok row"
    using money lt by (simp add: ipc_ok_def row) (simp add: compute_recovery_nonneg)
  moreover have "certified_value row = rq_cumulative q - previous_submitted b + rq_variation q"
    using money by (simp add: certified_value_def row)
  ultimately have val: "ipc_ok row" "certified_value row = rq_cumulative q - previous_submitted b + rq_variation q"
    by simp_all
  have sel: "ip_contract row = co_id c" "ip_id row = i" "awaiting row" "ip_accrual row = None" "ip_voucher row = None"
    by (simp_all add: row awaiting_def)
  note up' = up [folded sel(1), unfolded s1]
  have "shifted (co_id c) [Reserve (certified_value row)] s s2"
    unfolding sel(1) [symmetric]
    by (rule new_ipc_shifted [OF assms(1) _ _ val(1) uni sel(3-5) up', of b])
      (use val sel b i money bok in \<open>simp_all add: is_money_add add.assoc\<close>)
  moreover have "find_row ip_id i (ipcs s2) = Some row"
    using update_balance_frame [OF up] find_row_fresh [of ip_id "ipcs s"] by (auto simp: s1 i sel find_row_append)
  ultimately show ?thesis using that [of row] by (simp add: s' ipc_step_def)
qed


text \<open>A write that keeps the value of a certificate and its side of the approval.\<close>

lemma update_ipc_kept:
  assumes "sys_ok s" and "update_ipc k f s = Inr s'" and id: "\<And>r. ip_id (f r) = ip_id r"
    and same: "\<And>r. find_row ip_id k (ipcs s) = Some r \<Longrightarrow>
       ip_contract (f r) = ip_contract r \<and> (ipc_ok r \<longrightarrow> ipc_ok (f r)) \<and> ip_recovery (f r) = ip_recovery r
       \<and> ip_gross (f r) = ip_gross r \<and> ip_variation (f r) = ip_variation r \<and> awaiting (f r) = awaiting r
       \<and> approved (f r) = approved r \<and> ip_accrual (f r) = ip_accrual r \<and> (awaiting r \<longrightarrow> ip_voucher (f r) = ip_voucher r)"
  shows "kept s s'"
proof -
  note ok = sys_okD [OF assms(1)]
  obtain r where r: "find_row ip_id k (ipcs s) = Some r" "ip_id r = k" "ipc_unique (f r) (ipcs s)"
    and s': "s' = s\<lparr>ipcs := put_row ip_id (f r) (ipcs s)\<rparr>"
    using update_ipcD [OF assms(2) id] by metis
  note same = same [OF r(1)]
  have mem: "r \<in> set (ipcs s)" using find_row_SomeD [OF r(1)] by simp
  have fr: "find_row ip_id (ip_id (f r)) (ipcs s) = Some r" using r id by simp
  have "books_ok (put_row ip_id (f r) (ipcs s)) (balances s)"
    by (rule books_ok_same_side [OF ok(2) fr])
      (use same r books_okD(5) [OF ok(2) mem] in \<open>simp_all add: certified_value_def\<close>)
  moreover have "accruals_ok (put_row ip_id (f r) (ipcs s)) (journals s)"
  proof (rule accruals_ok_put [OF ok(3)])
    show "accrued (f r) (journals s)" if "approved (f r)"
      using same that ok(3) mem accrued_cong [of "f r" r] id by (simp add: accruals_ok_def)
  qed (use same ok(3) mem in \<open>simp add: accruals_ok_def\<close>)
  ultimately show ?thesis using ok by (simp add: kept_def sys_ok_def s' envelopes_same)
qed

lemma sides [simp]:
  "awaiting (i\<lparr>ip_status := st\<rparr>) \<longleftrightarrow> st \<in> {IPC_SUBMITTED, IPC_CERTIFIER_REVIEWED}"
  "approved (i\<lparr>ip_status := st\<rparr>) \<longleftrightarrow> st \<in> {IPC_APPROVED, IPC_VOUCHER_RAISED, IPC_PAID}"
  "awaiting (i\<lparr>ip_voucher := v\<rparr>) = awaiting i" "approved (i\<lparr>ip_voucher := v\<rparr>) = approved i"
  "awaiting (i\<lparr>ip_accrual := v\<rparr>) = awaiting i" "approved (i\<lparr>ip_accrual := v\<rparr>) = approved i"
  "awaiting (i\<lparr>ip_wht_exempt := w\<rparr>) = awaiting i" "approved (i\<lparr>ip_wht_exempt := w\<rparr>) = approved i"
  by (auto simp: awaiting_def approved_def)

lemma ipc_ok_updates [simp]:
  "ipc_ok (i\<lparr>ip_status := st\<rparr>) = ipc_ok i" "ipc_ok (i\<lparr>ip_voucher := v\<rparr>) = ipc_ok i"
  "ipc_ok (i\<lparr>ip_accrual := v\<rparr>) = ipc_ok i" "ipc_ok (i\<lparr>ip_wht_exempt := w\<rparr>) = ipc_ok i"
  by (simp_all add: ipc_ok_def compute_net_payable_def)

lemma ipc_transition_kept:
  assumes "sys_ok s" and "ipc_transition i new s = Inr s'" and "find_row ip_id (ip_id i) (ipcs s) = Some r"
    and "awaiting (r\<lparr>ip_status := new\<rparr>) = awaiting r" "approved (r\<lparr>ip_status := new\<rparr>) = approved r"
  shows "kept s s'"
proof -
  have "update_ipc (ip_id i) (\<lambda>r. r\<lparr>ip_status := new\<rparr>) s = Inr s'"
    using assms(2) by (auto simp: ipc_transition_def split: if_splits)
  then show ?thesis by (rule update_ipc_kept [OF assms(1)]) (use assms(3-5) in simp_all)
qed

definition current :: "ipc \<Rightarrow> sys \<Rightarrow> bool" where
  \<comment> \<open>the caller's instance is what the table holds\<close>
  "current i s \<longleftrightarrow> find_row ip_id (ip_id i) (ipcs s) = Some i"

lemma certify_kept:
  assumes "sys_ok s" and "current i s" and "certify i u s = Inr s'"
  shows "kept s s'"
proof -
  obtain s1 where t: "ipc_transition i IPC_CERTIFIER_REVIEWED s = Inr s1"
    and s': "s' = ipc_step (ip_id i) (ip_contract i) ACT_CERTIFY u s1" and st: "ip_status i = IPC_SUBMITTED"
    using assms(3) by (auto simp: certify_def rbind_eq_Inr split: if_splits)
  have "kept s s1"
    by (rule ipc_transition_kept [OF assms(1) t assms(2) [unfolded current_def]])
      (use st in \<open>simp_all add: awaiting_def approved_def\<close>)
  then show ?thesis by (simp add: s')
qed

lemma set_wht_exemption_kept:
  assumes "sys_ok s" and "set_wht_exemption i flag s = Inr s'"
  shows "kept s s'"
proof -
  have "update_ipc (ip_id i) (\<lambda>r. r\<lparr>ip_wht_exempt := flag\<rparr>) s = Inr s'"
    using assms(2) by (auto simp: set_wht_exemption_def split: if_splits)
  then show ?thesis by (rule update_ipc_kept [OF assms(1)]) simp_all
qed


text \<open>A certificate that changes side together with its balance row.\<close>

lemma settle_shifted:
  assumes "sys_ok s" and r0: "find_row ip_id (ip_id r) (ipcs s) = Some r0" and b: "balance_of (ip_contract r) s = Some b"
    and r: "ip_contract r = ip_contract r0" "ipc_ok r" "ipc_unique r (ipcs s)"
    and bal: "balance_ok b'" "cb_contract b' = cb_contract b"
      "cb_pending b' = cb_pending b - (if awaiting r0 then certified_value r0 else 0)
                                    + (if awaiting r then certified_value r else 0)"
      "cb_certified b - (if approved r0 then certified_value r0 else 0)
                      + (if approved r then certified_value r else 0) \<le> cb_certified b'"
      "cb_mob_recovered b' = cb_mob_recovered b - (if approved r0 then ip_recovery r0 else 0)
                                                + (if approved r then ip_recovery r else 0)"
      "cb_ret_released b \<le> cb_ret_released b'" "env_run vs (Some (envelope_of b)) = Some (Some (envelope_of b'))"
    and s': "ledger_ok s'" "ipcs s' = put_row ip_id r (ipcs s)" "balances s' = put_row cb_contract b' (balances s)"
      "releases s' = releases s" "contracts s' = contracts s"
      "accruals_ok (ipcs s) (journals s')" "awaiting r \<Longrightarrow> ip_accrual r = None \<and> ip_voucher r = None"
      "approved r \<Longrightarrow> accrued r (journals s')"
  shows "shifted (ip_contract r) vs s s'"
proof -
  note ok = sys_okD [OF assms(1)]
  have bf: "find_row cb_contract (ip_contract r) (balances s) = Some b" using b by (simp add: balance_of_def)
  have bc: "cb_contract b' = ip_contract r" using bal(2) balance_of_mem [OF b] by simp
  have "books_ok (ipcs s') (balances s')"
    unfolding s'(2,3) by (rule books_ok_put [OF ok(2) r0 bf r bal(1-5)])
  moreover have "releases_ok (releases s') (balances s')"
    unfolding s'(3,4) by (rule releases_ok_balance [OF ok(4) bf bc bal(6)])
  moreover have "accruals_ok (ipcs s') (journals s')"
    unfolding s'(2) by (rule accruals_ok_put [OF s'(6-8)])
  moreover have "evolves (ip_contract r) vs s s'" by (rule evolves_put [OF b s'(3) bc bal(7)])
  ultimately show ?thesis using s'(1,5) ok(5) by (simp add: shifted_def sys_ok_def)
qed

lemma find_put_ipc: "find_row ip_id (ip_id r) is = Some x \<Longrightarrow> find_row ip_id (ip_id r) (put_row ip_id r is) = Some r"
  using find_row_SomeD [of ip_id "ip_id r" "is" x] by (auto simp: image_iff)

lemma reject_shifted:
  assumes "sys_ok s" and cur: "current i s" and "reject i reason u s = Inr s'"
  shows "shifted (ip_contract i) [Cancel (certified_value i)] s s'"
proof -
  obtain b s1 s2 where b: "balance_of (ip_contract i) s = Some b"
    and up: "update_balance (ip_contract i) (\<lambda>r. r\<lparr>cb_pending := max 0 (quantize_currency (cb_pending b - certified_value i))\<rparr>) s = Inr s1"
    and t: "ipc_transition i IPC_REJECTED s1 = Inr s2" and s': "s' = ipc_step (ip_id i) (ip_contract i) ACT_REJECT u s2"
    and st: "ip_status i \<in> {IPC_SUBMITTED, IPC_CERTIFIER_REVIEWED}"
    using assms(3) by (auto simp: reject_def rbind_eq_Inr Let_def split: if_splits)
  note ok = sys_okD [OF assms(1)]
  have f: "find_row ip_id (ip_id i) (ipcs s) = Some i" using cur by (simp add: current_def)
  have bok: "balance_ok b" "cb_contract b = ip_contract i" "b \<in> set (balances s)" using balance_of_books [OF ok(2) b] by simp_all
  have mem: "i \<in> set (ipcs s)" using find_row_SomeD [OF f] by simp
  have iok: "ipc_ok i" "is_money (certified_value i)" using books_okD(5) [OF ok(2) mem] by simp_all
  have le: "certified_value i \<le> cb_pending b"
    using awaiting_le_pending [OF ok(2) bok(3) mem] st bok(2) by (simp add: awaiting_def)
  then have p: "max 0 (quantize_currency (cb_pending b - certified_value i)) = cb_pending b - certified_value i"
    using iok bok(1) by (simp add: is_money_diff)
  note w = update_balanceD [OF up [unfolded p] b]
  have side: "awaiting i" "\<not> approved i" using st by (auto simp: awaiting_def approved_def)
  define nb where "nb = written (ip_contract i) (\<lambda>r. r\<lparr>cb_pending := cb_pending b - certified_value i\<rparr>) b"
  have "envelope_of nb = (envelope_of b)\<lparr>en_reserved := en_reserved (envelope_of b) - certified_value i\<rparr>"
    using iok bok(1) by (simp add: envelope_of_def nb_def is_money_diff)
  then have env: "env_run [Cancel (certified_value i)] (Some (envelope_of b)) = Some (Some (envelope_of nb))"
    using le iok(1) by (simp add: env_when_def)
  have "shifted (ip_contract i) [Cancel (certified_value i)] s s2"
  proof (rule ipc_transitionD [OF t])
    fix r assume "find_row ip_id (ip_id i) (ipcs s1) = Some r" "ipc_unique (r\<lparr>ip_status := IPC_REJECTED\<rparr>) (ipcs s1)"
      and s2: "s2 = s1\<lparr>ipcs := put_row ip_id (r\<lparr>ip_status := IPC_REJECTED\<rparr>) (ipcs s1)\<rparr>"
    moreover from this have "r = i" using f w by simp
    ultimately have "shifted (ip_contract (i\<lparr>ip_status := IPC_REJECTED\<rparr>)) [Cancel (certified_value i)] s s2"
      using w f b side bok iok ok(1,3) env
      by (intro settle_shifted [OF assms(1), of "i\<lparr>ip_status := IPC_REJECTED\<rparr>" i b nb])
        (simp_all add: is_money_diff nb_def)
    then show ?thesis by simp
  qed
  then show ?thesis by (simp add: s')
qed


lemma update_ipc_row:
  assumes "update_ipc k f s = Inr s'" and "\<And>r. ip_id (f r) = ip_id r" and "find_row ip_id k (ipcs s) = Some r"
  shows "find_row ip_id k (ipcs s') = Some (f r) \<and> journals s' = journals s \<and> balances s' = balances s
    \<and> releases s' = releases s \<and> contracts s' = contracts s"
proof -
  obtain r' where "find_row ip_id k (ipcs s) = Some r'" "ip_id r' = k" "s' = s\<lparr>ipcs := put_row ip_id (f r') (ipcs s)\<rparr>"
    using update_ipcD [OF assms(1,2)] by metis
  then show ?thesis using assms(2,3) find_put_ipc [of "f r" "ipcs s" r] by simp
qed

lemma link_voucher_kept:
  assumes "sys_ok s" and "find_row ip_id (ip_id i) (ipcs s) = Some i" and "approved i"
    and "update_ipc (ip_id i) (\<lambda>r. r\<lparr>ip_voucher := Some v\<rparr>) s = Inr s1"
    and "ipc_transition i IPC_VOUCHER_RAISED s1 = Inr s2"
  shows "kept s s2"
proof -
  have na: "\<not> awaiting i" using assms(3) by (auto simp: approved_def awaiting_def)
  have k: "kept s s1" by (rule update_ipc_kept [OF assms(1,4)]) (use assms(2) na in simp_all)
  have "find_row ip_id (ip_id i) (ipcs s1) = Some (i\<lparr>ip_voucher := Some v\<rparr>)"
    using update_ipc_row [OF assms(4) _ assms(2)] by simp
  then have "kept s1 s2"
    by (rule ipc_transition_kept [OF keptD(1) [OF k] assms(5)]) (use assms(3) na in simp_all)
  with k show ?thesis by (rule kept_trans)
qed

lemma raise_voucher_kept:
  assumes "sys_ok s" and "raise_voucher k pv g u s = Inr s'"
  shows "kept s s'"
proof -
  obtain i s1 s2 where i: "find_row ip_id k (ipcs s) = Some i" "ip_status i = IPC_APPROVED"
    and s1: "update_ipc k (\<lambda>r. r\<lparr>ip_voucher := Some pv\<rparr>) s = Inr s1"
    and s2: "ipc_transition i IPC_VOUCHER_RAISED s1 = Inr s2" and s': "s' = ipc_step k (ip_contract i) ACT_APPROVE u s2"
    using assms(2) by (auto simp: raise_voucher_def rbind_eq_Inr split: option.splits if_splits)
  have k: "k = ip_id i" using find_row_SomeD [OF i(1)] by simp
  have "kept s s2"
    using link_voucher_kept [OF assms(1) i(1) [unfolded k] _ s1 [unfolded k] s2] i(2) by (simp add: approved_def)
  then show ?thesis by (simp add: s')
qed

lemma create_draft_voucher_kept:
  assumes "sys_ok s" and "current i s" and "create_draft_voucher i u s = Inr (v, s')"
  shows "kept s s'"
proof (cases "ip_voucher i")
  case None
  then obtain w num s1 s2 s3 s4 where st: "ip_status i = IPC_APPROVED"
    and s1: "sequence_next ''payment_voucher'' ''PV-'' s = (num, s1)" and s2: "insert_voucher w s1 = Inr (v, s2)"
    and s3: "update_ipc (ip_id i) (\<lambda>r. r\<lparr>ip_voucher := Some v\<rparr>) s2 = Inr s3"
    and s4: "ipc_transition i IPC_VOUCHER_RAISED s3 = Inr s4" and s': "s' = ipc_step (ip_id i) (ip_contract i) ACT_APPROVE u s4"
    using assms(3) by (auto simp: create_draft_voucher_def rbind_eq_Inr Let_def split: option.splits if_splits prod.splits)
  have core: "same_core s s2"
    using sequence_next_frame [OF s1] insert_voucherD(1) [OF s2] by (auto simp: same_core_def)
  have k: "kept s s2" by (rule kept_core [OF core assms(1)])
  have "kept s2 s4"
    by (rule link_voucher_kept [OF keptD(1) [OF k] _ _ s3 s4])
      (use core assms(2) st in \<open>simp_all add: same_core_def current_def approved_def\<close>)
  with k have "kept s s4" by (rule kept_trans)
  then show ?thesis by (simp add: s')
qed (use assms in \<open>simp add: create_draft_voucher_def\<close>)

lemma mark_paid_kept:
  assumes "sys_ok s" and cur: "current i s" and "mark_paid i vat wht u s = Inr s'"
  shows "kept s s'"
proof -
  obtain c b x y s1 s2 s3 where b: "balance_of (ip_contract i) s = Some b" and st: "ip_status i = IPC_VOUCHER_RAISED"
    and s1: "update_balance (ip_contract i) (\<lambda>r. r\<lparr>cb_paid := quantize_currency (cb_paid b + certified_value i)\<rparr>) s = Inr s1"
    and s2: "update_ipc (ip_id i) (\<lambda>r. r\<lparr>ip_vat := x, ip_wht := y, ip_net := compute_net_payable (i\<lparr>ip_vat := x, ip_wht := y\<rparr>)\<rparr>) s1 = Inr s2"
    and s3: "ipc_transition i IPC_PAID s2 = Inr s3"
    and s': "reconcile_payment_status (ip_contract i) (ipc_step (ip_id i) (ip_contract i) ACT_APPROVE u s3) = Inr s'"
    using assms(3) by (auto simp: mark_paid_def rbind_eq_Inr Let_def case_prod_beta split: option.splits if_splits)
  note ok = sys_okD [OF assms(1)]
  have f: "find_row ip_id (ip_id i) (ipcs s) = Some i" using cur by (simp add: current_def)
  have k1: "kept s s1"
    by (rule kept_columns [OF assms(1) s1]) (use balance_of_books [OF ok(2)] in \<open>simp_all\<close>)
  have f1: "find_row ip_id (ip_id i) (ipcs s1) = Some i" using update_balanceD [OF s1 b] f by simp
  have "kept s1 s2"
    by (rule update_ipc_kept [OF keptD(1) [OF k1] s2])
      (use f1 in \<open>auto simp: ipc_ok_def compute_net_payable_def awaiting_def approved_def\<close>)
  with k1 have k2: "kept s s2" by (rule kept_trans)
  have "find_row ip_id (ip_id i) (ipcs s2) = Some (i\<lparr>ip_vat := x, ip_wht := y, ip_net := compute_net_payable (i\<lparr>ip_vat := x, ip_wht := y\<rparr>)\<rparr>)"
    using update_ipc_row [OF s2 _ f1] by simp
  then have "kept s2 s3"
    by (rule ipc_transition_kept [OF keptD(1) [OF k2] s3]) (use st in \<open>simp_all add: awaiting_def approved_def\<close>)
  with k2 have "kept s (ipc_step (ip_id i) (ip_contract i) ACT_APPROVE u s3)" using kept_trans by simp
  then show ?thesis using kept_trans kept_core [OF reconcile_core [OF s']] keptD(1) by blast
qed

subsection \<open>Approval\<close>

lemma total_debit_accrual:
  assumes "is_money (ip_gross i)" and "0 \<le> ip_gross i"
  shows "total_debit (map round_line (accrual_lines i e ap ret mob)) = ip_gross i"
  using assms
  by (auto simp: accrual_lines_def Let_def total_debit_def debit_line_def credit_line_def round_line_def
      split: option.splits)

lemma approve_balanceD:
  assumes "approve_balance i b = Inr f" and "balance_ok b" and "ipc_ok i"
  shows "cb_certified (f b) = cb_certified b + certified_value i"
    "cb_pending (f b) = max 0 (cb_pending b - certified_value i)"
    "cb_mob_recovered (f b) = cb_mob_recovered b + ip_recovery i"
    "cb_ret_released (f b) = cb_ret_released b" "cb_ceiling (f b) = cb_ceiling b"
    "cb_ret_held (f b) = cb_ret_held b + ip_retention i" "cb_paid (f b) = cb_paid b"
proof -
  obtain b1 b2 where b1: "apply_recovery (ip_recovery i) b = Inr b1" and b2: "apply_deduction (ip_retention i) b1 = Inr b2"
    and f: "f = (\<lambda>r. r\<lparr>cb_certified := quantize_currency (cb_certified b + certified_value i),
              cb_pending := max 0 (quantize_currency (cb_pending b - certified_value i)),
              cb_mob_recovered := cb_mob_recovered b2, cb_ret_held := cb_ret_held b2\<rparr>)"
    using assms(1) by (auto simp: approve_balance_def Let_def rbind_eq_Inr split: if_splits)
  have m: "is_money (ip_recovery i)" "is_money (ip_retention i)" "is_money (certified_value i)"
    using assms(3) certified_value_money by (simp_all add: ipc_ok_def)
  from apply_recoveryD [OF b1] apply_deductionD [OF b2] m assms(2)
  show "cb_certified (f b) = cb_certified b + certified_value i"
    "cb_pending (f b) = max 0 (cb_pending b - certified_value i)"
    "cb_mob_recovered (f b) = cb_mob_recovered b + ip_recovery i"
    "cb_ret_released (f b) = cb_ret_released b" "cb_ceiling (f b) = cb_ceiling b"
    "cb_ret_held (f b) = cb_ret_held b + ip_retention i" "cb_paid (f b) = cb_paid b"
    by (simp_all add: f is_money_add is_money_diff)
qed

text \<open>The posting half writes one journal, perhaps an invoice, and the certificate.\<close>

lemma ensure_invoice_frame:
  "\<exists>vis. ensure_vendor_invoice i c j s = s\<lparr>vendor_invoices := vis\<rparr>"
proof -
  have "ensure_vendor_invoice i c j s = s\<lparr>vendor_invoices := vendor_invoices s\<rparr>
    \<or> (\<exists>vis. ensure_vendor_invoice i c j s = s\<lparr>vendor_invoices := vis\<rparr>)"
    by (auto simp: ensure_vendor_invoice_def)
  then show ?thesis by blast
qed

lemma approve_postingD:
  assumes "approve_posting i c u s = Inr s'" and "keys_ok s" and "ip_accrual i = None" and "ipc_ok i"
    and i: "find_row ip_id (ip_id i) (ipcs s) = Some i"
  obtains j h ls s1 where "posted_new h ls (Some u) j s s1" "j_source_module j = Some ''contract_ipc''"
    "j_source_id j = Some (ip_id i)" "total_debit (j_lines j) = ip_gross i"
    "journals s' = journals s1" "gl_balances s' = gl_balances s1" "appropriations s' = appropriations s1"
    "balances s' = balances s" "releases s' = releases s" "contracts s' = contracts s"
    "ipcs s' = put_row ip_id (i\<lparr>ip_status := IPC_APPROVED, ip_accrual := Some (j_id j)\<rparr>) (ipcs s)"
    "ipc_unique (i\<lparr>ip_status := IPC_APPROVED\<rparr>) (ipcs s)"
proof -
  obtain k s1 s2 s3 where gate: "enforce_appropriation_gate i c s = Inr ()"
    and post: "post_accrual_journal i c u s = Inr (k, s1)"
    and t: "ipc_transition i IPC_APPROVED (ensure_vendor_invoice i c k s1) = Inr s2"
    and up: "update_ipc (ip_id i) (\<lambda>r. r\<lparr>ip_accrual := Some k\<rparr>) s2 = Inr s3"
    and s': "s' = ipc_step (ip_id i) (ip_contract i) ACT_APPROVE u s3"
    using assms(1) by (auto simp: approve_posting_def rbind_eq_Inr split: prod.splits)
  obtain e ap where new: "post_new_journal
      (contract_header c (ip_date i) (ip_number i) (ip_number i) ''contract_ipc'' (ip_id i) u s)
      (accrual_lines i e ap (resolve_retention_account s) (resolve_mobilization_recovery_account s)) (Some u) s = Inr (k, s1)"
    using post assms(3) by (auto simp: post_accrual_journal_def rbind_eq_Inr split: option.splits if_splits)
  obtain j where j: "k = j_id j" "posted_new (contract_header c (ip_date i) (ip_number i) (ip_number i) ''contract_ipc'' (ip_id i) u s)
      (accrual_lines i e ap (resolve_retention_account s) (resolve_mobilization_recovery_account s)) (Some u) j s s1"
    using post_new_journalD [OF new assms(2)] by metis
  note fr = posted_new_frame [OF j(2)]
  obtain vis where vi: "ensure_vendor_invoice i c k s1 = s1\<lparr>vendor_invoices := vis\<rparr>" using ensure_invoice_frame by metis
  have f1: "find_row ip_id (ip_id i) (ipcs s1) = Some i" using fr i by simp
  obtain s2: "s2 = s1\<lparr>vendor_invoices := vis, ipcs := put_row ip_id (i\<lparr>ip_status := IPC_APPROVED\<rparr>) (ipcs s1)\<rparr>"
    and uni: "ipc_unique (i\<lparr>ip_status := IPC_APPROVED\<rparr>) (ipcs s1)"
    by (rule ipc_transitionD [OF t [unfolded vi]]) (use f1 that in auto)
  have f2: "find_row ip_id (ip_id i) (ipcs s2) = Some (i\<lparr>ip_status := IPC_APPROVED\<rparr>)"
    using find_put_ipc [of "i\<lparr>ip_status := IPC_APPROVED\<rparr>" "ipcs s1" i] f1 by (simp add: s2)
  obtain s3: "s3 = s2\<lparr>ipcs := put_row ip_id (i\<lparr>ip_status := IPC_APPROVED, ip_accrual := Some k\<rparr>) (ipcs s2)\<rparr>"
    by (rule update_ipcD [OF up]) (use f2 that in auto)
  have "s' = ipc_step (ip_id i) (ip_contract i) ACT_APPROVE u (s1\<lparr>vendor_invoices := vis,
      ipcs := put_row ip_id (i\<lparr>ip_status := IPC_APPROVED, ip_accrual := Some k\<rparr>)
                (put_row ip_id (i\<lparr>ip_status := IPC_APPROVED\<rparr>) (ipcs s1))\<rparr>)"
    by (simp add: s' s3 s2)
  moreover have "total_debit (j_lines j) = ip_gross i"
    using posted_newD(4) [OF j(2)] assms(4) by (simp add: total_debit_accrual ipc_ok_def)
  moreover have "j_source_module j = Some ''contract_ipc''" "j_source_id j = Some (ip_id i)"
    using j(2) by (simp_all add: posted_new_def)
  ultimately show ?thesis
    using that [OF j(2)] fr uni by (simp add: j(1) ipc_step_def put_row_put_row)
qed


lemma approveD:
  assumes "approve i u s = Inr s'"
  obtains c s1 b f s2 where "contract_of (ip_contract i) s = Some c" "ip_status i = IPC_CERTIFIER_REVIEWED"
    "refresh_contract_ceiling c s = Inr s1" "balance_of (ip_contract i) s1 = Some b" "approve_balance i b = Inr f"
    "update_balance (ip_contract i) f s1 = Inr s2" "approve_posting i c u s2 = Inr s'"
  using assms by (auto simp: approve_def rbind_eq_Inr split: option.splits if_splits)

lemma approve_shifted:
  assumes "sys_ok s" and cur: "current i s" and "approve i u s = Inr s'"
    and con: "contract_of (ip_contract i) s = Some c"
  shows "shifted (ip_contract i) [Resize (contract_ceiling c s), Commit (certified_value i)] s s'"
proof (rule approveD [OF assms(3)])
  fix c' s1 b f s2
  assume con': "contract_of (ip_contract i) s = Some c'" and st: "ip_status i = IPC_CERTIFIER_REVIEWED" and s1: "refresh_contract_ceiling c' s = Inr s1"
    and b: "balance_of (ip_contract i) s1 = Some b" and f: "approve_balance i b = Inr f"
    and s2: "update_balance (ip_contract i) f s1 = Inr s2" and p: "approve_posting i c' u s2 = Inr s'"
  have c: "c' = c" "co_id c = ip_contract i"
    using con con' find_row_SomeD by (fastforce simp: contract_of_def)+
  note k1 = refresh_shifted [OF assms(1) s1, unfolded c]
  note s1ok = shiftedD(1) [OF k1]
  note ok = sys_okD [OF s1ok]
  have i1: "find_row ip_id (ip_id i) (ipcs s1) = Some i"
    using refresh_frame [OF s1] cur by (auto simp: current_def)
  have mem: "i \<in> set (ipcs s1)" using find_row_SomeD [OF i1] by simp
  have iok: "ipc_ok i" "is_money (certified_value i)" "is_money (ip_recovery i)"
    using books_okD(5) [OF ok(2) mem] by (simp_all add: ipc_ok_def [of i])
  have side: "awaiting i" "\<not> approved i" using st by (simp_all add: awaiting_def approved_def)
  have none: "ip_accrual i = None" using ok(3) mem side by (simp add: accruals_ok_def)
  have bok: "balance_ok b" "cb_contract b = ip_contract i" "b \<in> set (balances s1)" using balance_of_books [OF ok(2) b] by simp_all
  have pend: "certified_value i \<le> cb_pending b" using awaiting_le_pending [OF ok(2) bok(3) mem] bok(2) side by simp
  note fb = approve_balanceD [OF f bok(1) iok(1)]
  define nb where "nb = written (ip_contract i) f b"
  have w: "balance_ok nb" "s2 = s1\<lparr>balances := put_row cb_contract nb (balances s1)\<rparr>"
    using update_balanceD [OF s2 b] by (simp_all add: nb_def)
  obtain h ls j s3 where j: "posted_new h ls (Some u) j s2 s3" "j_source_module j = Some ''contract_ipc''"
    "j_source_id j = Some (ip_id i)" "total_debit (j_lines j) = ip_gross i" "journals s' = journals s3"
    "gl_balances s' = gl_balances s3" "appropriations s' = appropriations s3"
    "balances s' = balances s2" "releases s' = releases s2" "contracts s' = contracts s2"
    "ipcs s' = put_row ip_id (i\<lparr>ip_status := IPC_APPROVED, ip_accrual := Some (j_id j)\<rparr>) (ipcs s2)"
    "ipc_unique (i\<lparr>ip_status := IPC_APPROVED\<rparr>) (ipcs s2)"
  proof (rule approve_postingD [OF p])
    show "keys_ok s2" using ok(6) by (simp add: w keys_ok_def)
    show "find_row ip_id (ip_id i) (ipcs s2) = Some i" using i1 by (simp add: w)
  qed (use none iok that in simp_all)
  define r where "r = i\<lparr>ip_status := IPC_APPROVED, ip_accrual := Some (j_id j)\<rparr>"
  have "ledger_ok s2" using ok(1) by (simp add: w)
  then have led: "ledger_ok s'" using ledger_ok_posted_new [OF _ j(1)] j(5-7) by (simp add: ledger_ok_def keys_ok_def)
  have js: "journals s' = journals s1 @ [j]" using posted_newD(1) [OF j(1)] j(5) by (simp add: w)
  have new: "j_id j \<notin> j_id ` set (journals s1)" using j(1) by (simp add: posted_new_def w)
  have "find_row j_id (j_id j) (journals s1) = None" using new by (simp add: find_row_None_iff)
  then have "find_row j_id (j_id j) (journals s') = Some j" by (simp add: js find_row_append)
  then have "accrued r (journals s')"
    using posted_newD(5,6) [OF j(1)] j(2-4) unfolding accrued_def r_def by (intro exI [of _ j]) simp
  moreover have "accruals_ok (ipcs s1) (journals s')"
    by (rule accruals_ok_more [OF ok(3)]) (simp add: js find_row_append)
  moreover have "ipc_unique r (ipcs s1)" using j(12) by (simp add: r_def ipc_unique_def hash_active_def w)
  moreover have env: "env_run [Commit (certified_value i)] (Some (envelope_of b)) = Some (Some (envelope_of nb))"
  proof -
    have "envelope_of nb = (envelope_of b)\<lparr>en_reserved := en_reserved (envelope_of b) - certified_value i,
        en_committed := en_committed (envelope_of b) + certified_value i\<rparr>"
      using fb bok(1) iok(2) pend by (simp add: envelope_of_def nb_def is_money_add is_money_diff)
    then show ?thesis using pend iok(1) by (simp add: env_when_def)
  qed
  ultimately have "shifted (ip_contract r) [Commit (certified_value i)] s1 s'"
    using fb w(1) led j(8-11) i1 b iok side bok pend
    by (intro settle_shifted [OF s1ok, of r i b nb])
      (simp_all add: r_def nb_def w(2) is_money_add is_money_diff)
  then have "shifted (ip_contract i) [Commit (certified_value i)] s1 s'" by (simp add: r_def)
  from shifted_trans [OF k1 this] show ?thesis by simp
qed

end
