(* ===== verification/Milestone.thy ===== *)
theory Milestone
  imports Ipc
begin

text \<open>
  Milestones (\<^verbatim>\<open>contracts/services/milestone_invoice_service.py\<close>, the transition actions of
  \<^verbatim>\<open>contracts/views/contract_views.py\<close>, \<^verbatim>\<open>MilestoneSchedule\<close> and \<^verbatim>\<open>create_draft_voucher_from_invoice\<close>):
  the budget of a contract's milestones, the invoice an approved milestone becomes, the derived
  paid figure and the release of the retention lien.
\<close>

section \<open>The schedule\<close>

definition milestone_clean :: "milestone \<Rightarrow> sys \<Rightarrow> err + unit" where
  \<comment> \<open>\<^verbatim>\<open>MilestoneSchedule.clean\<close>; a row that keeps its value and weight is not checked again\<close>
  "milestone_clean m s =
     (let siblings = filter (\<lambda>x. ms_contract x = ms_contract m \<and> ms_id x \<noteq> ms_id m) (milestones s);
          ceiling = (case contract_of (ms_contract m) s of Some c \<Rightarrow> contract_ceiling c s | None \<Rightarrow> 0)
      in if (case find_row ms_id (ms_id m) (milestones s) of
               Some p \<Rightarrow> ms_value p = ms_value m \<and> ms_weight p = ms_weight m | None \<Rightarrow> False) then Inr ()
         else if 0 < ceiling \<and> ceiling < sum_list (map ms_value siblings) + ms_value m then Inl ValidationError
         else if 100 < sum_list (map ms_weight siblings) + ms_weight m then Inl ValidationError
         else Inr ())"

definition insert_milestone :: "milestone \<Rightarrow> sys \<Rightarrow> err + (nat \<times> sys)" where
  \<comment> \<open>the first save: field validators, \<^verbatim>\<open>clean\<close>, then the table's constraints\<close>
  "insert_milestone m s =
     (let i = fresh_pk ms_id (milestones s); row = m\<lparr>ms_id := i\<rparr>
      in if \<not> is_money (ms_value m) \<or> \<not> is_money (ms_weight m * 10)
            \<or> ms_value m < 1/100 \<or> ms_weight m < 0 \<or> 100 < ms_weight m
            \<or> (\<exists>x \<in> set (milestones s). ms_contract x = ms_contract m \<and> ms_number x = ms_number m)
         then Inl ValidationError
         else rbind (milestone_clean row s) (\<lambda>_. Inr (i, s\<lparr>milestones := milestones s @ [row]\<rparr>)))"

definition write_milestone :: "nat \<Rightarrow> (milestone \<Rightarrow> milestone) \<Rightarrow> sys \<Rightarrow> sys" where
  "write_milestone i f s = s\<lparr>milestones := upd_row ms_id i f (milestones s)\<rparr>"

definition milestone_start :: "milestone \<Rightarrow> sys \<Rightarrow> err + sys" where
  "milestone_start m s =
     (if ms_status m = MS_COMPLETED then Inl ValidationError
      else Inr (write_milestone (ms_id m) (\<lambda>r. r\<lparr>ms_status := MS_IN_PROGRESS\<rparr>) s))"

definition milestone_reopen :: "milestone \<Rightarrow> sys \<Rightarrow> err + sys" where
  "milestone_reopen m s =
     (if ms_status m \<noteq> MS_COMPLETED then Inl ValidationError
      else Inr (write_milestone (ms_id m) (\<lambda>r. r\<lparr>ms_status := MS_IN_PROGRESS, ms_completed := None\<rparr>) s))"

section \<open>The invoice\<close>

definition milestone_ref :: "milestone \<Rightarrow> contract \<Rightarrow> string" where
  "milestone_ref m c = (if co_number c = [] then ''CONTRACT'' else co_number c) @ ''/M'' @ show_nat (ms_number m)"

definition milestone_gross :: "milestone \<Rightarrow> rat" where
  "milestone_gross m = quantize_currency (sum_list (map (\<lambda>(a, x). quantize_currency x) (ms_lines m)))"

definition invoice_by_number :: "string \<Rightarrow> sys \<Rightarrow> vendor_invoice option" where
  "invoice_by_number n s = List.find (\<lambda>v. vi_number v = n) (vendor_invoices s)"

definition milestone_lines :: "milestone \<Rightarrow> account \<Rightarrow> jline list" where
  "milestone_lines m ap =
     map (\<lambda>(a, x). debit_line a (quantize_currency x)) (ms_lines m) @ [credit_line (ac_id ap) (milestone_gross m)]"

definition milestone_invoice :: "milestone \<Rightarrow> contract \<Rightarrow> nat \<Rightarrow> date \<Rightarrow> sys \<Rightarrow> vendor_invoice" where
  "milestone_invoice m c j d s =
     \<lparr>vi_id = fresh_pk vi_id (vendor_invoices s), vi_number = milestone_ref m c, vi_reference = co_number c,
      vi_vendor = co_vendor c, vi_status = ''Posted'', vi_po = None, vi_mda = Option.bind (journal_of j s) j_mda,
      vi_account = (case ms_lines m of [] \<Rightarrow> None | (a, x) # _ \<Rightarrow> Some a),
      vi_fund = Option.bind (journal_of j s) j_fund, vi_date = d, vi_subtotal = milestone_gross m,
      vi_total = milestone_gross m, vi_paid = 0,
      vi_retention = quantize_currency (milestone_gross m * quantize_currency (co_ret_rate c) / 100)\<rparr>"

definition approve_and_invoice :: "milestone \<Rightarrow> date option \<Rightarrow> date option \<Rightarrow> nat \<Rightarrow> sys \<Rightarrow> err + sys" where
  "approve_and_invoice m posting completion user s =
     (case contract_of (ms_contract m) s of
        None \<Rightarrow> Inl DoesNotExist
      | Some c \<Rightarrow>
          if ms_status m = MS_INVOICED then Inl TransactionPostingError
          else if balance_of (co_id c) s = None then Inl TransactionPostingError
          else if ms_lines m = [] then Inl TransactionPostingError
          else if milestone_gross m \<le> 0 then Inl TransactionPostingError
          else if invoice_by_number (milestone_ref m c) s \<noteq> None then Inr s
          else let d = (case posting of Some x \<Rightarrow> x | None \<Rightarrow> today s)
               in rbind (ap_account_of c s)
                 (\<lambda>ap. rbind (post_new_journal
                      (contract_header c d (milestone_ref m c) (milestone_ref m c) ''contract_milestone'' (ms_id m) user s)
                      (milestone_lines m ap) (Some user) s)
                   (\<lambda>(j, s1). rbind (catch_as IntegrityError TransactionPostingError
                        (update_balance (co_id c) (\<lambda>r. r\<lparr>cb_certified := cb_certified r + milestone_gross m\<rparr>)
                           (s1\<lparr>vendor_invoices := vendor_invoices s1 @ [milestone_invoice m c j d s1]\<rparr>)))
                     (\<lambda>s2. Inr (write_milestone (ms_id m)
                        (\<lambda>r. r\<lparr>ms_status := MS_INVOICED,
                               ms_completed := (case completion of Some x \<Rightarrow> Some x | None \<Rightarrow> ms_completed r)\<rparr>) s2)))))"

section \<open>Paid figure and lien\<close>

definition invoices_of :: "contract \<Rightarrow> sys \<Rightarrow> vendor_invoice list" where
  "invoices_of c s = filter (\<lambda>v. vi_reference v = co_number c) (vendor_invoices s)"

definition sync_contract_paid :: "contract \<Rightarrow> sys \<Rightarrow> err + sys" where
  "sync_contract_paid c s =
     rbind (get_balance (co_id c) s)
       (\<lambda>b. let paid = quantize_currency (sum_list (map vi_paid (invoices_of c s)));
                new_paid = min paid (quantize_currency (cb_certified b))
            in if quantize_currency (cb_paid b) \<noteq> new_paid
               then update_balance (co_id c) (\<lambda>r. r\<lparr>cb_paid := new_paid\<rparr>) s else Inr s)"

definition lien_total :: "contract \<Rightarrow> sys \<Rightarrow> rat" where
  "lien_total c s = sum_list (map (\<lambda>v. quantize_currency (vi_retention v))
     (filter (\<lambda>v. 0 < vi_retention v) (invoices_of c s)))"

definition release_retention :: "contract \<Rightarrow> sys \<Rightarrow> err + sys" where
  "release_retention c s =
     rbind (get_balance (co_id c) s)
       (\<lambda>b. if quantize_currency (cb_ret_held b) - quantize_currency (cb_ret_released b) \<le> 0
            then Inl TransactionPostingError
            else if lien_total c s \<le> 0 then Inl TransactionPostingError
            else update_balance (co_id c) (\<lambda>r. r\<lparr>cb_ret_released := cb_ret_released r + lien_total c s\<rparr>)
              (s\<lparr>vendor_invoices :=
                  map (\<lambda>v. if vi_reference v = co_number c \<and> 0 < vi_retention v then v\<lparr>vi_retention := 0\<rparr> else v)
                    (vendor_invoices s)\<rparr>))"

section \<open>The voucher of an invoice\<close>

definition payable_now :: "vendor_invoice \<Rightarrow> rat" where
  "payable_now v = vi_total v - vi_paid v - vi_retention v"

definition invoice_ncoa :: "vendor_invoice \<Rightarrow> sys \<Rightarrow> ncoa option" where
  \<comment> \<open>the first active code of the invoice's MDA, else the first active code\<close>
  "invoice_ncoa v s =
     (let active = filter n_active (ncoa_codes s)
      in case (case vi_mda v of None \<Rightarrow> None
               | Some m \<Rightarrow> qs_first n_id (filter (\<lambda>n. n_legacy_mda n = Some m) active)) of
           Some n \<Rightarrow> Some n
         | None \<Rightarrow> qs_first n_id active)"

definition create_draft_voucher_from_invoice :: "vendor_invoice \<Rightarrow> sys \<Rightarrow> err + (nat \<times> sys)" where
  "create_draft_voucher_from_invoice v s =
     (if vi_vendor v = 0 then Inl PVFactoryError
      else (case qs_first (\<lambda>p. - int (pv_id p)) (filter (\<lambda>p. pv_invoice_number p = vi_number v) (vouchers s)) of
              Some p \<Rightarrow> Inr (pv_id p, s)
            | None \<Rightarrow>
                (case (filter ta_active (ordered_tsa s), invoice_ncoa v s) of
                   (tsa # _, Some n) \<Rightarrow>
                     let (num, s1) = sequence_next ''payment_voucher'' ''PV-'' s;
                         payable = (if payable_now v \<le> 0 then vi_total v else payable_now v)
                     in insert_voucher
                          \<lparr>pv_id = 0, pv_number = num, pv_payment_type = ''VENDOR'', pv_ncoa = n_id n,
                           pv_appropriation = None, pv_status = ''DRAFT'', pv_gross = payable, pv_wht = 0,
                           pv_net = payable, pv_source_document = vi_number v,
                           pv_invoice_number = vi_number v, pv_tsa = ta_id tsa\<rparr> s1
                 | _ \<Rightarrow> Inl PVFactoryError)))"


section \<open>Effects on the invariant\<close>

lemma write_milestone_core [simp]: "same_core s (write_milestone i f s') = same_core s s'"
  by (simp add: write_milestone_def same_core_def)

lemma insert_milestone_core: "insert_milestone m s = Inr (i, s') \<Longrightarrow> same_core s s'"
  by (auto simp: insert_milestone_def Let_def rbind_eq_Inr same_core_def split: if_splits)

lemma milestone_start_core: "milestone_start m s = Inr s' \<Longrightarrow> same_core s s'"
  by (auto simp: milestone_start_def split: if_splits)

lemma milestone_reopen_core: "milestone_reopen m s = Inr s' \<Longrightarrow> same_core s s'"
  by (auto simp: milestone_reopen_def split: if_splits)

lemma create_invoice_voucher_core: "create_draft_voucher_from_invoice v s = Inr (i, s') \<Longrightarrow> same_core s s'"
  unfolding create_draft_voucher_from_invoice_def
  by (auto simp: same_core_def Let_def split: option.splits if_splits list.splits prod.splits
      dest!: sequence_next_frame insert_voucherD(1))

lemma same_core_invoices [simp]: "same_core s (s'\<lparr>vendor_invoices := vis\<rparr>) = same_core s s'"
  by (simp add: same_core_def)

lemma approve_and_invoiceD:
  assumes "approve_and_invoice m pd cd u s = Inr s'"
  obtains c where "contract_of (ms_contract m) s = Some c" "s' = s" "invoice_by_number (milestone_ref m c) s \<noteq> None"
  | c d ap j s1 s2 where "contract_of (ms_contract m) s = Some c" "ms_status m \<noteq> MS_INVOICED" "ms_lines m \<noteq> []"
      "balance_of (co_id c) s \<noteq> None" "0 < milestone_gross m" "invoice_by_number (milestone_ref m c) s = None"
      "post_new_journal (contract_header c d (milestone_ref m c) (milestone_ref m c) ''contract_milestone'' (ms_id m) u s)
         (milestone_lines m ap) (Some u) s = Inr (j, s1)"
      "update_balance (co_id c) (\<lambda>r. r\<lparr>cb_certified := cb_certified r + milestone_gross m\<rparr>)
         (s1\<lparr>vendor_invoices := vendor_invoices s1 @ [milestone_invoice m c j d s1]\<rparr>) = Inr s2"
      "s' = write_milestone (ms_id m) (\<lambda>r. r\<lparr>ms_status := MS_INVOICED,
              ms_completed := (case cd of Some x \<Rightarrow> Some x | None \<Rightarrow> ms_completed r)\<rparr>) s2"
  using assms unfolding approve_and_invoice_def
  by (auto simp: rbind_eq_Inr Let_def not_le split: option.splits if_splits prod.splits)

lemma approve_and_invoice_shifted:
  assumes "sys_ok s" and "approve_and_invoice m pd cd u s = Inr s'" and "contract_of (ms_contract m) s = Some c"
    and "invoice_by_number (milestone_ref m c) s = None"
  shows "shifted (ms_contract m) [Charge (milestone_gross m)] s s'"
  using assms(2)
proof (rule approve_and_invoiceD)
  fix c' d ap j s1 s2 f
  assume c': "contract_of (ms_contract m) s = Some c'" and g: "0 < milestone_gross m"
    and p: "post_new_journal (contract_header c' d (milestone_ref m c') (milestone_ref m c') ''contract_milestone'' (ms_id m) u s)
         (milestone_lines m ap) (Some u) s = Inr (j, s1)"
    and b: "update_balance (co_id c') (\<lambda>r. r\<lparr>cb_certified := cb_certified r + milestone_gross m\<rparr>)
         (s1\<lparr>vendor_invoices := vendor_invoices s1 @ [milestone_invoice m c' j d s1]\<rparr>) = Inr s2"
    and s': "s' = write_milestone (ms_id m) f s2"
    and bal: "balance_of (co_id c') s \<noteq> None"
  let ?s1 = "s1\<lparr>vendor_invoices := vendor_invoices s1 @ [milestone_invoice m c' j d s1]\<rparr>"
  have c: "co_id c' = ms_contract m" using c' find_row_SomeD by (fastforce simp: contract_of_def)
  have k1: "kept s s1" by (rule post_new_journal_kept [OF p assms(1)])
  have "same_core s1 ?s1" by simp
  with k1 have k: "kept s ?s1" using kept_trans kept_core keptD(1) by blast
  have m: "is_money (milestone_gross m)" by (simp add: milestone_gross_def)
  have "shifted (co_id c') [Charge (milestone_gross m)] ?s1 s2"
  proof (rule shifted_balance [OF keptD(1) [OF k] b])
    fix x assume x: "balance_of (co_id c') ?s1 = Some x"
    have ok: "balance_ok x" using balance_of_books [OF sys_okD(2) [OF keptD(1) [OF k]] x] by simp
    then show "cb_certified x \<le> db_decimal (cb_certified (x\<lparr>cb_certified := cb_certified x + milestone_gross m\<rparr>))"
      using g m by (simp add: is_money_add)
    let ?n = "written (co_id c') (\<lambda>r. r\<lparr>cb_certified := cb_certified r + milestone_gross m\<rparr>) x"
    assume "balance_ok ?n"
    then have "cb_certified x + cb_pending x + milestone_gross m \<le> cb_ceiling x"
      using balance_checks_ok(2) [of ?n] ok m by (simp add: is_money_add)
    moreover have "envelope_of ?n = (envelope_of x)\<lparr>en_committed := en_committed (envelope_of x) + milestone_gross m\<rparr>"
      using ok m by (simp add: envelope_of_def is_money_add)
    ultimately show "env_run [Charge (milestone_gross m)] (Some (envelope_of x)) = Some (Some (envelope_of ?n))"
      using g by (simp add: env_when_def)
  next
    have "map_option envelope_of (balance_of (co_id c') ?s1) = map_option envelope_of (balance_of (co_id c') s)"
      using keptD(2) [OF k] by (simp add: envelopes_def envelopes_of_def fun_eq_iff)
    then show "env_run [Charge (milestone_gross m)] None = Some None" if "balance_of (co_id c') ?s1 = None"
      using bal that by auto
  qed (use balance_of_books [OF sys_okD(2) [OF keptD(1) [OF k]]] in \<open>simp_all\<close>)
  with k have k2: "shifted (ms_contract m) [Charge (milestone_gross m)] s s2" unfolding c by (rule kept_shifted)
  have "same_core s2 s'" by (simp add: s')
  then show ?thesis using shifted_kept [OF k2] kept_core shiftedD(1) [OF k2] by blast
qed (use assms(3,4) in auto)

lemma sync_paid_kept:
  assumes "sys_ok s" and "sync_contract_paid c s = Inr s'"
  shows "kept s s'"
proof -
  have "kept s s1" if "update_balance (co_id c) (\<lambda>r. r\<lparr>cb_paid := x\<rparr>) s = Inr s1" for x s1
    by (rule kept_columns [OF assms(1) that])
      (use balance_of_books [OF sys_okD(2) [OF assms(1)]] in \<open>simp_all\<close>)
  then show ?thesis using assms by (auto simp: sync_contract_paid_def rbind_eq_Inr Let_def split: if_splits)
qed

lemma release_retention_kept:
  assumes "sys_ok s" and "release_retention c s = Inr s'"
  shows "kept s s'"
proof -
  obtain vis where l: "0 < lien_total c s"
    and w: "update_balance (co_id c) (\<lambda>r. r\<lparr>cb_ret_released := cb_ret_released r + lien_total c s\<rparr>)
              (s\<lparr>vendor_invoices := vis\<rparr>) = Inr s'"
    using assms(2) by (auto simp: release_retention_def rbind_eq_Inr Let_def not_le split: if_splits)
  have k: "kept s (s\<lparr>vendor_invoices := vis\<rparr>)" using assms(1) by (simp add: kept_core)
  have m: "is_money (lien_total c s)" unfolding lien_total_def by (rule is_money_sum_list) auto
  have "kept (s\<lparr>vendor_invoices := vis\<rparr>) s'"
    by (rule kept_columns [OF keptD(1) [OF k] w])
      (use l m balance_of_books [OF sys_okD(2) [OF keptD(1) [OF k]]] in \<open>simp_all add: is_money_add\<close>)
  with k show ?thesis by (rule kept_trans)
qed

end
