(* ===== verification/Closure.thy ===== *)
theory Closure
  imports Activation
begin

text \<open>
  Closure of a contract (\<^verbatim>\<open>contracts/services/contract_closure_service.py\<close>): the completion
  certificates, the defects liability stage and the final close with its guard-rails.
\<close>

definition open_ipc :: "ipc \<Rightarrow> bool" where
  "open_ipc i \<longleftrightarrow> ip_status i \<in> {IPC_SUBMITTED, IPC_CERTIFIER_REVIEWED, IPC_APPROVED, IPC_VOUCHER_RAISED}"

definition assert_no_open_ipcs :: "nat \<Rightarrow> sys \<Rightarrow> err + unit" where
  "assert_no_open_ipcs k s =
     (let mine = filter (\<lambda>i. ip_contract i = k) (ipcs s)
      in if list_ex open_ipc mine then Inl InvalidTransitionError
         else if list_ex (\<lambda>(i, resolved). i \<in> ip_id ` set mine \<and> \<not> resolved) (cascade_failures s)
         then Inl InvalidTransitionError else Inr ())"

definition insert_completion :: "nat \<Rightarrow> certificate_type \<Rightarrow> date \<Rightarrow> date \<Rightarrow> sys \<Rightarrow> err + (nat \<times> sys)" where
  \<comment> \<open>the dates are compared by \<^verbatim>\<open>CompletionCertificate.clean\<close>, which \<^verbatim>\<open>objects.create\<close> does not run\<close>
  "insert_completion k ty issued effective s =
     (let i = fresh_pk ce_id (completions s)
      in if \<exists>x \<in> set (completions s). ce_contract x = k \<and> ce_type x = ty then Inl IntegrityError
         else Inr (i, s\<lparr>completions := completions s @
                [\<lparr>ce_id = i, ce_contract = k, ce_type = ty, ce_issued = issued, ce_effective = effective\<rparr>]\<rparr>))"

definition closure_step :: "contract \<Rightarrow> nat option \<Rightarrow> nat \<Rightarrow> sys \<Rightarrow> sys" where
  "closure_step c cert user s =
     (case cert of
        Some i \<Rightarrow> record_step OT_COMPLETION i (co_id c) ''contracts.close_contract'' ACT_APPROVE user s
      | None \<Rightarrow> record_step OT_CONTRACT (co_id c) (co_id c) ''contracts.close_contract'' ACT_APPROVE user s)"

definition issue_practical_completion :: "contract \<Rightarrow> date \<Rightarrow> date \<Rightarrow> nat \<Rightarrow> sys \<Rightarrow> err + sys" where
  "issue_practical_completion c issued effective user s =
     (if co_status c \<noteq> CS_IN_PROGRESS then Inl InvalidTransitionError
      else rbind (assert_no_open_ipcs (co_id c) s)
        (\<lambda>_. rbind (insert_completion (co_id c) CT_PRACTICAL issued effective s)
          (\<lambda>(i, s1). rbind (contract_transition c CS_PRACTICAL_COMPLETION s1)
            (\<lambda>s2. Inr (closure_step c (Some i) user s2)))))"

definition enter_defects_liability :: "contract \<Rightarrow> nat \<Rightarrow> sys \<Rightarrow> err + sys" where
  "enter_defects_liability c user s =
     (if co_status c \<noteq> CS_PRACTICAL_COMPLETION then Inl InvalidTransitionError
      else rbind (contract_transition c CS_DEFECTS_LIABILITY s) (\<lambda>s1. Inr (closure_step c None user s1)))"

definition practical_release :: "nat \<Rightarrow> sys \<Rightarrow> retention_release option" where
  "practical_release k s =
     List.find (\<lambda>r. rr_contract r = k \<and> rr_type r = ''PRACTICAL_COMPLETION'') (releases s)"

definition issue_final_completion :: "contract \<Rightarrow> date \<Rightarrow> date \<Rightarrow> nat \<Rightarrow> sys \<Rightarrow> err + sys" where
  "issue_final_completion c issued effective user s =
     (if co_status c \<noteq> CS_DEFECTS_LIABILITY then Inl InvalidTransitionError
      else rbind (assert_no_open_ipcs (co_id c) s)
        (\<lambda>_. if (case practical_release (co_id c) s of Some r \<Rightarrow> rr_status r \<noteq> RR_PAID | None \<Rightarrow> False)
             then Inl RetentionCapError
             else rbind (insert_completion (co_id c) CT_FINAL issued effective s)
               (\<lambda>(i, s1). rbind (contract_transition c CS_FINAL_COMPLETION s1)
                 (\<lambda>s2. Inr (closure_step c (Some i) user s2)))))"

definition close :: "contract \<Rightarrow> nat \<Rightarrow> sys \<Rightarrow> err + sys" where
  "close c user s =
     (if co_status c \<noteq> CS_FINAL_COMPLETION then Inl InvalidTransitionError
      else rbind (assert_no_open_ipcs (co_id c) s)
        (\<lambda>_. rbind (get_balance (co_id c) s)
          (\<lambda>b. if cb_ret_released b < cb_ret_held b then Inl RetentionCapError
               else if \<exists>r \<in> set (releases s). rr_contract r = co_id c \<and> rr_status r \<noteq> RR_PAID
               then Inl RetentionCapError
               else if cb_paid b \<noteq> cb_certified b then Inl InvalidTransitionError
               else rbind (contract_transition c CS_CLOSED s) (\<lambda>s1. Inr (closure_step c None user s1)))))"


section \<open>Effects\<close>

lemma insert_completion_core: "insert_completion k ty a b s = Inr (i, s') \<Longrightarrow> same_core s s'"
  by (auto simp: insert_completion_def Let_def same_core_def split: if_splits)

text \<open>Each stage writes the status of the contract, and nothing the invariant reads.\<close>

definition advanced :: "contract \<Rightarrow> contract_status \<Rightarrow> sys \<Rightarrow> sys \<Rightarrow> bool" where
  "advanced c new s s' \<longleftrightarrow> new \<in> set (contract_next (co_status c))
     \<and> (\<exists>s1 cp st. same_core s s1 \<and> s' = s1\<lparr>contracts := upd_row co_id (co_id c) (\<lambda>r. r\<lparr>co_status := new\<rparr>) (contracts s1),
          completions := cp, steps := st\<rparr>)"

lemma advancedI:
  assumes "contract_transition c new s1 = Inr s2" and "same_core s s1"
  shows "advanced c new s (closure_step c i u s2)"
proof -
  have "closure_step c i u s2 = s1\<lparr>contracts := upd_row co_id (co_id c) (\<lambda>r. r\<lparr>co_status := new\<rparr>) (contracts s1),
          completions := completions s1, steps := steps (closure_step c i u s2)\<rparr>"
    using contract_transitionD(2) [OF assms(1)] by (simp add: closure_step_def record_step_def split: option.split)
  then show ?thesis using contract_transitionD(1) [OF assms(1)] assms(2) unfolding advanced_def by blast
qed

lemma issue_practical_completion_advanced:
  "issue_practical_completion c a b u s = Inr s' \<Longrightarrow> co_status c = CS_IN_PROGRESS \<and> advanced c CS_PRACTICAL_COMPLETION s s'"
  by (auto simp: issue_practical_completion_def rbind_eq_Inr split: if_splits prod.splits
      intro: advancedI dest: insert_completion_core)

lemma enter_defects_liability_advanced:
  "enter_defects_liability c u s = Inr s' \<Longrightarrow> co_status c = CS_PRACTICAL_COMPLETION \<and> advanced c CS_DEFECTS_LIABILITY s s'"
  by (auto simp: enter_defects_liability_def rbind_eq_Inr split: if_splits intro: advancedI)

lemma issue_final_completion_advanced:
  "issue_final_completion c a b u s = Inr s' \<Longrightarrow> co_status c = CS_DEFECTS_LIABILITY \<and> advanced c CS_FINAL_COMPLETION s s'"
  by (auto simp: issue_final_completion_def rbind_eq_Inr split: if_splits prod.splits
      intro: advancedI dest: insert_completion_core)

lemma close_advanced: "close c u s = Inr s' \<Longrightarrow> co_status c = CS_FINAL_COMPLETION \<and> advanced c CS_CLOSED s s'"
  by (auto simp: close_def rbind_eq_Inr split: if_splits intro: advancedI)

lemma advanced_ok:
  assumes "sys_ok s" and "advanced c new s s'"
  shows "sys_ok s' \<and> envelopes s s'"
proof -
  obtain s1 cp st where s1: "same_core s s1"
    and s': "s' = s1\<lparr>contracts := upd_row co_id (co_id c) (\<lambda>r. r\<lparr>co_status := new\<rparr>) (contracts s1),
          completions := cp, steps := st\<rparr>"
    using assms(2) by (auto simp: advanced_def)
  have "kept s s1" by (rule kept_core [OF s1 assms(1)])
  then show ?thesis
    by (auto simp: kept_def s' sys_ok_def ledger_ok_def keys_ok_def map_upd_row envelopes_def envelopes_of_def fun_eq_iff balance_of_def)
qed

end
