(* ===== verification/Deductions.thy ===== *)
theory Deductions
  imports ContractBooks
begin

text \<open>
  The statutory deductions of Circular AG/CIR/54/C/Vol.10/1/134
  (\<^verbatim>\<open>accounting/services/contract_deductions.py\<close>) and their use by the certificate service.
\<close>

datatype deduction_kind = STAMP_DUTY | HANDLING | STATUS_VERIFICATION

record deduction =
  de_kind :: deduction_kind
  de_rate :: rat
  de_amount :: rat

definition HANDLING_CHARGE_FACTOR :: rat where
  "HANDLING_CHARGE_FACTOR = dec_div (5/10) (1075/10)"

definition STATUS_VERIFICATION_ANNUAL_FEE :: rat where
  "STATUS_VERIFICATION_ANNUAL_FEE = 40000"

definition stamp_duty :: "rat \<Rightarrow> deduction" where
  "stamp_duty payment = \<lparr>de_kind = STAMP_DUTY, de_rate = 0, de_amount = 0\<rparr>"

definition handling_charge :: "rat \<Rightarrow> bool \<Rightarrow> err + deduction" where
  "handling_charge gross first =
     (if gross < 0 then Inl ValueError
      else if \<not> first then Inr \<lparr>de_kind = HANDLING, de_rate = 0, de_amount = 0\<rparr>
      else Inr \<lparr>de_kind = HANDLING, de_rate = 1/2,
                de_amount = quantize_currency (dec_mul gross HANDLING_CHARGE_FACTOR)\<rparr>)"

definition status_verification_fee :: "bool \<Rightarrow> deduction" where
  "status_verification_fee already =
     \<lparr>de_kind = STATUS_VERIFICATION, de_rate = 0,
      de_amount = (if already then 0 else quantize_currency STATUS_VERIFICATION_ANNUAL_FEE)\<rparr>"

definition compute_all :: "rat \<Rightarrow> rat \<Rightarrow> bool \<Rightarrow> bool \<Rightarrow> err + deduction list" where
  "compute_all gross payment first sv_paid =
     rbind (handling_charge gross first)
       (\<lambda>h. Inr [stamp_duty payment, h, status_verification_fee sv_paid])"

definition deductions_for_ipc :: "ipc \<Rightarrow> sys \<Rightarrow> err + deduction list" where
  "deductions_for_ipc i s =
     rbind (get_balance (ip_contract i) s)
       (\<lambda>b. case contract_of (ip_contract i) s of
              None \<Rightarrow> Inl DoesNotExist
            | Some c \<Rightarrow> compute_all (cb_ceiling b) (ip_net i) (cb_paid b = 0)
                         ((co_vendor c, d_year (today s)) \<in> set (status_verifications s)))"

definition record_status_verification_paid :: "nat \<Rightarrow> int \<Rightarrow> sys \<Rightarrow> sys" where
  \<comment> \<open>\<^verbatim>\<open>get_or_create\<close>\<close>
  "record_status_verification_paid v y s =
     (if (v, y) \<in> set (status_verifications s) then s
      else s\<lparr>status_verifications := status_verifications s @ [(v, y)]\<rparr>)"

end
