(* ===== verification/ContractSystem.thy ===== *)
theory ContractSystem
  imports Milestone Closure Deductions
begin

text \<open>
  The contract services together: one relation whose steps are the handlers of the previous
  theories, run on instances read from the tables, plus what happens outside the services (the
  passing of days, manual journals, edits of a contract's other columns, and a status set by
  hand).  Every step preserves the invariant of the register; the properties of certificates,
  advances, retention and closure follow for every reachable state.
\<close>

definition loaded :: "contract \<Rightarrow> sys \<Rightarrow> bool" where
  \<comment> \<open>the caller's contract instance is what the table holds\<close>
  "loaded c s \<longleftrightarrow> contract_of (co_id c) s = Some c"

inductive service_step :: "(string \<Rightarrow> string) \<Rightarrow> sys \<Rightarrow> sys \<Rightarrow> bool" for sha where
  Create_Contract: "co_status c = CS_DRAFT \<Longrightarrow> insert_contract c s = Inr (i, s') \<Longrightarrow> service_step sha s s'"
| Activate: "loaded c s \<Longrightarrow> activate c u s = Inr s' \<Longrightarrow> service_step sha s s'"
| Submit: "loaded c s \<Longrightarrow> valid_request q \<Longrightarrow> submit_ipc sha c q u s = Inr (i, s') \<Longrightarrow> service_step sha s s'"
| From_Milestone: "is_money (ms_value m) \<Longrightarrow> 0 \<le> ms_value m \<Longrightarrow> create_from_milestone sha m d u s = Inr (i, s')
    \<Longrightarrow> service_step sha s s'"
| Certify: "current i s \<Longrightarrow> certify i u s = Inr s' \<Longrightarrow> service_step sha s s'"
| Approve: "current i s \<Longrightarrow> approve i u s = Inr s' \<Longrightarrow> service_step sha s s'"
| Reject: "current i s \<Longrightarrow> reject i r u s = Inr s' \<Longrightarrow> service_step sha s s'"
| Raise_Voucher: "raise_voucher k pv g u s = Inr s' \<Longrightarrow> service_step sha s s'"
| Draft_Voucher: "current i s \<Longrightarrow> create_draft_voucher i u s = Inr (v, s') \<Longrightarrow> service_step sha s s'"
| Mark_Paid: "current i s \<Longrightarrow> mark_paid i vat wht u s = Inr s' \<Longrightarrow> service_step sha s s'"
| Exempt: "set_wht_exemption i flag s = Inr s' \<Longrightarrow> service_step sha s s'"
| Issue_Advance: "loaded c s \<Longrightarrow> issue_advance c s = Inr (i, s') \<Longrightarrow> service_step sha s s'"
| Approve_Advance: "mob_approve m u s = Inr s' \<Longrightarrow> service_step sha s s'"
| Cancel_Advance: "mob_cancel k u s = Inr s' \<Longrightarrow> service_step sha s s'"
| Schedule_Advance: "schedule_payment k s = Inr (v, s') \<Longrightarrow> service_step sha s s'"
| Disburse_Advance: "record_disbursement pv d s = Inr s' \<Longrightarrow> service_step sha s s'"
| Create_Release: "loaded c s \<Longrightarrow> create_release c ty u s = Inr (i, s') \<Longrightarrow> service_step sha s s'"
| Approve_Release: "find_row rr_id (rr_id r) (releases s) = Some r \<Longrightarrow> release_approve r u s = Inr s'
    \<Longrightarrow> service_step sha s s'"
| Pay_Release: "find_row rr_id (rr_id r) (releases s) = Some r \<Longrightarrow> release_mark_paid r pv d s = Inr s'
    \<Longrightarrow> service_step sha s s'"
| Create_Variation: "loaded c s \<Longrightarrow> variation_create c ty x bpp s = Inr (i, s') \<Longrightarrow> service_step sha s s'"
| Submit_Variation: "variation_submit v u s = Inr s' \<Longrightarrow> service_step sha s s'"
| Review_Variation: "variation_review v u s = Inr s' \<Longrightarrow> service_step sha s s'"
| Approve_Variation: "variation_approve v u perm s = Inr s' \<Longrightarrow> service_step sha s s'"
| Reject_Variation: "variation_reject v u s = Inr s' \<Longrightarrow> service_step sha s s'"
| Add_Milestone: "insert_milestone m s = Inr (i, s') \<Longrightarrow> service_step sha s s'"
| Start_Milestone: "milestone_start m s = Inr s' \<Longrightarrow> service_step sha s s'"
| Reopen_Milestone: "milestone_reopen m s = Inr s' \<Longrightarrow> service_step sha s s'"
| Invoice_Milestone: "approve_and_invoice m pd cd u s = Inr s' \<Longrightarrow> service_step sha s s'"
| Sync_Paid: "sync_contract_paid c s = Inr s' \<Longrightarrow> service_step sha s s'"
| Release_Lien: "release_retention c s = Inr s' \<Longrightarrow> service_step sha s s'"
| Voucher_From_Invoice: "create_draft_voucher_from_invoice v s = Inr (i, s') \<Longrightarrow> service_step sha s s'"
| Practical: "loaded c s \<Longrightarrow> issue_practical_completion c a b u s = Inr s' \<Longrightarrow> service_step sha s s'"
| Defects: "loaded c s \<Longrightarrow> enter_defects_liability c u s = Inr s' \<Longrightarrow> service_step sha s s'"
| Final: "loaded c s \<Longrightarrow> issue_final_completion c a b u s = Inr s' \<Longrightarrow> service_step sha s s'"
| Close: "loaded c s \<Longrightarrow> close c u s = Inr s' \<Longrightarrow> service_step sha s s'"
| Save_Book: "save_measurement_book mb so s = Inr s' \<Longrightarrow> service_step sha s s'"
| Verification_Paid: "service_step sha s (record_status_verification_paid v y s)"

text \<open>What the services do not do themselves.\<close>

inductive contract_step :: "(string \<Rightarrow> string) \<Rightarrow> sys \<Rightarrow> sys \<Rightarrow> bool" for sha where
  Service: "service_step sha s s' \<Longrightarrow> contract_step sha s s'"
| Set_Status: "contract_transition c new s = Inr s' \<Longrightarrow> contract_step sha s s'"
| Edit_Contract: "(\<And>c. co_id (f c) = co_id c) \<Longrightarrow>
    contract_step sha s (s\<lparr>contracts := upd_row co_id k f (contracts s)\<rparr>)"
| Manual_Journal: "post_new_journal h ls u s = Inr (i, s') \<Longrightarrow> contract_step sha s s'"
| New_Day: "contract_step sha s (s\<lparr>today := d\<rparr>)"

section \<open>What happens to the envelopes\<close>

text \<open>
  The operations that touch an envelope, each with the events it is made of: the certificate
  reserves its value, and commits or cancels just that; an approval brings the ceiling up to date
  first.
\<close>

inductive register_event :: "(string \<Rightarrow> string) \<Rightarrow> nat \<Rightarrow> envelope_event list \<Rightarrow> sys \<Rightarrow> sys \<Rightarrow> bool" for sha where
  Ev_Activate: "loaded c s \<Longrightarrow> activate c u s = Inr s' \<Longrightarrow> register_event sha (co_id c) [seeding c s] s s'"
| Ev_Submit: "loaded c s \<Longrightarrow> valid_request q \<Longrightarrow> submit_ipc sha c q u s = Inr (i, s') \<Longrightarrow>
    find_row ip_id i (ipcs s') = Some r \<Longrightarrow> register_event sha (co_id c) [Reserve (certified_value r)] s s'"
| Ev_Milestone: "is_money (ms_value m) \<Longrightarrow> 0 \<le> ms_value m \<Longrightarrow> create_from_milestone sha m d u s = Inr (i, s') \<Longrightarrow>
    find_row ip_id i (ipcs s') = Some r \<Longrightarrow> register_event sha (ms_contract m) [Reserve (certified_value r)] s s'"
| Ev_Approve: "current i s \<Longrightarrow> contract_of (ip_contract i) s = Some c \<Longrightarrow> approve i u s = Inr s' \<Longrightarrow>
    register_event sha (ip_contract i) [Resize (contract_ceiling c s), Commit (certified_value i)] s s'"
| Ev_Reject: "current i s \<Longrightarrow> reject i r u s = Inr s' \<Longrightarrow>
    register_event sha (ip_contract i) [Cancel (certified_value i)] s s'"
| Ev_Invoice: "contract_of (ms_contract m) s = Some c \<Longrightarrow> invoice_by_number (milestone_ref m c) s = None \<Longrightarrow>
    approve_and_invoice m pd cd u s = Inr s' \<Longrightarrow> register_event sha (ms_contract m) [Charge (milestone_gross m)] s s'"
| Ev_Vary: "contract_of (va_contract v) s = Some c \<Longrightarrow> variation_approve v u perm s = Inr s' \<Longrightarrow>
    register_event sha (va_contract v) [Resize (contract_ceiling c s')] s s'"

section \<open>The invariant\<close>

lemma insert_contractD:
  assumes "sys_ok s" and "insert_contract c s = Inr (i, s')"
  obtains row where "sys_ok s'" "envelopes s s'" "contracts s' = contracts s @ [row]"
    "co_id row = fresh_pk co_id (contracts s)" "co_status row = co_status c"
proof -
  obtain num s1 where n: "(if co_number c = [] \<and> co_type c \<noteq> [] \<and> year_of_contract c s \<noteq> 0
      then next_contract_number (co_type c) (year_of_contract c s) s else (co_number c, s)) = (num, s1)"
    by (meson surj_pair)
  obtain row where s': "s' = s1\<lparr>contracts := contracts s @ [row]\<rparr>" "co_id row = fresh_pk co_id (contracts s)"
    "co_status row = co_status c"
    using assms(2) unfolding insert_contract_def n by (auto simp: Let_def split: if_splits)
  have "s1 = s\<lparr>sequences := sequences s\<rparr> \<or> (\<exists>sq. s1 = s\<lparr>sequences := sq\<rparr>)"
    using n next_contract_number_core by (auto split: if_splits)
  then obtain sq where s1: "s1 = s\<lparr>sequences := sq\<rparr>" by blast
  have "sys_ok s'" using s' s1 sys_okD [OF assms(1)] by (simp add: sys_ok_def ledger_ok_def keys_ok_def)
  moreover have "envelopes s s'" by (rule envelopes_same) (simp add: s' s1)
  ultimately show ?thesis using that [of row] s' by simp
qed

lemma from_milestone_shifted:
  assumes "sys_ok s" and "is_money (ms_value m)" "0 \<le> ms_value m" and "create_from_milestone sha m d u s = Inr (i, s')"
  obtains r where "find_row ip_id i (ipcs s') = Some r" "shifted (ms_contract m) [Reserve (certified_value r)] s s'"
proof -
  obtain c b q where c: "contract_of (ms_contract m) s = Some c" and b: "balance_of (co_id c) s = Some b" and sub: "submit_ipc sha c q u s = Inr (i, s')"
    and q: "rq_cumulative q = quantize_currency (cb_certified b + ms_value m)" "rq_variation q = 0" "rq_ld q = 0"
    using assms(4) by (auto simp: create_from_milestone_def rbind_eq_Inr Let_def split: if_splits option.splits)
  have "valid_request q"
    using balance_of_books [OF sys_okD(2) [OF assms(1)] b] assms(2,3) by (simp add: valid_request_def q)
  moreover have "co_id c = ms_contract m" using c find_row_SomeD by (fastforce simp: contract_of_def)
  ultimately show ?thesis using submit_ipc_shifted [OF assms(1) _ sub] that by metis
qed

lemma save_book_core: "save_measurement_book mb so s = Inr s' \<Longrightarrow> same_core s s'"
  by (auto simp: save_measurement_book_def rbind_eq_Inr same_core_def split: if_splits)

lemma verification_core: "same_core s (record_status_verification_paid v y s)"
  by (simp add: record_status_verification_paid_def same_core_def)

lemmas service_cores = issue_advance_core mob_approve_core mob_cancel_core schedule_payment_core
  variation_create_core variation_submit_core variation_review_core variation_reject_core
  insert_milestone_core milestone_start_core milestone_reopen_core create_invoice_voucher_core
  save_book_core verification_core

lemmas service_kept = certify_kept raise_voucher_kept create_draft_voucher_kept mark_paid_kept
  set_wht_exemption_kept record_disbursement_kept create_release_kept release_approve_kept
  release_mark_paid_kept sync_paid_kept release_retention_kept

text \<open>
  A service step keeps the contract rows, or creates a draft, or moves one contract to the next
  stage of its life.
\<close>

inductive contract_rows :: "contract list \<Rightarrow> contract list \<Rightarrow> bool" where
  Rows_Same: "contract_rows cs cs"
| Rows_New: "co_status r = CS_DRAFT \<Longrightarrow> contract_rows cs (cs @ [r])"
| Rows_Next: "find_row co_id (co_id c) cs = Some c \<Longrightarrow> new \<in> set (contract_next (co_status c)) \<Longrightarrow>
    co_status c \<noteq> CS_ACTIVATED \<Longrightarrow> (\<And>r. co_id (f r) = co_id r) \<Longrightarrow> (\<And>r. co_status (f r) = new) \<Longrightarrow>
    contract_rows cs (upd_row co_id (co_id c) f cs)"

definition accounted :: "(string \<Rightarrow> string) \<Rightarrow> sys \<Rightarrow> sys \<Rightarrow> bool" where
  "accounted sha s s' \<longleftrightarrow> sys_ok s' \<and> (envelopes s s' \<or> (\<exists>k vs. register_event sha k vs s s'))
     \<and> contract_rows (contracts s) (contracts s')"

lemma kept_rows: "kept s s' \<Longrightarrow> accounted sha s s'"
  by (simp add: kept_def accounted_def Rows_Same)

lemma shifted_rows: "shifted k vs s s' \<Longrightarrow> register_event sha k vs s s' \<Longrightarrow> accounted sha s s'"
  by (auto simp: shifted_def accounted_def Rows_Same)

lemma insert_contract_rows:
  assumes "sys_ok s" and "co_status c = CS_DRAFT" and "insert_contract c s = Inr (i, s')"
  shows "accounted sha s s'"
  by (rule insert_contractD [OF assms(1,3)]) (use assms(2) in \<open>simp add: accounted_def Rows_New\<close>)

lemma upd_row_upd_row:
  "(\<And>r. key (f r) = key r) \<Longrightarrow> upd_row key k g (upd_row key k f rows) = upd_row key k (g \<circ> f) rows"
  by (simp add: upd_row_def)

lemma activate_moves:
  assumes "sys_ok s" and "loaded c s" and "activate c u s = Inr s'"
  shows "sys_ok s' \<and> evolves (co_id c) [seeding c s] s s' \<and> contract_rows (contracts s) (contracts s')"
proof (rule activateD [OF assms(3,1)])
  fix num s3 st
  assume k: "shifted (co_id c) [seeding c s] s s3" and d: "co_status c = CS_DRAFT"
    and s': "s' = s3\<lparr>contracts := upd_row co_id (co_id c) (\<lambda>r. r\<lparr>co_number := num\<rparr>)
            (upd_row co_id (co_id c) (\<lambda>r. r\<lparr>co_status := CS_ACTIVATED\<rparr>) (contracts s3)), steps := st\<rparr>"
  have "contracts s' = upd_row co_id (co_id c) ((\<lambda>r. r\<lparr>co_number := num\<rparr>) \<circ> (\<lambda>r. r\<lparr>co_status := CS_ACTIVATED\<rparr>)) (contracts s)"
    using shiftedD(3) [OF k] by (simp add: s' upd_row_upd_row)
  moreover have "contract_rows (contracts s) \<dots>"
    by (rule Rows_Next) (use assms(2) d in \<open>simp_all add: loaded_def contract_of_def\<close>)
  moreover have "sys_ok s'" using shiftedD(1) [OF k] by (simp add: s' sys_ok_def ledger_ok_def keys_ok_def map_upd_row)
  moreover have "evolves (co_id c) [seeding c s] s s'"
    by (rule evolves_same [OF _ shiftedD(2) [OF k]]) (simp add: s')
  ultimately show ?thesis by simp
qed

lemma activate_rows:
  assumes "sys_ok s" and "loaded c s" and "activate c u s = Inr s'"
  shows "accounted sha s s'"
  using activate_moves [OF assms] Ev_Activate [OF assms(2,3), where sha = sha] by (auto simp: accounted_def)

lemma submit_rows:
  assumes "sys_ok s" and "loaded c s" and "valid_request q" and "submit_ipc sha c q u s = Inr (i, s')"
  shows "accounted sha s s'"
  by (rule submit_ipc_shifted [OF assms(1,3,4)]) (rule shifted_rows, assumption, rule Ev_Submit [OF assms(2-4)])

lemma from_milestone_rows:
  assumes "sys_ok s" and "is_money (ms_value m)" "0 \<le> ms_value m" and "create_from_milestone sha m d u s = Inr (i, s')"
  shows "accounted sha s s'"
  by (rule from_milestone_shifted [OF assms]) (rule shifted_rows, assumption, rule Ev_Milestone [OF assms(2-4)])

lemma approve_rows:
  assumes "sys_ok s" and "current i s" and "approve i u s = Inr s'"
  shows "accounted sha s s'"
proof (rule approveD [OF assms(3)])
  fix c assume c: "contract_of (ip_contract i) s = Some c"
  show ?thesis by (rule shifted_rows [OF approve_shifted [OF assms c] Ev_Approve [OF assms(2) c assms(3)]])
qed

lemma reject_rows:
  assumes "sys_ok s" and "current i s" and "reject i r u s = Inr s'"
  shows "accounted sha s s'"
  by (rule shifted_rows [OF reject_shifted [OF assms] Ev_Reject [OF assms(2,3)]])

lemma invoice_rows:
  assumes "sys_ok s" and "approve_and_invoice m pd cd u s = Inr s'"
  shows "accounted sha s s'"
  using assms(2)
proof (rule approve_and_invoiceD)
  fix c assume c: "contract_of (ms_contract m) s = Some c" "invoice_by_number (milestone_ref m c) s = None"
  show ?thesis by (rule shifted_rows [OF approve_and_invoice_shifted [OF assms c] Ev_Invoice [OF c assms(2)]])
qed (use assms(1) kept_rows in simp_all)

lemma variation_rows:
  assumes "sys_ok s" and "variation_approve v u perm s = Inr s'"
  shows "accounted sha s s'"
proof -
  obtain c where c: "contract_of (va_contract v) s = Some c"
    using assms(2) by (auto simp: variation_approve_def split: if_splits option.splits)
  show ?thesis by (rule shifted_rows [OF variation_approve_shifted [OF assms c] Ev_Vary [OF c assms(2)]])
qed

lemma advanced_rows:
  assumes "sys_ok s" and l: "loaded c s" and a: "co_status c = old \<and> advanced c new s s'" and "old \<noteq> CS_ACTIVATED"
  shows "accounted sha s s'"
proof -
  obtain s1 cp st where s1: "same_core s s1" and n: "new \<in> set (contract_next (co_status c))"
    and s': "s' = s1\<lparr>contracts := upd_row co_id (co_id c) (\<lambda>r. r\<lparr>co_status := new\<rparr>) (contracts s1),
          completions := cp, steps := st\<rparr>"
    using a by (auto simp: advanced_def)
  have "contract_rows (contracts s) (upd_row co_id (co_id c) (\<lambda>r. r\<lparr>co_status := new\<rparr>) (contracts s))"
    by (rule Rows_Next) (use l n a assms(4) in \<open>simp_all add: loaded_def contract_of_def\<close>)
  then show ?thesis using advanced_ok [OF assms(1) conjunct2 [OF a]] s1 by (simp add: accounted_def s' same_core_def)
qed

lemmas service_rows = insert_contract_rows activate_rows submit_rows from_milestone_rows approve_rows reject_rows
  invoice_rows variation_rows
  advanced_rows [OF _ _ issue_practical_completion_advanced] advanced_rows [OF _ _ enter_defects_liability_advanced]
  advanced_rows [OF _ _ issue_final_completion_advanced] advanced_rows [OF _ _ close_advanced]

lemma service_step_rows: "service_step sha s s' \<Longrightarrow> sys_ok s \<Longrightarrow> accounted sha s s'"
  by (induction rule: service_step.induct)
    ((rule kept_rows, (rule service_kept; assumption))
     | (rule kept_rows, rule kept_core [rotated], assumption, (rule service_cores; assumption))
     | (rule service_rows; (assumption | simp)))+

lemma contract_step_accounted:
  assumes "contract_step sha s s'" and "sys_ok s"
  shows "sys_ok s' \<and> (envelopes s s' \<or> (\<exists>k vs. register_event sha k vs s s'))"
  using assms
proof (induction rule: contract_step.induct)
  case (Service s s')
  then show ?case using service_step_rows by (auto simp: accounted_def)
next
  case (Set_Status c new s s')
  show ?case unfolding contract_transitionD(2) [OF Set_Status(1)]
    using kept_contracts [OF Set_Status(2)] by (simp add: map_upd_row)
next
  case (Edit_Contract f s k)
  then show ?case using kept_contracts by (simp add: map_upd_row)
next
  case (Manual_Journal h ls u s i s')
  show ?case using post_new_journal_kept [OF Manual_Journal] by (simp add: kept_def)
next
  case (New_Day s d)
  then show ?case
    by (simp add: sys_ok_def ledger_ok_def keys_ok_def envelopes_def envelopes_of_def fun_eq_iff balance_of_def)
qed

lemma register_event_evolves:
  assumes "register_event sha k vs s s'" and "sys_ok s"
  shows "evolves k vs s s'"
  using assms(1)
proof (cases rule: register_event.cases)
  case (Ev_Activate c u)
  then show ?thesis using activate_moves [OF assms(2)] by simp
next
  case (Ev_Submit c q u i r)
  show ?thesis by (rule submit_ipc_shifted [OF assms(2) Ev_Submit(4,5)]) (use Ev_Submit shiftedD(2) in auto)
next
  case (Ev_Milestone m d u i r)
  show ?thesis by (rule from_milestone_shifted [OF assms(2) Ev_Milestone(3-5)]) (use Ev_Milestone shiftedD(2) in auto)
next
  case (Ev_Approve i c u)
  then show ?thesis using shiftedD(2) [OF approve_shifted [OF assms(2)]] by simp
next
  case (Ev_Reject i r u)
  then show ?thesis using shiftedD(2) [OF reject_shifted [OF assms(2)]] by simp
next
  case (Ev_Invoice m c pd cd u)
  then show ?thesis using shiftedD(2) [OF approve_and_invoice_shifted [OF assms(2)]] by simp
next
  case (Ev_Vary v c u perm)
  then show ?thesis using shiftedD(2) [OF variation_approve_shifted [OF assms(2)]] by simp
qed

section \<open>Reachable registers\<close>

definition opened :: "sys \<Rightarrow> bool" where
  \<comment> \<open>sound books and no contract yet\<close>
  "opened s \<longleftrightarrow> ledger_ok s \<and> contracts s = [] \<and> balances s = [] \<and> ipcs s = [] \<and> releases s = []"

inductive register :: "(string \<Rightarrow> string) \<Rightarrow> sys \<Rightarrow> bool" for sha where
  Opened: "opened s \<Longrightarrow> register sha s"
| Stepped: "register sha s \<Longrightarrow> contract_step sha s s' \<Longrightarrow> register sha s'"

lemma opened_ok: "opened s \<Longrightarrow> sys_ok s"
  by (simp add: opened_def sys_ok_def books_ok_def accruals_ok_def releases_ok_def)

lemma register_ok: "register sha s \<Longrightarrow> sys_ok s"
  by (induction rule: register.induct) (auto simp: opened_ok dest: contract_step_accounted)

lemma register_balance:
  assumes "register sha s" and "balance_of k s = Some b"
  shows "balance_ok b" "covers (ipcs s) b" "cb_contract b = k" "paid_out k (releases s) \<le> cb_ret_released b"
proof -
  note ok = sys_okD [OF register_ok [OF assms(1)]]
  have b: "b \<in> set (balances s)" "cb_contract b = k" using balance_of_mem [OF assms(2)] by simp_all
  show "balance_ok b" "covers (ipcs s) b" "cb_contract b = k" using books_okD(3,4) [OF ok(2) b(1)] b(2) by simp_all
  show "paid_out k (releases s) \<le> cb_ret_released b" using ok(4) b by (auto simp: releases_ok_def)
qed

end
