(* ===== verification/ContractDemo.thy ===== *)
theory ContractDemo
  imports ContractSystem
begin

text \<open>
  A concrete register for the witnesses: an office with four accounts and one budget line, a
  works contract of one million with an advance of fifteen and a retention of ten percent, and
  the states it goes through, each computed by the handler that produces it.
\<close>

definition demo_ncoa :: ncoa where
  "demo_ncoa = \<lparr>n_id = 1, n_economic = 1, n_administrative = 1, n_fund = 1, n_legacy_fund = None,
     n_legacy_function = None, n_legacy_program = None, n_legacy_geo = None, n_legacy_mda = Some 1, n_active = True\<rparr>"

definition demo_office :: sys where
  "demo_office = budget_state.extend
     (demo_ledger\<lparr>accounts := [demo_account 1 ''23020101'' AT_Expense,
          (demo_account 2 ''41010101'' AT_Liability)\<lparr>ac_reconciliation_type := ''accounts_payable''\<rparr>,
          (demo_account 3 ''41020101'' AT_Liability)\<lparr>ac_reconciliation_type := ''retention_held''\<rparr>,
          (demo_account 4 ''31050101'' AT_Asset)\<lparr>ac_reconciliation_type := ''mobilization_advance''\<rparr>],
        ncoa_codes := [demo_ncoa],
        fiscal_years := [\<lparr>fy_id = 1, fy_year = 2026, fy_start = Date 2026 1 1, fy_end = Date 2026 12 31\<rparr>],
        appropriations := [\<lparr>ap_id = 1, ap_fiscal_year = 1, ap_admin = 1, ap_economic = 1, ap_fund = 1,
           ap_amount = 5000000, ap_status = ''ACTIVE'', ap_cached_committed = None, ap_cached_expended = None\<rparr>]\<rparr>)
     \<lparr>require_warrant = False, vendors = [\<lparr>ve_id = 1, ve_category = None, ve_withholding = None, ve_wht_exempt = False\<rparr>],
      tax_rates = [], wht_rates = [],
      treasury_accounts = [\<lparr>ta_id = 1, ta_number = ''001'', ta_type = ''MAIN_TSA'', ta_mda = None, ta_active = True\<rparr>],
      contracts = [], balances = [], year_plans = [], milestones = [], mbooks = [], ipcs = [], mobs = [],
      releases = [], variations = [], completions = [], steps = [], cascade_failures = [],
      status_verifications = []\<rparr>"

definition demo_contract :: contract where
  "demo_contract = \<lparr>co_id = 0, co_number = [], co_type = ''WORKS'', co_status = CS_DRAFT, co_vendor = 1,
     co_mda = 1, co_ncoa = 1, co_appropriation = None, co_fiscal_year = 1, co_sum = 1000000, co_mob_rate = 15,
     co_ret_rate = 10, co_signed = Some (Date 2026 1 5), co_start = Some (Date 2026 1 10),
     co_end = Some (Date 2026 12 20)\<rparr>"

definition demo_step :: "string \<Rightarrow> nat \<Rightarrow> approval_object \<Rightarrow> approval_action \<Rightarrow> nat \<Rightarrow> approval_step" where
  "demo_step role n ty act user = \<lparr>as_type = ty, as_object = 1, as_contract = 1, as_number = n,
     as_role = role, as_action = act, as_by = user\<rparr>"

definition active_contract :: contract where
  "active_contract = demo_contract\<lparr>co_id := 1, co_number := ''DSG/WORKS/2026/001'', co_status := CS_ACTIVATED\<rparr>"

definition demo_balance :: contract_balance where
  "demo_balance = \<lparr>cb_contract = 1, cb_ceiling = 900000, cb_certified = 0, cb_submitted = 0, cb_pending = 0,
     cb_paid = 0, cb_mob_paid = 0, cb_mob_recovered = 0, cb_ret_held = 100000, cb_ret_released = 0, cb_version = 1\<rparr>"

definition demo_created :: sys where
  "demo_created = demo_office\<lparr>sequences := [(''contracts_contract_WORKS_2026'', [], 2)],
     contracts := [active_contract\<lparr>co_status := CS_DRAFT\<rparr>]\<rparr>"

definition demo_active :: sys where
  "demo_active = demo_created\<lparr>contracts := [active_contract], balances := [demo_balance],
     year_plans := [\<lparr>yp_contract = 1, yp_fiscal_year = 1, yp_appropriation = None, yp_planned = 1000000,
        yp_carried = 0, yp_sequence = 1\<rparr>],
     steps := [demo_step ''contracts.activate_contract'' 1 OT_CONTRACT ACT_APPROVE 9]\<rparr>"

definition demo_request :: "rat \<Rightarrow> ipc_request" where
  "demo_request x = \<lparr>rq_date = Date 2026 3 10, rq_cumulative = x, rq_mb = None, rq_variation = 0, rq_ld = 0,
     rq_milestone = None, rq_tax_code = None, rq_withholding = None, rq_wht_exempt = False\<rparr>"

definition demo_mob :: mobilization where
  "demo_mob = \<lparr>mo_id = 1, mo_contract = 1, mo_amount = 150000, mo_voucher = Some 1, mo_date = None,
     mo_status = MP_PENDING\<rparr>"

definition demo_advanced :: sys where
  "demo_advanced = demo_active\<lparr>mobs := [demo_mob],
     sequences := [(''contracts_contract_WORKS_2026'', [], 2), (''payment_voucher'', ''PV-'', 2)],
     vouchers := [\<lparr>pv_id = 1, pv_number = ''PV-000001'', pv_payment_type = ''ADVANCE'', pv_ncoa = 1,
        pv_appropriation = None, pv_status = ''DRAFT'', pv_gross = 150000, pv_wht = 0, pv_net = 150000,
        pv_source_document = ''MOB-DSG/WORKS/2026/001'', pv_invoice_number = [], pv_tsa = 1\<rparr>]\<rparr>"

definition demo_disbursed :: sys where
  "demo_disbursed = demo_advanced\<lparr>mobs := [demo_mob\<lparr>mo_status := MP_PAID, mo_date := Some (Date 2026 2 2)\<rparr>],
     balances := [demo_balance\<lparr>cb_mob_paid := 150000, cb_version := 2\<rparr>]\<rparr>"

definition demo_ipc :: ipc where
  "demo_ipc = \<lparr>ip_id = 1, ip_contract = 1, ip_number = ''DSG/WORKS/2026/001/IPC/01'', ip_mb = None,
     ip_milestone = None, ip_tax_code = None, ip_withholding = None, ip_wht_exempt = False,
     ip_date = Date 2026 3 10, ip_cumulative = 200000, ip_previous = 0, ip_gross = 200000, ip_recovery = 30000,
     ip_retention = 0, ip_ld = 0, ip_variation = 0, ip_vat = 0, ip_wht = 0, ip_net = 170000,
     ip_status = IPC_SUBMITTED, ip_engineer = None, ip_hash = ''1|2026-03-10|200000.00'',
     ip_accrual = None, ip_voucher = None\<rparr>"

definition demo_submitted :: sys where
  "demo_submitted = demo_disbursed\<lparr>ipcs := [demo_ipc],
     balances := [demo_balance\<lparr>cb_mob_paid := 150000, cb_submitted := 200000, cb_pending := 200000, cb_version := 3\<rparr>],
     steps := steps demo_disbursed @ [demo_step ''contracts.approve_ipc'' 1 OT_IPC ACT_REQUEST_INFO 5]\<rparr>"

definition demo_certified :: sys where
  "demo_certified = demo_submitted\<lparr>ipcs := [demo_ipc\<lparr>ip_status := IPC_CERTIFIER_REVIEWED\<rparr>],
     steps := steps demo_submitted @ [demo_step ''contracts.approve_ipc'' 2 OT_IPC ACT_CERTIFY 6]\<rparr>"

definition demo_key :: "nat \<Rightarrow> gl_key" where
  "demo_key a = \<lparr>gk_account = a, gk_fund = None, gk_function = None, gk_program = None, gk_geo = None,
     gk_mda = Some 1, gk_year = 2026, gk_period = 3\<rparr>"

definition demo_accrual :: journal where
  "demo_accrual = \<lparr>j_id = 1, j_date = Date 2026 3 10, j_ref = ''DSG/WORKS/2026/001/IPC/01'',
     j_document = ''DSG/WORKS/2026/001/IPC/01'', j_mda = Some 1, j_fund = None, j_function = None,
     j_program = None, j_geo = None, j_status = J_Posted, j_source_module = Some ''contract_ipc'',
     j_source_id = Some 1, j_posted_by = Some 7, j_is_reversed = False, j_is_deleted = False,
     j_lines = [debit_line 1 200000, credit_line 4 30000, credit_line 2 170000]\<rparr>"

definition approved_ipc :: ipc where
  "approved_ipc = demo_ipc\<lparr>ip_status := IPC_APPROVED, ip_accrual := Some 1\<rparr>"

definition demo_approved :: sys where
  "demo_approved = demo_certified\<lparr>ipcs := [approved_ipc],
     balances := [demo_balance\<lparr>cb_mob_paid := 150000, cb_mob_recovered := 30000, cb_submitted := 200000,
                    cb_certified := 200000, cb_version := 4\<rparr>],
     journals := [demo_accrual], je_audit := [(''POST'', 1)],
     gl_balances := [(demo_key 1, 200000, 0), (demo_key 4, 0, 30000), (demo_key 2, 0, 170000)],
     vendor_invoices := [\<lparr>vi_id = 1, vi_number = ''DSG/WORKS/2026/001/IPC/01'', vi_reference = ''DSG/WORKS/2026/001'',
        vi_vendor = 1, vi_status = ''Posted'', vi_po = None, vi_mda = Some 1, vi_account = Some 1, vi_fund = None,
        vi_date = Date 2026 3 10, vi_subtotal = 170000, vi_total = 170000, vi_paid = 0, vi_retention = 0\<rparr>],
     steps := steps demo_certified @ [demo_step ''contracts.approve_ipc'' 3 OT_IPC ACT_APPROVE 7]\<rparr>"

definition raised_ipc :: ipc where
  "raised_ipc = approved_ipc\<lparr>ip_status := IPC_VOUCHER_RAISED, ip_voucher := Some 2\<rparr>"

definition demo_raised :: sys where
  "demo_raised = demo_approved\<lparr>ipcs := [raised_ipc],
     sequences := [(''contracts_contract_WORKS_2026'', [], 2), (''payment_voucher'', ''PV-'', 3)],
     vouchers := vouchers demo_approved @ [\<lparr>pv_id = 2, pv_number = ''PV-000002'', pv_payment_type = ''VENDOR'', pv_ncoa = 1,
        pv_appropriation = None, pv_status = ''DRAFT'', pv_gross = 170000, pv_wht = 0, pv_net = 170000,
        pv_source_document = ''DSG/WORKS/2026/001'', pv_invoice_number = [], pv_tsa = 1\<rparr>],
     steps := steps demo_approved @ [demo_step ''contracts.approve_ipc'' 4 OT_IPC ACT_APPROVE 8]\<rparr>"

definition demo_paid :: sys where
  "demo_paid = demo_raised\<lparr>ipcs := [raised_ipc\<lparr>ip_status := IPC_PAID\<rparr>],
     balances := [demo_balance\<lparr>cb_mob_paid := 150000, cb_mob_recovered := 30000, cb_submitted := 200000,
                    cb_certified := 200000, cb_paid := 200000, cb_version := 5\<rparr>],
     mobs := [demo_mob\<lparr>mo_status := MP_PARTIALLY_RECOVERED, mo_date := Some (Date 2026 2 2)\<rparr>],
     steps := steps demo_raised @ [demo_step ''contracts.approve_ipc'' 5 OT_IPC ACT_APPROVE 8]\<rparr>"

text \<open>The same contract carried to practical completion by hand, and its first release.\<close>

definition demo_started :: sys where
  "demo_started = demo_active\<lparr>contracts := [active_contract\<lparr>co_status := CS_IN_PROGRESS\<rparr>]\<rparr>"

definition completed_contract :: contract where
  "completed_contract = active_contract\<lparr>co_status := CS_PRACTICAL_COMPLETION\<rparr>"

definition demo_completed :: sys where
  "demo_completed = demo_started\<lparr>contracts := [completed_contract],
     completions := [\<lparr>ce_id = 1, ce_contract = 1, ce_type = CT_PRACTICAL, ce_issued = Date 2026 3 1,
        ce_effective = Date 2026 3 1\<rparr>],
     steps := steps demo_started @ [demo_step ''contracts.close_contract'' 1 OT_COMPLETION ACT_APPROVE 9]\<rparr>"

definition demo_release :: retention_release where
  "demo_release = \<lparr>rr_id = 1, rr_contract = 1, rr_type = ''PRACTICAL_COMPLETION'', rr_amount = 50000,
     rr_voucher = None, rr_date = None, rr_status = RR_PENDING, rr_accrual = None, rr_approved_by = None,
     rr_updated = Date 2026 3 15\<rparr>"

definition demo_requested :: sys where
  "demo_requested = demo_completed\<lparr>releases := [demo_release],
     steps := steps demo_completed @ [demo_step ''contracts.approve_retention_release'' 1 OT_RETENTION ACT_REQUEST_INFO 9]\<rparr>"

definition approved_release :: retention_release where
  "approved_release = demo_release\<lparr>rr_status := RR_APPROVED, rr_approved_by := Some 7, rr_accrual := Some 1\<rparr>"

definition demo_released :: sys where
  "demo_released = demo_requested\<lparr>releases := [approved_release],
     sequences := [(''contracts_contract_WORKS_2026'', [], 2), (''journal_voucher'', ''JV-'', 2)],
     journals := [\<lparr>j_id = 1, j_date = Date 2026 3 15, j_ref = ''RR-1-PRACTICAL_COMPLETION'',
        j_document = ''JV-000001'', j_mda = Some 1, j_fund = None, j_function = None, j_program = None,
        j_geo = None, j_status = J_Posted, j_source_module = Some ''contract_retention_release'',
        j_source_id = Some 1, j_posted_by = Some 7, j_is_reversed = False, j_is_deleted = False,
        j_lines = [debit_line 3 50000, credit_line 2 50000]\<rparr>],
     je_audit := [(''POST'', 1)], gl_balances := [(demo_key 3, 50000, 0), (demo_key 2, 0, 50000)],
     steps := steps demo_requested @ [demo_step ''contracts.approve_retention_release'' 2 OT_RETENTION ACT_APPROVE 7]\<rparr>"

definition demo_refunded :: sys where
  "demo_refunded = demo_released\<lparr>releases := [approved_release\<lparr>rr_status := RR_PAID, rr_voucher := Some 4,
        rr_date := Some (Date 2026 3 20)\<rparr>],
     balances := [demo_balance\<lparr>cb_ret_released := 50000, cb_version := 2\<rparr>]\<rparr>"

section \<open>The certificate\<close>

lemma demo_create: "insert_contract demo_contract demo_office = Inr (1, demo_created)"
  by code_simp

lemma demo_activate: "activate (active_contract\<lparr>co_status := CS_DRAFT\<rparr>) 9 demo_created = Inr demo_active"
  by code_simp

lemma demo_issue: "issue_advance active_contract demo_active = Inr (1, demo_advanced)"
  by code_simp

lemma demo_disburse: "record_disbursement 1 (Date 2026 2 2) demo_advanced = Inr demo_disbursed"
  by code_simp

lemma demo_submit: "submit_ipc id active_contract (demo_request 200000) 5 demo_disbursed = Inr (1, demo_submitted)"
  by code_simp

lemma demo_certify: "certify demo_ipc 6 demo_submitted = Inr demo_certified"
  by code_simp

lemma demo_approve: "approve (demo_ipc\<lparr>ip_status := IPC_CERTIFIER_REVIEWED\<rparr>) 7 demo_certified = Inr demo_approved"
  by code_simp

lemma demo_raise: "create_draft_voucher approved_ipc 8 demo_approved = Inr (2, demo_raised)"
  by code_simp


lemma demo_mark_paid: "mark_paid raised_ipc None None 8 demo_raised = Inr demo_paid"
  by code_simp

section \<open>The release\<close>

lemma demo_start: "contract_transition active_contract CS_IN_PROGRESS demo_active = Inr demo_started"
  by code_simp

lemma demo_complete:
  "issue_practical_completion (active_contract\<lparr>co_status := CS_IN_PROGRESS\<rparr>) (Date 2026 3 1) (Date 2026 3 1) 9 demo_started
     = Inr demo_completed"
  by code_simp

lemma demo_request_release: "create_release completed_contract ''PRACTICAL_COMPLETION'' 9 demo_completed = Inr (1, demo_requested)"
  by code_simp

lemma demo_approve_release: "release_approve demo_release 7 demo_requested = Inr demo_released"
  by code_simp

lemma demo_pay_release: "release_mark_paid approved_release 4 (Date 2026 3 20) demo_released = Inr demo_refunded"
  by code_simp

section \<open>Both registers are reachable\<close>

lemma demo_opened: "opened demo_office"
  by (simp add: opened_def demo_office_def budget_state.defs ledger_ok_def rows_ok_def demo_ledger_def demo_books_def
      ledger.defs period_state.defs tb_debit_def tb_credit_def gl_debit_def gl_credit_def posted_debit_def posted_credit_def)

lemmas serviced = Stepped [OF _ contract_step.Service]

lemma demo_loaded: "loaded active_contract demo_active" "loaded active_contract demo_disbursed"
    "loaded (active_contract\<lparr>co_status := CS_DRAFT\<rparr>) demo_created"
    "loaded (active_contract\<lparr>co_status := CS_IN_PROGRESS\<rparr>) demo_started" "loaded completed_contract demo_completed"
  by (code_simp, code_simp, code_simp, code_simp, code_simp)

lemma demo_current: "current demo_ipc demo_submitted" "current (demo_ipc\<lparr>ip_status := IPC_CERTIFIER_REVIEWED\<rparr>) demo_certified"
    "current approved_ipc demo_approved" "current raised_ipc demo_raised"
  by (code_simp, code_simp, code_simp, code_simp)

lemma demo_request_valid: "valid_request (demo_request x)" if "is_money x" "0 \<le> x"
  using that by (simp add: valid_request_def demo_request_def)

lemma reach_active: "register id demo_active"
proof -
  have "register id demo_created"
    by (rule serviced [OF Opened [OF demo_opened] Create_Contract [OF _ demo_create]]) (simp add: demo_contract_def)
  then show ?thesis by (rule serviced [OF _ Activate [OF demo_loaded(3) demo_activate]])
qed

lemma reach_submitted: "register id demo_submitted"
proof -
  have "register id demo_disbursed"
    by (rule serviced [OF serviced [OF reach_active Issue_Advance [OF demo_loaded(1) demo_issue]] Disburse_Advance [OF demo_disburse]])
  then show ?thesis
    by (rule serviced [OF _ Submit [OF demo_loaded(2) demo_request_valid demo_submit]]) (simp_all add: is_money_def)
qed

lemma reach_approved: "register id demo_approved"
  by (rule serviced [OF serviced [OF reach_submitted Certify [OF demo_current(1) demo_certify]]
        Approve [OF demo_current(2) demo_approve]])

lemma reach_paid: "register id demo_paid"
  by (rule serviced [OF serviced [OF reach_approved Draft_Voucher [OF demo_current(3) demo_raise]]
        Mark_Paid [OF demo_current(4) demo_mark_paid]])

lemma reach_requested: "register id demo_requested"
proof -
  have "register id demo_completed"
    by (rule serviced [OF Stepped [OF reach_active Set_Status [OF demo_start]] Practical [OF demo_loaded(4) demo_complete]])
  then show ?thesis by (rule serviced [OF _ Create_Release [OF demo_loaded(5) demo_request_release]])
qed

lemma reach_refunded: "register id demo_refunded"
proof -
  have "register id demo_released"
    by (rule serviced [OF reach_requested Approve_Release [OF _ demo_approve_release]])
      (simp add: demo_requested_def demo_release_def)
  then show ?thesis
    by (rule serviced [OF _ Pay_Release [OF _ demo_pay_release]]) (simp add: demo_released_def approved_release_def demo_release_def)
qed


section \<open>A second certificate\<close>

definition second_ipc :: ipc where
  "second_ipc = demo_ipc\<lparr>ip_id := 2, ip_number := ''DSG/WORKS/2026/001/IPC/02'', ip_cumulative := 400000,
     ip_previous := 200000, ip_hash := ''1|2026-03-10|400000.00''\<rparr>"

definition second_balance :: contract_balance where
  "second_balance = demo_balance\<lparr>cb_mob_paid := 150000, cb_mob_recovered := 30000, cb_submitted := 400000,
     cb_certified := 200000, cb_pending := 200000, cb_version := 5\<rparr>"

definition demo_second :: sys where
  "demo_second = demo_raised\<lparr>ipcs := [raised_ipc, second_ipc], balances := [second_balance],
     steps := steps demo_raised @ [demo_step ''contracts.approve_ipc'' 1 OT_IPC ACT_REQUEST_INFO 5\<lparr>as_object := 2\<rparr>]\<rparr>"

definition demo_reviewed :: sys where
  "demo_reviewed = demo_second\<lparr>ipcs := [raised_ipc, second_ipc\<lparr>ip_status := IPC_CERTIFIER_REVIEWED\<rparr>],
     steps := steps demo_second @ [demo_step ''contracts.approve_ipc'' 2 OT_IPC ACT_CERTIFY 6\<lparr>as_object := 2\<rparr>]\<rparr>"

definition demo_double :: sys where
  "demo_double = demo_reviewed\<lparr>ipcs := [raised_ipc, second_ipc\<lparr>ip_status := IPC_APPROVED, ip_accrual := Some 2\<rparr>],
     balances := [second_balance\<lparr>cb_mob_recovered := 60000, cb_certified := 400000, cb_pending := 0, cb_version := 6\<rparr>],
     journals := [demo_accrual, demo_accrual\<lparr>j_id := 2, j_ref := ''DSG/WORKS/2026/001/IPC/02'',
        j_document := ''DSG/WORKS/2026/001/IPC/02'', j_source_id := Some 2\<rparr>],
     je_audit := [(''POST'', 1), (''POST'', 2)],
     gl_balances := [(demo_key 1, 400000, 0), (demo_key 4, 0, 60000), (demo_key 2, 0, 340000)],
     vendor_invoices := vendor_invoices demo_reviewed @
       [\<lparr>vi_id = 2, vi_number = ''DSG/WORKS/2026/001/IPC/02'', vi_reference = ''DSG/WORKS/2026/001'',
        vi_vendor = 1, vi_status = ''Posted'', vi_po = None, vi_mda = Some 1, vi_account = Some 1, vi_fund = None,
        vi_date = Date 2026 3 10, vi_subtotal = 170000, vi_total = 170000, vi_paid = 0, vi_retention = 0\<rparr>],
     steps := steps demo_reviewed @ [demo_step ''contracts.approve_ipc'' 3 OT_IPC ACT_APPROVE 7\<lparr>as_object := 2\<rparr>]\<rparr>"

lemma demo_submit_second: "submit_ipc id active_contract (demo_request 400000) 5 demo_raised = Inr (2, demo_second)"
  by code_simp

lemma demo_certify_second: "certify second_ipc 6 demo_second = Inr demo_reviewed"
  by code_simp

lemma demo_approve_second: "approve (second_ipc\<lparr>ip_status := IPC_CERTIFIER_REVIEWED\<rparr>) 7 demo_reviewed = Inr demo_double"
  by code_simp

lemma demo_second_instances: "loaded active_contract demo_raised" "current second_ipc demo_second"
    "current (second_ipc\<lparr>ip_status := IPC_CERTIFIER_REVIEWED\<rparr>) demo_reviewed" "current raised_ipc demo_double"
  by (code_simp, code_simp, code_simp, code_simp)

lemma reach_raised: "register id demo_raised"
  by (rule serviced [OF reach_approved Draft_Voucher [OF demo_current(3) demo_raise]])

lemma reach_double: "register id demo_double"
proof -
  have "register id demo_second"
    by (rule serviced [OF reach_raised Submit [OF demo_second_instances(1) demo_request_valid demo_submit_second]])
      (simp_all add: is_money_def)
  then show ?thesis
    by (rule serviced [OF serviced [OF _ Certify [OF demo_second_instances(2) demo_certify_second]]
          Approve [OF demo_second_instances(3) demo_approve_second]])
qed

end
