(* ===== verification/ContractProperties.thy ===== *)
theory ContractProperties
  imports ContractDemo
begin

text \<open>
  The properties of the contract register, and their witnesses on the demonstration register.
\<close>

section \<open>Certificates, advances and retention\<close>

text \<open>
  C1: in every reachable register, the work under review and the approved work of a contract
  together never exceed its ceiling: the pending column is exactly the value of the certificates
  under review, and the certified column covers the approved ones.
\<close>

theorem certificates_within_ceiling:
  assumes "register sha s" and "balance_of k s = Some b"
  shows "cb_pending b = total certified_value awaiting k (ipcs s)
    \<and> total certified_value approved k (ipcs s) \<le> cb_certified b
    \<and> total certified_value awaiting k (ipcs s) + total certified_value approved k (ipcs s) \<le> cb_ceiling b
    \<and> cb_paid b \<le> cb_certified b"
  using register_balance [OF assms] balance_checks_ok(1,2) [of b] by (auto simp: covers_def)

theorem certificates_within_ceiling_witness:
  "total certified_value awaiting 1 (ipcs demo_submitted) + total certified_value approved 1 (ipcs demo_submitted) \<le> 900000
   \<and> total certified_value awaiting 1 (ipcs demo_submitted) = 200000"
proof -
  have b: "balance_of 1 demo_submitted = Some (hd (balances demo_submitted))" by code_simp
  have "cb_ceiling (hd (balances demo_submitted)) = 900000" "cb_pending (hd (balances demo_submitted)) = 200000"
    by (simp_all add: demo_submitted_def demo_balance_def)
  then show ?thesis using certificates_within_ceiling [OF reach_submitted b] by simp
qed

text \<open>
  C4: in every reachable register, what the approved certificates have recovered of the
  mobilization advance is what the balance row says, and never more than was advanced.
\<close>

theorem recovery_within_advance:
  assumes "register sha s" and "balance_of k s = Some b"
  shows "cb_mob_recovered b = total ip_recovery approved k (ipcs s)
    \<and> total ip_recovery approved k (ipcs s) \<le> cb_mob_paid b"
  using register_balance [OF assms] balance_checks_ok(3) [of b] by (auto simp: covers_def)

theorem recovery_within_advance_witness:
  "total ip_recovery approved 1 (ipcs demo_paid) = 30000 \<and> (30000 :: rat) \<le> 150000"
proof -
  have b: "balance_of 1 demo_paid = Some (hd (balances demo_paid))" by code_simp
  have "cb_mob_recovered (hd (balances demo_paid)) = 30000" "cb_mob_paid (hd (balances demo_paid)) = 150000"
    by (simp_all add: demo_paid_def demo_balance_def)
  then show ?thesis using recovery_within_advance [OF reach_paid b] by simp
qed

text \<open>
  C2: in every reachable register, a certificate that is approved, has its voucher raised or is
  paid points at a posted and balanced journal of its own, whose debits are the certificate's gross.
\<close>

theorem approved_certificate_is_accrued:
  assumes "register sha s" and "i \<in> set (ipcs s)" and "approved i"
  shows "\<exists>j \<in> set (journals s). ip_accrual i = Some (j_id j) \<and> j_status j = J_Posted
    \<and> total_debit (j_lines j) = ip_gross i \<and> total_credit (j_lines j) = ip_gross i
    \<and> j_source_module j = Some ''contract_ipc'' \<and> j_source_id j = Some (ip_id i)"
proof -
  have "accrued i (journals s)"
    using sys_okD(3) [OF register_ok [OF assms(1)]] assms(2,3) by (simp add: accruals_ok_def)
  then obtain j where "ip_accrual i = Some (j_id j)" "find_row j_id (j_id j) (journals s) = Some j"
    "j_status j = J_Posted" "balanced j" "j_source_module j = Some ''contract_ipc''" "j_source_id j = Some (ip_id i)"
    "total_debit (j_lines j) = ip_gross i" unfolding accrued_def by blast
  then show ?thesis using find_row_SomeD by (fastforce simp: balanced_def)
qed

theorem approved_certificate_is_accrued_witness:
  "\<exists>j \<in> set (journals demo_paid). j_status j = J_Posted \<and> total_debit (j_lines j) = 200000"
proof -
  let ?i = "raised_ipc\<lparr>ip_status := IPC_PAID\<rparr>"
  have "?i \<in> set (ipcs demo_paid)" by (simp add: demo_paid_def)
  moreover have "ip_gross ?i = 200000" by (simp add: raised_ipc_def approved_ipc_def demo_ipc_def)
  ultimately show ?thesis using approved_certificate_is_accrued [OF reach_paid, of ?i] by auto
qed

text \<open>
  C7: in every reachable register, the retention releases paid out of a contract are covered by
  the released column, which never exceeds the retention held.
\<close>

theorem releases_within_retention:
  assumes "register sha s" and "balance_of k s = Some b"
  shows "paid_out k (releases s) \<le> cb_ret_released b \<and> cb_ret_released b \<le> cb_ret_held b"
  using register_balance [OF assms] balance_checks_ok(4) [of b] by simp

theorem releases_within_retention_witness:
  "paid_out 1 (releases demo_refunded) \<le> 50000 \<and> paid_out 1 (releases demo_refunded) = 50000"
proof -
  have b: "balance_of 1 demo_refunded = Some (hd (balances demo_refunded))" by code_simp
  have "cb_ret_released (hd (balances demo_refunded)) = 50000" by (simp add: demo_refunded_def)
  moreover have "paid_out 1 (releases demo_refunded) = 50000"
    by (simp add: paid_out_def demo_refunded_def approved_release_def demo_release_def)
  ultimately show ?thesis using releases_within_retention [OF reach_refunded b] by simp
qed

text \<open>
  C3: refinement.  Whatever step a reachable register takes, either no ceiling, pending or certified
  figure of any balance row changes, or the step is one of the seven operations of
  \<open>register_event\<close>; and such an operation changes the figures of its own contract by exactly its events,
  each of them allowed by the envelope, and those of no other: a certificate reserves its value when
  it is submitted, commits just that when it is approved and cancels just that when it is rejected;
  an invoiced milestone charges its gross; activation, a variation and the refresh before an
  approval set the ceiling to the contract sum with its approved variations less the reserve.
\<close>

theorem register_refines_envelope:
  assumes "register sha s" and "contract_step sha s s'"
  shows "(envelopes_of s' = envelopes_of s \<or> (\<exists>k vs. register_event sha k vs s s'))
    \<and> (\<forall>k vs. register_event sha k vs s s' \<longrightarrow>
         (\<exists>e. env_run vs (envelopes_of s k) = Some e \<and> envelopes_of s' = (envelopes_of s)(k := e)))"
  using contract_step_accounted [OF assms(2) register_ok [OF assms(1)]]
    register_event_evolves [OF _ register_ok [OF assms(1)]]
  by (auto simp: envelopes_def evolves_def)

theorem register_refines_envelope_witness:
  "envelopes_of demo_certified 1 = Some \<lparr>en_ceiling = 900000, en_reserved = 200000, en_committed = 0\<rparr>
   \<and> envelopes_of demo_approved 1 = Some \<lparr>en_ceiling = 900000, en_reserved = 0, en_committed = 200000\<rparr>
   \<and> (\<exists>e. env_run [Resize 900000, Commit 200000] (envelopes_of demo_certified 1) = Some e
        \<and> envelopes_of demo_approved = (envelopes_of demo_certified)(1 := e))"
proof -
  let ?i = "demo_ipc\<lparr>ip_status := IPC_CERTIFIER_REVIEWED\<rparr>"
  have r: "register id demo_certified" by (rule serviced [OF reach_submitted Certify [OF demo_current(1) demo_certify]])
  have st: "contract_step id demo_certified demo_approved"
    by (rule contract_step.Service [OF Approve [OF demo_current(2) demo_approve]])
  have c: "contract_of (ip_contract ?i) demo_certified = Some (hd (contracts demo_certified))"
    "contract_ceiling (hd (contracts demo_certified)) demo_certified = 900000"
    "certified_value ?i = 200000" "ip_contract ?i = 1" by (code_simp, code_simp, code_simp, code_simp)
  have "register_event id 1 [Resize 900000, Commit 200000] demo_certified demo_approved"
    using Ev_Approve [OF demo_current(2) c(1) demo_approve, where sha = id] unfolding c(2-4) .
  then have "\<exists>e. env_run [Resize 900000, Commit 200000] (envelopes_of demo_certified 1) = Some e
        \<and> envelopes_of demo_approved = (envelopes_of demo_certified)(1 := e)"
    using register_refines_envelope [OF r st] by blast
  then show ?thesis
    by (simp add: envelopes_of_def envelope_of_def balance_of_def demo_certified_def demo_submitted_def demo_approved_def demo_balance_def)
qed


section \<open>The life of a contract\<close>

definition not_started :: "sys \<Rightarrow> bool" where
  "not_started s \<longleftrightarrow> (\<forall>c \<in> set (contracts s). co_status c \<in> {CS_DRAFT, CS_ACTIVATED})"

lemma contract_rows_not_started:
  "contract_rows cs cs' \<Longrightarrow> \<forall>c \<in> set cs. co_status c \<in> {CS_DRAFT, CS_ACTIVATED} \<Longrightarrow>
     \<forall>c \<in> set cs'. co_status c \<in> {CS_DRAFT, CS_ACTIVATED}"
proof (induction rule: contract_rows.induct)
  case (Rows_Next c cs new f)
  have "c \<in> set cs" using find_row_SomeD [OF Rows_Next(1)] by simp
  then have "co_status c = CS_DRAFT" using Rows_Next(3,6) by auto
  then have "new = CS_ACTIVATED" using Rows_Next(2) by simp
  then show ?case using Rows_Next(5,6) by (auto dest!: set_upd_row)
qed auto

lemma service_steps_not_started:
  "(service_step sha)\<^sup>*\<^sup>* s s' \<Longrightarrow> sys_ok s \<Longrightarrow> not_started s \<Longrightarrow> sys_ok s' \<and> not_started s'"
proof (induction rule: rtranclp_induct)
  case (step y z)
  then show ?case using service_step_rows [OF step(2)] contract_rows_not_started
    unfolding not_started_def accounted_def by blast
qed simp

text \<open>
  C11: no service starts work.  Whatever the services do, in any number and order, from a register
  without contracts, every contract stays in draft or activated; nothing moves one to in
  progress, so practical completion, the retention release and the close of a contract wait for a
  status set outside the services.
\<close>

theorem services_never_start_work:
  assumes "opened s" and "(service_step sha)\<^sup>*\<^sup>* s s'" and "c \<in> set (contracts s')"
  shows "co_status c = CS_DRAFT \<or> co_status c = CS_ACTIVATED"
  using service_steps_not_started [OF assms(2) opened_ok [OF assms(1)]] assms(1,3)
  by (auto simp: not_started_def opened_def)

theorem services_never_start_work_witness:
  "\<exists>s c. (service_step id)\<^sup>*\<^sup>* demo_office s \<and> c \<in> set (contracts s) \<and> co_status c = CS_ACTIVATED
     \<and> (co_status c = CS_DRAFT \<or> co_status c = CS_ACTIVATED)"
proof -
  have "service_step id demo_office demo_created"
    by (rule Create_Contract [OF _ demo_create]) (simp add: demo_contract_def)
  moreover have "service_step id demo_created demo_active" by (rule Activate [OF demo_loaded(3) demo_activate])
  ultimately have r: "(service_step id)\<^sup>*\<^sup>* demo_office demo_active" by simp
  have c: "active_contract \<in> set (contracts demo_active)" by (simp add: demo_active_def)
  have "co_status active_contract = CS_ACTIVATED" by (simp add: active_contract_def)
  with services_never_start_work [OF demo_opened r c] r c show ?thesis by blast
qed

text \<open>
  C12: a contract is closed only when it is settled: no certificate is under review or awaits
  payment, what is paid equals what is certified, the retention held is released and every
  release is paid.
\<close>

theorem close_requires_settlement:
  assumes "close c u s = Inr s'"
  shows "\<exists>b. balance_of (co_id c) s = Some b \<and> cb_paid b = cb_certified b \<and> cb_ret_held b \<le> cb_ret_released b
    \<and> (\<forall>i \<in> set (ipcs s). ip_contract i = co_id c \<longrightarrow> \<not> open_ipc i)
    \<and> (\<forall>r \<in> set (releases s). rr_contract r = co_id c \<longrightarrow> rr_status r = RR_PAID)
    \<and> map_option co_status (contract_of (co_id c) s') = Some CS_CLOSED"
proof -
  obtain b s1 where b: "balance_of (co_id c) s = Some b" and open': "assert_no_open_ipcs (co_id c) s = Inr ()"
    and g: "\<not> cb_ret_released b < cb_ret_held b" "cb_paid b = cb_certified b"
      "\<not> (\<exists>r \<in> set (releases s). rr_contract r = co_id c \<and> rr_status r \<noteq> RR_PAID)"
    and t: "contract_transition c CS_CLOSED s = Inr s1" and s': "s' = closure_step c None u s1"
    using assms unfolding close_def by (auto simp: rbind_eq_Inr split: if_splits)
  have "\<not> list_ex open_ipc (filter (\<lambda>i. ip_contract i = co_id c) (ipcs s))"
    using open' by (auto simp: assert_no_open_ipcs_def Let_def split: if_splits)
  moreover have "map_option co_status (contract_of (co_id c) s') = Some CS_CLOSED"
    using t by (auto simp: s' closure_step_def record_step_def contract_transition_def contract_of_def find_row_upd_row
        split: if_splits)
  ultimately show ?thesis using b g by (auto simp: list_ex_iff)
qed


theorem close_requires_settlement_witness:
  "\<exists>s s' c. close c 9 s = Inr s' \<and> map_option co_status (contract_of (co_id c) s') = Some CS_CLOSED"
proof -
  let ?c = "active_contract\<lparr>co_status := CS_FINAL_COMPLETION\<rparr>"
  let ?s = "demo_refunded\<lparr>contracts := [?c], balances := [demo_balance\<lparr>cb_ret_released := 100000\<rparr>]\<rparr>"
  have "close ?c 9 ?s = Inr (projr (close ?c 9 ?s))" by code_simp
  from this close_requires_settlement [OF this] show ?thesis by blast
qed

section \<open>Submission and rejection\<close>

lemma update_balance_tables:
  assumes "update_balance k f s = Inr s'"
  shows "ipcs s' = ipcs s \<and> year_plans s' = year_plans s \<and> fiscal_years s' = fiscal_years s"
  using update_balance_frame [OF assms] by auto

lemma insert_ipc_tables:
  assumes "insert_ipc sha i s = Inr (k, s')"
  shows "year_plans s' = year_plans s \<and> fiscal_years s' = fiscal_years s \<and> balances s' = balances s"
  by (rule insert_ipcD [OF assms]) simp

lemma ipc_transition_tables:
  assumes "ipc_transition i new s = Inr s'"
  shows "year_plans s' = year_plans s \<and> fiscal_years s' = fiscal_years s \<and> balances s' = balances s"
  by (rule ipc_transitionD [OF assms]) simp

lemma covering_plan_cong:
  "year_plans s' = year_plans s \<Longrightarrow> fiscal_years s' = fiscal_years s \<Longrightarrow> covering_plan k d s' = covering_plan k d s"
  by (simp add: covering_plan_def plans_of_def)

lemma ipc_step_tables [simp]:
  "year_plans (ipc_step i k act u s) = year_plans s" "fiscal_years (ipc_step i k act u s) = fiscal_years s"
  "balances (ipc_step i k act u s) = balances s"
  by (simp_all add: ipc_step_def record_step_def)

lemma monotonicity_error:
  assumes "co_status c \<in> {CS_ACTIVATED, CS_IN_PROGRESS, CS_PRACTICAL_COMPLETION, CS_DEFECTS_LIABILITY}"
    and "covering_plan (co_id c) (rq_date q) s \<noteq> None" and "balance_of (co_id c) s = Some b"
    and "rq_cumulative q \<le> previous_submitted b"
  shows "submit_ipc sha c q u s = Inl MonotonicityError"
  using assms by (auto simp: submit_ipc_def get_balance_def rbind_def Let_def)

lemma reject_submitted:
  assumes "reject r reason u s = Inr s'" and "balance_of (ip_contract r) s = Some b" and "balance_ok b"
  obtains b' where "balance_of (ip_contract r) s' = Some b'" "cb_submitted b' = cb_submitted b"
    "cb_certified b' = cb_certified b" "year_plans s' = year_plans s" "fiscal_years s' = fiscal_years s"
proof -
  obtain p s1 s2 where up: "update_balance (ip_contract r) (\<lambda>x. x\<lparr>cb_pending := p\<rparr>) s = Inr s1"
    and t: "ipc_transition r IPC_REJECTED s1 = Inr s2" and s': "s' = ipc_step (ip_id r) (ip_contract r) ACT_REJECT u s2"
    using assms(1) by (auto simp: reject_def rbind_eq_Inr Let_def split: if_splits)
  have "balance_of (ip_contract r) s' = Some (written (ip_contract r) (\<lambda>x. x\<lparr>cb_pending := p\<rparr>) b)"
    using update_balanceD [OF up assms(2)] ipc_transition_tables [OF t] assms(2)
    by (simp add: s' balance_of_def) (metis balance_of_def balance_of_mem imageI written_sel(1))
  then show ?thesis
    by (rule that) (use assms(3) ipc_transition_tables [OF t] update_balance_tables [OF up] s' in simp_all)
qed


lemma submit_records_cumulative:
  assumes "submit_ipc sha c q u s = Inr (i, s')" and "valid_request q"
  obtains b where "balance_of (co_id c) s' = Some b" "balance_ok b" "cb_submitted b = rq_cumulative q"
    "year_plans s' = year_plans s" "fiscal_years s' = fiscal_years s"
proof -
  obtain b p s1 s2 where b: "balance_of (co_id c) s = Some b" and ins: "insert_ipc sha (new_ipc c b q s) s = Inr (i, s1)"
    and up: "update_balance (co_id c) (\<lambda>r. r\<lparr>cb_pending := p, cb_submitted := rq_cumulative q\<rparr>) s1 = Inr s2"
    and s': "s' = ipc_step i (co_id c) ACT_REQUEST_INFO u s2"
    using submit_ipcD [OF assms(1)] by metis
  have b1: "balance_of (co_id c) s1 = Some b" using b insert_ipc_tables [OF ins] by (simp add: balance_of_def)
  let ?n = "written (co_id c) (\<lambda>r. r\<lparr>cb_pending := p, cb_submitted := rq_cumulative q\<rparr>) b"
  have "balance_of (co_id c) s' = Some ?n"
    using update_balanceD [OF up b1] b1 by (simp add: s' balance_of_def) (metis balance_of_def balance_of_mem imageI written_sel(1))
  then show ?thesis
    by (rule that) (use update_balanceD [OF up b1] assms(2) insert_ipc_tables [OF ins] in \<open>simp_all add: s' valid_request_def\<close>)
qed

text \<open>
  C13: a rejection does not undo the submission's cumulative figure: after a certificate of the
  contract is submitted and one is rejected, submitting the same work again is refused by the
  monotonicity test, although the rejection releases the reserved amount.
\<close>

theorem rejected_work_cannot_be_resubmitted:
  assumes "submit_ipc sha c q u s = Inr (i, s1)" and "valid_request q" and "0 < rq_cumulative q"
    and "ip_contract r = co_id c" and "reject r reason u' s1 = Inr s2"
  shows "submit_ipc sha' c q u'' s2 = Inl MonotonicityError"
proof -
  obtain b where b: "balance_of (co_id c) s1 = Some b" "balance_ok b" "cb_submitted b = rq_cumulative q"
    "year_plans s1 = year_plans s" "fiscal_years s1 = fiscal_years s"
    by (rule submit_records_cumulative [OF assms(1,2)])
  obtain b' where b': "balance_of (co_id c) s2 = Some b'" "cb_submitted b' = cb_submitted b"
    "year_plans s2 = year_plans s1" "fiscal_years s2 = fiscal_years s1"
    using reject_submitted [OF assms(5), of b] b(1,2) assms(4) by metis
  have st: "co_status c \<in> {CS_ACTIVATED, CS_IN_PROGRESS, CS_PRACTICAL_COMPLETION, CS_DEFECTS_LIABILITY}"
    and "covering_plan (co_id c) (rq_date q) s \<noteq> None"
    using assms(1) by (auto simp: submit_ipc_def split: if_splits)
  then have "covering_plan (co_id c) (rq_date q) s2 \<noteq> None"
    using covering_plan_cong [of s2 s] b(4,5) b'(3,4) by simp
  then show ?thesis
    by (rule monotonicity_error [OF st _ b'(1)]) (use b(3) b'(2) assms(3) in \<open>simp add: previous_submitted_def\<close>)
qed

theorem rejected_work_cannot_be_resubmitted_witness:
  "submit_ipc id active_contract (demo_request 200000) 5
     (projr (reject demo_ipc ''no photographs'' 6 demo_submitted)) = Inl MonotonicityError"
proof -
  have "reject demo_ipc ''no photographs'' 6 demo_submitted = Inr (projr (reject demo_ipc ''no photographs'' 6 demo_submitted))"
    by code_simp
  moreover have "ip_contract demo_ipc = co_id active_contract" by code_simp
  moreover have "valid_request (demo_request 200000)" "0 < rq_cumulative (demo_request 200000)"
    by (rule demo_request_valid) (simp_all add: is_money_def demo_request_def)
  ultimately show ?thesis using rejected_work_cannot_be_resubmitted [OF demo_submit] by blast
qed

section \<open>Vouchers and payments\<close>

text \<open>
  C14: the draft voucher of a certificate carries the contract number as its source document, and
  a live voucher with a source document must be unique; so a contract that has one live voucher
  with its number gets no other by this route, whatever the certificate.
\<close>

theorem one_live_voucher_per_contract:
  assumes "contract_of (ip_contract i) s = Some c" and "co_number c \<noteq> []" and "ip_voucher i = None"
    and "x \<in> set (vouchers s)" and "live_voucher x" and "pv_source_document x = co_number c"
  shows "\<exists>e. create_draft_voucher i u s = Inl e"
proof (rule ccontr)
  assume "\<nexists>e. create_draft_voucher i u s = Inl e"
  then obtain v s' where ok: "create_draft_voucher i u s = Inr (v, s')"
    by (cases "create_draft_voucher i u s") auto
  obtain w num s1 s2 where "sequence_next ''payment_voucher'' ''PV-'' s = (num, s1)" and ins: "insert_voucher w s1 = Inr (v, s2)"
    and w: "pv_source_document w = co_number c" "pv_status w = ''DRAFT''"
    using ok assms(1-3) by (auto simp: create_draft_voucher_def rbind_eq_Inr Let_def split: option.splits if_splits prod.splits)
  then have "vouchers s1 = vouchers s" using sequence_next_frame by fastforce
  moreover have "live_voucher w" using w assms(2) by (simp add: live_voucher_def)
  ultimately show False using insert_voucherD(3) [OF ins, of x] assms(4-6) w(1) by simp
qed

theorem one_live_voucher_per_contract_witness:
  "\<exists>e. create_draft_voucher (approved_ipc\<lparr>ip_id := 2\<rparr>) 8 demo_raised = Inl e"
proof -
  have "contract_of (ip_contract (approved_ipc\<lparr>ip_id := 2\<rparr>)) demo_raised = Some active_contract" by code_simp
  moreover have "last (vouchers demo_raised) \<in> set (vouchers demo_raised)" "live_voucher (last (vouchers demo_raised))"
    "pv_source_document (last (vouchers demo_raised)) = co_number active_contract" "co_number active_contract \<noteq> []"
    "ip_voucher (approved_ipc\<lparr>ip_id := 2\<rparr>) = None"
    by (code_simp, code_simp, code_simp, code_simp, code_simp)
  ultimately show ?thesis using one_live_voucher_per_contract [where i = "approved_ipc\<lparr>ip_id := 2\<rparr>"] by blast
qed


text \<open>
  The accrual lines of a certificate balance at its gross however the account ladders
  resolve: with or without a retention account and with or without a mobilization account, the
  deductions that find no account are folded into the payable.
\<close>

theorem accrual_lines_balance:
  assumes "is_money (ip_gross i)" "is_money (ip_recovery i)" "is_money (ip_retention i)"
    and "0 \<le> ip_gross i" "0 \<le> ip_recovery i" "0 \<le> ip_retention i" and "0 \<le> ap_credit i"
  shows "total_debit (accrual_lines i e ap ret mob) = ip_gross i
    \<and> total_credit (accrual_lines i e ap ret mob) = ip_gross i"
proof -
  have "is_money (ip_gross i - ip_recovery i - ip_retention i)" using assms(1-3) by (simp add: is_money_diff)
  then have ap: "ap_credit i = ip_gross i - ip_recovery i - ip_retention i" by (simp add: ap_credit_def)
  have m: "is_money (ap_credit i)" "is_money (ap_credit i + ip_recovery i)" "is_money (ap_credit i + ip_retention i)"
    "is_money (ap_credit i + ip_recovery i + ip_retention i)"
    using assms(1-3) by (simp_all add: ap is_money_diff is_money_add)
  show ?thesis
    using assms(4-7) m
    by (auto simp: accrual_lines_def Let_def total_debit_def total_credit_def ap split: option.split)
qed

theorem accrual_lines_balance_witness:
  "total_credit (accrual_lines demo_ipc (demo_account 1 ''23020101'' AT_Expense) (demo_account 2 ''41010101'' AT_Liability)
     None (Some (demo_account 4 ''31050101'' AT_Asset))) = 200000"
proof -
  have "is_money (ip_gross demo_ipc)" "is_money (ip_recovery demo_ipc)" "is_money (ip_retention demo_ipc)"
    "0 \<le> ip_gross demo_ipc" "0 \<le> ip_recovery demo_ipc" "0 \<le> ip_retention demo_ipc" "0 \<le> ap_credit demo_ipc"
    "ip_gross demo_ipc = 200000"
    by (simp_all add: demo_ipc_def is_money_def ap_credit_def)
  then show ?thesis using accrual_lines_balance [where i = demo_ipc] by simp
qed

text \<open>
  No certificate credits the retention liability that a release debits: in every reachable
  register the retention deduction of every certificate is zero, so its accrual has no retention
  line, while an approved release posts a debit of its whole amount to the retention account.
\<close>

theorem release_debits_uncredited_retention:
  assumes "register sha s" and "release_approve r u s = Inr s'" and "rr_accrual r = None"
    and "resolve_retention_account s = Some a" and "is_money (rr_amount r)"
  shows "(\<forall>i \<in> set (ipcs s). \<forall>e ap mob. accrual_lines i e ap (Some a) mob = accrual_lines i e ap None mob)
    \<and> (\<exists>j \<in> set (journals s'). j_status j = J_Posted \<and> j_source_module j = Some ''contract_retention_release''
         \<and> debit_line (ac_id a) (rr_amount r) \<in> set (j_lines j))"
proof
  have "ip_retention i = 0" if "i \<in> set (ipcs s)" for i
    using books_okD(5) [OF sys_okD(2) [OF register_ok [OF assms(1)]] that] by (simp add: ipc_ok_def)
  then show "\<forall>i \<in> set (ipcs s). \<forall>e ap mob. accrual_lines i e ap (Some a) mob = accrual_lines i e ap None mob"
    by (simp add: accrual_lines_def)
next
  obtain j s1 where p: "post_release_accrual_journal r u s = Inr (j, s1)" and js: "journals s' = journals s1"
    using assms(2) by (auto simp: release_approve_def rbind_eq_Inr record_step_def split: if_splits prod.splits)
  obtain c :: contract and ap :: account where new: "post_new_journal
      (contract_header c (rr_updated r) (''RR-'' @ show_nat (rr_id r) @ ''-'' @ rr_type r) []
         ''contract_retention_release'' (rr_id r) u s)
      [debit_line (ac_id a) (rr_amount r), credit_line (ac_id ap) (rr_amount r)] (Some u) s = Inr (j, s1)"
    using p assms(3-5)
    by (auto simp: post_release_accrual_journal_def rbind_eq_Inr Let_def split: option.splits if_splits)
  obtain jr where pn: "posted_new (contract_header c (rr_updated r) (''RR-'' @ show_nat (rr_id r) @ ''-'' @ rr_type r) []
         ''contract_retention_release'' (rr_id r) u s)
      [debit_line (ac_id a) (rr_amount r), credit_line (ac_id ap) (rr_amount r)] (Some u) jr s s1"
    using post_new_journalD [OF new sys_okD(6) [OF register_ok [OF assms(1)]]] by metis
  have "debit_line (ac_id a) (rr_amount r) \<in> set (j_lines jr)" "jr \<in> set (journals s')"
    using posted_newD(1,4) [OF pn] assms(5) js by (simp_all add: debit_line_def round_line_def)
  moreover have "j_source_module jr = Some ''contract_retention_release''" "j_status jr = J_Posted"
    using pn by (simp_all add: posted_new_def)
  ultimately show "\<exists>j \<in> set (journals s'). j_status j = J_Posted \<and> j_source_module j = Some ''contract_retention_release''
         \<and> debit_line (ac_id a) (rr_amount r) \<in> set (j_lines j)" by blast
qed

theorem release_debits_uncredited_retention_witness:
  "\<exists>j \<in> set (journals demo_released). debit_line 3 50000 \<in> set (j_lines j)"
proof -
  let ?a = "(demo_account 3 ''41020101'' AT_Liability)\<lparr>ac_reconciliation_type := ''retention_held''\<rparr>"
  have "resolve_retention_account demo_requested = Some ?a" by code_simp
  moreover have "rr_accrual demo_release = None" "is_money (rr_amount demo_release)" "rr_amount demo_release = 50000"
    "ac_id ?a = 3"
    by (simp_all add: demo_release_def is_money_def demo_account_def)
  ultimately show ?thesis
    using release_debits_uncredited_retention [OF reach_requested demo_approve_release, of ?a] by fastforce
qed


text \<open>
  \<^verbatim>\<open>mark_paid\<close> trusts the status of the instance it is given and does not read the certificate
  again: in a reachable register, two requests that loaded the same certificate while its voucher
  was raised both succeed and count its value twice in the paid column, while only one
  certificate is paid.
\<close>

theorem stale_payment_counted_twice:
  "\<exists>s s1 s2 i b. register id s \<and> current i s \<and> mark_paid i None None 8 s = Inr s1 \<and> mark_paid i None None 8 s1 = Inr s2
     \<and> balance_of (ip_contract i) s2 = Some b \<and> cb_paid b = 2 * certified_value i
     \<and> filter (\<lambda>k. ip_status k = IPC_PAID) (ipcs s2) = [i\<lparr>ip_status := IPC_PAID\<rparr>] \<and> 0 < certified_value i"
proof -
  let ?s1 = "projr (mark_paid raised_ipc None None 8 demo_double)"
  let ?s2 = "projr (mark_paid raised_ipc None None 8 ?s1)"
  have p: "mark_paid raised_ipc None None 8 demo_double = Inr ?s1" "mark_paid raised_ipc None None 8 ?s1 = Inr ?s2"
    "filter (\<lambda>k. ip_status k = IPC_PAID) (ipcs ?s2) = [raised_ipc\<lparr>ip_status := IPC_PAID\<rparr>]" "0 < certified_value raised_ipc"
    by (code_simp, code_simp, code_simp, code_simp)
  have "map_option cb_paid (balance_of (ip_contract raised_ipc) ?s2) = Some (2 * certified_value raised_ipc)"
    by code_simp
  then obtain b where b: "balance_of (ip_contract raised_ipc) ?s2 = Some b" "cb_paid b = 2 * certified_value raised_ipc"
    by (auto simp: map_option_eq_Some)
  show ?thesis
    by (rule exI [of _ demo_double], rule exI [of _ ?s1], rule exI [of _ ?s2], rule exI [of _ raised_ipc], rule exI [of _ b])
      (intro conjI reach_double demo_second_instances(4) p b)
qed

section \<open>Milestones and variations\<close>

text \<open>
  C15: invoicing a milestone certifies its value in the balance row and leaves the cumulative
  figure of the certificates alone, so once a contract has had a certificate, the gross of the
  next one is measured from the same base as before: work invoiced as a milestone and included in
  the next cumulative is certified twice.
\<close>

theorem invoiced_milestone_not_seen_by_certificates:
  assumes "register sha s" and "approve_and_invoice m pd cd u s = Inr s'"
    and "contract_of (ms_contract m) s = Some c" and "invoice_by_number (milestone_ref m c) s = None"
    and "balance_of (co_id c) s = Some b" and "cb_submitted b \<noteq> 0"
  shows "\<exists>b'. balance_of (co_id c) s' = Some b' \<and> cb_certified b' = cb_certified b + milestone_gross m
    \<and> ip_gross (new_ipc c b' q s') = ip_gross (new_ipc c b q s)"
  using assms(2)
proof (rule approve_and_invoiceD)
  fix c' d ap j s1 s2 f
  assume c': "contract_of (ms_contract m) s = Some c'"
    and p: "post_new_journal (contract_header c' d (milestone_ref m c') (milestone_ref m c') ''contract_milestone'' (ms_id m) u s)
         (milestone_lines m ap) (Some u) s = Inr (j, s1)"
    and up: "update_balance (co_id c') (\<lambda>r. r\<lparr>cb_certified := cb_certified r + milestone_gross m\<rparr>)
         (s1\<lparr>vendor_invoices := vendor_invoices s1 @ [milestone_invoice m c' j d s1]\<rparr>) = Inr s2"
    and s': "s' = write_milestone (ms_id m) f s2"
  have c: "c' = c" using c' assms(3) by simp
  have ok: "balance_ok b" "is_money (milestone_gross m)"
    using register_balance(1) [OF assms(1,5)] by (simp_all add: milestone_gross_def)
  let ?s1 = "s1\<lparr>vendor_invoices := vendor_invoices s1 @ [milestone_invoice m c' j d s1]\<rparr>"
  let ?n = "written (co_id c) (\<lambda>r. r\<lparr>cb_certified := cb_certified r + milestone_gross m\<rparr>) b"
  have "balance_of (co_id c) ?s1 = Some b"
    using post_new_journal_frame [OF p sys_okD(6) [OF register_ok [OF assms(1)]]] assms(5) by (simp add: balance_of_def)
  from update_balanceD [OF up [unfolded c] this [unfolded c]]
  have "balances s2 = put_row cb_contract ?n (balances s)"
    using post_new_journal_frame [OF p sys_okD(6) [OF register_ok [OF assms(1)]]] by simp
  then have "balance_of (co_id c) s' = Some ?n"
    using balance_of_put [where s = s and b = ?n and j = "co_id c"] assms(5)
    by (simp add: s' write_milestone_def balance_of_def)
  then show ?thesis using ok assms(6) by (simp add: previous_submitted_def is_money_add)
qed (use assms(3,4) in simp_all)


definition demo_milestone :: milestone where
  "demo_milestone = \<lparr>ms_id = 1, ms_contract = 1, ms_number = 1, ms_value = 50000, ms_weight = 5,
     ms_status = MS_COMPLETED, ms_completed = None, ms_lines = [(1, 50000)]\<rparr>"

theorem invoiced_milestone_not_seen_by_certificates_witness:
  "\<exists>b'. balance_of 1 (projr (approve_and_invoice demo_milestone None None 9 demo_raised)) = Some b' \<and> cb_certified b' = 250000
    \<and> ip_gross (new_ipc active_contract b' (demo_request 300000)
                 (projr (approve_and_invoice demo_milestone None None 9 demo_raised))) = 100000"
proof -
  let ?s' = "projr (approve_and_invoice demo_milestone None None 9 demo_raised)"
  let ?b = "hd (balances demo_raised)"
  have a: "approve_and_invoice demo_milestone None None 9 demo_raised = Inr ?s'" by code_simp
  have c: "contract_of (ms_contract demo_milestone) demo_raised = Some active_contract" by code_simp
  have i: "invoice_by_number (milestone_ref demo_milestone active_contract) demo_raised = None" by code_simp
  have b: "balance_of (co_id active_contract) demo_raised = Some ?b" by code_simp
  have v: "cb_submitted ?b \<noteq> 0" "cb_certified ?b = 200000" "milestone_gross demo_milestone = 50000" "co_id active_contract = 1"
    "ip_gross (new_ipc active_contract ?b (demo_request 300000) demo_raised) = 100000"
    by (code_simp, code_simp, code_simp, code_simp, code_simp)
  show ?thesis
    using invoiced_milestone_not_seen_by_certificates [OF reach_raised a c i b v(1), of "demo_request 300000"] v(2-5) by simp
qed

definition local_actor :: "string \<Rightarrow> bool" where
  "local_actor p = (p = ''contracts.approve_variation_local'')"

definition take_variation :: "nat \<Rightarrow> sys \<Rightarrow> err + sys" where
  \<comment> \<open>submission, review and approval of a variation by the local actor\<close>
  "take_variation k s =
     rbind (variation_submit (the (find_row va_id k (variations s))) 5 s)
       (\<lambda>s1. rbind (variation_review (the (find_row va_id k (variations s1))) 6 s1)
         (\<lambda>s2. variation_approve (the (find_row va_id k (variations s2))) 7 local_actor s2))"

definition create_addition :: "rat \<Rightarrow> sys \<Rightarrow> err + sys" where
  "create_addition x s = rbind (variation_create active_contract ADDITION x [] s) (\<lambda>(i, s1). Inr s1)"

text \<open>
  The approval tier of a variation is the one computed when it was created: four additions
  of fifteen percent each, created before any is approved, are all of the local tier and are all
  approved by an actor with the local permission alone, sixty percent of the contract sum in all,
  although the rules reserve anything above twenty-five percent for the state bureau.
\<close>

theorem fragmented_variations_stay_local:
  "\<exists>s. rbind (rfold (\<lambda>_. create_addition 150000) [1, 2, 3, 4::nat] demo_active) (rfold take_variation [1, 2, 3, 4]) = Inr s
     \<and> approved_variations_total 1 s = 600000 \<and> co_sum active_contract = 1000000
     \<and> list_all (\<lambda>v. va_tier v = TIER_LOCAL \<and> va_status v = VS_APPROVED) (variations s)"
proof -
  let ?s = "projr (rbind (rfold (\<lambda>_. create_addition 150000) [1, 2, 3, 4::nat] demo_active) (rfold take_variation [1, 2, 3, 4]))"
  have "rbind (rfold (\<lambda>_. create_addition 150000) [1, 2, 3, 4::nat] demo_active) (rfold take_variation [1, 2, 3, 4]) = Inr ?s"
    by code_simp
  moreover have "approved_variations_total 1 ?s = 600000" by code_simp
  moreover have "list_all (\<lambda>v. va_tier v = TIER_LOCAL \<and> va_status v = VS_APPROVED) (variations ?s)" by code_simp
  ultimately show ?thesis by (auto simp: active_contract_def demo_contract_def)
qed

end
