(* ===== verification/Books.thy ===== *)
theory Books
  imports Ledger
begin

text \<open>
  The ledger as a transition system: what the services and the line rows let happen to the journals,
  step by step, and what the GL buckets have to do with the posted journals afterwards.  A journal
  line can be created on a posted journal (\<open>posted_journal_accepts_new_line\<close>), and such a line never
  reaches the buckets; the runs below keep the list of these late lines, and the invariant says
  that they are the whole difference.
\<close>

section \<open>Buckets up to late lines\<close>

definition rows_late :: "journal list \<Rightarrow> journal list \<Rightarrow> gl_rows \<Rightarrow> bool" where
  \<comment> \<open>the buckets and the late lines \<open>late\<close> together are the replay of the posted journals\<close>
  "rows_late late js gl \<longleftrightarrow>
     distinct (map j_id js) \<and> distinct (map fst gl)
     \<and> (\<forall>j \<in> set js. lines_ok j \<and> (j_status j = J_Posted \<and> j_id j \<notin> j_id ` set late \<longrightarrow> balanced j))
     \<and> tb_debit gl = tb_credit gl
     \<and> (\<forall>k. posted_debit k js = gl_debit k gl + posted_debit k late
          \<and> posted_credit k js = gl_credit k gl + posted_credit k late)"

definition ledger_late :: "journal list \<Rightarrow> 'z budget_state_scheme \<Rightarrow> bool" where
  "ledger_late late s \<longleftrightarrow>
     rows_late late (journals s) (gl_balances s) \<and> distinct (map ap_id (appropriations s))"

lemma ledger_late_Nil: "ledger_late [] s = ledger_ok s"
  by (auto simp: ledger_late_def ledger_ok_def rows_late_def rows_ok_def posted_debit_def posted_credit_def)

lemma ledger_lateD:
  assumes "ledger_late late s"
  shows "keys_ok s" "rows_late late (journals s) (gl_balances s)" "distinct (map ap_id (appropriations s))"
    "j \<in> set (journals s) \<Longrightarrow> lines_ok j"
  using assms by (auto simp: ledger_late_def rows_late_def keys_ok_def)

lemma lines_ok_same: "same_document j j' \<Longrightarrow> lines_ok j' = lines_ok j"
  by (simp add: same_document_def lines_ok_def)

lemma rows_late_put:
  assumes "rows_late late js gl" and "find_row j_id (j_id j') js = Some j"
    and "lines_ok j'" and "j_status j' = J_Posted \<longrightarrow> j_id j' \<notin> j_id ` set late' \<longrightarrow> balanced j'"
    and "j_id ` set late \<subseteq> j_id ` set late'"
    and "\<And>k. gl_debit k gl' + posted_debit k late' = gl_debit k gl + posted_debit k late
           - (if j_status j = J_Posted then journal_debit k j else 0)
           + (if j_status j' = J_Posted then journal_debit k j' else 0)"
    and "\<And>k. gl_credit k gl' + posted_credit k late' = gl_credit k gl + posted_credit k late
           - (if j_status j = J_Posted then journal_credit k j else 0)
           + (if j_status j' = J_Posted then journal_credit k j' else 0)"
    and "distinct (map fst gl')" and "tb_debit gl' = tb_credit gl'"
  shows "rows_late late' (put_row j_id j' js) gl'"
proof -
  have dist: "distinct (map j_id js)" using assms(1) by (simp add: rows_late_def)
  have "posted_debit k (put_row j_id j' js) = gl_debit k gl' + posted_debit k late'"
    and "posted_credit k (put_row j_id j' js) = gl_credit k gl' + posted_credit k late'" for k
    unfolding assms(6,7) using assms(1)
    by (simp_all add: rows_late_def posted_debit_def posted_credit_def sum_put_row [OF assms(2) dist])
  moreover have "\<forall>x \<in> set (put_row j_id j' js).
      lines_ok x \<and> (j_status x = J_Posted \<and> j_id x \<notin> j_id ` set late' \<longrightarrow> balanced x)"
  proof (intro ballI)
    fix x assume "x \<in> set (put_row j_id j' js)"
    then have "x = j' \<or> x \<in> set js" by (auto dest!: set_put_row)
    then show "lines_ok x \<and> (j_status x = J_Posted \<and> j_id x \<notin> j_id ` set late' \<longrightarrow> balanced x)"
      using assms(1,3,4,5) unfolding rows_late_def by (metis subsetD)
  qed
  ultimately show ?thesis using assms(8,9) dist by (simp add: rows_late_def)
qed

lemma rows_late_append:
  assumes "rows_late late js gl" and "j_id j \<notin> j_id ` set js" and "lines_ok j" "balanced j" "j_status j = J_Posted"
  shows "rows_late late (js @ [j]) (gl_post j gl)"
  using assms by (auto simp: rows_late_def posted_debit_def posted_credit_def balanced_def)

lemma ledger_late_put:
  \<comment> \<open>a row rewritten in place: same status, and the buckets see no difference\<close>
  assumes "ledger_late late s" and "journal_of i s = Some j" and "j_id j' = i" and "lines_ok j'"
    and "j_status j' = J_Posted \<longleftrightarrow> j_status j = J_Posted"
    and "j_status j = J_Posted \<Longrightarrow> (balanced j \<longrightarrow> balanced j')
           \<and> (\<forall>k. journal_debit k j' = journal_debit k j \<and> journal_credit k j' = journal_credit k j)"
    and "distinct (map ap_id ap)"
  shows "ledger_late late (s\<lparr>journals := put_row j_id j' (journals s), appropriations := ap\<rparr>)"
proof -
  note rows = ledger_lateD(2) [OF assms(1)]
  have find: "find_row j_id (j_id j') (journals s) = Some j" and id: "j_id j = i" "j \<in> set (journals s)"
    using assms(2,3) journal_of_ids [OF assms(2)] by (simp_all add: journal_of_def)
  have "rows_late late (put_row j_id j' (journals s)) (gl_balances s)"
    by (rule rows_late_put [OF rows find]) (use rows assms(3-6) id in \<open>auto simp: rows_late_def\<close>)
  then show ?thesis using assms(7) by (simp add: ledger_late_def)
qed

section \<open>Steps\<close>

text \<open>
  A draft header is inserted, a header is saved without being posted or un-posted by hand, lines
  are created on a journal that is not posted, edited and deleted, a journal is posted and a
  posted journal is reversed.
\<close>

inductive ledger_step :: "'z budget_state_scheme \<Rightarrow> 'z budget_state_scheme \<Rightarrow> bool" where
  Draft: "insert_journal h s = Inr (i, s') \<Longrightarrow> j_status h \<noteq> J_Posted \<Longrightarrow> ledger_step s s'"
| Save_header: "save_journal fs j s = Inr s' \<Longrightarrow> journal_of (j_id j) s = Some old \<Longrightarrow>
    (j_status j = J_Posted \<longleftrightarrow> j_status old = J_Posted) \<Longrightarrow> ledger_step s s'"
| Add_line: "create_jline i l s = Inr s' \<Longrightarrow> journal_of i s = Some j \<Longrightarrow> j_status j \<noteq> J_Posted \<Longrightarrow>
    ledger_step s s'"
| Edit_line: "update_jline i n l s = Inr s' \<Longrightarrow> ledger_step s s'"
| Drop_line: "delete_jline i n s = Inr s' \<Longrightarrow> ledger_step s s'"
| Post: "post_journal i user force s = Inr s' \<Longrightarrow> ledger_step s s'"
| Reverse: "reverse_journal i user reason s = Inr (r, s') \<Longrightarrow> ledger_step s s'"

text \<open>
  A run also creates lines on posted journals; each one is recorded as its journal cut down to
  that line.
\<close>

inductive ledger_run :: "'z budget_state_scheme \<Rightarrow> journal list \<Rightarrow> 'z budget_state_scheme \<Rightarrow> bool" for s0 where
  Start: "ledger_run s0 [] s0"
| Step: "ledger_run s0 late s \<Longrightarrow> ledger_step s s' \<Longrightarrow> ledger_run s0 late s'"
| Late_line: "ledger_run s0 late s \<Longrightarrow> create_jline i l s = Inr s' \<Longrightarrow> journal_of i s = Some j \<Longrightarrow>
    j_status j = J_Posted \<Longrightarrow> ledger_run s0 (late @ [j\<lparr>j_lines := [round_line l]\<rparr>]) s'"

section \<open>Every step keeps the buckets\<close>

lemma ledger_late_posting:
  assumes "ledger_late late s" and "posting_effect j user j' s s'"
    and "journal_of (j_id j) s = Some j" and "j_status j \<noteq> J_Posted"
  shows "ledger_late late s'"
proof -
  have doc: "same_document j j'" "j_id j' = j_id j" "j_status j' = J_Posted"
    and tot: "total_debit (j_lines j') = total_credit (j_lines j')"
    and s': "journals s' = put_row j_id j' (journals s)" "gl_balances s' = gl_post j' (gl_balances s)"
    and ap: "distinct (map ap_id (appropriations s'))"
    using assms(1,2) by (auto simp: posting_effect_def same_document_def ledger_late_def)
  have rows: "rows_late late (journals s) (gl_balances s)" using assms(1) by (simp add: ledger_late_def)
  have j: "find_row j_id (j_id j') (journals s) = Some j"
    using assms(3) doc(2) by (simp add: journal_of_def)
  have "lines_ok j" using rows find_row_SomeD [OF j] by (auto simp: rows_late_def)
  then have "lines_ok j'" using doc(1) by (simp add: lines_ok_same)
  moreover have "balanced j'" using tot by (simp add: balanced_def)
  moreover have "distinct (map fst (gl_post j' (gl_balances s)))"
    "tb_debit (gl_post j' (gl_balances s)) = tb_credit (gl_post j' (gl_balances s))"
    using rows tot by (simp_all add: rows_late_def)
  ultimately show ?thesis
    unfolding ledger_late_def s' using doc(3) assms(4) ap
    by (intro conjI rows_late_put [OF rows j]) simp_all
qed

lemma ledger_late_post_journal:
  assumes "ledger_late late s" and "post_journal i user force s = Inr s'"
  shows "ledger_late late s'"
proof -
  from assms obtain j j' where "journal_of i s = Some j" "j_id j = i" "posting_effect j user j' s s'"
    "j_status j \<noteq> J_Posted" by (auto elim: post_journalD dest: ledger_lateD(1))
  then show ?thesis using assms(1) by (auto intro: ledger_late_posting)
qed

lemma ledger_late_posted_new:
  assumes "ledger_late late s" and "posted_new h ls user j s s'"
  shows "ledger_late late s'"
proof -
  have "j_id j \<notin> j_id ` set (journals s)" using assms(2) by (simp add: posted_new_def)
  then show ?thesis
    using assms(1) posted_newD [OF assms(2)] by (simp add: ledger_late_def rows_late_append)
qed

lemma ledger_late_reverse_journal:
  assumes "ledger_late late s" and "reverse_journal i user reason s = Inr (r, s')"
  shows "ledger_late late s'"
proof -
  from reverse_journalD [OF assms(2) ledger_lateD(1) [OF assms(1)]] obtain j k s3 ap where
    j: "journal_of i s = Some j" and st: "j_status j = J_Posted"
    and p: "posted_new (reversal_header j (today s)) (map reversed_line (j_lines j)) user k s s3"
    and ap: "recached (appropriations s3) ap"
    and s': "s' = s3\<lparr>journals := put_row j_id (j\<lparr>j_is_reversed := True\<rparr>) (journals s3), appropriations := ap,
             reversals := reversals s3 @ [(i, r)], je_audit := je_audit s3 @ [(''REVERSE'', i)]\<rparr>" .
  let ?s4 = "s3\<lparr>journals := put_row j_id (j\<lparr>j_is_reversed := True\<rparr>) (journals s3), appropriations := ap\<rparr>"
  have ok: "ledger_late late s3" using ledger_late_posted_new [OF assms(1) p] .
  have j3: "journal_of i s3 = Some j" using posted_newD(12) [OF p j] .
  then have "j \<in> set (journals s3)" "j_id j = i" using journal_of_ids [OF j3] by simp_all
  then have "lines_ok j" using ledger_lateD(4) [OF ok] by simp
  then have "ledger_late late ?s4"
    using \<open>j_id j = i\<close> ap ledger_lateD(3) [OF ok]
    by (intro ledger_late_put [OF ok j3])
       (auto simp: lines_ok_def balanced_def journal_debit_def journal_credit_def line_key_def)
  then show ?thesis by (simp add: ledger_late_def s')
qed

lemma ledger_late_lines:
  assumes "ledger_late late s" and "journal_of i s = Some j"
    and "lines_ok (j\<lparr>j_lines := ls\<rparr>)" and "j_status j = J_Posted \<Longrightarrow> ls = j_lines j"
  shows "ledger_late late (s\<lparr>journals := put_row j_id (j\<lparr>j_lines := ls\<rparr>) (journals s)\<rparr>)"
proof -
  have "ledger_late late (s\<lparr>journals := put_row j_id (j\<lparr>j_lines := ls\<rparr>) (journals s),
      appropriations := appropriations s\<rparr>)"
    using assms(3,4) journal_of_ids [OF assms(2)] ledger_lateD(3) [OF assms(1)]
    by (intro ledger_late_put [OF assms(1,2)]) auto
  then show ?thesis by simp
qed

lemma lines_ok_update:
  "lines_ok j \<Longrightarrow> line_check (round_line l) \<Longrightarrow> lines_ok (j\<lparr>j_lines := (j_lines j)[n := round_line l]\<rparr>)"
  by (auto simp: lines_ok_def dest!: set_update_subset_insert [THEN subsetD])

lemma lines_ok_delete:
  "lines_ok j \<Longrightarrow> lines_ok (j\<lparr>j_lines := take n (j_lines j) @ drop (Suc n) (j_lines j)\<rparr>)"
  by (auto simp: lines_ok_def dest: in_set_takeD in_set_dropD)

lemma create_jlineD:
  assumes "create_jline i l s = Inr s'" and "journal_of i s = Some j"
  shows "line_check (round_line l)"
    "s' = s\<lparr>journals := put_row j_id (j\<lparr>j_lines := j_lines j @ [round_line l]\<rparr>) (journals s)\<rparr>"
  using assms by (auto simp: create_jline_def Let_def split: if_splits)

lemma ledger_late_save_header:
  assumes "save_journal fs j s = Inr s'" and "journal_of (j_id j) s = Some old"
    and "j_status j = J_Posted \<longleftrightarrow> j_status old = J_Posted" and ok: "ledger_late late s"
  shows "ledger_late late s'"
proof -
  define f where "f = (case fs of Some f \<Rightarrow> f | None \<Rightarrow> changed_fields old j)"
  from save_journal_cases [OF assms(1) ledger_lateD(1) [OF ok]] assms(2) obtain ap where
    f: "j_status old = J_Posted \<longrightarrow> set f \<subseteq> set POST_POSTING_MUTABLE_FIELDS"
    and s': "s' = s\<lparr>journals := put_row j_id (write_fields f old j) (journals s), appropriations := ap\<rparr>"
    and ap: "recached (appropriations s) ap"
    unfolding f_def by (metis option.inject)
  let ?w = "write_fields f old j"
  have id: "j_id old = j_id j" "old \<in> set (journals s)" using journal_of_ids [OF assms(2)] by simp_all
  have w: "j_lines ?w = j_lines old" "j_id ?w = j_id j" "(j_status ?w = J_Posted) = (j_status old = J_Posted)"
    using assms(3) id(1) by (simp_all add: write_fields_def)
  have key: "line_key ?w l = line_key old l" if "j_status old = J_Posted" for l
  proof -
    have "x \<notin> set f" if "x \<notin> set POST_POSTING_MUTABLE_FIELDS" for x
      using f \<open>j_status old = J_Posted\<close> that by blast
    then show ?thesis by (simp add: write_fields_def line_key_def POST_POSTING_MUTABLE_FIELDS_def)
  qed
  have "lines_ok ?w" using ledger_lateD(4) [OF ok id(2)] by (simp add: lines_ok_def w(1))
  moreover have "distinct (map ap_id ap)" using ap ledger_lateD(3) [OF ok] by simp
  ultimately show ?thesis unfolding s'
    by (intro ledger_late_put [OF ok assms(2) w(2) _ w(3)])
       (simp_all add: key balanced_def journal_debit_def journal_credit_def w(1))
qed

lemma ledger_step_late: "ledger_step s s' \<Longrightarrow> ledger_late late s \<Longrightarrow> ledger_late late s'"
proof (induction rule: ledger_step.induct)
  case (Draft h s i s')
  from insert_journalD [OF Draft(1)] obtain doc sq where
    s': "i = fresh_pk j_id (journals s)"
    "s' = s\<lparr>sequences := sq, journals := journals s @ [h\<lparr>j_id := i, j_document := doc, j_lines := []\<rparr>]\<rparr>"
    by metis
  then show ?case using Draft(2,3)
    by (simp add: ledger_late_def rows_late_def posted_debit_def posted_credit_def lines_ok_def)
next
  case (Save_header fs j s s' old)
  then show ?case by (rule ledger_late_save_header)
next
  case (Add_line i l s s' j)
  note new = create_jlineD [OF Add_line(1,2)]
  have "lines_ok j" using ledger_lateD(4) [OF Add_line(4)] journal_of_ids [OF Add_line(2)] by blast
  then show ?case unfolding new(2) using Add_line new(1)
    by (intro ledger_late_lines) (auto simp: lines_ok_def)
next
  case (Edit_line i n l s s')
  then obtain j where j: "journal_of i s = Some j" "line_check (round_line l)" "n < length (j_lines j)"
    "j_status j = J_Posted \<Longrightarrow> j_lines j ! n = l"
    "s' = s\<lparr>journals := put_row j_id (j\<lparr>j_lines := (j_lines j)[n := round_line l]\<rparr>) (journals s)\<rparr>"
    by (auto simp: update_jline_def split: option.splits if_splits)
  then have ok: "lines_ok j" using ledger_lateD(4) Edit_line journal_of_ids by blast
  then have "round_line (j_lines j ! n) = j_lines j ! n" using j(3) by (simp add: lines_ok_def)
  then show ?case using Edit_line j ok
    by (auto intro!: ledger_late_lines lines_ok_update)
next
  case (Drop_line i n s s')
  then obtain j where j: "journal_of i s = Some j" "j_status j \<noteq> J_Posted"
    "s' = s\<lparr>journals := put_row j_id (j\<lparr>j_lines := take n (j_lines j) @ drop (Suc n) (j_lines j)\<rparr>) (journals s)\<rparr>"
    by (auto simp: delete_jline_def split: option.splits if_splits)
  then have "lines_ok j" using ledger_lateD(4) Drop_line journal_of_ids by blast
  then show ?case using Drop_line j by (auto intro!: ledger_late_lines lines_ok_delete)
next
  case (Post i user force s s')
  then show ?case by (blast intro: ledger_late_post_journal)
next
  case (Reverse i user reason s r s')
  then show ?case by (blast intro: ledger_late_reverse_journal)
qed

lemma ledger_late_new_line:
  assumes "ledger_late late s" and "create_jline i l s = Inr s'" and j: "journal_of i s = Some j"
    and st: "j_status j = J_Posted"
  shows "ledger_late (late @ [j\<lparr>j_lines := [round_line l]\<rparr>]) s'"
proof -
  let ?j = "j\<lparr>j_lines := j_lines j @ [round_line l]\<rparr>" and ?d = "j\<lparr>j_lines := [round_line l]\<rparr>"
  note new = create_jlineD [OF assms(2) j] and rows = ledger_lateD(2) [OF assms(1)]
  have id: "j_id j = i" "lines_ok j"
    using journal_of_ids [OF j] ledger_lateD(4) [OF assms(1)] by simp_all
  have amounts: "journal_debit k ?j = journal_debit k j + journal_debit k ?d"
    "journal_credit k ?j = journal_credit k j + journal_credit k ?d" for k
    by (simp_all add: journal_debit_def journal_credit_def line_key_def)
  have find: "find_row j_id (j_id ?j) (journals s) = Some j" using j id(1) by (simp add: journal_of_def)
  have "lines_ok ?j" using id(2) new(1) by (auto simp: lines_ok_def)
  then have "rows_late (late @ [?d]) (put_row j_id ?j (journals s)) (gl_balances s)"
    by (intro rows_late_put [OF rows find])
       (use rows st amounts in \<open>auto simp: rows_late_def posted_debit_def posted_credit_def\<close>)
  then show ?thesis using ledger_lateD(3) [OF assms(1)] by (simp add: ledger_late_def new(2))
qed

lemma ledger_run_late: "ledger_run s0 late s \<Longrightarrow> ledger_ok s0 \<Longrightarrow> ledger_late late s"
  by (induction rule: ledger_run.induct)
     (auto simp: ledger_late_Nil intro: ledger_step_late ledger_late_new_line)

section \<open>The books\<close>

text \<open>
  C25: from a consistent ledger, every sequence of drafting, saving headers (no save by hand into or
  out of Posted), creating, editing and deleting lines, posting and reversing keeps the trial
  balance of the buckets balanced.  Each bucket (account, dimensions, year, period) holds the debits
  and credits of the lines of the posted journals that fall into it, except exactly the lines
  that were created on a journal after it was posted; and every posted journal that received no
  such line is balanced.
\<close>

theorem books_always_balance:
  assumes "ledger_run s0 late s" and "ledger_ok s0"
  shows "tb_debit (gl_balances s) = tb_credit (gl_balances s)
    \<and> (\<forall>k. posted_debit k (journals s) = gl_debit k (gl_balances s) + posted_debit k late
         \<and> posted_credit k (journals s) = gl_credit k (gl_balances s) + posted_credit k late)
    \<and> (\<forall>j \<in> set (journals s). j_status j = J_Posted \<and> j_id j \<notin> j_id ` set late \<longrightarrow> balanced j)"
  using ledger_run_late [OF assms] by (simp add: ledger_late_def rows_late_def)

definition demo_late_line :: jline where
  "demo_late_line = \<lparr>l_account = 2, l_debit = 40, l_credit = 0, l_ncoa = None, l_asset = None\<rparr>"

theorem books_always_balance_witness:
  "let s = projr (create_jline 1 demo_late_line demo_reversed); j = the (journal_of 1 demo_reversed);
       k = line_key j demo_late_line
   in tb_debit (gl_balances s) = tb_credit (gl_balances s)
      \<and> posted_debit k (journals s) = gl_debit k (gl_balances s) + 40
      \<and> length (journals s) = 2"
proof -
  let ?s = "projr (create_jline 1 demo_late_line demo_reversed)" and ?j = "the (journal_of 1 demo_reversed)"
  let ?k = "line_key ?j demo_late_line" and ?late = "[?j\<lparr>j_lines := [round_line demo_late_line]\<rparr>]"
  have "ledger_step demo_posted demo_reversed" by (rule Reverse [OF demo_reverse])
  then have "ledger_run demo_posted [] demo_reversed" by (rule Step [OF Start])
  moreover have "create_jline 1 demo_late_line demo_reversed = Inr ?s" "journal_of 1 demo_reversed = Some ?j"
    "j_status ?j = J_Posted" by code_simp+
  ultimately have "ledger_run demo_posted ([] @ ?late) ?s" by (rule Late_line)
  then have run: "ledger_run demo_posted ?late ?s" by simp
  have "posted_debit ?k ?late = 40" "length (journals ?s) = 2" by code_simp+
  with books_always_balance [OF run demo_posted_ok] show ?thesis by (simp add: Let_def)
qed

end
