(* ===== verification/Virement.thy ===== *)
theory Virement
  imports Budget
begin

text \<open>
  Virements: \<^verbatim>\<open>budget/services_virement.py\<close>, and the workflow receiver of \<^verbatim>\<open>budget/signals.py\<close>
  behind the approval view of \<^verbatim>\<open>workflow/views.py\<close>.  The functions take the virement instance the
  caller holds, which may be older than the row.
\<close>

section \<open>The service\<close>

definition save_virement :: "virement \<Rightarrow> 'z budget_state_scheme \<Rightarrow> 'z budget_state_scheme" where
  "save_virement v s = s\<lparr>virements := put_row vr_id v (virements s)\<rparr>"

definition update_virement :: "nat \<Rightarrow> (virement \<Rightarrow> virement) \<Rightarrow> 'z budget_state_scheme \<Rightarrow> 'z budget_state_scheme" where
  \<comment> \<open>\<^verbatim>\<open>save(update_fields=...)\<close>: the named columns of the row, whatever the instance holds in the others\<close>
  "update_virement i f s = s\<lparr>virements := upd_row vr_id i f (virements s)\<rparr>"

definition generate_reference_number :: "'z budget_state_scheme \<Rightarrow> string \<times> 'z budget_state_scheme" where
  "generate_reference_number s =
     (let y = show_nat (nat (d_year (today s)))
      in sequence_next (''virement_'' @ y) (''VIR-'' @ y @ ''-'') s)"

definition create_virement :: "appropriation \<Rightarrow> appropriation \<Rightarrow> rat \<Rightarrow> 'z budget_state_scheme \<Rightarrow> (err + nat) \<times> 'z budget_state_scheme" where
  \<comment> \<open>no transaction: a reference number drawn for a row the database refuses stays drawn\<close>
  "create_virement source target amount s =
     (if ap_id source = ap_id target then (Inl VirementError, s)
      else if amount \<le> 0 then (Inl VirementError, s)
      else if ap_fiscal_year source \<noteq> ap_fiscal_year target then (Inl VirementError, s)
      else if amount > available_balance source s then (Inl VirementError, s)
      else let (ref, s1) = generate_reference_number s;
               i = fresh_pk vr_id (virements s1);
               v = \<lparr>vr_id = i, vr_ref = ref, vr_from = ap_id source, vr_to = ap_id target,
                    vr_amount = db_decimal amount, vr_status = ''DRAFT'', vr_snapshots = None\<rparr>
           in if 0 < vr_amount v \<and> ref \<notin> vr_ref ` set (virements s1)
              then (Inr i, s1\<lparr>virements := virements s1 @ [v]\<rparr>)
              else (Inl IntegrityError, s1))"

definition submit_virement :: "virement \<Rightarrow> 'z budget_state_scheme \<Rightarrow> err + 'z budget_state_scheme" where
  "submit_virement v s =
     (if vr_status v \<noteq> ''DRAFT'' then Inl VirementError
      else Inr (update_virement (vr_id v) (\<lambda>r. r\<lparr>vr_status := ''SUBMITTED''\<rparr>) s))"

definition move_amount :: "virement \<Rightarrow> appropriation \<Rightarrow> appropriation \<Rightarrow> 'z budget_state_scheme \<Rightarrow> 'z budget_state_scheme" where
  "move_amount v source target s =
     save_appropriation (target\<lparr>ap_amount := ap_amount target + vr_amount v\<rparr>)
       (save_appropriation (source\<lparr>ap_amount := ap_amount source - vr_amount v\<rparr>) s)"

definition approve_and_apply_virement :: "virement \<Rightarrow> 'z budget_state_scheme \<Rightarrow> err + 'z budget_state_scheme" where
  "approve_and_apply_virement v s =
     (if vr_status v \<notin> {''DRAFT'', ''SUBMITTED''} then Inl VirementError
      else (case (find_row ap_id (vr_from v) (appropriations s), find_row ap_id (vr_to v) (appropriations s)) of
              (Some source, Some target) \<Rightarrow>
                if vr_amount v > available_balance source s then Inl VirementError
                else let s1 = move_amount v source target s;
                         s2 = update_virement (vr_id v)
                           (\<lambda>r. r\<lparr>vr_status := ''APPLIED'',
                                   vr_snapshots := Some (ap_amount source, ap_amount source - vr_amount v,
                                                         ap_amount target, ap_amount target + vr_amount v)\<rparr>) s1
                     in rbind (refresh_totals (vr_from v) s2) (refresh_totals (vr_to v))
            | _ \<Rightarrow> Inl DoesNotExist))"

definition reject_virement :: "virement \<Rightarrow> 'z budget_state_scheme \<Rightarrow> err + 'z budget_state_scheme" where
  "reject_virement v s =
     (if vr_status v \<in> {''APPLIED'', ''REJECTED'', ''CANCELLED''} then Inl VirementError
      else Inr (update_virement (vr_id v) (\<lambda>r. r\<lparr>vr_status := ''REJECTED''\<rparr>) s))"

section \<open>Approval through the workflow\<close>

definition auto_apply_virement :: "virement \<Rightarrow> 'z budget_state_scheme \<Rightarrow> err + 'z budget_state_scheme" where
  \<comment> \<open>the receiver \<^verbatim>\<open>auto_apply_virement_on_approval\<close> for an approved virement document\<close>
  "auto_apply_virement doc s =
     (if vr_status doc = ''APPLIED'' then Inr s
      else (case find_row vr_id (vr_id doc) (virements s) of
              None \<Rightarrow> Inl DoesNotExist
            | Some v \<Rightarrow> if vr_status v = ''APPLIED'' then Inr s else approve_and_apply_virement v s))"

definition workflow_approve_virement :: "nat \<Rightarrow> 'z budget_state_scheme \<Rightarrow> err + 'z budget_state_scheme" where
  \<comment> \<open>\<^verbatim>\<open>_trigger_document_action(approval, 'approve')\<close>: a virement is not in the status table and has
      no \<^verbatim>\<open>approve\<close> method, so its status is set to \<^verbatim>\<open>'Approved'\<close> and saved before the receivers run\<close>
  "workflow_approve_virement i s =
     (case find_row vr_id i (virements s) of
        None \<Rightarrow> Inr s
      | Some v \<Rightarrow>
          let doc = v\<lparr>vr_status := ''Approved''\<rparr>
          in auto_apply_virement doc (save_virement doc s))"

section \<open>Moving money\<close>

definition total_approved :: "'z budget_state_scheme \<Rightarrow> rat" where
  "total_approved s = sum_list (map ap_amount (appropriations s))"

lemma save_appropriation_simps [simp]:
  "appropriations (save_appropriation a s) = put_row ap_id a (appropriations s)"
  "appropriations (save_virement v s) = appropriations s"
  "virements (save_appropriation a s) = virements s"
  "virements (save_virement v s) = put_row vr_id v (virements s)"
  "appropriations (update_virement i f s) = appropriations s"
  "virements (update_virement i f s) = upd_row vr_id i f (virements s)"
  by (simp_all add: save_appropriation_def save_virement_def update_virement_def)

lemma refresh_totals_keeps:
  assumes "refresh_totals i s = Inr s'" and "distinct (map ap_id (appropriations s))"
  shows "map ap_amount (appropriations s') = map ap_amount (appropriations s)"
    "map ap_id (appropriations s') = map ap_id (appropriations s)" "virements s' = virements s"
  using refresh_totalsD [OF assms] by (auto dest: recached_amounts)

lemma map_amount_find:
  assumes "map ap_id bs = map ap_id as" and "map ap_amount bs = map ap_amount as"
  shows "map_option ap_amount (find_row ap_id i bs) = map_option ap_amount (find_row ap_id i as)"
  using assms
proof (induction as arbitrary: bs)
  case (Cons a as)
  then obtain b bs' where "bs = b # bs'" by (cases bs) auto
  with Cons show ?case by auto
qed simp

lemma approve_and_apply_virementD:
  assumes "approve_and_apply_virement v s = Inr s'" and "distinct (map ap_id (appropriations s))"
  obtains source target where "vr_status v \<in> {''DRAFT'', ''SUBMITTED''}"
    "find_row ap_id (vr_from v) (appropriations s) = Some source"
    "find_row ap_id (vr_to v) (appropriations s) = Some target"
    "vr_amount v \<le> available_balance source s"
    "map ap_amount (appropriations s') = map ap_amount (appropriations (move_amount v source target s))"
    "map ap_id (appropriations s') = map ap_id (appropriations s)"
    "\<exists>f. (\<forall>r. vr_id (f r) = vr_id r \<and> vr_status (f r) = ''APPLIED'') \<and> virements s' = upd_row vr_id (vr_id v) f (virements s)"
proof -
  obtain source target where st: "vr_status v \<in> {''DRAFT'', ''SUBMITTED''}"
    "find_row ap_id (vr_from v) (appropriations s) = Some source"
    "find_row ap_id (vr_to v) (appropriations s) = Some target" "vr_amount v \<le> available_balance source s"
    using assms(1)
    by (auto simp: approve_and_apply_virement_def not_less split: if_splits option.splits)
  define f :: "virement \<Rightarrow> virement" where "f = (\<lambda>r. r\<lparr>vr_status := ''APPLIED'',
     vr_snapshots := Some (ap_amount source, ap_amount source - vr_amount v,
                           ap_amount target, ap_amount target + vr_amount v)\<rparr>)"
  define s1 where "s1 = update_virement (vr_id v) f (move_amount v source target s)"
  obtain s2 where s2: "refresh_totals (vr_from v) s1 = Inr s2" "refresh_totals (vr_to v) s2 = Inr s'"
    using assms(1) st by (auto simp: approve_and_apply_virement_def Let_def rbind_eq_Inr s1_def f_def)
  have d1: "distinct (map ap_id (appropriations s1))"
    using assms(2) by (simp add: s1_def move_amount_def)
  note k1 = refresh_totals_keeps [OF s2(1) d1]
  then have "distinct (map ap_id (appropriations s2))" using d1 by simp
  note k2 = refresh_totals_keeps [OF s2(2) this]
  show ?thesis
  proof (rule that [OF st])
    show "map ap_amount (appropriations s') = map ap_amount (appropriations (move_amount v source target s))"
      "map ap_id (appropriations s') = map ap_id (appropriations s)"
      using k1 k2 by (simp_all add: s1_def move_amount_def)
    show "\<exists>f. (\<forall>r. vr_id (f r) = vr_id r \<and> vr_status (f r) = ''APPLIED'') \<and> virements s' = upd_row vr_id (vr_id v) f (virements s)"
      using k1(3) k2(3) by (intro exI [of _ f]) (simp add: s1_def f_def move_amount_def)
  qed
qed

section \<open>Properties\<close>

text \<open>
  C39: a virement moves budget and creates none.  When it is applied, the total approved amount
  of all appropriations is unchanged, the source has lost and the target has gained exactly the
  amount, every other line keeps its amount, and the source had that much available.
\<close>

theorem virement_conserves_budget:
  assumes "approve_and_apply_virement v s = Inr s'"
    and "distinct (map ap_id (appropriations s))" and "vr_from v \<noteq> vr_to v"
  shows "total_approved s' = total_approved s
    \<and> (\<exists>source. find_row ap_id (vr_from v) (appropriations s) = Some source
         \<and> vr_amount v \<le> available_balance source s)
    \<and> (\<forall>i. map_option ap_amount (find_row ap_id i (appropriations s')) =
           map_option (\<lambda>a. ap_amount a + (if i = vr_to v then vr_amount v else 0)
                                      - (if i = vr_from v then vr_amount v else 0))
             (find_row ap_id i (appropriations s)))"
proof -
  from approve_and_apply_virementD [OF assms(1,2)] obtain source target where
    src: "find_row ap_id (vr_from v) (appropriations s) = Some source"
    and tgt: "find_row ap_id (vr_to v) (appropriations s) = Some target"
    and av: "vr_amount v \<le> available_balance source s"
    and am: "map ap_amount (appropriations s') = map ap_amount (appropriations (move_amount v source target s))"
    and ids: "map ap_id (appropriations s') = map ap_id (appropriations s)" by metis
  let ?src = "source\<lparr>ap_amount := ap_amount source - vr_amount v\<rparr>"
  let ?tgt = "target\<lparr>ap_amount := ap_amount target + vr_amount v\<rparr>"
  let ?mid = "put_row ap_id ?src (appropriations s)"
  have i: "ap_id source = vr_from v" "ap_id target = vr_to v"
    using find_row_SomeD [OF src] find_row_SomeD [OF tgt] by simp_all
  have mv: "appropriations (move_amount v source target s) = put_row ap_id ?tgt ?mid"
    by (simp add: move_amount_def)
  have in_s: "vr_from v \<in> ap_id ` set (appropriations s)" "vr_to v \<in> ap_id ` set (appropriations s)"
    using find_row_SomeD [OF src] find_row_SomeD [OF tgt] by force+
  have "sum_list (map ap_amount ?mid) = sum_list (map ap_amount (appropriations s)) - vr_amount v"
    using sum_put_row [of ap_id ?src "appropriations s" source ap_amount] src assms(2) i by simp
  moreover have "find_row ap_id (ap_id ?tgt) ?mid = Some target"
    using tgt i assms(3) by simp
  then have "sum_list (map ap_amount (put_row ap_id ?tgt ?mid)) = sum_list (map ap_amount ?mid) + vr_amount v"
    using sum_put_row [of ap_id ?tgt ?mid target ap_amount] assms(2) by simp
  ultimately have "total_approved s' = total_approved s"
    using am mv by (simp add: total_approved_def)
  moreover have "map_option ap_amount (find_row ap_id k (appropriations s')) =
           map_option (\<lambda>a. ap_amount a + (if k = vr_to v then vr_amount v else 0)
                                      - (if k = vr_from v then vr_amount v else 0))
             (find_row ap_id k (appropriations s))" for k
  proof -
    have "map_option ap_amount (find_row ap_id k (appropriations s'))
        = map_option ap_amount (find_row ap_id k (put_row ap_id ?tgt ?mid))"
      using ids am mv by (intro map_amount_find) simp_all
    then show ?thesis using src tgt i in_s assms(3) by auto
  qed
  ultimately show ?thesis using src av by blast
qed

definition demo_virement :: virement where
  "demo_virement = \<lparr>vr_id = 1, vr_ref = ''VIR-2026-000001'', vr_from = 1, vr_to = 2, vr_amount = 150,
     vr_status = ''SUBMITTED'', vr_snapshots = None\<rparr>"

definition demo_pending :: budget_state where
  "demo_pending = demo_state\<lparr>virements := [demo_virement]\<rparr>"

definition demo_applied :: budget_state where
  "demo_applied = projr (approve_and_apply_virement demo_virement demo_pending)"

lemma demo_apply: "approve_and_apply_virement demo_virement demo_pending = Inr demo_applied"
  by code_simp

lemma demo_pending_ids: "distinct (map ap_id (appropriations demo_pending))"
  by code_simp

theorem virement_conserves_budget_witness:
  "total_approved demo_applied = 1400
   \<and> map_option ap_amount (find_row ap_id 1 (appropriations demo_applied)) = Some 850
   \<and> map_option ap_amount (find_row ap_id 2 (appropriations demo_applied)) = Some 550"
proof -
  have "vr_from demo_virement \<noteq> vr_to demo_virement" by (simp add: demo_virement_def)
  note p = virement_conserves_budget [OF demo_apply demo_pending_ids this]
  have "total_approved demo_pending = 1400" by code_simp
  then show ?thesis using p by (simp add: demo_virement_def demo_pending_def demo_state_def)
qed

text \<open>
  An applied virement is final: approving, submitting or rejecting the row again is refused.
\<close>

theorem applied_virement_is_final:
  assumes "approve_and_apply_virement v s = Inr s'"
    and "distinct (map ap_id (appropriations s))" and "vr_id v \<in> vr_id ` set (virements s)"
  shows "\<exists>v'. find_row vr_id (vr_id v) (virements s') = Some v'
    \<and> approve_and_apply_virement v' t = Inl VirementError \<and> submit_virement v' t = Inl VirementError
    \<and> reject_virement v' t = Inl VirementError"
proof -
  from approve_and_apply_virementD [OF assms(1,2)] obtain f where
    f: "vr_id (f r) = vr_id r" "vr_status (f r) = ''APPLIED''" "virements s' = upd_row vr_id (vr_id v) f (virements s)"
    for r by metis
  obtain v0 where "find_row vr_id (vr_id v) (virements s) = Some v0"
    using assms(3) by (cases "find_row vr_id (vr_id v) (virements s)") (auto simp: find_row_None_iff)
  then have "find_row vr_id (vr_id v) (virements s') = Some (f v0)"
    by (simp add: f(1,3) find_row_upd_row)
  then show ?thesis using f(2)
    by (simp add: approve_and_apply_virement_def submit_virement_def reject_virement_def)
qed

theorem applied_virement_is_final_witness:
  "\<exists>v'. find_row vr_id 1 (virements demo_applied) = Some v'
     \<and> approve_and_apply_virement v' demo_applied = Inl VirementError"
proof -
  have "vr_id demo_virement \<in> vr_id ` set (virements demo_pending)"
    by (simp add: demo_pending_def)
  from applied_virement_is_final [OF demo_apply demo_pending_ids this, of demo_applied]
  show ?thesis by (auto simp: demo_virement_def)
qed

text \<open>
  The status check looks at the instance the caller holds and the row is not locked, so a
  second request that loaded the virement before it was applied moves the amount once more,
  whenever the source still has it.
\<close>

theorem stale_virement_applies_twice:
  assumes "approve_and_apply_virement v s = Inr s'"
    and "distinct (map ap_id (appropriations s))"
    and "find_row ap_id (vr_from v) (appropriations s') = Some source"
    and "vr_amount v \<le> available_balance source s'"
  shows "\<exists>s''. approve_and_apply_virement v s' = Inr s''"
proof -
  from approve_and_apply_virementD [OF assms(1,2)] obtain t where
    st: "vr_status v \<in> {''DRAFT'', ''SUBMITTED''}" and t: "find_row ap_id (vr_to v) (appropriations s) = Some t"
    and ids: "map ap_id (appropriations s') = map ap_id (appropriations s)" by metis
  have "vr_to v \<in> ap_id ` set (appropriations s')"
    using find_row_SomeD [OF t] ids by (metis imageI set_map)
  then obtain target where tg: "find_row ap_id (vr_to v) (appropriations s') = Some target"
    by (cases "find_row ap_id (vr_to v) (appropriations s')") (auto simp: find_row_None_iff)
  have found: "\<exists>u. refresh_totals i w = Inr u \<and> ap_id ` set (appropriations u) = ap_id ` set (appropriations w)"
    if i: "i \<in> ap_id ` set (appropriations w)" for i and w :: "'a budget_state_scheme"
  proof -
    obtain a where "find_row ap_id i (appropriations w) = Some a"
      using i by (cases "find_row ap_id i (appropriations w)") (auto simp: find_row_None_iff)
    then show ?thesis by (auto simp: refresh_totals_def)
  qed
  define w where "w = update_virement (vr_id v) (\<lambda>r. r\<lparr>vr_status := ''APPLIED'',
     vr_snapshots := Some (ap_amount source, ap_amount source - vr_amount v,
                           ap_amount target, ap_amount target + vr_amount v)\<rparr>) (move_amount v source target s')"
  have "ap_id ` set (appropriations w) = ap_id ` set (appropriations s')"
    by (simp add: w_def move_amount_def)
  moreover have "vr_from v \<in> ap_id ` set (appropriations s')" "vr_to v \<in> ap_id ` set (appropriations s')"
    using find_row_SomeD [OF assms(3)] find_row_SomeD [OF tg] by force+
  ultimately obtain u u' where "refresh_totals (vr_from v) w = Inr u" "refresh_totals (vr_to v) u = Inr u'"
    using found by metis
  then show ?thesis
    using st assms(3,4) tg by (simp add: approve_and_apply_virement_def Let_def w_def)
qed

theorem stale_virement_applies_twice_witness:
  "\<exists>s''. approve_and_apply_virement demo_virement demo_applied = Inr s''"
proof -
  have "find_row ap_id (vr_from demo_virement) (appropriations demo_applied)
      = Some (the (find_row ap_id 1 (appropriations demo_applied)))"
    "vr_amount demo_virement \<le> available_balance (the (find_row ap_id 1 (appropriations demo_applied))) demo_applied"
    by code_simp+
  then show ?thesis by (rule stale_virement_applies_twice [OF demo_apply demo_pending_ids])
qed

text \<open>
  No virement can be approved through the workflow.  The approval view writes the status
  \<^verbatim>\<open>'Approved'\<close> before the receiver calls the service, and the service accepts only \<^verbatim>\<open>'DRAFT'\<close> and
  \<^verbatim>\<open>'SUBMITTED'\<close>, so the approval is always rolled back.
\<close>

theorem workflow_approval_never_applies:
  assumes "vr_id v \<in> vr_id ` set (virements s)"
  shows "workflow_approve_virement (vr_id v) s = Inl VirementError"
proof -
  obtain u where u: "find_row vr_id (vr_id v) (virements s) = Some u"
    using assms by (cases "find_row vr_id (vr_id v) (virements s)") (auto simp: find_row_None_iff)
  then have "vr_id u = vr_id v" using find_row_SomeD [OF u] by simp
  with u assms show ?thesis
    by (simp add: workflow_approve_virement_def auto_apply_virement_def approve_and_apply_virement_def Let_def)
qed

theorem workflow_approval_never_applies_witness:
  "workflow_approve_virement 1 demo_pending = Inl VirementError"
  using workflow_approval_never_applies [of demo_virement demo_pending]
  by (simp add: demo_virement_def demo_pending_def)

end
