(* ===== verification/Postings.thy ===== *)
theory Postings
  imports Ledger
begin

text \<open>
  The ways a service posts a journal other than through \<open>post_new_journal\<close>: a header created with its
  final status whose lines go straight to the GL writer (\<^verbatim>\<open>gl_posting.py\<close>), a draft that is saved as
  posted, and the writer of \<^verbatim>\<open>base_posting.py\<close>.  All have the effect \<open>appended\<close>: one more balanced
  posted journal, whose lines are in the buckets.
\<close>

section \<open>The writers\<close>

definition debit_entry :: "nat \<Rightarrow> rat \<Rightarrow> jline" where
  "debit_entry a x = \<lparr>l_account = a, l_debit = x, l_credit = 0, l_ncoa = None, l_asset = None\<rparr>"

definition credit_entry :: "nat \<Rightarrow> rat \<Rightarrow> jline" where
  "credit_entry a x = \<lparr>l_account = a, l_debit = 0, l_credit = x, l_ncoa = None, l_asset = None\<rparr>"

definition update_gl_from_journal ::
    "nat \<Rightarrow> nat option \<Rightarrow> nat option \<Rightarrow> nat option \<Rightarrow> nat option \<Rightarrow> 'z budget_state_scheme \<Rightarrow> err + 'z budget_state_scheme" where
  "update_gl_from_journal i fund func program geo s =
     (case journal_of i s of
        None \<Rightarrow> Inl DoesNotExist
      | Some j \<Rightarrow> update_gl_balances (j\<lparr>j_fund := fill fund (j_fund j), j_function := fill func (j_function j),
                                       j_program := fill program (j_program j), j_geo := fill geo (j_geo j)\<rparr>) s)"

definition post_direct :: "journal \<Rightarrow> jline list \<Rightarrow> 'z budget_state_scheme \<Rightarrow> err + (nat \<times> 'z budget_state_scheme)" where
  \<comment> \<open>create a header with its final status, create its lines, write the GL balances; \<open>post_journal\<close> is not called\<close>
  "post_direct h ls s =
     rbind (insert_journal h s)
       (\<lambda>(i, s1). rbind (create_lines i ls s1)
         (\<lambda>s2. rbind (update_gl_from_journal i (j_fund h) (j_function h) (j_program h) (j_geo h) s2)
           (\<lambda>s3. Inr (i, s3))))"

definition base_update_gl_balances :: "nat \<Rightarrow> 'z budget_state_scheme \<Rightarrow> err + 'z budget_state_scheme" where
  \<comment> \<open>\<^verbatim>\<open>BasePostingService._update_gl_balances\<close>, which also flips an unposted header\<close>
  "base_update_gl_balances i s =
     (case journal_of i s of
        None \<Rightarrow> Inl DoesNotExist
      | Some j \<Rightarrow>
          rbind (update_gl_balances j s)
            (\<lambda>s1. if j_status j \<noteq> J_Posted then save_journal (Some [F_status]) (j\<lparr>j_status := J_Posted\<rparr>) s1 else Inr s1))"

section \<open>Their effect\<close>

lemma create_lines_append: "create_lines i (xs @ ys) s = rbind (create_lines i xs s) (create_lines i ys)"
  unfolding create_lines_def by (induction xs arbitrary: s) (auto simp: rbind_def split: sum.splits)

definition direct_posted :: "journal \<Rightarrow> jline list \<Rightarrow> journal \<Rightarrow> 'z budget_state_scheme \<Rightarrow> 'z budget_state_scheme \<Rightarrow> bool" where
  \<comment> \<open>the effect of \<open>post_direct\<close>\<close>
  "direct_posted h ls j s s' \<longleftrightarrow>
     (\<exists>doc sq. j = h\<lparr>j_id := fresh_pk j_id (journals s), j_document := doc, j_lines := map round_line ls\<rparr>
        \<and> s' = s\<lparr>sequences := sq, journals := journals s @ [j], gl_balances := gl_post j (gl_balances s)\<rparr>)
     \<and> lines_ok j \<and> balanced j \<and> journal_unique j (journals s)"

lemma update_gl_same_dimensions:
  "journal_of i s = Some j \<Longrightarrow> j_fund j = f \<Longrightarrow> j_function j = g \<Longrightarrow> j_program j = p \<Longrightarrow> j_geo j = q \<Longrightarrow>
     update_gl_from_journal i f g p q s = update_gl_balances j s"
  by (auto simp: update_gl_from_journal_def fill_def)

lemma insert_create:
  assumes "insert_journal h s = Inr (i, s1)" and "create_lines i ls s1 = Inr s2" and "keys_ok s"
  obtains j doc sq where "i = j_id j"
    "j = h\<lparr>j_id := fresh_pk j_id (journals s), j_document := doc, j_lines := map round_line ls\<rparr>"
    "s2 = s\<lparr>sequences := sq, journals := journals s @ [j]\<rparr>" "journal_of i s2 = Some j" "lines_ok j"
    "journal_unique j (journals s)"
proof -
  from assms(1) obtain doc sq where i: "i = fresh_pk j_id (journals s)"
    and s1: "s1 = s\<lparr>sequences := sq, journals := journals s @ [h\<lparr>j_id := i, j_document := doc, j_lines := []\<rparr>]\<rparr>"
    and u: "journal_unique (h\<lparr>j_id := i, j_document := doc, j_lines := []\<rparr>) (journals s)"
    by (rule insert_journalD)
  let ?h = "h\<lparr>j_id := i, j_document := doc, j_lines := []\<rparr>"
  define j where "j = h\<lparr>j_id := i, j_document := doc, j_lines := map round_line ls\<rparr>"
  have h: "journal_of i s1 = Some ?h"
    by (simp add: journal_of_def s1 find_row_append i)
  have "keys_ok s1" using assms(3) by (auto simp: keys_ok_def s1 i)
  from create_linesD [OF assms(2) h this]
  have s2: "s2 = s1\<lparr>journals := put_row j_id j (journals s1)\<rparr>" and ck: "\<forall>l \<in> set ls. line_check (round_line l)"
    by (simp_all add: j_def)
  have "put_row j_id j (journals s @ [?h]) = journals s @ [j]"
    by (rule put_row_last) (simp_all add: j_def i)
  then have s2': "s2 = s\<lparr>sequences := sq, journals := journals s @ [j]\<rparr>" by (simp add: s2 s1)
  have "journal_of i s2 = Some j" by (simp add: journal_of_def s2' find_row_append i j_def)
  moreover have "lines_ok j" using ck by (auto simp: lines_ok_def j_def)
  moreover have "journal_unique j (journals s)" using u by (simp add: journal_unique_def j_def)
  ultimately show ?thesis using that [of j doc sq] s2' i by (simp add: j_def)
qed

lemma post_directD:
  assumes "post_direct h ls s = Inr (i, s')" and "keys_ok s"
  obtains j where "i = j_id j" "direct_posted h ls j s s'"
proof -
  obtain s1 s2 where 1: "insert_journal h s = Inr (i, s1)" "create_lines i ls s1 = Inr s2"
    and 2: "update_gl_from_journal i (j_fund h) (j_function h) (j_program h) (j_geo h) s2 = Inr s'"
    using assms(1) by (auto simp: post_direct_def rbind_eq_Inr)
  obtain j doc sq where j: "i = j_id j" "j = h\<lparr>j_id := fresh_pk j_id (journals s), j_document := doc, j_lines := map round_line ls\<rparr>"
    and s2': "s2 = s\<lparr>sequences := sq, journals := journals s @ [j]\<rparr>"
    and J: "journal_of i s2 = Some j" "lines_ok j" "journal_unique j (journals s)"
    using insert_create [OF 1 assms(2)] by metis
  have i: "i = fresh_pk j_id (journals s)" using j by simp
  have g: "update_gl_balances j s2 = Inr s'" using 2 J(1) by (simp add: update_gl_same_dimensions j(2))
  then have b: "balanced j" and s': "s' = s2\<lparr>gl_balances := gl_post j (gl_balances s2)\<rparr>"
    by (auto simp: update_gl_balances_def assert_balanced_def balanced_def gl_post_def rbind_eq_Inr split: if_splits)
  have "direct_posted h ls j s s'"
    using b J(2,3) unfolding direct_posted_def by (intro conjI exI [of _ doc] exI [of _ sq]) (simp_all add: s' s2' j(2))
  with j(1) show ?thesis by (rule that)
qed

lemma direct_postedD:
  assumes "direct_posted h ls j s s'"
  shows "journals s' = journals s @ [j]" "gl_balances s' = gl_post j (gl_balances s)"
    "journal_of (j_id j) s' = Some j" "j_lines j = map round_line ls" "j_status j = j_status h"
    "j_source_module j = j_source_module h" "j_source_id j = j_source_id h" "j_date j = j_date h"
    "balanced j" "lines_ok j" "appropriations s' = appropriations s" "j_id j = fresh_pk j_id (journals s)"
    "journal_of k s = Some x \<Longrightarrow> journal_of k s' = Some x" "\<exists>sq gl. s' = s\<lparr>sequences := sq, journals := journals s @ [j], gl_balances := gl\<rparr>"
  using assms by (auto simp: direct_posted_def journal_of_def find_row_append find_row_None_iff)

lemma ledger_ok_direct:
  assumes "ledger_ok s" and "direct_posted h ls j s s'" and "j_status h = J_Posted"
  shows "ledger_ok s'"
proof -
  have "j_id j \<notin> j_id ` set (journals s)" using direct_postedD(12) [OF assms(2)] by simp
  then show ?thesis
    using assms(1,3) direct_postedD [OF assms(2)] by (simp add: ledger_ok_def rows_ok_append)
qed

interpretation direct: posting_service "\<lambda>h ls u s. post_direct (h\<lparr>j_status := J_Posted, j_posted_by := u\<rparr>) ls s"
  ledger_ok journal_of "\<lambda>a s. account_net a (gl_balances s)"
proof
  fix s :: "'z budget_state_scheme" and h ls u i s'
  assume inv: "ledger_ok s" and post: "post_direct (h\<lparr>j_status := J_Posted, j_posted_by := u\<rparr>) ls s = Inr (i, s')"
  obtain j where j: "i = j_id j" "direct_posted (h\<lparr>j_status := J_Posted, j_posted_by := u\<rparr>) ls j s s'"
    using post_directD [OF post ledger_okD(1) [OF inv]] by metis
  show "ledger_ok s'" using ledger_ok_direct [OF inv j(2)] by simp
  show "\<exists>j. journal_of i s' = Some j \<and> j_status j = J_Posted \<and> balanced j
          \<and> j_lines j = map round_line ls \<and> j_source_id j = j_source_id h
          \<and> j_source_module j = j_source_module h"
    using direct_postedD [OF j(2)] j(1) by auto
  show "journal_of k s' = Some x" if "journal_of k s = Some x" for k x
    using direct_postedD(13) [OF j(2) that] .
  show "account_net a (gl_balances s') = account_net a (gl_balances s) + lines_net a (map round_line ls)" for a
    using direct_postedD [OF j(2)] by (simp add: account_net_gl_post)
qed

section \<open>One more posted journal\<close>

definition appended :: "journal \<Rightarrow> 'z budget_state_scheme \<Rightarrow> 'z budget_state_scheme \<Rightarrow> bool" where
  \<comment> \<open>the common effect of every way to post\<close>
  "appended j s s' \<longleftrightarrow>
     (\<exists>sq ap au. recached (appropriations s) ap
        \<and> s' = s\<lparr>sequences := sq, journals := journals s @ [j], appropriations := ap,
             gl_balances := gl_post j (gl_balances s), je_audit := au\<rparr>)
     \<and> j_id j = fresh_pk j_id (journals s) \<and> lines_ok j \<and> balanced j \<and> j_status j = J_Posted"

lemma appendedI:
  assumes "s' = s\<lparr>sequences := sq, journals := journals s @ [j], appropriations := ap,
             gl_balances := gl_post j (gl_balances s), je_audit := au\<rparr>"
    and "recached (appropriations s) ap" and "j_id j = fresh_pk j_id (journals s)" and "lines_ok j" and "balanced j"
    and "j_status j = J_Posted"
  shows "appended j s s'"
  using assms unfolding appended_def by blast

lemma appendedD:
  assumes "appended j s s'"
  shows "journals s' = journals s @ [j]" "gl_balances s' = gl_post j (gl_balances s)" "journal_of (j_id j) s' = Some j"
    "recached (appropriations s) (appropriations s')" "lines_ok j" "balanced j" "j_status j = J_Posted"
    "journal_of k s = Some x \<Longrightarrow> journal_of k s' = Some x" "accounts s' = accounts s"
    "\<exists>sq ap au. s' = s\<lparr>sequences := sq, journals := journals s @ [j], appropriations := ap,
             gl_balances := gl_post j (gl_balances s), je_audit := au\<rparr>"
  using assms by (auto simp: appended_def journal_of_def find_row_append find_row_None_iff)

lemma appended_ledger_ok:
  assumes "ledger_ok s" and "appended j s s'"
  shows "ledger_ok s'"
proof -
  have "j_id j \<notin> j_id ` set (journals s)" using assms(2) by (simp add: appended_def)
  then show ?thesis using assms(1) appendedD [OF assms(2)] by (simp add: ledger_ok_def rows_ok_append)
qed

lemma appended_direct: "direct_posted h ls j s s' \<Longrightarrow> j_status h = J_Posted \<Longrightarrow> appended j s s'"
proof -
  assume d: "direct_posted h ls j s s'" "j_status h = J_Posted"
  obtain doc sq where j: "j = h\<lparr>j_id := fresh_pk j_id (journals s), j_document := doc, j_lines := map round_line ls\<rparr>"
    and s': "s' = s\<lparr>sequences := sq, journals := journals s @ [j], gl_balances := gl_post j (gl_balances s)\<rparr>"
    and ok: "lines_ok j" "balanced j"
    using d(1) unfolding direct_posted_def by blast
  have eq: "s' = s\<lparr>sequences := sq, journals := journals s @ [j], appropriations := appropriations s,
      gl_balances := gl_post j (gl_balances s), je_audit := je_audit s\<rparr>" unfolding s' by simp
  show ?thesis by (rule appendedI [OF eq recached_refl _ ok]) (simp_all add: j d(2))
qed

lemma appended_posted_new: "posted_new h ls u j s s' \<Longrightarrow> appended j s s'"
  unfolding posted_new_def appended_def by blast

lemma appended_account_net:
  "appended j s s' \<Longrightarrow> account_net a (gl_balances s') = account_net a (gl_balances s) + lines_net a (j_lines j)"
  by (simp add: appendedD account_net_gl_post)

definition post_saved :: "nat \<Rightarrow> nat option \<Rightarrow> 'z budget_state_scheme \<Rightarrow> err + 'z budget_state_scheme" where
  \<comment> \<open>\<^verbatim>\<open>header.status = 'Posted'; header.posted_by = user; header.save(); update_gl_from_journal(header)\<close>\<close>
  "post_saved i user s =
     (case journal_of i s of
        None \<Rightarrow> Inl DoesNotExist
      | Some j \<Rightarrow> rbind (save_journal None (j\<lparr>j_status := J_Posted, j_posted_by := user\<rparr>) s)
                    (\<lambda>s1. update_gl_from_journal i None None None None s1))"

lemma post_savedD:
  assumes "post_saved i u s2 = Inr s'" and "keys_ok s" and "lines_ok j" and "j_id j = i"
    and s2: "s2 = s\<lparr>sequences := sq, journals := journals s @ [j]\<rparr>" and "i = fresh_pk j_id (journals s)"
    and "j_status j \<noteq> J_Posted"
  shows "appended (j\<lparr>j_status := J_Posted, j_posted_by := u\<rparr>) s s'"
proof -
  let ?j = "j\<lparr>j_status := J_Posted, j_posted_by := u\<rparr>"
  have j2: "journal_of i s2 = Some j" using assms(4,6) by (simp add: journal_of_def s2 find_row_append)
  have k2: "keys_ok s2" using assms(2,4,6) by (auto simp: keys_ok_def s2)
  obtain s3 where sv: "save_journal None ?j s2 = Inr s3" and up: "update_gl_from_journal i None None None None s3 = Inr s'"
    using assms(1) j2 by (auto simp: post_saved_def rbind_eq_Inr)
  from save_journal_cases [OF sv k2] obtain old ap where o: "journal_of (j_id ?j) s2 = Some old"
    and s3: "s3 = s2\<lparr>journals := put_row j_id (write_fields (changed_fields old ?j) old ?j) (journals s2), appropriations := ap\<rparr>"
    and ap: "recached (appropriations s2) ap"
    unfolding option.case by metis
  have "old = j" using o j2 assms(4) by simp
  then have "write_fields (changed_fields old ?j) old ?j = ?j"
    by (simp add: changed_fields_def write_fields_def)
  then have s3': "s3 = s\<lparr>sequences := sq, journals := journals s @ [?j], appropriations := ap\<rparr>"
    using put_row_last [of j_id ?j j "journals s"] assms(4,6) by (simp add: s3 s2)
  have "journal_of i s3 = Some ?j" using assms(4,6) by (simp add: journal_of_def s3' find_row_append)
  then have g: "update_gl_balances ?j s3 = Inr s'" using up by (simp add: update_gl_from_journal_def fill_def)
  then have b: "balanced ?j" and s': "s' = s3\<lparr>gl_balances := gl_post ?j (gl_balances s3)\<rparr>"
    by (auto simp: update_gl_balances_def assert_balanced_def balanced_def gl_post_def rbind_eq_Inr split: if_splits)
  have eq: "s' = s\<lparr>sequences := sq, journals := journals s @ [?j], appropriations := ap,
      gl_balances := gl_post ?j (gl_balances s), je_audit := je_audit s\<rparr>" by (simp add: s' s3')
  have "recached (appropriations s) ap" using ap by (simp add: s2)
  then show ?thesis
    by (rule appendedI [OF eq _ _ _ b]) (use assms(3,4,6) in \<open>simp_all add: lines_ok_def\<close>)
qed

lemma post_draftD:
  assumes "post_journal i u force s2 = Inr s'" and "keys_ok s" and "lines_ok j" and "j_id j = i"
    and s2: "s2 = s\<lparr>sequences := sq, journals := journals s @ [j]\<rparr>" and "i = fresh_pk j_id (journals s)"
  shows "\<exists>j'. appended j' s s' \<and> same_document j j'"
proof -
  have j2: "journal_of i s2 = Some j" using assms(4,6) by (simp add: journal_of_def s2 find_row_append)
  have k2: "keys_ok s2" using assms(2,4,6) by (auto simp: keys_ok_def s2)
  from post_journalD [OF assms(1) k2] obtain k j' where "journal_of i s2 = Some k" "posting_effect k u j' s2 s'" by metis
  then have e: "posting_effect j u j' s2 s'" using j2 by simp
  then obtain ap where d: "same_document j j'" "j_status j' = J_Posted" "total_debit (j_lines j) = total_credit (j_lines j)"
    and ap: "recached (appropriations s2) ap" and s': "s' = s2\<lparr>journals := put_row j_id j' (journals s2), appropriations := ap,
              gl_balances := gl_post j' (gl_balances s2), je_audit := je_audit s2 @ [(''POST'', j_id j)]\<rparr>"
    by (auto simp: posting_effect_def)
  have id: "j_id j' = j_id j" "j_lines j' = j_lines j" using d(1) by (simp_all add: same_document_def)
  have "put_row j_id j' (journals s2) = journals s @ [j']"
    using put_row_last [of j_id j' j "journals s"] assms(4,6) id by (simp add: s2)
  then have eq: "s' = s\<lparr>sequences := sq, journals := journals s @ [j'], appropriations := ap,
      gl_balances := gl_post j' (gl_balances s), je_audit := je_audit s @ [(''POST'', j_id j)]\<rparr>" by (simp add: s' s2)
  have "recached (appropriations s) ap" using ap by (simp add: s2)
  moreover have "lines_ok j'" "balanced j'" using assms(3) d(3) id by (simp_all add: lines_ok_def balanced_def)
  ultimately have "appended j' s s'" using d(2) id assms(4,6) by (intro appendedI [OF eq]) simp_all
  with d(1) show ?thesis by blast
qed

end
