(* ===== verification/Assets.thy ===== *)
theory Assets
  imports Postings
begin

text \<open>
  Fixed assets: the register and its number and default rules (\<^verbatim>\<open>accounting/models/assets.py\<close>), the
  automatic capitalisation of debits on flagged accounts (\<^verbatim>\<open>asset_capitalization.py\<close>) and the balance
  check of \<^verbatim>\<open>base_posting.py\<close> that runs it.  Names, descriptions and memos are not modelled, nor is
  the link of an asset back to its journal line.
\<close>

section \<open>Data\<close>

record asset_category =
  cg_id :: nat
  cg_code :: string
  cg_name :: string
  cg_active :: bool
  cg_cost :: "nat option"
  cg_accumulated :: "nat option"
  cg_expense :: "nat option"
  cg_method :: string
  cg_life :: int
  cg_residual_amount :: bool \<comment> \<open>\<^verbatim>\<open>residual_value_type == 'amount'\<close>\<close>
  cg_residual :: rat

record fixed_asset =
  fa_id :: nat
  fa_number :: string
  fa_category :: string
  fa_acquired :: date
  fa_cost :: rat
  fa_salvage :: rat
  fa_life :: int
  fa_method :: string
  fa_accumulated :: rat
  fa_account :: "nat option"
  fa_expense :: "nat option"
  fa_accum_account :: "nat option"
  fa_mda :: "nat option"
  fa_fund :: "nat option"
  fa_function :: "nat option"
  fa_program :: "nat option"
  fa_geo :: "nat option"
  fa_status :: string

record schedule =
  sc_asset :: nat
  sc_date :: date
  sc_amount :: rat
  sc_journal :: "nat option"
  sc_posted :: bool

record asset_state = budget_state +
  auto_create :: "nat list" \<comment> \<open>the accounts with \<^verbatim>\<open>auto_create_asset\<close>\<close>
  account_category :: "(nat \<times> nat) list" \<comment> \<open>\<^verbatim>\<open>Account.asset_category\<close>\<close>
  asset_categories :: "asset_category list"
  fixed_assets :: "fixed_asset list"
  schedules :: "schedule list"

section \<open>The register\<close>

lemma is_money_default [simp, money_simps]: "is_money (quantize_default x)"
  by (auto simp: is_money_iff quantize_default_def)

definition net_book_value :: "fixed_asset \<Rightarrow> rat" where
  "net_book_value a = fa_cost a - fa_accumulated a"

definition calculate_annual_depreciation :: "fixed_asset \<Rightarrow> rat" where
  "calculate_annual_depreciation a =
     (let base = fa_cost a - fa_salvage a; nbv = net_book_value a
      in if fa_life a \<le> 0 \<or> base \<le> 0 then 0
         else if fa_method a = ''Straight-Line'' then quantize_default (dec_div base (of_int (fa_life a)))
         else if fa_method a = ''Declining Balance'' then
           let amount = quantize_default (dec_mul nbv (dec_div 2 (of_int (fa_life a))))
           in if nbv \<le> fa_salvage a then 0
              else if nbv - amount < fa_salvage a then nbv - fa_salvage a else amount
         else 0)"

definition category_named :: "string \<Rightarrow> 'z asset_state_scheme \<Rightarrow> asset_category option" where
  "category_named c s =
     (let active = filter cg_active (asset_categories s)
      in case qs_first cg_code (filter (\<lambda>g. cg_code g = c) active) of
           Some g \<Rightarrow> Some g
         | None \<Rightarrow> qs_first cg_code (filter (\<lambda>g. cg_name g = c) active))"

definition inherit_defaults :: "fixed_asset \<Rightarrow> 'z asset_state_scheme \<Rightarrow> fixed_asset" where
  \<comment> \<open>the second half of \<^verbatim>\<open>FixedAsset.save\<close>\<close>
  "inherit_defaults a s =
     (if fa_category a \<noteq> [] \<and> (fa_life a = 0 \<or> fa_method a = [] \<or> fa_salvage a = 0)
      then (case category_named (fa_category a) s of
              None \<Rightarrow> a
            | Some g \<Rightarrow>
                a\<lparr>fa_life := (if fa_life a = 0 then cg_life g else fa_life a),
                  fa_method := (if fa_method a \<noteq> [] then fa_method a
                                else if cg_method g = [] then ''Straight-Line'' else cg_method g),
                  fa_salvage := (if fa_salvage a = 0 \<and> cg_residual_amount g then cg_residual g else fa_salvage a)\<rparr>)
      else a)"

definition stored_asset :: "fixed_asset \<Rightarrow> fixed_asset" where
  \<comment> \<open>the amounts as the \<^verbatim>\<open>numeric(15,2)\<close> columns hold them\<close>
  "stored_asset a = a\<lparr>fa_cost := db_decimal (fa_cost a), fa_salvage := db_decimal (fa_salvage a),
     fa_accumulated := db_decimal (fa_accumulated a)\<rparr>"

definition generate_asset_number :: "int \<Rightarrow> 'z asset_state_scheme \<Rightarrow> string" where
  "generate_asset_number year s =
     (let prefix = ''FA-'' @ show_int year @ ''-'';
          taken = filter (has_prefix prefix) (map fa_number (fixed_assets s));
          next = (case taken of
                    [] \<Rightarrow> 1
                  | _ \<Rightarrow> (case parse_int (after_last_dash (Max (set taken))) of Some n \<Rightarrow> n + 1 | None \<Rightarrow> 1))
      in prefix @ zpad 5 (nat next))"

definition insert_asset :: "fixed_asset \<Rightarrow> 'z asset_state_scheme \<Rightarrow> err + (nat \<times> 'z asset_state_scheme)" where
  \<comment> \<open>the first \<^verbatim>\<open>FixedAsset.save()\<close>\<close>
  "insert_asset a s =
     (let k = fresh_pk fa_id (fixed_assets s);
          num = (if fa_number a = [] then generate_asset_number (d_year (fa_acquired a)) s else fa_number a);
          row = stored_asset (inherit_defaults (a\<lparr>fa_id := k, fa_number := num\<rparr>) s)
      in if num \<in> fa_number ` set (fixed_assets s) then Inl IntegrityError
         else Inr (k, s\<lparr>fixed_assets := fixed_assets s @ [row]\<rparr>))"

definition save_asset :: "fixed_asset \<Rightarrow> 'z asset_state_scheme \<Rightarrow> 'z asset_state_scheme" where
  \<comment> \<open>\<^verbatim>\<open>FixedAsset.save()\<close> of an existing row that has its number\<close>
  "save_asset a s = s\<lparr>fixed_assets := put_row fa_id (stored_asset (inherit_defaults a s)) (fixed_assets s)\<rparr>"

section \<open>Capitalisation\<close>

definition asset_eligible :: "jline \<Rightarrow> 'z asset_state_scheme \<Rightarrow> bool" where
  "asset_eligible l s \<longleftrightarrow> l_account l \<in> set (auto_create s) \<and> 0 < l_debit l \<and> l_asset l = None"

definition capitalised_asset :: "journal \<Rightarrow> jline \<Rightarrow> asset_category \<Rightarrow> nat \<Rightarrow> fixed_asset" where
  "capitalised_asset j l g cost =
     \<lparr>fa_id = 0, fa_number = [], fa_category = cg_code g, fa_acquired = j_date j, fa_cost = l_debit l,
      fa_salvage = 0, fa_life = 0, fa_method = ''Straight-Line'', fa_accumulated = 0, fa_account = Some cost,
      fa_expense = cg_expense g, fa_accum_account = cg_accumulated g, fa_mda = j_mda j, fa_fund = j_fund j,
      fa_function = j_function j, fa_program = j_program j, fa_geo = j_geo j, fa_status = ''Active''\<rparr>"

definition stamp_line :: "nat \<Rightarrow> nat \<Rightarrow> nat \<Rightarrow> 'z asset_state_scheme \<Rightarrow> 'z asset_state_scheme" where
  \<comment> \<open>\<^verbatim>\<open>JournalLine.objects.filter(pk=...).update(asset=...)\<close> on the \<open>n\<close>-th line of journal \<open>i\<close>\<close>
  "stamp_line i n k s =
     s\<lparr>journals := upd_row j_id i (\<lambda>j. j\<lparr>j_lines := (j_lines j)[n := (j_lines j ! n)\<lparr>l_asset := Some k\<rparr>]\<rparr>) (journals s)\<rparr>"

definition capitalise_line :: "nat \<Rightarrow> nat \<Rightarrow> 'z asset_state_scheme \<Rightarrow> err + 'z asset_state_scheme" where
  \<comment> \<open>one iteration of the loop over the lines the journal had\<close>
  "capitalise_line i n s =
     (case journal_of i s of
        None \<Rightarrow> Inl DoesNotExist
      | Some j \<Rightarrow>
          let l = j_lines j ! n
          in if \<not> asset_eligible l s then Inr s
             else (case Option.bind (map_of (account_category s) (l_account l))
                          (\<lambda>g. find_row cg_id g (asset_categories s)) of
                     None \<Rightarrow> Inl ValidationError
                   | Some g \<Rightarrow>
                       (case cg_cost g of
                          None \<Rightarrow> Inl ValidationError
                        | Some cost \<Rightarrow>
                            rbind (insert_asset (capitalised_asset j l g cost) s)
                              (\<lambda>(k, s1). rbind (create_lines i
                                   [\<lparr>l_account = l_account l, l_debit = 0, l_credit = l_debit l, l_ncoa = None, l_asset = Some k\<rparr>,
                                    \<lparr>l_account = cost, l_debit = l_debit l, l_credit = 0, l_ncoa = None, l_asset = Some k\<rparr>] s1)
                                 (\<lambda>s2. Inr (stamp_line i n k s2))))))"

definition apply_asset_capitalization :: "nat \<Rightarrow> 'z asset_state_scheme \<Rightarrow> err + 'z asset_state_scheme" where
  "apply_asset_capitalization i s =
     (case journal_of i s of
        None \<Rightarrow> Inr s
      | Some j \<Rightarrow> rfold (capitalise_line i) [0 ..< length (j_lines j)] s)"

section \<open>Posting a journal that was created as posted\<close>

definition validate_journal_balanced :: "nat \<Rightarrow> 'z asset_state_scheme \<Rightarrow> err + 'z asset_state_scheme" where
  \<comment> \<open>\<^verbatim>\<open>BasePostingService._validate_journal_balanced\<close>\<close>
  "validate_journal_balanced i s =
     (case apply_asset_capitalization i s of
        Inl e \<Rightarrow> Inl TransactionPostingError
      | Inr s1 \<Rightarrow>
          (case journal_of i s1 of
             None \<Rightarrow> Inl TransactionPostingError
           | Some j \<Rightarrow>
               if length (j_lines j) < 2 \<or> total_debit (j_lines j) \<noteq> total_credit (j_lines j)
               then Inl TransactionPostingError else Inr s1))"

definition post_validated :: "journal \<Rightarrow> jline list \<Rightarrow> 'z asset_state_scheme \<Rightarrow> err + (nat \<times> 'z asset_state_scheme)" where
  \<comment> \<open>the shape of the domain posting services: header, lines, \<^verbatim>\<open>_validate_journal_balanced\<close>, \<^verbatim>\<open>_update_gl_balances\<close>\<close>
  "post_validated h ls s =
     rbind (insert_journal h s)
       (\<lambda>(i, s1). rbind (create_lines i ls s1)
         (\<lambda>s2. rbind (validate_journal_balanced i s2)
           (\<lambda>s3. rbind (base_update_gl_balances i s3) (\<lambda>s4. Inr (i, s4)))))"

section \<open>The validated posting\<close>

lemma capitalise_nothing:
  assumes "journal_of i s = Some j" and "\<forall>l \<in> set (j_lines j). \<not> asset_eligible l s"
  shows "apply_asset_capitalization i s = Inr s"
proof -
  have "rfold (capitalise_line i) ns s = Inr s" if "set ns \<subseteq> {..< length (j_lines j)}" for ns
    using that assms by (induction ns) (auto simp: capitalise_line_def Let_def rbind_def)
  then have "rfold (capitalise_line i) [0 ..< length (j_lines j)] s = Inr s" by (simp add: atLeast0LessThan)
  then show ?thesis using assms(1) by (simp add: apply_asset_capitalization_def)
qed

lemma post_validatedD:
  assumes "post_validated h ls s = Inr (i, s')" and "keys_ok s" and "j_status h = J_Posted"
    and "\<forall>l \<in> set ls. 0 < l_debit (round_line l) \<longrightarrow> l_account l \<notin> set (auto_create s)"
  obtains j where "i = j_id j" "direct_posted h ls j s s'" "2 \<le> length ls"
proof -
  obtain s1 s2 s3 where 1: "insert_journal h s = Inr (i, s1)" "create_lines i ls s1 = Inr s2"
    and 2: "validate_journal_balanced i s2 = Inr s3" "base_update_gl_balances i s3 = Inr s'"
    using assms(1) by (auto simp: post_validated_def rbind_eq_Inr)
  obtain j doc sq where j: "i = j_id j" "j = h\<lparr>j_id := fresh_pk j_id (journals s), j_document := doc, j_lines := map round_line ls\<rparr>"
    and s2': "s2 = s\<lparr>sequences := sq, journals := journals s @ [j]\<rparr>"
    and J: "journal_of i s2 = Some j" "lines_ok j" "journal_unique j (journals s)"
    using insert_create [OF 1 assms(2)] by metis
  have "\<forall>l \<in> set (j_lines j). \<not> asset_eligible l s2" using assms(4) by (auto simp: asset_eligible_def j(2) s2')
  from capitalise_nothing [OF J(1) this] have s3: "s3 = s2" and b: "balanced j" "2 \<le> length ls"
    using 2(1) J(1) by (auto simp: validate_journal_balanced_def balanced_def j(2) split: if_splits)
  have s': "s' = s2\<lparr>gl_balances := gl_post j (gl_balances s2)\<rparr>"
    using 2(2) J(1) assms(3) by (auto simp: base_update_gl_balances_def s3 j(2) update_gl_balances_def gl_post_def rbind_eq_Inr)
  have "direct_posted h ls j s s'"
    using b J(2,3) unfolding direct_posted_def by (intro conjI exI [of _ doc] exI [of _ sq]) (simp_all add: s' s2' j(2))
  with j(1) show ?thesis using b(2) by (rule that)
qed

end
