(* ===== verification/Capital.thy ===== *)
theory Capital
  imports Assets
begin

text \<open>
  What the automatic capitalisation of \<^verbatim>\<open>asset_capitalization.py\<close> does to a journal: it creates
  one asset per flagged debit, keeps the balance, and does nothing when it runs again.
\<close>

section \<open>One line\<close>

definition capitalised_lines :: "nat \<Rightarrow> nat \<Rightarrow> nat \<Rightarrow> jline list \<Rightarrow> jline list" where
  \<comment> \<open>the lines after the \<open>n\<close>-th became asset \<open>k\<close> on cost account \<open>c\<close>\<close>
  "capitalised_lines n k c ls =
     ls[n := (ls ! n)\<lparr>l_asset := Some k\<rparr>]
     @ [\<lparr>l_account = l_account (ls ! n), l_debit = 0, l_credit = l_debit (ls ! n), l_ncoa = None, l_asset = Some k\<rparr>,
        \<lparr>l_account = c, l_debit = l_debit (ls ! n), l_credit = 0, l_ncoa = None, l_asset = Some k\<rparr>]"

definition capital_ok :: "nat \<Rightarrow> journal \<Rightarrow> 'z asset_state_scheme \<Rightarrow> bool" where
  "capital_ok i j s \<longleftrightarrow> keys_ok s \<and> journal_of i s = Some j \<and> lines_ok j"

lemma capitalised_lines_ok:
  assumes "lines_ok j" and "n < length (j_lines j)" and "0 < l_debit (j_lines j ! n)"
    and "j_lines j' = capitalised_lines n k c (j_lines j)"
  shows "lines_ok j'"
proof -
  have l: "line_check l \<and> is_money (l_debit l) \<and> is_money (l_credit l)" if "l \<in> set (j_lines j)" for l
    using assms(1) that by (simp add: lines_ok_def)
  have "j_lines j ! n \<in> set (j_lines j)" using assms(2) by simp
  then have n: "line_check ((j_lines j ! n)\<lparr>l_asset := Some k\<rparr>)" "is_money (l_debit (j_lines j ! n))" "is_money (l_credit (j_lines j ! n))"
    using l [of "j_lines j ! n"] by (auto simp: line_check_def)
  show ?thesis unfolding lines_ok_def assms(4) capitalised_lines_def
    using l n assms(3) by (auto simp: line_check_def dest!: set_update_subset_insert [THEN subsetD])
qed

lemma capitalise_lineD:
  assumes "capitalise_line i n s = Inr s'" and "capital_ok i j s" and "n < length (j_lines j)"
  obtains "\<not> asset_eligible (j_lines j ! n) s" "s' = s"
  | k c j' where "asset_eligible (j_lines j ! n) s" "capital_ok i j' s'" "j_lines j' = capitalised_lines n k c (j_lines j)"
    "auto_create s' = auto_create s" "length (fixed_assets s') = Suc (length (fixed_assets s))"
proof (cases "asset_eligible (j_lines j ! n) s")
  case False
  then show ?thesis using assms that(1) by (simp add: capitalise_line_def capital_ok_def)
next
  case True
  let ?l = "j_lines j ! n"
  have j: "journal_of i s = Some j" "keys_ok s" "lines_ok j" using assms(2) by (simp_all add: capital_ok_def)
  have id: "j_id j = i" "j \<in> set (journals s)" using journal_of_ids [OF j(1)] by simp_all
  obtain c g k s1 s2 where
    ins: "insert_asset (capitalised_asset j ?l g c) s = Inr (k, s1)"
    and cr: "create_lines i [\<lparr>l_account = l_account ?l, l_debit = 0, l_credit = l_debit ?l, l_ncoa = None, l_asset = Some k\<rparr>,
            \<lparr>l_account = c, l_debit = l_debit ?l, l_credit = 0, l_ncoa = None, l_asset = Some k\<rparr>] s1 = Inr s2"
    and s': "s' = stamp_line i n k s2"
    using assms(1) True j(1) by (auto simp: capitalise_line_def Let_def rbind_eq_Inr split: option.splits)
  obtain a where s1: "s1 = s\<lparr>fixed_assets := fixed_assets s @ [a]\<rparr>"
    using ins by (auto simp: insert_asset_def Let_def split: if_splits)
  have j1: "journal_of i s1 = Some j" "keys_ok s1" using j by (auto simp: journal_of_def keys_ok_def s1)
  have "?l \<in> set (j_lines j)" using assms(3) by simp
  then have m: "is_money (l_debit ?l)" using j(3) by (simp add: lines_ok_def)
  define j1 where "j1 = j\<lparr>j_lines := j_lines j @
        [\<lparr>l_account = l_account ?l, l_debit = 0, l_credit = l_debit ?l, l_ncoa = None, l_asset = Some k\<rparr>,
         \<lparr>l_account = c, l_debit = l_debit ?l, l_credit = 0, l_ncoa = None, l_asset = Some k\<rparr>]\<rparr>"
  have s2: "s2 = s1\<lparr>journals := put_row j_id j1 (journals s1)\<rparr>"
    using create_linesD [OF cr j1] m by (simp add: j1_def)
  have f: "find_row j_id i (journals s2) = Some j1" "distinct (map j_id (journals s2))"
    using j(2) id by (auto simp: s2 s1 j1_def keys_ok_def)
  let ?f = "\<lambda>j. j\<lparr>j_lines := (j_lines j)[n := (j_lines j ! n)\<lparr>l_asset := Some k\<rparr>]\<rparr>"
  have "s' = s2\<lparr>journals := put_row j_id (?f j1) (journals s2)\<rparr>"
    unfolding s' stamp_line_def using upd_row_put_row [OF f, of ?f] id by (simp add: j1_def)
  then have s'': "s' = s1\<lparr>journals := put_row j_id (?f j1) (journals s1)\<rparr>" by (simp add: s2 j1_def)
  have lines: "j_lines (?f j1) = capitalised_lines n k c (j_lines j)"
    using assms(3) by (simp add: j1_def capitalised_lines_def list_update_append nth_append)
  have "0 < l_debit ?l" using True by (simp add: asset_eligible_def)
  then have "lines_ok (?f j1)" using capitalised_lines_ok [OF j(3) assms(3) _ lines] by blast
  moreover have "journal_of i s' = Some (?f j1)" "keys_ok s'"
    using j(2) id by (auto simp: s'' s1 j1_def journal_of_def keys_ok_def)
  ultimately have "capital_ok i (?f j1) s'" by (simp add: capital_ok_def)
  then show ?thesis using that(2) [OF True _ lines] by (simp add: s'' s1)
qed

section \<open>The whole journal\<close>

lemma eligible_iff: "asset_eligible l s \<longleftrightarrow> l_account l \<in> set (auto_create s) \<and> 0 < l_debit l \<and> l_asset l = None"
  by (simp add: asset_eligible_def)

lemma capitalised_eligible:
  assumes "n < length ls"
  shows "filter (\<lambda>l. asset_eligible l s) (capitalised_lines n k c ls)
    = filter (\<lambda>l. asset_eligible l s) (take n ls) @ filter (\<lambda>l. asset_eligible l s) (drop (Suc n) ls)"
  using assms by (simp add: capitalised_lines_def upd_conv_take_nth_drop eligible_iff)

lemma filter_at:
  assumes "n < length ls" and "P (ls ! n)"
  shows "length (filter P ls) = Suc (length (filter P (take n ls) @ filter P (drop (Suc n) ls)))"
proof -
  have "filter P (take n ls @ ls ! n # drop (Suc n) ls) = filter P (take n ls) @ ls ! n # filter P (drop (Suc n) ls)"
    using assms(2) by simp
  then show ?thesis using id_take_nth_drop [OF assms(1)] by simp
qed

lemma sum_list_stamp:
  assumes "n < length ls" and "\<And>l. f (l\<lparr>l_asset := Some k\<rparr>) = (f l :: rat)"
  shows "sum_list (map f (ls[n := (ls ! n)\<lparr>l_asset := Some k\<rparr>])) = sum_list (map f ls)"
proof -
  have "map f (ls[n := (ls ! n)\<lparr>l_asset := Some k\<rparr>]) = map f ls"
    using assms by (simp add: map_update) (metis list_update_id nth_map)
  then show ?thesis by simp
qed

lemma capitalised_totals:
  assumes "n < length ls"
  shows "total_debit (capitalised_lines n k c ls) - total_credit (capitalised_lines n k c ls) = total_debit ls - total_credit ls"
  using sum_list_stamp [OF assms, of l_debit k] sum_list_stamp [OF assms, of l_credit k]
  by (simp add: capitalised_lines_def total_debit_def total_credit_def)

lemma capitalise_loop:
  assumes "rfold (capitalise_line i) ns s = Inr s'" and "capital_ok i j s"
    and "\<forall>n \<in> set ns. n < N" and "N \<le> length (j_lines j)" and "\<forall>l \<in> set (drop N (j_lines j)). \<not> asset_eligible l s"
    and "\<forall>n < N. n \<notin> set ns \<longrightarrow> \<not> asset_eligible (j_lines j ! n) s" and "distinct ns"
  shows "\<exists>j'. capital_ok i j' s' \<and> auto_create s' = auto_create s \<and> (\<forall>l \<in> set (j_lines j'). \<not> asset_eligible l s')
    \<and> total_debit (j_lines j') - total_credit (j_lines j') = total_debit (j_lines j) - total_credit (j_lines j)
    \<and> length (fixed_assets s') = length (fixed_assets s) + length (filter (\<lambda>l. asset_eligible l s) (j_lines j))"
  using assms
proof (induction ns arbitrary: s j)
  case Nil
  have "\<forall>l \<in> set (take N (j_lines j)). \<not> asset_eligible l s"
    using Nil.prems(4,6) by (auto simp: in_set_conv_nth)
  moreover have "set (j_lines j) = set (take N (j_lines j)) \<union> set (drop N (j_lines j))"
    by (metis append_take_drop_id set_append)
  ultimately have "\<forall>l \<in> set (j_lines j). \<not> asset_eligible l s" using Nil.prems(5) by blast
  then show ?case using Nil.prems(1,2) by (auto simp: filter_False)
next
  case (Cons n ns)
  obtain s1 where 1: "capitalise_line i n s = Inr s1" "rfold (capitalise_line i) ns s1 = Inr s'"
    using Cons.prems(1) by (auto simp: rbind_eq_Inr)
  have n: "n < length (j_lines j)" "n < N" using Cons.prems(3,4) by auto
  show ?case
  proof (rule capitalise_lineD [OF 1(1) Cons.prems(2) n(1)])
    assume "\<not> asset_eligible (j_lines j ! n) s" "s1 = s"
    then show ?thesis using Cons.IH [of s j] 1(2) Cons.prems by auto
  next
    fix k c j1
    assume e: "asset_eligible (j_lines j ! n) s" and ok: "capital_ok i j1 s1"
      and l: "j_lines j1 = capitalised_lines n k c (j_lines j)"
      and a: "auto_create s1 = auto_create s" "length (fixed_assets s1) = Suc (length (fixed_assets s))"
    have same: "asset_eligible x s1 = asset_eligible x s" for x by (simp add: eligible_iff a(1))
    have nth: "j_lines j1 ! m = (if m = n then (j_lines j ! n)\<lparr>l_asset := Some k\<rparr> else j_lines j ! m)" if "m < N" for m
      using that Cons.prems(4) by (simp add: l capitalised_lines_def nth_append)
    have "drop N (j_lines j1) = drop N (j_lines j) @ drop (length (j_lines j)) (j_lines j1)"
      using n Cons.prems(4) by (simp add: l capitalised_lines_def)
    then have "\<forall>x \<in> set (drop N (j_lines j1)). \<not> asset_eligible x s1"
      using Cons.prems(5) by (auto simp: same l capitalised_lines_def) (auto simp: eligible_iff)
    moreover have "\<forall>m < N. m \<notin> set ns \<longrightarrow> \<not> asset_eligible (j_lines j1 ! m) s1"
      using Cons.prems(6) nth by (auto simp: same) (auto simp: eligible_iff)
    moreover have "N \<le> length (j_lines j1)" using Cons.prems(4) by (simp add: l capitalised_lines_def)
    moreover have "\<forall>m \<in> set ns. m < N" "distinct ns" using Cons.prems(3,7) by auto
    ultimately obtain j' where J: "capital_ok i j' s'" "auto_create s' = auto_create s1"
      "\<forall>l \<in> set (j_lines j'). \<not> asset_eligible l s'"
      "total_debit (j_lines j') - total_credit (j_lines j') = total_debit (j_lines j1) - total_credit (j_lines j1)"
      "length (fixed_assets s') = length (fixed_assets s1) + length (filter (\<lambda>l. asset_eligible l s1) (j_lines j1))"
      using Cons.IH [OF 1(2) ok] by blast
    have "filter (\<lambda>l. asset_eligible l s1) (j_lines j1) = filter (\<lambda>l. asset_eligible l s) (take n (j_lines j))
        @ filter (\<lambda>l. asset_eligible l s) (drop (Suc n) (j_lines j))"
      using capitalised_eligible [OF n(1), of s k c] by (simp add: same l)
    then have "length (fixed_assets s') = length (fixed_assets s) + length (filter (\<lambda>l. asset_eligible l s) (j_lines j))"
      using J(5) a(2) filter_at [OF n(1), of "\<lambda>l. asset_eligible l s", OF e] by simp
    then show ?thesis using J a(1) capitalised_totals [OF n(1), of k c] by (auto simp: l)
  qed
qed

text \<open>
  C33: Capitalising a journal creates exactly one asset per flagged debit line, keeps the difference
  of debits and credits, leaves no line of the journal to capitalise, and running it again changes
  nothing.
\<close>

theorem capitalisation_idempotent:
  assumes "apply_asset_capitalization i s = Inr s'" and "keys_ok s" and "journal_of i s = Some j" and "lines_ok j"
  shows "\<exists>j'. journal_of i s' = Some j' \<and> lines_ok j'
    \<and> total_debit (j_lines j') - total_credit (j_lines j') = total_debit (j_lines j) - total_credit (j_lines j)
    \<and> length (fixed_assets s') = length (fixed_assets s) + length (filter (\<lambda>l. asset_eligible l s) (j_lines j))
    \<and> (\<forall>l \<in> set (j_lines j'). \<not> asset_eligible l s') \<and> apply_asset_capitalization i s' = Inr s'"
proof -
  have "rfold (capitalise_line i) [0 ..< length (j_lines j)] s = Inr s'" "capital_ok i j s"
    using assms by (simp_all add: apply_asset_capitalization_def capital_ok_def)
  from capitalise_loop [OF this, of "length (j_lines j)"] obtain j' where
    "capital_ok i j' s'" "\<forall>l \<in> set (j_lines j'). \<not> asset_eligible l s'"
    "total_debit (j_lines j') - total_credit (j_lines j') = total_debit (j_lines j) - total_credit (j_lines j)"
    "length (fixed_assets s') = length (fixed_assets s) + length (filter (\<lambda>l. asset_eligible l s) (j_lines j))"
    by auto
  moreover from this(1,2) have "apply_asset_capitalization i s' = Inr s'"
    by (intro capitalise_nothing) (auto simp: capital_ok_def)
  ultimately show ?thesis by (auto simp: capital_ok_def)
qed

definition demo_capital :: asset_state where
  "demo_capital = budget_state.extend (demo_ledger\<lparr>journals := [demo_header\<lparr>j_id := 1, j_lines := demo_lines\<rparr>]\<rparr>)
     \<lparr>auto_create = [1], account_category = [(1, 5)],
      asset_categories = [\<lparr>cg_id = 5, cg_code = ''VEH'', cg_name = ''Vehicles'', cg_active = True, cg_cost = Some 2,
        cg_accumulated = None, cg_expense = None, cg_method = ''Straight-Line'', cg_life = 5,
        cg_residual_amount = True, cg_residual = 10\<rparr>],
      fixed_assets = [], schedules = []\<rparr>"

definition demo_capitalised :: asset_state where
  "demo_capitalised = projr (apply_asset_capitalization 1 demo_capital)"

theorem capitalisation_idempotent_witness:
  "length (fixed_assets demo_capitalised) = 1 \<and> apply_asset_capitalization 1 demo_capitalised = Inr demo_capitalised"
proof -
  have "\<not> isl (apply_asset_capitalization 1 demo_capital)" by code_simp
  then have r: "apply_asset_capitalization 1 demo_capital = Inr demo_capitalised" by (simp add: demo_capitalised_def)
  have k: "keys_ok demo_capital" by code_simp
  let ?j = "demo_header\<lparr>j_id := 1, j_lines := demo_lines\<rparr>"
  have j: "journal_of 1 demo_capital = Some ?j" by (simp add: journal_of_def demo_capital_def budget_state.defs)
  have l: "lines_ok ?j" by code_simp
  have n: "length (fixed_assets demo_capital) = 0" "length (filter (\<lambda>l. asset_eligible l demo_capital) demo_lines) = 1"
    by code_simp+
  show ?thesis using capitalisation_idempotent [OF r k j l] n by auto
qed

end
