(* ===== verification/Depreciation.thy ===== *)
theory Depreciation
  imports Assets
begin

text \<open>
  The monthly depreciation run (\<^verbatim>\<open>accounting/services/depreciation.py\<close>): the simulation and the live
  run, which posts one journal per asset inside a savepoint of its own.  What the run keeps of the
  ledger, and how often an asset can be depreciated.
\<close>

section \<open>The run\<close>

datatype dep_status = DS_success | DS_already_posted | DS_skipped | DS_failed

record dep_result =
  dr_asset :: nat
  dr_amount :: rat
  dr_status :: dep_status
  dr_journal :: "nat option"

definition depreciable_assets :: "nat list \<Rightarrow> 'z asset_state_scheme \<Rightarrow> fixed_asset list" where
  \<comment> \<open>no identifiers means every asset\<close>
  "depreciable_assets ids s =
     sort_key fa_number (filter (\<lambda>a. fa_status a = ''Active'' \<and> 0 < fa_cost a \<and> (ids = [] \<or> fa_id a \<in> set ids))
       (fixed_assets s))"

definition monthly_amount :: "fixed_asset \<Rightarrow> rat" where
  "monthly_amount a = quantize_default (dec_div (calculate_annual_depreciation a) 12)"

definition schedule_of :: "nat \<Rightarrow> date \<Rightarrow> 'z asset_state_scheme \<Rightarrow> schedule option" where
  "schedule_of k d s = find (\<lambda>c. sc_asset c = k \<and> sc_date c = d) (schedules s)"

definition has_accounts :: "fixed_asset \<Rightarrow> bool" where
  "has_accounts a \<longleftrightarrow> fa_expense a \<noteq> None \<and> fa_accum_account a \<noteq> None"

definition simulate_one :: "date \<Rightarrow> 'z asset_state_scheme \<Rightarrow> fixed_asset \<Rightarrow> dep_result" where
  "simulate_one d s a =
     (if \<not> has_accounts a
      then \<lparr>dr_asset = fa_id a, dr_amount = 0, dr_status = DS_skipped, dr_journal = None\<rparr>
      else if \<exists>c \<in> set (schedules s). sc_asset c = fa_id a \<and> sc_date c = d \<and> sc_posted c
      then \<lparr>dr_asset = fa_id a, dr_amount = 0, dr_status = DS_already_posted, dr_journal = None\<rparr>
      else \<lparr>dr_asset = fa_id a, dr_amount = monthly_amount a, dr_status = DS_success, dr_journal = None\<rparr>)"

definition simulate_depreciation :: "date \<Rightarrow> nat list \<Rightarrow> 'z asset_state_scheme \<Rightarrow> dep_result list" where
  "simulate_depreciation d ids s = map (simulate_one d s) (depreciable_assets ids s)"

definition get_or_create_schedule :: "fixed_asset \<Rightarrow> date \<Rightarrow> 'z asset_state_scheme \<Rightarrow> schedule \<times> 'z asset_state_scheme" where
  "get_or_create_schedule a d s =
     (case schedule_of (fa_id a) d s of
        Some c \<Rightarrow> (c, s)
      | None \<Rightarrow>
          let c = \<lparr>sc_asset = fa_id a, sc_date = d, sc_amount = monthly_amount a, sc_journal = None, sc_posted = False\<rparr>
          in (c, s\<lparr>schedules := schedules s @ [c]\<rparr>))"

definition depreciation_header :: "fixed_asset \<Rightarrow> date \<Rightarrow> journal" where
  "depreciation_header a d =
     \<lparr>j_id = 0, j_date = d,
      j_ref = ''DEP-'' @ fa_number a @ ''-'' @ zpad 4 (nat (d_year d)) @ zpad 2 (nat (d_month d)),
      j_document = [], j_mda = fa_mda a, j_fund = fa_fund a, j_function = fa_function a,
      j_program = fa_program a, j_geo = fa_geo a, j_status = J_Posted,
      j_source_module = Some ''depreciation'', j_source_id = Some (fa_id a), j_posted_by = None,
      j_is_reversed = False, j_is_deleted = False, j_lines = []\<rparr>"

definition depreciation_lines :: "fixed_asset \<Rightarrow> rat \<Rightarrow> jline list" where
  "depreciation_lines a x =
     [\<lparr>l_account = the (fa_expense a), l_debit = x, l_credit = 0, l_ncoa = None, l_asset = Some (fa_id a)\<rparr>,
      \<lparr>l_account = the (fa_accum_account a), l_debit = 0, l_credit = x, l_ncoa = None, l_asset = Some (fa_id a)\<rparr>]"

definition mark_schedule :: "nat \<Rightarrow> date \<Rightarrow> nat \<Rightarrow> 'z asset_state_scheme \<Rightarrow> 'z asset_state_scheme" where
  "mark_schedule k d i s =
     s\<lparr>schedules := map (\<lambda>c. if sc_asset c = k \<and> sc_date c = d then c\<lparr>sc_journal := Some i, sc_posted := True\<rparr> else c)
        (schedules s)\<rparr>"

definition depreciate_in_savepoint :: "date \<Rightarrow> fixed_asset \<Rightarrow> 'z asset_state_scheme \<Rightarrow> err + (dep_result \<times> 'z asset_state_scheme)" where
  "depreciate_in_savepoint d a s =
     (let (c, s1) = get_or_create_schedule a d s
      in if sc_posted c
         then Inr (\<lparr>dr_asset = fa_id a, dr_amount = 0, dr_status = DS_already_posted, dr_journal = sc_journal c\<rparr>, s1)
         else rbind (post_direct (depreciation_header a d) (depreciation_lines a (sc_amount c)) s1)
           (\<lambda>(i, s2). Inr (\<lparr>dr_asset = fa_id a, dr_amount = sc_amount c, dr_status = DS_success, dr_journal = Some i\<rparr>,
              mark_schedule (fa_id a) d i
                (save_asset (a\<lparr>fa_accumulated := fa_accumulated a + sc_amount c\<rparr>) s2))))"

definition depreciate_one :: "date \<Rightarrow> fixed_asset \<Rightarrow> 'z asset_state_scheme \<Rightarrow> dep_result \<times> 'z asset_state_scheme" where
  \<comment> \<open>an exception rolls the savepoint back, is recorded and swallowed\<close>
  "depreciate_one d a s =
     (if \<not> has_accounts a
      then (\<lparr>dr_asset = fa_id a, dr_amount = 0, dr_status = DS_skipped, dr_journal = None\<rparr>, s)
      else (case depreciate_in_savepoint d a s of
              Inr (r, s') \<Rightarrow> (r, s')
            | Inl e \<Rightarrow> (\<lparr>dr_asset = fa_id a, dr_amount = sc_amount (fst (get_or_create_schedule a d s)),
                        dr_status = DS_failed, dr_journal = None\<rparr>, s)))"

fun depreciate_all :: "date \<Rightarrow> fixed_asset list \<Rightarrow> 'z asset_state_scheme \<Rightarrow> dep_result list \<times> 'z asset_state_scheme" where
  "depreciate_all d [] s = ([], s)"
| "depreciate_all d (a # as) s =
     (let (r, s1) = depreciate_one d a s; (rs, s2) = depreciate_all d as s1 in (r # rs, s2))"

definition run_monthly_depreciation :: "date \<Rightarrow> nat list \<Rightarrow> 'z asset_state_scheme \<Rightarrow> dep_result list \<times> 'z asset_state_scheme" where
  "run_monthly_depreciation d ids s = depreciate_all d (depreciable_assets ids s) s"

fun depreciation_runs :: "(date \<times> nat list) list \<Rightarrow> 'z asset_state_scheme \<Rightarrow> dep_result list \<times> 'z asset_state_scheme" where
  \<comment> \<open>live runs one after the other, with all their results\<close>
  "depreciation_runs [] s = ([], s)"
| "depreciation_runs ((d, ids) # ds) s =
     (let (r, s1) = run_monthly_depreciation d ids s; (rs, s2) = depreciation_runs ds s1 in (r @ rs, s2))"

section \<open>What one asset's posting does\<close>

definition charged :: "nat \<Rightarrow> dep_result list \<Rightarrow> rat" where
  "charged k rs = sum_list (map dr_amount (filter (\<lambda>r. dr_asset r = k \<and> dr_status r = DS_success) rs))"

definition depreciated :: "nat \<Rightarrow> journal list \<Rightarrow> bool" where
  \<comment> \<open>a depreciation of asset \<open>k\<close> has been posted\<close>
  "depreciated k js \<longleftrightarrow> (\<exists>j \<in> set js. j_status j = J_Posted \<and> j_source_module j = Some ''depreciation'' \<and> j_source_id j = Some k)"

lemma charged_simps [simp]:
  "charged k [] = 0"
  "charged k (r # rs) = (if dr_asset r = k \<and> dr_status r = DS_success then dr_amount r else 0) + charged k rs"
  "charged k (rs @ rs') = charged k rs + charged k rs'"
  by (simp_all add: charged_def)

lemma header_sel [simp]:
  "j_status (depreciation_header a d) = J_Posted" "j_source_module (depreciation_header a d) = Some ''depreciation''"
  "j_source_id (depreciation_header a d) = Some (fa_id a)" "j_date (depreciation_header a d) = d"
  by (simp_all add: depreciation_header_def)

lemma post_depreciation_once:
  assumes "depreciated (fa_id a) (journals s)"
  shows "\<exists>e. post_direct (depreciation_header a d) ls s = Inl e"
proof -
  obtain j where j: "j \<in> set (journals s)" "j_status j = J_Posted" "j_source_module j = Some ''depreciation''"
    "j_source_id j = Some (fa_id a)" using assms by (auto simp: depreciated_def)
  have "j_id j \<noteq> fresh_pk j_id (journals s)"
    using fresh_pk_notin [of j_id "journals s"] j(1) by (metis imageI)
  then have "\<not> journal_unique (depreciation_header a d\<lparr>j_id := fresh_pk j_id (journals s), j_document := doc, j_lines := []\<rparr>)
      (journals s)" for doc
    using j by (auto simp: journal_unique_def)
  then show ?thesis
    by (auto simp: post_direct_def insert_journal_def Let_def split: prod.splits)
qed

lemma inherit_defaults_sel [simp]:
  "fa_id (inherit_defaults a s) = fa_id a" "fa_accumulated (inherit_defaults a s) = fa_accumulated a"
  by (simp_all add: inherit_defaults_def split: option.splits)

lemma stored_asset_sel [simp]:
  "fa_id (stored_asset a) = fa_id a" "fa_accumulated (stored_asset a) = db_decimal (fa_accumulated a)"
  by (simp_all add: stored_asset_def)

definition assets_ok :: "'z asset_state_scheme \<Rightarrow> bool" where
  "assets_ok s \<longleftrightarrow> ledger_ok s \<and> distinct (map fa_id (fixed_assets s))
     \<and> (\<forall>a \<in> set (fixed_assets s). is_money (fa_accumulated a)) \<and> (\<forall>c \<in> set (schedules s). is_money (sc_amount c))"

definition charge_posted :: "nat \<Rightarrow> rat \<Rightarrow> journal \<Rightarrow> bool" where
  \<comment> \<open>the journal of one successful charge of asset \<open>k\<close>\<close>
  "charge_posted k x j \<longleftrightarrow> j_status j = J_Posted \<and> balanced j \<and> total_debit (j_lines j) = x \<and> 0 < x
     \<and> j_source_module j = Some ''depreciation'' \<and> j_source_id j = Some k"

lemma depreciate_one_cases:
  assumes "depreciate_one d a s = (r, s')" and "assets_ok s" and "find_row fa_id (fa_id a) (fixed_assets s) = Some a"
  obtains "dr_status r \<noteq> DS_success" "dr_asset r = fa_id a" "assets_ok s'" "journals s' = journals s"
    "fixed_assets s' = fixed_assets s"
  | j a' where "dr_status r = DS_success" "dr_asset r = fa_id a" "assets_ok s'" "journals s' = journals s @ [j]"
    "charge_posted (fa_id a) (dr_amount r) j" "dr_journal r = Some (j_id j)" "\<not> depreciated (fa_id a) (journals s)"
    "fixed_assets s' = put_row fa_id a' (fixed_assets s)" "fa_id a' = fa_id a"
    "fa_accumulated a' = fa_accumulated a + dr_amount r"
proof -
  obtain c s1 where c: "get_or_create_schedule a d s = (c, s1)" by fastforce
  then have s1: "\<exists>sch. s1 = s\<lparr>schedules := sch\<rparr> \<and> set sch \<subseteq> insert c (set (schedules s))"
    using c by (auto simp: get_or_create_schedule_def Let_def split: option.splits
        intro: exI [of _ "schedules s"] exI [of _ "schedules s @ [c]"])
  have m: "is_money (sc_amount c)"
  proof (cases "schedule_of (fa_id a) d s")
    case None
    then show ?thesis using c by (auto simp: get_or_create_schedule_def Let_def monthly_amount_def)
  next
    case (Some x)
    then have "x \<in> set (schedules s)" by (auto simp: schedule_of_def find_Some_iff)
    then show ?thesis using c Some assms(2) by (auto simp: get_or_create_schedule_def assets_ok_def)
  qed
  obtain sch where sch: "s1 = s\<lparr>schedules := sch\<rparr>" "set sch \<subseteq> insert c (set (schedules s))" using s1 by blast
  have ok1: "assets_ok s1"
    using assms(2) m sch(2) by (auto simp: assets_ok_def sch(1) ledger_ok_def)
  have same: "journals s1 = journals s" "fixed_assets s1 = fixed_assets s" by (simp_all add: sch(1))
  show ?thesis
  proof (cases "dr_status r = DS_success")
    case False
    then have "s' = s \<or> s' = s1" "dr_asset r = fa_id a"
      using assms(1) by (auto simp: depreciate_one_def depreciate_in_savepoint_def c rbind_eq_Inr split: if_splits sum.splits)
    then show ?thesis using False that(1) assms(2) ok1 same by auto
  next
    case True
    let ?x = "sc_amount c"
    obtain i s2 where p: "post_direct (depreciation_header a d) (depreciation_lines a ?x) s1 = Inr (i, s2)"
      and r: "r = \<lparr>dr_asset = fa_id a, dr_amount = ?x, dr_status = DS_success, dr_journal = Some i\<rparr>"
      and s': "s' = mark_schedule (fa_id a) d i (save_asset (a\<lparr>fa_accumulated := fa_accumulated a + ?x\<rparr>) s2)"
      using True assms(1) by (auto simp: depreciate_one_def depreciate_in_savepoint_def c rbind_eq_Inr split: if_splits sum.splits)
    have l1: "ledger_ok s1" using ok1 by (simp add: assets_ok_def)
    obtain j where j: "i = j_id j" "direct_posted (depreciation_header a d) (depreciation_lines a ?x) j s1 s2"
      using post_directD [OF p ledger_okD(1) [OF l1]] by blast
    note D = direct_postedD [OF j(2)]
    have l2: "ledger_ok s2" using ledger_ok_direct [OF l1 j(2)] by simp
    have lines: "j_lines j = depreciation_lines a ?x" using D(4) m by (simp add: depreciation_lines_def)
    have pos: "0 < ?x" using D(10) lines by (auto simp: lines_ok_def depreciation_lines_def line_check_def)
    have ma: "is_money (fa_accumulated a)" using assms(2) find_row_SomeD [OF assms(3)] by (auto simp: assets_ok_def)
    define a' where "a' = stored_asset (inherit_defaults (a\<lparr>fa_accumulated := fa_accumulated a + ?x\<rparr>) s2)"
    obtain sq gl where s2: "s2 = s1\<lparr>sequences := sq, journals := journals s1 @ [j], gl_balances := gl\<rparr>" using D(14) by blast
    have f: "fixed_assets s' = put_row fa_id a' (fixed_assets s)" "journals s' = journals s @ [j]"
      by (simp_all add: s' mark_schedule_def save_asset_def a'_def s2 same)
    have a': "fa_id a' = fa_id a" "fa_accumulated a' = fa_accumulated a + ?x"
      using ma m by (simp_all add: a'_def is_money_add)
    have "is_money (fa_accumulated a')" using a' ma m by (simp add: is_money_add)
    moreover have "ledger_ok s'" using l2 by (simp add: s' mark_schedule_def save_asset_def ledger_ok_def)
    moreover have "\<forall>c \<in> set (schedules s'). is_money (sc_amount c)"
      using ok1 by (auto simp: s' mark_schedule_def save_asset_def s2 assets_ok_def)
    ultimately have "assets_ok s'" using assms(2) f(1) by (auto simp: assets_ok_def dest!: set_put_row)
    moreover have "charge_posted (fa_id a) ?x j"
      using D lines pos by (auto simp: charge_posted_def depreciation_lines_def total_debit_def)
    moreover have "\<not> depreciated (fa_id a) (journals s)"
      using post_depreciation_once [of a s1 d "depreciation_lines a ?x"] p same by auto
    ultimately show ?thesis using that(2) [of j a'] f a' by (simp add: r j(1))
  qed
qed

section \<open>What a run does\<close>

definition run_effect :: "'z asset_state_scheme \<Rightarrow> dep_result list \<Rightarrow> 'z asset_state_scheme \<Rightarrow> bool" where
  "run_effect s rs s' \<longleftrightarrow> assets_ok s' \<and> set (journals s) \<subseteq> set (journals s')
     \<and> (\<forall>k. map_option fa_accumulated (find_row fa_id k (fixed_assets s'))
            = map_option (\<lambda>a. fa_accumulated a + charged k rs) (find_row fa_id k (fixed_assets s)))
     \<and> (\<forall>r \<in> set rs. dr_status r = DS_success \<longrightarrow>
          (\<exists>j \<in> set (journals s'). dr_journal r = Some (j_id j) \<and> charge_posted (dr_asset r) (dr_amount r) j))
     \<and> (\<forall>k. length (filter (\<lambda>r. dr_asset r = k \<and> dr_status r = DS_success) rs)
            \<le> (if depreciated k (journals s) then 0 else 1))"

lemma depreciated_mono: "depreciated k js \<Longrightarrow> set js \<subseteq> set js' \<Longrightarrow> depreciated k js'"
  by (auto simp: depreciated_def)

lemma charge_posted_depreciated: "charge_posted k x j \<Longrightarrow> j \<in> set js \<Longrightarrow> depreciated k js"
  by (auto simp: depreciated_def charge_posted_def)

lemma run_effect_refl: "assets_ok s \<Longrightarrow> run_effect s [] s"
  by (simp add: run_effect_def option.map_id [unfolded id_def] option.map_ident)

lemma run_effect_trans:
  assumes "run_effect s rs s1" and "run_effect s1 rs' s2"
  shows "run_effect s (rs @ rs') s2"
proof -
  have m: "set (journals s) \<subseteq> set (journals s1)" "set (journals s1) \<subseteq> set (journals s2)"
    using assms by (simp_all add: run_effect_def)
  have "length (filter (\<lambda>r. dr_asset r = k \<and> dr_status r = DS_success) (rs @ rs')) \<le> (if depreciated k (journals s) then 0 else 1)" for k
  proof (cases "filter (\<lambda>r. dr_asset r = k \<and> dr_status r = DS_success) rs = []")
    case True
    have "length (filter (\<lambda>r. dr_asset r = k \<and> dr_status r = DS_success) rs') \<le> (if depreciated k (journals s1) then 0 else 1)"
      using assms(2) by (simp add: run_effect_def)
    then show ?thesis using True depreciated_mono [OF _ m(1), of k] by (cases "depreciated k (journals s)"; cases "depreciated k (journals s1)") simp_all
  next
    case False
    then obtain r where r: "r \<in> set rs" "dr_asset r = k" "dr_status r = DS_success"
      by (auto simp: filter_empty_conv)
    then obtain j where "j \<in> set (journals s1)" "charge_posted k (dr_amount r) j"
      using assms(1) by (auto simp: run_effect_def)
    then have "depreciated k (journals s1)" by (rule charge_posted_depreciated [rotated])
    moreover have "length (filter (\<lambda>r. dr_asset r = k \<and> dr_status r = DS_success) rs') \<le> (if depreciated k (journals s1) then 0 else 1)"
      using assms(2) by (simp add: run_effect_def)
    ultimately have "length (filter (\<lambda>r. dr_asset r = k \<and> dr_status r = DS_success) rs') = 0" by simp
    moreover have "length (filter (\<lambda>r. dr_asset r = k \<and> dr_status r = DS_success) rs) \<le> (if depreciated k (journals s) then 0 else 1)"
      using assms(1) by (simp add: run_effect_def)
    ultimately show ?thesis by simp
  qed
  moreover have "map_option fa_accumulated (find_row fa_id k (fixed_assets s2))
      = map_option (\<lambda>a. fa_accumulated a + charged k (rs @ rs')) (find_row fa_id k (fixed_assets s))" for k
  proof -
    have "map_option fa_accumulated (find_row fa_id k (fixed_assets s2))
        = map_option (\<lambda>x. x + charged k rs') (map_option fa_accumulated (find_row fa_id k (fixed_assets s1)))"
      using assms(2) by (simp add: run_effect_def option.map_comp comp_def)
    also have "\<dots> = map_option (\<lambda>x. x + charged k rs') (map_option (\<lambda>a. fa_accumulated a + charged k rs) (find_row fa_id k (fixed_assets s)))"
      using assms(1) by (simp add: run_effect_def)
    finally show ?thesis by (simp add: option.map_comp comp_def add.assoc)
  qed
  moreover have "\<exists>j \<in> set (journals s2). dr_journal r = Some (j_id j) \<and> charge_posted (dr_asset r) (dr_amount r) j"
    if r: "r \<in> set (rs @ rs')" "dr_status r = DS_success" for r
  proof (cases "r \<in> set rs")
    case True
    then obtain j where "j \<in> set (journals s1)" "dr_journal r = Some (j_id j)" "charge_posted (dr_asset r) (dr_amount r) j"
      using assms(1) r(2) unfolding run_effect_def by blast
    then show ?thesis using m(2) by blast
  next
    case False
    then show ?thesis using assms(2) r unfolding run_effect_def by simp
  qed
  moreover have "assets_ok s2" using assms(2) by (simp add: run_effect_def)
  moreover have "set (journals s) \<subseteq> set (journals s2)" using m by (rule subset_trans)
  ultimately show ?thesis unfolding run_effect_def by blast
qed

lemma run_effect_one:
  assumes "depreciate_one d a s = (r, s')" and "assets_ok s" and "find_row fa_id (fa_id a) (fixed_assets s) = Some a"
  shows "run_effect s [r] s'" "k \<noteq> fa_id a \<Longrightarrow> find_row fa_id k (fixed_assets s') = find_row fa_id k (fixed_assets s)"
proof -
  have "run_effect s [r] s' \<and> (k \<noteq> fa_id a \<longrightarrow> find_row fa_id k (fixed_assets s') = find_row fa_id k (fixed_assets s))" for k
    using assms
  proof (rule depreciate_one_cases)
    fix j a'
    assume c: "dr_status r = DS_success" "dr_asset r = fa_id a" "assets_ok s'" "journals s' = journals s @ [j]"
      "charge_posted (fa_id a) (dr_amount r) j" "dr_journal r = Some (j_id j)" "\<not> depreciated (fa_id a) (journals s)"
      "fixed_assets s' = put_row fa_id a' (fixed_assets s)" "fa_id a' = fa_id a"
      "fa_accumulated a' = fa_accumulated a + dr_amount r"
    have "fa_id a \<in> fa_id ` set (fixed_assets s)" using find_row_SomeD [OF assms(3)] by blast
    then show ?thesis using c assms(3) by (auto simp: run_effect_def option.map_ident)
  qed (auto simp: run_effect_def option.map_ident)
  then show "run_effect s [r] s'" "k \<noteq> fa_id a \<Longrightarrow> find_row fa_id k (fixed_assets s') = find_row fa_id k (fixed_assets s)"
    by blast+
qed

lemma run_effect_all:
  assumes "assets_ok s" and "distinct (map fa_id as)"
    and "\<forall>a \<in> set as. find_row fa_id (fa_id a) (fixed_assets s) = Some a" and "depreciate_all d as s = (rs, s')"
  shows "run_effect s rs s'"
  using assms
proof (induction as arbitrary: s rs)
  case Nil
  then show ?case by (simp add: run_effect_refl)
next
  case (Cons a as)
  obtain r s1 where 1: "depreciate_one d a s = (r, s1)" by fastforce
  obtain rs1 where 2: "depreciate_all d as s1 = (rs1, s')" "rs = r # rs1"
    using Cons.prems(4) by (auto simp: 1 Let_def split: prod.splits)
  have a: "find_row fa_id (fa_id a) (fixed_assets s) = Some a" using Cons.prems(3) by simp
  have e: "run_effect s [r] s1" by (rule run_effect_one(1) [OF 1 Cons.prems(1) a])
  have "\<forall>b \<in> set as. find_row fa_id (fa_id b) (fixed_assets s1) = Some b"
  proof
    fix b assume b: "b \<in> set as"
    then have "fa_id b \<in> fa_id ` set as" by (rule imageI)
    moreover have "fa_id a \<notin> fa_id ` set as" using Cons.prems(2) by simp
    ultimately have "fa_id b \<noteq> fa_id a" by metis
    then show "find_row fa_id (fa_id b) (fixed_assets s1) = Some b"
      using run_effect_one(2) [OF 1 Cons.prems(1) a] Cons.prems(3) b by simp
  qed
  moreover have "assets_ok s1" using e by (simp add: run_effect_def)
  ultimately have "run_effect s1 rs1 s'" using Cons.IH [of s1 rs1] Cons.prems(2) 2(1) by simp
  then show ?case using run_effect_trans [OF e, of rs1 s'] by (simp add: 2(2))
qed

lemma run_effect_run:
  assumes "assets_ok s" and "run_monthly_depreciation d ids s = (rs, s')"
  shows "run_effect s rs s'"
proof (rule run_effect_all [OF assms(1)])
  have d: "distinct (map fa_id (fixed_assets s))" using assms(1) by (simp add: assets_ok_def)
  then have "inj_on fa_id (set (fixed_assets s))" by (simp add: distinct_map)
  moreover have "distinct (depreciable_assets ids s)" using d by (simp add: depreciable_assets_def distinct_map)
  moreover have "set (depreciable_assets ids s) \<subseteq> set (fixed_assets s)" by (auto simp: depreciable_assets_def)
  ultimately show "distinct (map fa_id (depreciable_assets ids s))" by (auto simp: distinct_map intro: inj_on_subset)
  show "\<forall>a \<in> set (depreciable_assets ids s). find_row fa_id (fa_id a) (fixed_assets s) = Some a"
    using find_row_distinct [OF d] by (auto simp: depreciable_assets_def)
  show "depreciate_all d (depreciable_assets ids s) s = (rs, s')" using assms(2) by (simp add: run_monthly_depreciation_def)
qed

lemma run_effect_runs:
  assumes "assets_ok s" and "depreciation_runs ds s = (rs, s')"
  shows "run_effect s rs s'"
  using assms
proof (induction ds arbitrary: s rs)
  case Nil
  then show ?case by (simp add: run_effect_refl)
next
  case (Cons p ds)
  obtain d ids where p: "p = (d, ids)" by fastforce
  obtain r s1 where 1: "run_monthly_depreciation d ids s = (r, s1)" by fastforce
  obtain rs1 where 2: "depreciation_runs ds s1 = (rs1, s')" "rs = r @ rs1"
    using Cons.prems(2) by (auto simp: p 1 Let_def split: prod.splits)
  have e: "run_effect s r s1" by (rule run_effect_run [OF Cons.prems(1) 1])
  then have "assets_ok s1" by (simp add: run_effect_def)
  from run_effect_trans [OF e Cons.IH [OF this 2(1)]] show ?case by (simp add: 2(2))
qed

section \<open>A worked register\<close>

definition demo_asset :: fixed_asset where
  "demo_asset = \<lparr>fa_id = 1, fa_number = ''FA-2026-00001'', fa_category = ''VEH'', fa_acquired = Date 2026 1 5,
     fa_cost = 1200000, fa_salvage = 0, fa_life = 5, fa_method = ''Straight-Line'', fa_accumulated = 0,
     fa_account = Some 2, fa_expense = Some 1, fa_accum_account = Some 2, fa_mda = Some 1, fa_fund = None,
     fa_function = None, fa_program = None, fa_geo = None, fa_status = ''Active''\<rparr>"

definition demo_register :: asset_state where
  "demo_register = budget_state.extend demo_ledger
     \<lparr>auto_create = [], account_category = [], asset_categories = [], fixed_assets = [demo_asset], schedules = []\<rparr>"

definition demo_two_runs :: "dep_result list \<times> asset_state" where
  "demo_two_runs = depreciation_runs [(Date 2026 1 31, []), (Date 2026 2 28, [])] demo_register"

lemma demo_register_ok: "assets_ok demo_register"
  using demo_ledger_ok
  by (simp add: assets_ok_def ledger_ok_def keys_ok_def rows_ok_def demo_register_def budget_state.defs demo_asset_def is_money_iff db_decimal_def)

lemma demo_two_runs_statuses:
  "map dr_status (fst demo_two_runs) = [DS_success, DS_failed]"
  "map dr_amount (fst demo_two_runs) = [20000, 20000]"
  by code_simp+

section \<open>The properties of the run\<close>

text \<open>
  C19: the monthly run keeps the books: after any sequence of live runs the ledger is in order, every
  asset's accumulated depreciation has grown by exactly the amounts reported as charged to it, and
  every charge reported as a success has a balanced posted journal of that amount naming the asset.
\<close>

theorem depreciation_runs_keep_books:
  assumes "assets_ok s" and "depreciation_runs ds s = (rs, s')"
  shows "ledger_ok s'
    \<and> (\<forall>k. map_option fa_accumulated (find_row fa_id k (fixed_assets s'))
          = map_option (\<lambda>a. fa_accumulated a + charged k rs) (find_row fa_id k (fixed_assets s)))
    \<and> (\<forall>r \<in> set rs. dr_status r = DS_success \<longrightarrow>
         (\<exists>j \<in> set (journals s'). dr_journal r = Some (j_id j) \<and> charge_posted (dr_asset r) (dr_amount r) j))"
  using run_effect_runs [OF assms] unfolding run_effect_def assets_ok_def by blast

theorem depreciation_runs_keep_books_witness:
  "ledger_ok (snd demo_two_runs)
    \<and> map_option fa_accumulated (find_row fa_id 1 (fixed_assets (snd demo_two_runs))) = Some 20000"
proof -
  have r: "depreciation_runs [(Date 2026 1 31, []), (Date 2026 2 28, [])] demo_register = (fst demo_two_runs, snd demo_two_runs)"
    by (simp add: demo_two_runs_def)
  have "find_row fa_id 1 (fixed_assets demo_register) = Some demo_asset" by code_simp
  moreover have "fa_accumulated demo_asset + charged 1 (fst demo_two_runs) = 20000" by code_simp
  ultimately show ?thesis using depreciation_runs_keep_books [OF demo_register_ok r] by simp
qed

text \<open>
  C35: an asset is depreciated at most once in its life by the monthly run: the posted journal carries
  the asset as its source document, and a second posted journal with that source violates the unique
  constraint, so every later month's posting fails inside its savepoint.
\<close>

theorem asset_depreciated_once:
  assumes "assets_ok s" and "depreciation_runs ds s = (rs, s')"
  shows "length (filter (\<lambda>r. dr_asset r = k \<and> dr_status r = DS_success) rs)
           \<le> (if depreciated k (journals s) then 0 else 1)"
  using run_effect_runs [OF assms] unfolding run_effect_def by blast

theorem asset_depreciated_once_witness:
  "length (filter (\<lambda>r. dr_asset r = 1 \<and> dr_status r = DS_success) (fst demo_two_runs)) \<le> 1
    \<and> map dr_status (fst demo_two_runs) = [DS_success, DS_failed]
    \<and> map dr_status (simulate_depreciation (Date 2026 2 28) [] (snd demo_two_runs)) = [DS_success]"
proof -
  have r: "depreciation_runs [(Date 2026 1 31, []), (Date 2026 2 28, [])] demo_register = (fst demo_two_runs, snd demo_two_runs)"
    by (simp add: demo_two_runs_def)
  have "\<not> depreciated 1 (journals demo_register)" by code_simp
  moreover have "map dr_status (simulate_depreciation (Date 2026 2 28) [] (snd demo_two_runs)) = [DS_success]" by code_simp
  ultimately show ?thesis
    using asset_depreciated_once [OF demo_register_ok r, of 1] demo_two_runs_statuses(1) by simp
qed

end
