(* ===== verification/Paye.thy ===== *)
theory Paye
  imports Prelude
begin

text \<open>
  PAYE and pension arithmetic (\<^verbatim>\<open>hrm/services/payroll_computation.py\<close>): the graduated tax as the code
  computes it, bracket by bracket on what remains, its declarative reading as a marginal tax, and
  how far the built-in table is from the table of the Finance Act.  Amounts have at most fifteen
  digits, so the context's 28 digits compute every product and every division by a hundred
  exactly; the twelfth is rounded by the context first.
\<close>

section \<open>The tables\<close>

type_synonym bracket = "rat \<times> rat option \<times> rat" \<comment> \<open>lower bound, upper bound, rate in percent\<close>

record tax_bracket =
  tb_lower :: rat
  tb_upper :: "rat option"
  tb_rate :: rat
  tb_current :: bool

record pension_config =
  pc_employer :: rat
  pc_employee :: rat
  pc_effective :: date
  pc_current :: bool

definition fallback_brackets :: "bracket list" where
  "fallback_brackets =
     [(0, Some 300000, 7), (300001, Some 600000, 11), (600001, Some 1100000, 15),
      (1100001, Some 1600000, 19), (1600001, Some 3200000, 21), (3200001, None, 24)]"

definition brackets_data :: "tax_bracket list \<Rightarrow> bracket list" where
  "brackets_data rows =
     (let current = filter tb_current rows
      in if current = [] then fallback_brackets
         else map (\<lambda>b. (tb_lower b, tb_upper b, tb_rate b)) (sort_key tb_lower current))"

fun bracket_loop :: "bracket list \<Rightarrow> rat \<Rightarrow> rat" where
  "bracket_loop [] remaining = 0"
| "bracket_loop ((lower, upper, rate) # bs) remaining =
     (if remaining \<le> 0 then 0
      else let taxable = (case upper of Some u \<Rightarrow> min remaining (u - lower) | None \<Rightarrow> remaining)
           in taxable * rate / 100 + bracket_loop bs (remaining - taxable))"

definition apply_brackets :: "tax_bracket list \<Rightarrow> rat \<Rightarrow> rat" where
  "apply_brackets rows taxable_income = bracket_loop (brackets_data rows) taxable_income"

section \<open>The computation\<close>

record paye_result =
  py_gross :: rat
  py_cra :: rat
  py_exempt :: rat
  py_taxable :: rat
  py_paye :: rat
  py_effective_rate :: rat
  py_min_tax :: bool

definition compute_annual_paye :: "tax_bracket list \<Rightarrow> rat \<Rightarrow> rat \<Rightarrow> rat \<Rightarrow> rat \<Rightarrow> rat \<Rightarrow> paye_result" where
  "compute_annual_paye rows gross pension nhf nhis life =
     (if gross \<le> 0
      then \<lparr>py_gross = 0, py_cra = 0, py_exempt = 0, py_taxable = 0, py_paye = 0, py_effective_rate = 0, py_min_tax = False\<rparr>
      else let cra = max (gross * (1/100)) 200000 + gross * (20/100);
               exempt = pension + nhf + nhis + life;
               taxable = max 0 (gross - cra - exempt);
               tax = apply_brackets rows taxable;
               min_tax = gross * (1/100);
               paye = quantize_currency (if tax < min_tax then min_tax else tax)
           in \<lparr>py_gross = gross, py_cra = quantize_default cra, py_exempt = quantize_default exempt,
               py_taxable = quantize_default taxable, py_paye = paye,
               py_effective_rate = quantize_currency (dec_mul (dec_div paye gross) 100),
               py_min_tax = (tax < min_tax)\<rparr>)"

definition monthly_paye :: "tax_bracket list \<Rightarrow> rat \<Rightarrow> rat \<Rightarrow> rat \<Rightarrow> rat" where
  \<comment> \<open>\<^verbatim>\<open>compute_monthly_paye(gross_monthly, pension_employee, nhf)['monthly_paye']\<close>\<close>
  "monthly_paye rows gross pension nhf =
     quantize_currency (dec_div (py_paye (compute_annual_paye rows (gross * 12) (pension * 12) (nhf * 12) 0 0)) 12)"

definition current_config :: "pension_config list \<Rightarrow> pension_config option" where
  \<comment> \<open>\<^verbatim>\<open>ordering = ['-effective_date']\<close>\<close>
  "current_config rows =
     fold (\<lambda>c best. case best of None \<Rightarrow> Some c | Some b \<Rightarrow> if pc_effective b < pc_effective c then Some c else Some b)
       (filter pc_current rows) None"

record contributions =
  ct_qualifying :: rat
  ct_employer :: rat
  ct_employee :: rat

definition compute_contributions :: "pension_config list \<Rightarrow> rat \<Rightarrow> rat \<Rightarrow> rat \<Rightarrow> contributions" where
  "compute_contributions rows basic housing transport =
     (let (employer, employee) = (case current_config rows of Some c \<Rightarrow> (pc_employer c, pc_employee c) | None \<Rightarrow> (10, 8));
          qualifying = basic + housing + transport
      in \<lparr>ct_qualifying = qualifying, ct_employer = quantize_currency (qualifying * employer / 100),
          ct_employee = quantize_currency (qualifying * employee / 100)\<rparr>)"

definition compute_nhf :: "rat \<Rightarrow> rat" where
  "compute_nhf basic = quantize_currency (basic * (5/2) / 100)"

section \<open>The loop is the marginal tax\<close>

fun width :: "bracket \<Rightarrow> rat option" where
  "width (lower, upper, rate) = map_option (\<lambda>u. u - lower) upper"

fun slice :: "rat \<Rightarrow> rat option \<Rightarrow> rat \<Rightarrow> rat" where
  \<comment> \<open>the part of the income \<open>x\<close> between \<open>start\<close> and \<open>start + w\<close>\<close>
  "slice start (Some w) x = max 0 (min x (start + w) - start)"
| "slice start None x = max 0 (x - start)"

fun marginal_tax :: "rat \<Rightarrow> bracket list \<Rightarrow> rat \<Rightarrow> rat" where
  \<comment> \<open>reference: every bracket taxes its own slice of the income; brackets after an open one are empty\<close>
  "marginal_tax start [] x = 0"
| "marginal_tax start ((lower, upper, rate) # bs) x =
     slice start (width (lower, upper, rate)) x * rate / 100
     + (case upper of None \<Rightarrow> 0 | Some u \<Rightarrow> marginal_tax (start + (u - lower)) bs x)"

definition ascending :: "bracket list \<Rightarrow> bool" where
  "ascending bs \<longleftrightarrow> (\<forall>(l, u, r) \<in> set bs. 0 \<le> r \<and> (case u of Some v \<Rightarrow> l \<le> v | None \<Rightarrow> True))"

lemma marginal_zero: "x \<le> start \<Longrightarrow> ascending bs \<Longrightarrow> marginal_tax start bs x = 0"
proof (induction start bs x rule: marginal_tax.induct)
  case (2 start lower upper rate bs x)
  then show ?case by (auto simp: ascending_def split: option.splits)
qed simp

lemma bracket_loop_nonpos: "x \<le> 0 \<Longrightarrow> bracket_loop bs x = 0"
  by (cases bs) auto

lemma bracket_loop_marginal:
  "ascending bs \<Longrightarrow> bracket_loop bs (x - start) = marginal_tax start bs x"
proof (induction bs arbitrary: start)
  case (Cons b bs)
  obtain lower upper rate where b: "b = (lower, upper, rate)" by (cases b)
  have asc: "ascending bs" using Cons.prems by (simp add: ascending_def)
  show ?case
  proof (cases "x \<le> start")
    case True
    then have "marginal_tax start (b # bs) x = 0" using Cons.prems by (rule marginal_zero)
    then show ?thesis using True by (simp add: bracket_loop_nonpos)
  next
    case False
    show ?thesis
    proof (cases upper)
      case None
      then show ?thesis using False by (simp add: b bracket_loop_nonpos)
    next
      case (Some u)
      have lu: "lower \<le> u" using Cons.prems Some by (auto simp: ascending_def b)
      show ?thesis
      proof (cases "x - start \<le> u - lower")
        case True
        have z: "marginal_tax (start + (u - lower)) bs x = 0" using True asc by (intro marginal_zero) simp_all
        show ?thesis using True False by (simp add: b Some z bracket_loop_nonpos min_def)
      next
        case big: False
        have e: "x - start - (u - lower) = x - (start + (u - lower))" by simp
        have "bracket_loop bs (x - start - (u - lower)) = marginal_tax (start + (u - lower)) bs x"
          unfolding e by (rule Cons.IH [OF asc])
        then show ?thesis using False big lu by (simp add: b Some Let_def min_def max_def)
      qed
    qed
  qed
qed simp

lemma slice_nonneg [simp]: "0 \<le> slice start w x"
  by (cases w) simp_all

lemma marginal_nonneg: "ascending bs \<Longrightarrow> 0 \<le> marginal_tax start bs x"
proof (induction start bs x rule: marginal_tax.induct)
  case (2 start lower upper rate bs x)
  then have "0 \<le> slice start (width (lower, upper, rate)) x * rate / 100" by (simp add: ascending_def)
  then show ?case using 2 by (auto simp: ascending_def split: option.splits)
qed simp

lemma marginal_le:
  assumes "ascending bs" and "\<forall>(l, u, r) \<in> set bs. r \<le> R" and "start \<le> x" and "0 \<le> R"
  shows "marginal_tax start bs x \<le> (x - start) * R / 100"
  using assms
proof (induction start bs x rule: marginal_tax.induct)
  case (2 start lower upper rate bs x)
  have r: "0 \<le> rate" "rate \<le> R" using 2 by (simp_all add: ascending_def)
  show ?case
  proof (cases upper)
    case None
    then show ?thesis using 2 r by (simp add: mult_left_mono)
  next
    case (Some u)
    have lu: "lower \<le> u" using 2 Some by (simp add: ascending_def)
    have asc: "ascending bs" "\<forall>(l, u, r) \<in> set bs. r \<le> R" using 2 by (simp_all add: ascending_def)
    show ?thesis
    proof (cases "start + (u - lower) \<le> x")
      case True
      have "marginal_tax (start + (u - lower)) bs x \<le> (x - (start + (u - lower))) * R / 100"
        using 2 Some True asc by simp
      moreover have "(u - lower) * rate \<le> (u - lower) * R" using lu r by (intro mult_left_mono) simp_all
      moreover have "slice start (Some (u - lower)) x = u - lower" using True lu by (simp add: min_def)
      moreover have "marginal_tax start ((lower, upper, rate) # bs) x
          = (u - lower) * rate / 100 + marginal_tax (start + (u - lower)) bs x"
        unfolding Some marginal_tax.simps width.simps option.map option.case
        using \<open>slice start (Some (u - lower)) x = u - lower\<close> by simp
      ultimately show ?thesis by (simp add: field_simps)
    next
      case False
      then have "marginal_tax (start + (u - lower)) bs x = 0" using asc(1) by (intro marginal_zero) simp_all
      moreover have "(x - start) * rate \<le> (x - start) * R" using 2 r by (intro mult_left_mono) simp_all
      ultimately show ?thesis using False 2 by (simp add: Some min_def max_def)
    qed
  qed
qed simp

section \<open>Properties\<close>

lemma fallback_ascending: "ascending fallback_brackets"
  by (simp add: ascending_def fallback_brackets_def)

definition demo_rows :: "tax_bracket list" where
  "demo_rows = [\<lparr>tb_lower = 500000, tb_upper = None, tb_rate = 20, tb_current = True\<rparr>,
                \<lparr>tb_lower = 0, tb_upper = Some 500000, tb_rate = 5, tb_current = True\<rparr>,
                \<lparr>tb_lower = 0, tb_upper = None, tb_rate = 50, tb_current = False\<rparr>]"

text \<open>
  C18: the bracket loop, which consumes the income bracket by bracket, computes the marginal tax:
  every bracket taxes exactly the slice of the income that falls between the widths of the brackets
  before it and its own, whatever brackets are configured, as long as none is upside down.
\<close>

theorem paye_is_marginal:
  assumes "ascending (brackets_data rows)"
  shows "apply_brackets rows x = marginal_tax 0 (brackets_data rows) x"
  using bracket_loop_marginal [OF assms, of x 0] by (simp add: apply_brackets_def)

theorem paye_is_marginal_witness:
  "apply_brackets demo_rows 800000 = marginal_tax 0 (brackets_data demo_rows) 800000
     \<and> apply_brackets demo_rows 800000 = 85000"
proof
  have "brackets_data demo_rows = [(0, Some 500000, 5), (500000, None, 20)]" by code_simp
  then have "ascending (brackets_data demo_rows)" by (simp add: ascending_def)
  then show "apply_brackets demo_rows 800000 = marginal_tax 0 (brackets_data demo_rows) 800000"
    by (rule paye_is_marginal)
  show "apply_brackets demo_rows 800000 = 85000" by code_simp
qed

text \<open>The table of the Finance Act 2020 as \<^verbatim>\<open>NigeriaTaxBracket\<close> documents it: first, next, next and above.\<close>

definition act_brackets :: "bracket list" where
  "act_brackets =
     [(0, Some 300000, 7), (300000, Some 600000, 11), (600000, Some 1100000, 15),
      (1100000, Some 1600000, 19), (1600000, Some 3200000, 21), (3200000, None, 24)]"

lemma fallback_excess:
  assumes "0 \<le> x"
  shows "marginal_tax 0 act_brackets x \<le> marginal_tax 0 fallback_brackets x
       \<and> marginal_tax 0 fallback_brackets x \<le> marginal_tax 0 act_brackets x + 3/10"
proof -
  consider "x \<le> 300000" | "300000 \<le> x" "x \<le> 599999" | "599999 \<le> x" "x \<le> 600000" | "600000 \<le> x" "x \<le> 1099998"
    | "1099998 \<le> x" "x \<le> 1100000" | "1100000 \<le> x" "x \<le> 1599997" | "1599997 \<le> x" "x \<le> 1600000"
    | "1600000 \<le> x" "x \<le> 3199996" | "3199996 \<le> x" "x \<le> 3200000" | "3200000 \<le> x" by linarith
  then show ?thesis
    by cases (use assms in \<open>auto simp: act_brackets_def fallback_brackets_def max_def min_def field_simps\<close>)
qed

text \<open>
  The built-in table, used when no bracket is configured, starts its second to fifth bracket one
  naira late and measures their widths by subtraction, so each is one naira narrower than the Act's.
  The tax on any income is never below the Act's and never more than thirty kobo above it.
\<close>

theorem paye_fallback_close_to_act:
  assumes "0 \<le> x" and "filter tb_current rows = []"
  shows "marginal_tax 0 act_brackets x \<le> apply_brackets rows x
       \<and> apply_brackets rows x \<le> marginal_tax 0 act_brackets x + 3/10"
proof -
  have "apply_brackets rows x = marginal_tax 0 fallback_brackets x"
    using bracket_loop_marginal [OF fallback_ascending, of x 0] assms(2)
    by (simp add: apply_brackets_def brackets_data_def)
  then show ?thesis using fallback_excess [OF assms(1)] by simp
qed

theorem paye_fallback_close_to_act_witness:
  "marginal_tax 0 act_brackets 4000000 \<le> apply_brackets [] 4000000 \<and> apply_brackets [] 4000000 = 752000 + 3/10"
proof
  show "marginal_tax 0 act_brackets 4000000 \<le> apply_brackets [] 4000000"
    using paye_fallback_close_to_act [of 4000000 "[]"] by simp
  show "apply_brackets [] 4000000 = 752000 + 3/10" by code_simp
qed

end
