(* ===== verification/Calendar.thy ===== *)
theory Calendar
  imports Prelude "HOL-Library.While_Combinator"
begin

text \<open>
  What the modelled code uses of \<^verbatim>\<open>datetime\<close> and \<^verbatim>\<open>calendar\<close>: the proleptic Gregorian ordinal, the day
  after a date, the weekday and the length of a month; and the working-day loop of
  \<^verbatim>\<open>hrm/services/payroll_runner.py\<close> with its closed form.  Years are those \<^verbatim>\<open>datetime\<close> knows, from 1;
  the overflow after 9999 is out of range.
\<close>

section \<open>Ordinals\<close>

definition leap :: "int \<Rightarrow> bool" where
  "leap y \<longleftrightarrow> 4 dvd y \<and> (\<not> 100 dvd y \<or> 400 dvd y)"

definition days_in_month :: "int \<Rightarrow> int \<Rightarrow> int" where
  \<comment> \<open>\<^verbatim>\<open>calendar.monthrange(y, m)[1]\<close>\<close>
  "days_in_month y m =
     (if m = 2 then (if leap y then 29 else 28) else if m \<in> {4, 6, 9, 11} then 30 else 31)"

definition days_before_year :: "int \<Rightarrow> int" where
  "days_before_year y = (y - 1) * 365 + (y - 1) div 4 - (y - 1) div 100 + (y - 1) div 400"

definition days_before_month :: "int \<Rightarrow> int \<Rightarrow> int" where
  "days_before_month y m = sum_list (map (days_in_month y) [1..m - 1])"

definition ordinal :: "date \<Rightarrow> int" where
  \<comment> \<open>\<^verbatim>\<open>date.toordinal()\<close>\<close>
  "ordinal t = days_before_year (d_year t) + days_before_month (d_year t) (d_month t) + d_day t"

definition weekday :: "date \<Rightarrow> int" where
  \<comment> \<open>\<^verbatim>\<open>date.weekday()\<close>: Monday is 0\<close>
  "weekday t = (ordinal t + 6) mod 7"

definition valid_date :: "date \<Rightarrow> bool" where
  "valid_date t \<longleftrightarrow> 1 \<le> d_year t \<and> 1 \<le> d_month t \<and> d_month t \<le> 12
     \<and> 1 \<le> d_day t \<and> d_day t \<le> days_in_month (d_year t) (d_month t)"

definition next_day :: "date \<Rightarrow> date" where
  \<comment> \<open>\<^verbatim>\<open>d + timedelta(days=1)\<close>\<close>
  "next_day t =
     (if d_day t < days_in_month (d_year t) (d_month t) then Date (d_year t) (d_month t) (d_day t + 1)
      else if d_month t < 12 then Date (d_year t) (d_month t + 1) 1
      else Date (d_year t + 1) 1 1)"

lemma days_in_month_pos: "28 \<le> days_in_month y m" "days_in_month y m \<le> 31"
  by (simp_all add: days_in_month_def)

lemma days_before_month_step: "1 \<le> m \<Longrightarrow> days_before_month y (m + 1) = days_before_month y m + days_in_month y m"
  using upto_rec2 [of 1 m] by (simp add: days_before_month_def)

lemma days_before_january [simp]: "days_before_month y 1 = 0"
  by (simp add: days_before_month_def)

lemma div_step: "(0 :: int) < k \<Longrightarrow> y div k = (y - 1) div k + (if k dvd y then 1 else 0)"
proof -
  assume k: "0 < k"
  show ?thesis
  proof (cases "k dvd y")
    case True
    then obtain q where "y = k * q" by blast
    moreover have "(k * q - 1) div k = q - 1"
      by (rule int_div_pos_eq [where r = "k - 1"]) (use k in \<open>simp_all add: algebra_simps\<close>)
    ultimately show ?thesis using True k by simp
  next
    case False
    then have r: "0 < y mod k" using k by (simp add: dvd_eq_mod_eq_0 order_less_le)
    have "(y - 1) div k = y div k"
      by (rule int_div_pos_eq [where r = "y mod k - 1"])
        (use k r pos_mod_bound [OF k, of y] in \<open>simp_all add: algebra_simps\<close>)
    then show ?thesis using False by simp
  qed
qed

lemma days_before_year_step: "days_before_year (y + 1) = days_before_year y + (if leap y then 366 else 365)"
proof -
  have d: "100 dvd y \<Longrightarrow> 4 dvd y" "400 dvd y \<Longrightarrow> 100 dvd y"
    by (rule dvd_trans [of _ 100], simp_all) (rule dvd_trans [of _ 400], simp_all)
  define p q r where "p = (y - 1) div 4" and "q = (y - 1) div 100" and "r = (y - 1) div 400"
  have e: "y div 4 = p + (if 4 dvd y then 1 else 0)" "y div 100 = q + (if 100 dvd y then 1 else 0)"
    "y div 400 = r + (if 400 dvd y then 1 else 0)"
    unfolding p_def q_def r_def by (rule div_step, simp)+
  have b: "days_before_year (y + 1) = y * 365 + y div 4 - y div 100 + y div 400"
    "days_before_year y = (y - 1) * 365 + p - q + r"
    by (simp_all add: days_before_year_def p_def q_def r_def)
  show ?thesis
    unfolding b e leap_def using d by (cases "4 dvd y"; cases "100 dvd y"; cases "400 dvd y") simp_all
qed

lemma days_before_december: "days_before_month y 12 + 31 = (if leap y then 366 else 365)"
proof -
  have "[1..12 - 1] = [1, 2, 3, 4, 5, 6, 7, 8, 9, 10, 11 :: int]" by (simp add: upto.simps)
  then show ?thesis by (simp add: days_before_month_def days_in_month_def)
qed

lemma valid_next_day: "valid_date t \<Longrightarrow> valid_date (next_day t)"
  using days_in_month_pos(1) [of "d_year t" "d_month t + 1"] days_in_month_pos(1) [of "d_year t + 1" 1]
  by (auto simp: valid_date_def next_day_def)

lemma ordinal_next_day: "valid_date t \<Longrightarrow> ordinal (next_day t) = ordinal t + 1"
proof -
  assume v: "valid_date t"
  consider "d_day t < days_in_month (d_year t) (d_month t)"
    | "d_day t = days_in_month (d_year t) (d_month t)" "d_month t < 12"
    | "d_day t = days_in_month (d_year t) (d_month t)" "d_month t = 12"
    using v unfolding valid_date_def by linarith
  then show ?thesis
  proof cases
    case 1
    then show ?thesis by (simp add: next_day_def ordinal_def)
  next
    case 2
    then show ?thesis using v days_before_month_step [of "d_month t" "d_year t"]
      by (simp add: next_day_def ordinal_def valid_date_def)
  next
    case 3
    then have "d_day t = 31" by (simp add: days_in_month_def)
    then show ?thesis using 3 days_before_year_step [of "d_year t"] days_before_december [of "d_year t"]
      by (simp add: next_day_def ordinal_def)
  qed
qed

subsection \<open>Ordinals follow the order of dates\<close>

lemma days_before_month_mono:
  assumes "1 \<le> m" and "m \<le> n" and "n \<le> 12"
  shows "days_before_month y m \<le> days_before_month y n"
proof -
  have "days_before_month y m \<le> days_before_month y (m + int k)" for k
  proof (induction k)
    case (Suc k)
    have e: "m + int (Suc k) = m + int k + 1" by simp
    show ?case unfolding e
      using Suc days_before_month_step [of "m + int k" y] days_in_month_pos(1) [of y "m + int k"] assms(1) by simp
  qed simp
  from this [of "nat (n - m)"] show ?thesis using assms(2) by simp
qed

lemma days_before_year_mono:
  assumes "y \<le> z"
  shows "days_before_year y \<le> days_before_year z"
proof -
  have "days_before_year y \<le> days_before_year (y + int k)" for k
  proof (induction k)
    case (Suc k)
    have e: "y + int (Suc k) = y + int k + 1" by simp
    show ?case unfolding e using Suc days_before_year_step [of "y + int k"] by simp
  qed simp
  from this [of "nat (z - y)"] show ?thesis using assms by simp
qed

lemma in_month:
  assumes "valid_date t"
  shows "days_before_month (d_year t) (d_month t) < ordinal t - days_before_year (d_year t)"
    and "ordinal t - days_before_year (d_year t) \<le> days_before_month (d_year t) (d_month t) + days_in_month (d_year t) (d_month t)"
  using assms by (simp_all add: ordinal_def valid_date_def)

lemma ordinal_in_year:
  assumes "valid_date t"
  shows "days_before_year (d_year t) < ordinal t" and "ordinal t \<le> days_before_year (d_year t + 1)"
proof -
  let ?y = "d_year t" and ?m = "d_month t"
  have m: "1 \<le> ?m" "?m \<le> 12" using assms by (simp_all add: valid_date_def)
  have "0 \<le> days_before_month ?y ?m" using days_before_month_mono [of 1 ?m ?y] m by simp
  then show "days_before_year ?y < ordinal t" using in_month(1) [OF assms] by simp
  have "days_before_month ?y ?m + days_in_month ?y ?m \<le> days_before_month ?y 12 + 31"
  proof (cases "?m = 12")
    case True
    then show ?thesis by (simp add: days_in_month_def)
  next
    case False
    then have "days_before_month ?y (?m + 1) \<le> days_before_month ?y 12"
      using m by (intro days_before_month_mono) simp_all
    then show ?thesis using m days_before_month_step [of ?m ?y] by simp
  qed
  then show "ordinal t \<le> days_before_year (?y + 1)"
    using in_month(2) [OF assms] days_before_december [of ?y] days_before_year_step [of ?y] by linarith
qed

lemma ordinal_less:
  assumes "valid_date a" and "valid_date b" and "a < b"
  shows "ordinal a < ordinal b"
proof -
  consider "d_year a < d_year b" | "d_year a = d_year b" "d_month a < d_month b"
    | "d_year a = d_year b" "d_month a = d_month b" "d_day a < d_day b"
    using assms(3) by (auto simp: less_date_def)
  then show ?thesis
  proof cases
    case 1
    then have "days_before_year (d_year a + 1) \<le> days_before_year (d_year b)" by (intro days_before_year_mono) simp
    then show ?thesis using ordinal_in_year [OF assms(1)] ordinal_in_year [OF assms(2)] by simp
  next
    case 2
    have "days_before_month (d_year a) (d_month a + 1) \<le> days_before_month (d_year a) (d_month b)"
      using 2 assms(1,2) by (intro days_before_month_mono) (simp_all add: valid_date_def)
    then show ?thesis
      using 2 in_month(2) [OF assms(1)] in_month(1) [OF assms(2)] assms(1) days_before_month_step [of "d_month a" "d_year a"]
      by (simp add: valid_date_def)
  next
    case 3
    then show ?thesis by (simp add: ordinal_def)
  qed
qed

lemma ordinal_le_iff: "valid_date a \<Longrightarrow> valid_date b \<Longrightarrow> ordinal a \<le> ordinal b \<longleftrightarrow> a \<le> b"
  using ordinal_less [of a b] ordinal_less [of b a] by (metis linorder_not_le order_less_le)

section \<open>Working days\<close>

definition working_days_loop :: "date \<Rightarrow> date \<Rightarrow> (date \<times> int) option" where
  \<comment> \<open>\<^verbatim>\<open>while current <= end: ...\<close>; \<open>None\<close> would be a loop that does not end\<close>
  "working_days_loop start finish =
     while_option (\<lambda>(current, days). current \<le> finish)
       (\<lambda>(current, days). (next_day current, if weekday current < 5 then days + 1 else days)) (start, 0)"

definition working_days_in_period :: "date \<Rightarrow> date \<Rightarrow> int" where
  "working_days_in_period start finish =
     (case working_days_loop start finish of Some (current, days) \<Rightarrow> days | None \<Rightarrow> 0)"

definition weekdays_upto :: "int \<Rightarrow> int" where
  \<comment> \<open>reference: Mondays to Fridays among the days 1 to \<open>n\<close>; day 1 was a Monday\<close>
  "weekdays_upto n = 5 * (n div 7) + min (n mod 7) 5"

lemma weekdays_upto_step: "weekdays_upto n = weekdays_upto (n - 1) + (if (n + 6) mod 7 < 5 then 1 else 0)"
proof -
  define q r where "q = (n - 1) div 7" and "r = (n - 1) mod 7"
  have r: "0 \<le> r" "r < 7" by (simp_all add: r_def)
  have n: "n = 7 * q + r + 1" using div_mult_mod_eq [of "n - 1" 7] by (simp add: q_def r_def)
  have w: "(n + 6) mod 7 = r" by (simp add: n mod_add_eq) (use r in \<open>simp add: algebra_simps\<close>)
  show ?thesis
  proof (cases "r = 6")
    case True
    then have "n = 7 * (q + 1)" by (simp add: n)
    then have "n div 7 = q + 1" "n mod 7 = 0" by simp_all
    then show ?thesis using True w by (simp add: weekdays_upto_def q_def [symmetric] r_def [symmetric])
  next
    case False
    have "n div 7 = q" "n mod 7 = r + 1"
      using int_div_pos_eq [of n 7 q "r + 1"] int_mod_pos_eq [of n 7 q "r + 1"] r False n by simp_all
    then show ?thesis using r False w by (simp add: weekdays_upto_def q_def [symmetric] r_def [symmetric])
  qed
qed

lemma working_days_loop_from:
  assumes "valid_date finish" and "valid_date current" and "ordinal current \<le> ordinal finish + 1"
  shows "\<exists>t. while_option (\<lambda>(current, days). current \<le> finish)
       (\<lambda>(current, days). (next_day current, if weekday current < 5 then days + 1 else days)) (current, n)
     = Some (t, n + weekdays_upto (ordinal finish) - weekdays_upto (ordinal current - 1))"
  using assms(2,3)
proof (induction "nat (ordinal finish + 1 - ordinal current)" arbitrary: current n)
  case 0
  then have o: "ordinal current = ordinal finish + 1" by simp
  then have "\<not> current \<le> finish" using ordinal_le_iff [OF 0(2) assms(1)] by simp
  then show ?case using o by (subst while_option_unfold) simp
next
  case (Suc k)
  then have "ordinal current \<le> ordinal finish" by simp
  then have le: "current \<le> finish" using ordinal_le_iff [OF Suc(3) assms(1)] by simp
  have nx: "valid_date (next_day current)" "ordinal (next_day current) = ordinal current + 1"
    using Suc(3) by (simp_all add: valid_next_day ordinal_next_day)
  let ?n = "if weekday current < 5 then n + 1 else n"
  have "k = nat (ordinal finish + 1 - ordinal (next_day current))" using Suc(2) nx(2) by simp
  then have "\<exists>t. while_option (\<lambda>(current, days). current \<le> finish)
       (\<lambda>(current, days). (next_day current, if weekday current < 5 then days + 1 else days)) (next_day current, ?n)
     = Some (t, ?n + weekdays_upto (ordinal finish) - weekdays_upto (ordinal (next_day current) - 1))"
    using Suc(1) [of "next_day current" ?n] nx \<open>ordinal current \<le> ordinal finish\<close> by simp
  moreover have "?n + weekdays_upto (ordinal finish) - weekdays_upto (ordinal (next_day current) - 1)
      = n + weekdays_upto (ordinal finish) - weekdays_upto (ordinal current - 1)"
    using weekdays_upto_step [of "ordinal current"] nx(2) by (simp add: weekday_def)
  moreover have "while_option (\<lambda>(current, days). current \<le> finish)
       (\<lambda>(current, days). (next_day current, if weekday current < 5 then days + 1 else days)) (current, n)
     = while_option (\<lambda>(current, days). current \<le> finish)
       (\<lambda>(current, days). (next_day current, if weekday current < 5 then days + 1 else days)) (next_day current, ?n)"
    using le by (subst while_option_unfold) simp
  ultimately show ?case by metis
qed

text \<open>
  C36: the loop that walks a payroll period day by day ends for every period, and what it counts is
  the closed form: whole weeks contribute five days each, the rest of the week at most five; an
  inverted period counts nothing.
\<close>

theorem working_days_loop_ends:
  assumes "valid_date start" and "valid_date finish"
  shows "\<exists>t. working_days_loop start finish
     = Some (t, if start \<le> finish then weekdays_upto (ordinal finish) - weekdays_upto (ordinal start - 1) else 0)"
proof (cases "start \<le> finish")
  case True
  then have "ordinal start \<le> ordinal finish" using ordinal_le_iff [OF assms] by simp
  then show ?thesis using working_days_loop_from [OF assms(2,1), of 0] True by (simp add: working_days_loop_def)
next
  case False
  then show ?thesis by (subst working_days_loop_def, subst while_option_unfold) simp
qed

theorem working_days_loop_ends_witness:
  "map_option snd (working_days_loop (Date 2024 2 1) (Date 2024 2 29)) = Some 21
     \<and> map_option snd (working_days_loop (Date 2024 2 1) (Date 2024 2 29))
       = Some (weekdays_upto (ordinal (Date 2024 2 29)) - weekdays_upto (ordinal (Date 2024 2 1) - 1))"
proof
  have v: "valid_date (Date 2024 2 1)" "valid_date (Date 2024 2 29)" by code_simp+
  show "map_option snd (working_days_loop (Date 2024 2 1) (Date 2024 2 29))
       = Some (weekdays_upto (ordinal (Date 2024 2 29)) - weekdays_upto (ordinal (Date 2024 2 1) - 1))"
    using working_days_loop_ends [OF v] by auto
  show "map_option snd (working_days_loop (Date 2024 2 1) (Date 2024 2 29)) = Some 21" by code_simp
qed

end
