(* ===== verification/HrData.thy ===== *)
theory HrData
  imports Assets Paye Calendar
begin

text \<open>
  The tables of human resources that pay touches (\<^verbatim>\<open>hrm/models.py\<close>): departments and employees,
  salary structures, the grade-step grid and the placements on it, payroll periods, runs and lines,
  and the statutory templates.  Names, bank details and the payslip rows are not modelled.
\<close>

section \<open>Employees\<close>

record department =
  dp_id :: nat
  dp_cost_center :: "nat option" \<comment> \<open>a row of \<^verbatim>\<open>accounting.CostCenter\<close>\<close>

record employee =
  em_id :: nat
  em_organization :: "nat option"
  em_department :: nat
  em_type :: string
  em_status :: string
  em_base_salary :: "rat option"
  em_structure :: "nat option"

section \<open>Salary structures\<close>

datatype component_type = CT_Earning | CT_Deduction

record salary_component =
  cp_id :: nat
  cp_code :: string
  cp_type :: component_type
  cp_calculation :: string
  cp_value :: rat
  cp_percentage :: "rat option"
  cp_taxable :: bool
  cp_pensionable :: bool
  cp_active :: bool

record structure_row =
  sr_structure :: nat
  sr_component :: nat
  sr_active :: bool

record statutory_template =
  st_id :: nat
  st_type :: string
  st_name :: string
  st_rate :: rat
  st_fixed :: rat
  st_employer_rate :: rat
  st_employer_fixed :: rat
  st_active :: bool
  st_applies :: "string list"
  st_minimum :: rat
  st_maximum :: "rat option"

section \<open>The grade-step grid\<close>

record salary_grade =
  gr_id :: nat
  gr_max_steps :: nat
  gr_months :: nat \<comment> \<open>\<^verbatim>\<open>annual_increment_months\<close>\<close>

record salary_step =
  sp_id :: nat
  sp_grade :: nat
  sp_number :: nat
  sp_annual :: rat

record placement =
  pl_id :: nat
  pl_employee :: nat
  pl_step :: nat
  pl_from :: date
  pl_reason :: string

section \<open>Payroll\<close>

record payroll_period =
  pp_id :: nat
  pp_type :: string
  pp_start :: date
  pp_end :: date
  pp_payment :: date
  pp_status :: string

datatype run_status = PR_Draft | PR_In_Progress | PR_Approved | PR_Paid | PR_Cancelled

record payroll_line =
  ln_employee :: nat
  ln_basic :: rat
  ln_gross :: rat
  ln_earnings :: rat
  ln_deductions :: rat
  ln_net :: rat
  ln_working_days :: int
  ln_days_worked :: int
  ln_tax :: rat
  ln_pension :: rat
  ln_other :: rat
  ln_components :: "(nat \<times> rat \<times> bool) list" \<comment> \<open>the \<^verbatim>\<open>PayrollEarning\<close> (true) and \<^verbatim>\<open>PayrollDeduction\<close> rows\<close>
  ln_statutory :: "(nat \<times> rat \<times> rat \<times> bool) list" \<comment> \<open>the \<^verbatim>\<open>StatutoryDeduction\<close> rows\<close>

record payroll_run =
  rn_id :: nat
  rn_number :: string
  rn_period :: nat
  rn_status :: run_status
  rn_gross :: rat
  rn_deductions :: rat
  rn_net :: rat
  rn_processed_by :: "nat option"
  rn_approved_by :: "nat option"
  rn_journal :: "nat option"
  rn_expense :: "nat option"
  rn_liability :: "nat option"
  rn_pension :: "nat option"
  rn_lines :: "payroll_line list"

record hr_state = asset_state +
  departments :: "department list"
  employees :: "employee list"
  salary_components :: "salary_component list"
  structure_rows :: "structure_row list"
  statutory_templates :: "statutory_template list"
  salary_grades :: "salary_grade list"
  salary_steps :: "salary_step list"
  placements :: "placement list"
  tax_brackets :: "tax_bracket list"
  pension_configs :: "pension_config list"
  payroll_periods :: "payroll_period list"
  payroll_runs :: "payroll_run list"

definition run_of :: "nat \<Rightarrow> 'z hr_state_scheme \<Rightarrow> payroll_run option" where
  "run_of i s = find_row rn_id i (payroll_runs s)"

definition save_run :: "payroll_run \<Rightarrow> 'z hr_state_scheme \<Rightarrow> 'z hr_state_scheme" where
  "save_run r s = s\<lparr>payroll_runs := put_row rn_id r (payroll_runs s)\<rparr>"

end
