(* ===== verification/SalaryScale.thy ===== *)
theory SalaryScale
  imports HrData
begin

text \<open>
  The grade-step salary scale (\<^verbatim>\<open>hrm/services/salary_scale.py\<close>): the current placement of an employee,
  the monthly basic pay it gives, and the automatic step increments.  The foreign keys of the grid
  make the missing-row branches of \<open>step_of\<close> and \<open>grade_of\<close> unreachable.
\<close>

section \<open>Lookups\<close>

definition later :: "placement \<Rightarrow> placement \<Rightarrow> bool" where
  \<comment> \<open>\<open>p\<close> precedes \<open>q\<close> under \<^verbatim>\<open>order_by('-effective_from', '-id')\<close>\<close>
  "later p q \<longleftrightarrow> pl_from q < pl_from p \<or> (pl_from q = pl_from p \<and> pl_id q < pl_id p)"

definition latest :: "placement list \<Rightarrow> placement option" where
  "latest ps = fold (\<lambda>p best. case best of None \<Rightarrow> Some p | Some b \<Rightarrow> if later p b then Some p else Some b) ps None"

definition current_placement :: "nat \<Rightarrow> date \<Rightarrow> 'z hr_state_scheme \<Rightarrow> placement option" where
  "current_placement e d s = latest (filter (\<lambda>p. pl_employee p = e \<and> pl_from p \<le> d) (placements s))"

definition step_of :: "placement \<Rightarrow> 'z hr_state_scheme \<Rightarrow> salary_step option" where
  "step_of p s = find_row sp_id (pl_step p) (salary_steps s)"

definition grade_of :: "salary_step \<Rightarrow> 'z hr_state_scheme \<Rightarrow> salary_grade option" where
  "grade_of t s = find_row gr_id (sp_grade t) (salary_grades s)"

definition monthly_basic :: "salary_step \<Rightarrow> rat" where
  "monthly_basic t = quantize_default (dec_div (sp_annual t) 12)"

definition monthly_basic_for :: "nat \<Rightarrow> date \<Rightarrow> 'z hr_state_scheme \<Rightarrow> rat option" where
  "monthly_basic_for e d s =
     Option.bind (current_placement e d s) (\<lambda>p. map_option monthly_basic (step_of p s))"

section \<open>Mutations\<close>

definition place_employee :: "nat \<Rightarrow> salary_step \<Rightarrow> date \<Rightarrow> string \<Rightarrow> 'z hr_state_scheme \<Rightarrow> placement \<times> 'z hr_state_scheme" where
  "place_employee e t d reason s =
     (let p = \<lparr>pl_id = fresh_pk pl_id (placements s), pl_employee = e, pl_step = sp_id t, pl_from = d, pl_reason = reason\<rparr>
      in (p, s\<lparr>placements := placements s @ [p]\<rparr>))"

definition next_step :: "salary_step \<Rightarrow> salary_grade \<Rightarrow> 'z hr_state_scheme \<Rightarrow> salary_step option" where
  "next_step t g s =
     (if gr_max_steps g \<le> sp_number t then None
      else find (\<lambda>u. sp_grade u = gr_id g \<and> sp_number u = sp_number t + 1) (salary_steps s))"

definition earliest_increment :: "date \<Rightarrow> nat \<Rightarrow> date" where
  "earliest_increment d months =
     Date (d_year d + (d_month d - 1 + int months) div 12) ((d_month d - 1 + int months) mod 12 + 1) (min (d_day d) 28)"

definition is_due :: "placement \<Rightarrow> salary_grade \<Rightarrow> date \<Rightarrow> bool" where
  "is_due p g d \<longleftrightarrow> earliest_increment (pl_from p) (gr_months g) \<le> d"

definition advance_step :: "nat \<Rightarrow> date \<Rightarrow> 'z hr_state_scheme \<Rightarrow> placement option \<times> 'z hr_state_scheme" where
  "advance_step e d s =
     (case current_placement e d s of
        None \<Rightarrow> (None, s)
      | Some p \<Rightarrow>
          (case step_of p s of
             None \<Rightarrow> (None, s)
           | Some t \<Rightarrow>
               (case grade_of t s of
                  None \<Rightarrow> (None, s)
                | Some g \<Rightarrow>
                    if \<not> is_due p g d then (None, s)
                    else (case next_step t g s of
                            None \<Rightarrow> (None, s)
                          | Some u \<Rightarrow>
                              let (q, s') = place_employee e u d ''Step_Increment'' s in (Some q, s')))))"

record advance_summary =
  av_considered :: nat
  av_advanced :: nat
  av_max :: nat
  av_not_due :: nat
  av_none :: nat

definition bulk_advance_one :: "date \<Rightarrow> nat \<Rightarrow> advance_summary \<times> 'z hr_state_scheme \<Rightarrow> advance_summary \<times> 'z hr_state_scheme" where
  \<comment> \<open>one iteration of \<^verbatim>\<open>bulk_advance_due\<close>\<close>
  "bulk_advance_one d e ms =
     (let (m0, s) = ms; m = m0\<lparr>av_considered := av_considered m0 + 1\<rparr>
      in case current_placement e d s of
           None \<Rightarrow> (m\<lparr>av_none := av_none m + 1\<rparr>, s)
         | Some p \<Rightarrow>
             (case step_of p s of
                None \<Rightarrow> (m\<lparr>av_none := av_none m + 1\<rparr>, s)
              | Some t \<Rightarrow>
                  (case grade_of t s of
                     None \<Rightarrow> (m\<lparr>av_none := av_none m + 1\<rparr>, s)
                   | Some g \<Rightarrow>
                       if \<not> is_due p g d then (m\<lparr>av_not_due := av_not_due m + 1\<rparr>, s)
                       else (case next_step t g s of
                               None \<Rightarrow> (m\<lparr>av_max := av_max m + 1\<rparr>, s)
                             | Some u \<Rightarrow> (m\<lparr>av_advanced := av_advanced m + 1\<rparr>,
                                          snd (place_employee e u d ''Step_Increment'' s))))))"

definition bulk_advance_due :: "date \<Rightarrow> 'z hr_state_scheme \<Rightarrow> advance_summary \<times> 'z hr_state_scheme" where
  "bulk_advance_due d s =
     fold (bulk_advance_one d) (map em_id (filter (\<lambda>e. em_status e = ''Active'') (employees s)))
       (\<lparr>av_considered = 0, av_advanced = 0, av_max = 0, av_not_due = 0, av_none = 0\<rparr>, s)"

section \<open>The current placement\<close>

lemma latest_append:
  "latest (ps @ [p]) = (case latest ps of None \<Rightarrow> Some p | Some b \<Rightarrow> if later p b then Some p else Some b)"
  by (simp add: latest_def)

lemma latest_in: "latest ps = Some p \<Longrightarrow> p \<in> set ps"
  by (induction ps arbitrary: p rule: rev_induct)
     (auto simp: latest_append latest_def [of "[]"] split: option.splits if_splits)

lemma current_after_placing:
  assumes "p = \<lparr>pl_id = fresh_pk pl_id (placements s), pl_employee = e, pl_step = t, pl_from = d, pl_reason = r\<rparr>"
    and "placements s' = placements s @ [p]"
  shows "current_placement k d s' = (if k = e then Some p else current_placement k d s)"
proof (cases "k = e")
  case True
  let ?ps = "filter (\<lambda>q. pl_employee q = e \<and> pl_from q \<le> d) (placements s)"
  have "later p b" if "latest ?ps = Some b" for b
  proof -
    have b: "b \<in> set (placements s)" "pl_from b \<le> d" using latest_in [OF that] by auto
    have "pl_id b < fresh_pk pl_id (placements s)"
      using b(1) fold_max_ge [of 0 "map pl_id (placements s)"] by (auto simp: fresh_pk_def le_imp_less_Suc)
    then show ?thesis using b(2) by (auto simp: later_def assms(1))
  qed
  then show ?thesis using True by (simp add: current_placement_def assms latest_append split: option.splits)
qed (simp add: current_placement_def assms)

section \<open>Increments\<close>

lemma earliest_after:
  assumes "1 \<le> months" and "1 \<le> d_month d"
  shows "d < earliest_increment d months"
proof (cases d)
  case (Date y m k)
  show ?thesis
  proof (cases "(m - 1 + int months) div 12 = 0")
    case True
    then have "(m - 1 + int months) mod 12 = m - 1 + int months"
      using div_mult_mod_eq [of "m - 1 + int months" 12] by simp
    then show ?thesis using assms True by (simp add: earliest_increment_def Date)
  next
    case False
    have "0 \<le> (m - 1 + int months) div 12" using assms Date by simp
    then show ?thesis using False by (simp add: earliest_increment_def Date)
  qed
qed

definition settled :: "date \<Rightarrow> nat \<Rightarrow> 'z hr_state_scheme \<Rightarrow> bool" where
  \<comment> \<open>a run on day \<open>d\<close> has nothing to advance for employee \<open>e\<close>\<close>
  "settled d e s \<longleftrightarrow>
     (\<forall>p t g. current_placement e d s = Some p \<longrightarrow> step_of p s = Some t \<longrightarrow> grade_of t s = Some g \<longrightarrow>
        is_due p g d \<longrightarrow> next_step t g s = None)"

definition months_ok :: "'z hr_state_scheme \<Rightarrow> bool" where
  "months_ok s \<longleftrightarrow> (\<forall>g \<in> set (salary_grades s). 1 \<le> gr_months g)"

lemma advance_one_keeps:
  assumes "bulk_advance_one d e (m, s) = (m', s')"
  shows "salary_grades s' = salary_grades s" "salary_steps s' = salary_steps s" "employees s' = employees s"
    "journals s' = journals s" "av_considered m' = av_considered m + 1"
    "av_advanced m' + av_max m' + av_not_due m' + av_none m' = av_advanced m + av_max m + av_not_due m + av_none m + 1"
    "length (placements s') + av_advanced m = length (placements s) + av_advanced m'"
    "k \<noteq> e \<Longrightarrow> current_placement k d s' = current_placement k d s"
  using assms by (auto simp: bulk_advance_one_def place_employee_def Let_def current_after_placing split: option.splits if_splits)

lemma advance_one_settled:
  assumes "settled d e s"
  shows "snd (bulk_advance_one d e (m, s)) = s \<and> av_advanced (fst (bulk_advance_one d e (m, s))) = av_advanced m"
  using assms by (auto simp: bulk_advance_one_def settled_def Let_def split: option.splits)

lemma advance_one_settles:
  assumes "bulk_advance_one d e (m, s) = (m', s')" and "months_ok s" and "1 \<le> d_month d"
  shows "settled d e s'"
proof (cases "av_advanced m' = av_advanced m")
  case True
  then show ?thesis using assms(1)
    by (auto simp: bulk_advance_one_def settled_def place_employee_def Let_def split: option.splits if_splits)
next
  case False
  then obtain t where s': "s' = snd (place_employee e t d ''Step_Increment'' s)"
    using assms(1) by (auto simp: bulk_advance_one_def Let_def split: option.splits if_splits)
  then have c: "\<exists>p. current_placement e d s' = Some p \<and> pl_from p = d"
    by (auto simp: place_employee_def Let_def current_after_placing)
  have "\<not> is_due p g d" if "pl_from p = d" "g \<in> set (salary_grades s)" for p g
    using earliest_after [of "gr_months g" d] that assms(2,3) by (auto simp: is_due_def months_ok_def not_le)
  moreover have "salary_grades s' = salary_grades s" by (simp add: s' place_employee_def Let_def)
  ultimately show ?thesis using c by (auto simp: settled_def grade_of_def dest!: find_row_SomeD)
qed

lemma settled_other:
  assumes "bulk_advance_one d e (m, s) = (m', s')" and "k \<noteq> e" and "settled d k s"
  shows "settled d k s'"
  using assms(3) by (simp only: settled_def step_of_def grade_of_def next_step_def
      advance_one_keeps(1,2) [OF assms(1)] advance_one_keeps(8) [OF assms(1,2)])

lemma bulk_loop:
  assumes "fold (bulk_advance_one d) es (m, s) = (m', s')" and "months_ok s" and "1 \<le> d_month d" and "distinct es"
  shows "months_ok s' \<and> employees s' = employees s \<and> av_considered m' = av_considered m + length es
    \<and> av_advanced m' + av_max m' + av_not_due m' + av_none m'
        = av_advanced m + av_max m + av_not_due m + av_none m + length es
    \<and> length (placements s') + av_advanced m = length (placements s) + av_advanced m'
    \<and> (\<forall>e \<in> set es. settled d e s') \<and> (\<forall>k. k \<notin> set es \<longrightarrow> settled d k s \<longrightarrow> settled d k s')"
  using assms
proof (induction es arbitrary: m s)
  case (Cons e es)
  obtain m1 s1 where 1: "bulk_advance_one d e (m, s) = (m1, s1)" by fastforce
  note K = advance_one_keeps [OF 1]
  have "months_ok s1" using Cons.prems(2) K(1) by (simp add: months_ok_def)
  with Cons.IH [of m1 s1] Cons.prems 1
  have "months_ok s' \<and> employees s' = employees s1 \<and> av_considered m' = av_considered m1 + length es
    \<and> av_advanced m' + av_max m' + av_not_due m' + av_none m'
        = av_advanced m1 + av_max m1 + av_not_due m1 + av_none m1 + length es
    \<and> length (placements s') + av_advanced m1 = length (placements s1) + av_advanced m'
    \<and> (\<forall>e \<in> set es. settled d e s') \<and> (\<forall>k. k \<notin> set es \<longrightarrow> settled d k s1 \<longrightarrow> settled d k s')" by simp
  moreover have "settled d e s1" by (rule advance_one_settles [OF 1 Cons.prems(2,3)])
  moreover have "e \<notin> set es" using Cons.prems(4) by simp
  ultimately show ?case using K settled_other [OF 1] by auto
qed simp

lemma bulk_settled_loop:
  "(\<forall>e \<in> set es. settled d e s) \<Longrightarrow>
     snd (fold (bulk_advance_one d) es (m, s)) = s \<and> av_advanced (fst (fold (bulk_advance_one d) es (m, s))) = av_advanced m"
proof (induction es arbitrary: m)
  case (Cons e es)
  obtain m1 s1 where 1: "bulk_advance_one d e (m, s) = (m1, s1)" by fastforce
  have "s1 = s" "av_advanced m1 = av_advanced m" using advance_one_settled [of d e s m] Cons.prems by (simp_all add: 1)
  then show ?case using Cons by (simp add: 1)
qed simp

section \<open>A worked grid\<close>

definition demo_staff :: "nat \<Rightarrow> employee" where
  "demo_staff i = \<lparr>em_id = i, em_organization = None, em_department = 1, em_type = ''Permanent'', em_status = ''Active'',
     em_base_salary = Some 100000, em_structure = Some 1\<rparr>"

definition demo_hr :: hr_state where
  "demo_hr = asset_state.extend (budget_state.extend demo_ledger
       \<lparr>auto_create = [], account_category = [], asset_categories = [], fixed_assets = [], schedules = []\<rparr>)
     \<lparr>departments = [\<lparr>dp_id = 1, dp_cost_center = None\<rparr>],
      employees = [demo_staff 1, demo_staff 2],
      salary_components = [\<lparr>cp_id = 1, cp_code = ''HOUSING'', cp_type = CT_Earning, cp_calculation = ''Percentage'',
                             cp_value = 0, cp_percentage = Some 50, cp_taxable = True,
                             cp_pensionable = True, cp_active = True\<rparr>],
      structure_rows = [\<lparr>sr_structure = 1, sr_component = 1, sr_active = True\<rparr>],
      statutory_templates = [],
      salary_grades = [\<lparr>gr_id = 1, gr_max_steps = 3, gr_months = 12\<rparr>],
      salary_steps = [\<lparr>sp_id = 1, sp_grade = 1, sp_number = 1, sp_annual = 1200000\<rparr>,
                      \<lparr>sp_id = 2, sp_grade = 1, sp_number = 2, sp_annual = 1260000\<rparr>],
      placements = [\<lparr>pl_id = 1, pl_employee = 1, pl_step = 1, pl_from = Date 2025 1 31, pl_reason = ''Appointment''\<rparr>],
      tax_brackets = [], pension_configs = [],
      payroll_periods = [\<lparr>pp_id = 1, pp_type = ''Monthly'', pp_start = Date 2026 3 1, pp_end = Date 2026 3 31,
                           pp_payment = Date 2026 3 25, pp_status = ''Open''\<rparr>],
      payroll_runs = [\<lparr>rn_id = 1, rn_number = ''2026-03'', rn_period = 1, rn_status = PR_Draft, rn_gross = 0,
         rn_deductions = 0, rn_net = 0, rn_processed_by = None, rn_approved_by = None, rn_journal = None,
         rn_expense = Some 1, rn_liability = Some 2, rn_pension = Some 2, rn_lines = []\<rparr>]\<rparr>"

section \<open>The property of the increment run\<close>

text \<open>
  The increment run counts every active employee in exactly one of its four outcomes and adds one
  placement per advance, and it is idempotent within the day: where every grade waits at least a
  month between increments, a second run on the same day advances nobody and changes nothing.
\<close>

theorem bulk_advance_idempotent:
  assumes "bulk_advance_due d s = (m, s')" and "months_ok s" and "distinct (map em_id (employees s))" and "1 \<le> d_month d"
  shows "av_considered m = length (filter (\<lambda>e. em_status e = ''Active'') (employees s))
    \<and> av_advanced m + av_max m + av_not_due m + av_none m = av_considered m
    \<and> length (placements s') = length (placements s) + av_advanced m
    \<and> snd (bulk_advance_due d s') = s' \<and> av_advanced (fst (bulk_advance_due d s')) = 0"
proof -
  let ?es = "map em_id (filter (\<lambda>e. em_status e = ''Active'') (employees s))"
  have "distinct ?es" using assms(3) by (simp add: distinct_map_filter)
  with bulk_loop [OF assms(1) [unfolded bulk_advance_due_def] assms(2,4)]
  have L: "employees s' = employees s" "av_considered m = length ?es"
    "av_advanced m + av_max m + av_not_due m + av_none m = length ?es"
    "length (placements s') = length (placements s) + av_advanced m" "\<forall>e \<in> set ?es. settled d e s'"
    by simp_all
  from bulk_settled_loop [OF L(5)] L show ?thesis by (simp add: bulk_advance_due_def)
qed

theorem bulk_advance_idempotent_witness:
  "av_advanced (fst (bulk_advance_due (Date 2026 1 28) demo_hr)) = 1
    \<and> av_advanced (fst (bulk_advance_due (Date 2026 1 28) (snd (bulk_advance_due (Date 2026 1 28) demo_hr)))) = 0"
proof
  have "months_ok demo_hr" "distinct (map em_id (employees demo_hr))" by code_simp+
  then show "av_advanced (fst (bulk_advance_due (Date 2026 1 28) (snd (bulk_advance_due (Date 2026 1 28) demo_hr)))) = 0"
    using bulk_advance_idempotent [of "Date 2026 1 28" demo_hr, OF prod.collapse [symmetric]] by simp
  show "av_advanced (fst (bulk_advance_due (Date 2026 1 28) demo_hr)) = 1" by code_simp
qed

end
