(* ===== verification/Payroll.thy ===== *)
theory Payroll
  imports SalaryScale
begin

text \<open>
  The payroll computation: the deterministic pipeline of \<^verbatim>\<open>hrm/services/payroll_runner.py\<close> (one line
  per employee, the run's totals) and the older \<^verbatim>\<open>process\<close> action of \<^verbatim>\<open>hrm/views.py\<close>, which does not
  round before it stores.  A line's payslip row and the employee's bank details are not modelled,
  nor is the overflow of an amount past the digits of its column.
\<close>

section \<open>One employee's line\<close>

definition component_amount :: "salary_component \<Rightarrow> rat \<Rightarrow> rat" where
  "component_amount c basic =
     (case cp_percentage c of
        Some p \<Rightarrow> if cp_calculation c = ''Percentage'' \<and> p \<noteq> 0 then basic * p / 100 else cp_value c
      | None \<Rightarrow> cp_value c)"

definition structure_components :: "employee \<Rightarrow> 'z hr_state_scheme \<Rightarrow> salary_component list" where
  \<comment> \<open>the active components of the active rows of the employee's structure\<close>
  "structure_components e s =
     (case em_structure e of
        None \<Rightarrow> []
      | Some k \<Rightarrow> filter cp_active
          (List.map_filter (\<lambda>r. find_row cp_id (sr_component r) (salary_components s))
             (filter (\<lambda>r. sr_structure r = k \<and> sr_active r) (structure_rows s))))"

record component_totals =
  ca_earnings :: rat
  ca_other :: rat
  ca_housing :: rat
  ca_transport :: rat
  ca_rows :: "(nat \<times> rat \<times> bool) list"

definition add_component :: "rat \<Rightarrow> salary_component \<Rightarrow> component_totals \<Rightarrow> component_totals" where
  "add_component basic c a =
     (let amount = quantize_currency (component_amount c basic)
      in if amount \<le> 0 then a
         else case cp_type c of
           CT_Earning \<Rightarrow>
             a\<lparr>ca_earnings := ca_earnings a + amount,
               ca_rows := ca_rows a @ [(cp_id c, amount, True)],
               ca_housing := (if icontains ''hous'' (cp_code c) then ca_housing a + amount else ca_housing a),
               ca_transport := (if \<not> icontains ''hous'' (cp_code c) \<and> icontains ''trans'' (cp_code c)
                                then ca_transport a + amount else ca_transport a)\<rparr>
         | CT_Deduction \<Rightarrow>
             a\<lparr>ca_other := ca_other a + amount, ca_rows := ca_rows a @ [(cp_id c, amount, False)]\<rparr>)"

definition calculate_deduction :: "statutory_template \<Rightarrow> rat \<Rightarrow> rat" where
  "calculate_deduction t gross =
     (if 0 < st_fixed t then st_fixed t
      else let a = gross * st_rate t;
               b = (if 0 < st_minimum t \<and> a < st_minimum t then st_minimum t else a)
           in case st_maximum t of
                Some m \<Rightarrow> if m \<noteq> 0 \<and> m < b then m else b
              | None \<Rightarrow> b)"

definition employer_deduction :: "statutory_template \<Rightarrow> rat \<Rightarrow> rat" where
  "employer_deduction t gross =
     (if 0 < st_employer_fixed t then st_employer_fixed t
      else if 0 < st_employer_rate t then gross * st_employer_rate t else 0)"

definition template_applies :: "statutory_template \<Rightarrow> employee \<Rightarrow> bool" where
  "template_applies t e \<longleftrightarrow> st_applies t = [] \<or> em_type e \<in> set (st_applies t)"

record statutory_totals =
  sa_tax :: rat
  sa_pension :: rat
  sa_other :: rat
  sa_rows :: "(nat \<times> rat \<times> rat \<times> bool) list"

definition charge_template :: "string \<Rightarrow> rat \<Rightarrow> statutory_totals \<Rightarrow> statutory_totals" where
  \<comment> \<open>which total a template's employee amount goes to\<close>
  "charge_template kind x a =
     (if kind = ''Tier1'' \<or> kind = ''Tier2'' then a\<lparr>sa_pension := sa_pension a + x\<rparr>
      else if kind = ''Income_Tax'' then a\<lparr>sa_tax := sa_tax a + x\<rparr>
      else a\<lparr>sa_other := sa_other a + x\<rparr>)"

definition add_template :: "employee \<Rightarrow> rat \<Rightarrow> statutory_template \<Rightarrow> statutory_totals \<Rightarrow> statutory_totals" where
  "add_template e gross t a =
     (let x = quantize_currency (calculate_deduction t gross); y = quantize_currency (employer_deduction t gross)
      in if \<not> template_applies t e \<or> (x \<le> 0 \<and> y \<le> 0) then a
         else charge_template (st_type t) x (a\<lparr>sa_rows := sa_rows a @ [(st_id t, x, y, 0 < y)]\<rparr>))"

record payroll_calculation =
  cl_employee :: nat
  cl_basic :: rat
  cl_gross :: rat
  cl_earnings :: rat
  cl_deductions :: rat
  cl_net :: rat
  cl_tax :: rat
  cl_pension :: rat
  cl_nhf :: rat
  cl_other :: rat
  cl_employer_pension :: rat
  cl_working_days :: int
  cl_components :: "(nat \<times> rat \<times> bool) list"
  cl_statutory :: "(nat \<times> rat \<times> rat \<times> bool) list"

definition basic_of :: "employee \<Rightarrow> date \<Rightarrow> 'z hr_state_scheme \<Rightarrow> rat" where
  \<comment> \<open>the scale amount where the employee is placed, else the raw field\<close>
  "basic_of e d s =
     (case monthly_basic_for (em_id e) d s of
        Some b \<Rightarrow> b
      | None \<Rightarrow> (case em_base_salary e of Some b \<Rightarrow> b | None \<Rightarrow> 0))"

definition active_templates :: "'z hr_state_scheme \<Rightarrow> statutory_template list" where
  \<comment> \<open>\<^verbatim>\<open>ordering = ['deduction_type', 'name']\<close>\<close>
  "active_templates s = sort_key st_type (sort_key st_name (filter st_active (statutory_templates s)))"

definition compute_line ::
    "employee \<Rightarrow> payroll_period \<Rightarrow> statutory_template list option \<Rightarrow> bool \<Rightarrow> 'z hr_state_scheme \<Rightarrow> payroll_calculation" where
  "compute_line e period templates auto s =
     (let basic = basic_of e (pp_start period) s;
          c = fold (add_component basic) (structure_components e s)
                \<lparr>ca_earnings = basic, ca_other = 0, ca_housing = 0, ca_transport = 0, ca_rows = []\<rparr>;
          gross = quantize_currency (ca_earnings c);
          pens = compute_contributions (pension_configs s) basic (ca_housing c) (ca_transport c);
          pension0 = (if auto then quantize_currency (ct_employee pens) else 0);
          employer = (if auto then quantize_currency (ct_employer pens) else 0);
          nhf = (if auto then quantize_currency (compute_nhf basic) else 0);
          tax0 = (if auto then quantize_currency (monthly_paye (tax_brackets s) gross pension0 nhf) else 0);
          ts = (case templates of Some ts \<Rightarrow> ts | None \<Rightarrow> if auto then [] else active_templates s);
          a = fold (add_template e gross) ts \<lparr>sa_tax = tax0, sa_pension = pension0, sa_other = ca_other c, sa_rows = []\<rparr>;
          deductions = quantize_currency (sa_tax a + sa_pension a + nhf + sa_other a)
      in \<lparr>cl_employee = em_id e, cl_basic = quantize_currency basic, cl_gross = gross, cl_earnings = gross,
          cl_deductions = deductions, cl_net = quantize_currency (gross - deductions),
          cl_tax = quantize_currency (sa_tax a), cl_pension = quantize_currency (sa_pension a),
          cl_nhf = quantize_currency nhf, cl_other = quantize_currency (sa_other a),
          cl_employer_pension = quantize_currency employer,
          cl_working_days = working_days_in_period (pp_start period) (pp_end period),
          cl_components = ca_rows c, cl_statutory = sa_rows a\<rparr>)"

section \<open>The run\<close>

definition stored_line :: "payroll_line \<Rightarrow> payroll_line" where
  \<comment> \<open>the amounts as the two-place columns hold them\<close>
  "stored_line l = l\<lparr>ln_basic := db_decimal (ln_basic l), ln_gross := db_decimal (ln_gross l),
     ln_earnings := db_decimal (ln_earnings l), ln_deductions := db_decimal (ln_deductions l),
     ln_net := db_decimal (ln_net l), ln_tax := db_decimal (ln_tax l), ln_pension := db_decimal (ln_pension l),
     ln_other := db_decimal (ln_other l),
     ln_components := map (\<lambda>(k, x, b). (k, db_decimal x, b)) (ln_components l),
     ln_statutory := map (\<lambda>(k, x, y, b). (k, db_decimal x, db_decimal y, b)) (ln_statutory l)\<rparr>"

definition persist_line :: "payroll_calculation \<Rightarrow> payroll_run \<Rightarrow> payroll_run" where
  "persist_line c r =
     r\<lparr>rn_lines := rn_lines r @
        [stored_line \<lparr>ln_employee = cl_employee c, ln_basic = cl_basic c, ln_gross = cl_gross c,
           ln_earnings = cl_earnings c, ln_deductions = cl_deductions c, ln_net = cl_net c,
           ln_working_days = cl_working_days c, ln_days_worked = cl_working_days c, ln_tax = cl_tax c,
           ln_pension = cl_pension c, ln_other = cl_nhf c + cl_other c, ln_components = cl_components c,
           ln_statutory = cl_statutory c\<rparr>]\<rparr>"

definition eligible_employees :: "nat option \<Rightarrow> 'z hr_state_scheme \<Rightarrow> employee list" where
  "eligible_employees org s =
     filter (\<lambda>e. em_status e \<in> {''Active'', ''Probation''} \<and> (org = None \<or> em_organization e = org)) (employees s)"

definition run_totals :: "payroll_run \<Rightarrow> payroll_run" where
  "run_totals r = r\<lparr>rn_gross := sum_list (map ln_gross (rn_lines r)),
     rn_deductions := sum_list (map ln_deductions (rn_lines r)), rn_net := sum_list (map ln_net (rn_lines r))\<rparr>"

definition run_payroll :: "nat \<Rightarrow> nat option \<Rightarrow> bool \<Rightarrow> nat option \<Rightarrow> 'z hr_state_scheme \<Rightarrow> err + (nat \<times> 'z hr_state_scheme)" where
  \<comment> \<open>with the number of employees processed\<close>
  "run_payroll i user auto org s =
     (case run_of i s of
        None \<Rightarrow> Inl DoesNotExist
      | Some r \<Rightarrow>
          if rn_status r \<noteq> PR_Draft then Inl ValueError
          else (case find_row pp_id (rn_period r) (payroll_periods s) of
                  None \<Rightarrow> Inl DoesNotExist
                | Some period \<Rightarrow>
                    let es = eligible_employees org s; ts = active_templates s;
                        r1 = fold (\<lambda>e. persist_line (compute_line e period (Some ts) auto s)) es (r\<lparr>rn_lines := []\<rparr>);
                        r2 = (run_totals r1)\<lparr>rn_status := PR_In_Progress,
                               rn_processed_by := (if user \<noteq> None then user else rn_processed_by r1)\<rparr>
                    in Inr (length es, save_run r2 s)))"

section \<open>The older action\<close>

definition process_component :: "rat \<Rightarrow> salary_component \<Rightarrow> rat \<times> rat \<times> statutory_totals \<times> (nat \<times> rat \<times> bool) list
    \<Rightarrow> rat \<times> rat \<times> statutory_totals \<times> (nat \<times> rat \<times> bool) list" where
  \<comment> \<open>earnings, all deductions, the three kinds of deduction, the component rows\<close>
  "process_component basic c acc =
     (let (earnings, deductions, a, rows) = acc; amount = component_amount c basic
      in if amount \<le> 0 then acc
         else case cp_type c of
           CT_Earning \<Rightarrow> (earnings + amount, deductions, a, rows @ [(cp_id c, amount, True)])
         | CT_Deduction \<Rightarrow>
             (earnings, deductions + amount,
              (if cp_taxable c then a\<lparr>sa_tax := sa_tax a + amount\<rparr>
               else if cp_pensionable c then a\<lparr>sa_pension := sa_pension a + amount\<rparr>
               else a\<lparr>sa_other := sa_other a + amount\<rparr>),
              rows @ [(cp_id c, amount, False)]))"

definition process_template :: "employee \<Rightarrow> rat \<Rightarrow> statutory_template \<Rightarrow> rat \<times> statutory_totals \<Rightarrow> rat \<times> statutory_totals" where
  "process_template e gross t acc =
     (let (deductions, a) = acc; x = calculate_deduction t gross; y = employer_deduction t gross
      in if \<not> template_applies t e \<or> \<not> (0 < x \<or> 0 < y) then acc
         else (deductions + x, charge_template (st_type t) x (a\<lparr>sa_rows := sa_rows a @ [(st_id t, x, y, 0 < y)]\<rparr>)))"

definition process_line :: "payroll_period \<Rightarrow> 'z hr_state_scheme \<Rightarrow> employee \<Rightarrow> payroll_line" where
  "process_line period s e =
     (let basic = (case em_base_salary e of Some b \<Rightarrow> b | None \<Rightarrow> 0);
          (gross, d0, a0, rows) = fold (process_component basic) (structure_components e s)
             (basic, 0, \<lparr>sa_tax = 0, sa_pension = 0, sa_other = 0, sa_rows = []\<rparr>, []);
          (deductions, a) = fold (process_template e gross) (active_templates s) (d0, a0);
          days = working_days_in_period (pp_start period) (pp_end period)
      in stored_line \<lparr>ln_employee = em_id e, ln_basic = basic, ln_gross = gross, ln_earnings = gross,
           ln_deductions = deductions, ln_net = gross - deductions, ln_working_days = days, ln_days_worked = days,
           ln_tax = sa_tax a, ln_pension = sa_pension a, ln_other = sa_other a, ln_components = rows,
           ln_statutory = sa_rows a\<rparr>)"

definition process_run :: "nat \<Rightarrow> nat \<Rightarrow> 'z hr_state_scheme \<Rightarrow> err + 'z hr_state_scheme" where
  \<comment> \<open>\<^verbatim>\<open>PayrollRunViewSet.process\<close>; lines an earlier computation left violate the unique pair of run and employee\<close>
  "process_run i user s =
     (case run_of i s of
        None \<Rightarrow> Inl DoesNotExist
      | Some r \<Rightarrow>
          if rn_status r \<noteq> PR_Draft then Inl InvalidTransitionError
          else (case find_row pp_id (rn_period r) (payroll_periods s) of
                  None \<Rightarrow> Inl DoesNotExist
                | Some period \<Rightarrow>
                    let new = map (process_line period s) (filter (\<lambda>e. em_status e = ''Active'') (employees s))
                    in if set (map ln_employee new) \<inter> set (map ln_employee (rn_lines r)) \<noteq> {} then Inl IntegrityError
                       else Inr (save_run ((run_totals (r\<lparr>rn_lines := rn_lines r @ new\<rparr>))
                              \<lparr>rn_status := PR_In_Progress, rn_processed_by := Some user\<rparr>) s)))"

section \<open>A line adds up\<close>

definition earned :: "(nat \<times> rat \<times> bool) list \<Rightarrow> rat" where
  "earned rows = sum_list (map (\<lambda>(k, x, b). if b then x else 0) rows)"

definition withheld :: "(nat \<times> rat \<times> bool) list \<Rightarrow> rat" where
  "withheld rows = sum_list (map (\<lambda>(k, x, b). if b then 0 else x) rows)"

definition charged_to_employee :: "(nat \<times> rat \<times> rat \<times> bool) list \<Rightarrow> rat" where
  "charged_to_employee rows = sum_list (map (\<lambda>(k, x, y, b). x) rows)"

definition line_ok :: "payroll_line \<Rightarrow> bool" where
  \<comment> \<open>the arithmetic of a payslip\<close>
  "line_ok l \<longleftrightarrow>
     ln_gross l = ln_basic l + earned (ln_components l) \<and> ln_deductions l = ln_tax l + ln_pension l + ln_other l
     \<and> ln_net l = ln_gross l - ln_deductions l
     \<and> is_money (ln_gross l) \<and> is_money (ln_deductions l) \<and> is_money (ln_net l)
     \<and> is_money (ln_tax l) \<and> is_money (ln_pension l)"

lemma row_sums [simp]:
  "earned [] = 0" "withheld [] = 0" "charged_to_employee [] = 0"
  "earned (rows @ [(k, x, b)]) = earned rows + (if b then x else 0)"
  "withheld (rows @ [(k, x, b)]) = withheld rows + (if b then 0 else x)"
  "charged_to_employee (st @ [(k, x, y, b)]) = charged_to_employee st + x"
  by (simp_all add: earned_def withheld_def charged_to_employee_def)

definition money_rows :: "(nat \<times> rat \<times> bool) list \<Rightarrow> bool" where
  "money_rows rows \<longleftrightarrow> (\<forall>(k, x, b) \<in> set rows. is_money x)"

definition money_charges :: "(nat \<times> rat \<times> rat \<times> bool) list \<Rightarrow> bool" where
  "money_charges rows \<longleftrightarrow> (\<forall>(k, x, y, b) \<in> set rows. is_money x \<and> is_money y)"

lemma components_fold:
  assumes "is_money (ca_earnings a)" and "is_money (ca_other a)" and "money_rows (ca_rows a)"
  shows "let a' = fold (add_component basic) cs a in
     is_money (ca_earnings a') \<and> is_money (ca_other a') \<and> money_rows (ca_rows a')
     \<and> ca_earnings a' - earned (ca_rows a') = ca_earnings a - earned (ca_rows a)
     \<and> ca_other a' - withheld (ca_rows a') = ca_other a - withheld (ca_rows a)"
  using assms
proof (induction cs arbitrary: a)
  case (Cons c cs)
  let ?a = "add_component basic c a"
  have "is_money (ca_earnings ?a) \<and> is_money (ca_other ?a) \<and> money_rows (ca_rows ?a)
     \<and> ca_earnings ?a - earned (ca_rows ?a) = ca_earnings a - earned (ca_rows a)
     \<and> ca_other ?a - withheld (ca_rows ?a) = ca_other a - withheld (ca_rows a)"
    using Cons.prems by (auto simp: add_component_def Let_def money_rows_def is_money_add split: component_type.splits)
  then show ?case using Cons.IH [of ?a] by (simp add: Let_def)
qed (simp add: Let_def)

lemma templates_fold:
  assumes "is_money (sa_tax a)" and "is_money (sa_pension a)" and "is_money (sa_other a)" and "money_charges (sa_rows a)"
  shows "let a' = fold (add_template e gross) ts a in
     is_money (sa_tax a') \<and> is_money (sa_pension a') \<and> is_money (sa_other a') \<and> money_charges (sa_rows a')
     \<and> sa_tax a' + sa_pension a' + sa_other a' - charged_to_employee (sa_rows a')
        = sa_tax a + sa_pension a + sa_other a - charged_to_employee (sa_rows a)"
  using assms
proof (induction ts arbitrary: a)
  case (Cons t ts)
  let ?a = "add_template e gross t a"
  have "is_money (sa_tax ?a) \<and> is_money (sa_pension ?a) \<and> is_money (sa_other ?a) \<and> money_charges (sa_rows ?a)
     \<and> sa_tax ?a + sa_pension ?a + sa_other ?a - charged_to_employee (sa_rows ?a)
        = sa_tax a + sa_pension a + sa_other a - charged_to_employee (sa_rows a)"
    using Cons.prems by (auto simp: add_template_def charge_template_def Let_def money_charges_def is_money_add)
  then show ?case using Cons.IH [of ?a] by (simp add: Let_def)
qed (simp add: Let_def)

lemma is_money_monthly_basic: "monthly_basic_for e d s = Some b \<Longrightarrow> is_money b"
  by (auto simp: monthly_basic_for_def monthly_basic_def Option.bind_eq_Some_conv)

definition salaries_ok :: "'z hr_state_scheme \<Rightarrow> bool" where
  \<comment> \<open>the salary column holds two places\<close>
  "salaries_ok s \<longleftrightarrow> (\<forall>e \<in> set (employees s). case em_base_salary e of Some b \<Rightarrow> is_money b | None \<Rightarrow> True)"

lemma is_money_basic_of: "salaries_ok s \<Longrightarrow> e \<in> set (employees s) \<Longrightarrow> is_money (basic_of e d s)"
  by (force simp: basic_of_def salaries_ok_def is_money_monthly_basic split: option.splits)

definition calculation_ok :: "payroll_calculation \<Rightarrow> bool" where
  "calculation_ok c \<longleftrightarrow>
     cl_gross c = cl_basic c + earned (cl_components c)
     \<and> cl_deductions c = cl_tax c + cl_pension c + cl_nhf c + cl_other c
     \<and> cl_net c = cl_gross c - cl_deductions c
     \<and> is_money (cl_basic c) \<and> is_money (cl_tax c) \<and> is_money (cl_pension c) \<and> is_money (cl_nhf c) \<and> is_money (cl_other c)
     \<and> is_money (cl_gross c) \<and> money_rows (cl_components c) \<and> money_charges (cl_statutory c)"

lemma compute_line_ok:
  assumes "is_money (basic_of e (pp_start p) s)"
  shows "calculation_ok (compute_line e p ts auto s)"
    and "\<not> auto \<Longrightarrow> cl_deductions (compute_line e p ts auto s)
           = withheld (cl_components (compute_line e p ts auto s)) + charged_to_employee (cl_statutory (compute_line e p ts auto s))"
proof -
  let ?b = "basic_of e (pp_start p) s"
  define c where "c = fold (add_component ?b) (structure_components e s)
      \<lparr>ca_earnings = ?b, ca_other = 0, ca_housing = 0, ca_transport = 0, ca_rows = []\<rparr>"
  define gross where "gross = ca_earnings c"
  define pens where "pens = compute_contributions (pension_configs s) ?b (ca_housing c) (ca_transport c)"
  define pension where "pension = (if auto then quantize_currency (ct_employee pens) else 0)"
  define nhf where "nhf = (if auto then quantize_currency (compute_nhf ?b) else 0)"
  define tax where "tax = (if auto then quantize_currency (monthly_paye (tax_brackets s) gross pension nhf) else 0)"
  define a where "a = fold (add_template e gross) (case ts of Some ts \<Rightarrow> ts | None \<Rightarrow> if auto then [] else active_templates s)
      \<lparr>sa_tax = tax, sa_pension = pension, sa_other = ca_other c, sa_rows = []\<rparr>"
  have C: "is_money gross" "is_money (ca_other c)" "money_rows (ca_rows c)" "gross = ?b + earned (ca_rows c)"
    "withheld (ca_rows c) = ca_other c"
    using components_fold [of "\<lparr>ca_earnings = ?b, ca_other = 0, ca_housing = 0, ca_transport = 0, ca_rows = []\<rparr>" ?b
        "structure_components e s", folded c_def] assms
    by (auto simp: gross_def money_rows_def Let_def)
  have M: "is_money pension" "is_money nhf" "is_money tax" by (simp_all add: pension_def nhf_def tax_def)
  have A: "is_money (sa_tax a)" "is_money (sa_pension a)" "is_money (sa_other a)" "money_charges (sa_rows a)"
    "sa_tax a + sa_pension a + sa_other a = tax + pension + withheld (ca_rows c) + charged_to_employee (sa_rows a)"
    using templates_fold [of "\<lparr>sa_tax = tax, sa_pension = pension, sa_other = ca_other c, sa_rows = []\<rparr>" e gross
        "case ts of Some ts \<Rightarrow> ts | None \<Rightarrow> if auto then [] else active_templates s", folded a_def] C M
    by (auto simp: money_charges_def Let_def)
  have D: "is_money (sa_tax a + sa_pension a + nhf + sa_other a)" using A M by (simp add: is_money_add)
  have q: "quantize_currency (ca_earnings c) = gross" using C(1) by (simp add: gross_def)
  have l: "compute_line e p ts auto s = \<lparr>cl_employee = em_id e, cl_basic = ?b, cl_gross = gross, cl_earnings = gross,
      cl_deductions = sa_tax a + sa_pension a + nhf + sa_other a, cl_net = gross - (sa_tax a + sa_pension a + nhf + sa_other a),
      cl_tax = sa_tax a, cl_pension = sa_pension a, cl_nhf = nhf, cl_other = sa_other a,
      cl_employer_pension = (if auto then quantize_currency (ct_employer pens) else 0),
      cl_working_days = working_days_in_period (pp_start p) (pp_end p), cl_components = ca_rows c, cl_statutory = sa_rows a\<rparr>"
    unfolding compute_line_def Let_def c_def [symmetric] q pens_def [symmetric] pension_def [symmetric] nhf_def [symmetric]
      tax_def [symmetric] a_def [symmetric]
    using assms A(1,2,3) M(2) C(1) D by (simp add: is_money_diff)
  show "calculation_ok (compute_line e p ts auto s)"
    using A C M assms by (simp add: calculation_ok_def l)
  show "cl_deductions (compute_line e p ts auto s)
      = withheld (cl_components (compute_line e p ts auto s)) + charged_to_employee (cl_statutory (compute_line e p ts auto s))"
    if "\<not> auto" using A(5) that unfolding l by (simp add: tax_def pension_def nhf_def)
qed

section \<open>A run adds up\<close>

lemma stored_rows: "money_rows rows \<Longrightarrow> map (\<lambda>(k, x, b). (k, db_decimal x, b)) rows = rows"
  by (auto simp: money_rows_def intro!: map_idI)

lemma stored_charges: "money_charges rows \<Longrightarrow> map (\<lambda>(k, x, y, b). (k, db_decimal x, db_decimal y, b)) rows = rows"
  by (auto simp: money_charges_def intro!: map_idI)

definition line_of :: "payroll_calculation \<Rightarrow> payroll_line" where
  "line_of c = stored_line \<lparr>ln_employee = cl_employee c, ln_basic = cl_basic c, ln_gross = cl_gross c,
     ln_earnings = cl_earnings c, ln_deductions = cl_deductions c, ln_net = cl_net c,
     ln_working_days = cl_working_days c, ln_days_worked = cl_working_days c, ln_tax = cl_tax c,
     ln_pension = cl_pension c, ln_other = cl_nhf c + cl_other c, ln_components = cl_components c,
     ln_statutory = cl_statutory c\<rparr>"

lemma persist_line_of: "persist_line c r = r\<lparr>rn_lines := rn_lines r @ [line_of c]\<rparr>"
  by (simp add: persist_line_def line_of_def)

lemma line_of_ok: "calculation_ok c \<Longrightarrow> line_ok (line_of c)"
proof -
  assume c: "calculation_ok c"
  then have "is_money (cl_gross c)" "is_money (cl_deductions c)" "is_money (cl_net c)" "is_money (cl_nhf c + cl_other c)"
    unfolding calculation_ok_def by (metis is_money_add is_money_diff)+
  then show ?thesis using c
    by (simp add: line_ok_def line_of_def stored_line_def) (simp add: calculation_ok_def stored_rows stored_charges)
qed

lemma persist_fold: "fold (\<lambda>e. persist_line (f e)) es r = r\<lparr>rn_lines := rn_lines r @ map (\<lambda>e. line_of (f e)) es\<rparr>"
  by (induction es arbitrary: r) (simp_all add: persist_line_of)

lemma line_okD:
  assumes "line_ok l"
  shows "ln_net l = ln_gross l - ln_deductions l" "ln_deductions l = ln_tax l + ln_pension l + ln_other l"
  using assms unfolding line_ok_def by blast+

definition totals_ok :: "payroll_run \<Rightarrow> bool" where
  \<comment> \<open>the totals of a computed run\<close>
  "totals_ok r \<longleftrightarrow> rn_gross r = sum_list (map ln_gross (rn_lines r)) \<and> rn_deductions r = sum_list (map ln_deductions (rn_lines r))
     \<and> rn_net r = sum_list (map ln_net (rn_lines r)) \<and> (\<forall>l \<in> set (rn_lines r). line_ok l)"

lemma totals_net: "totals_ok r \<Longrightarrow> rn_net r = rn_gross r - rn_deductions r"
proof -
  have "\<forall>l \<in> set ls. line_ok l \<Longrightarrow> sum_list (map ln_net ls) = sum_list (map ln_gross ls) - sum_list (map ln_deductions ls)" for ls
    by (induction ls) (simp_all add: line_okD)
  then show "totals_ok r \<Longrightarrow> rn_net r = rn_gross r - rn_deductions r" by (simp add: totals_ok_def)
qed

lemma totals_deductions:
  "totals_ok r \<Longrightarrow> rn_deductions r = sum_list (map ln_tax (rn_lines r)) + sum_list (map ln_pension (rn_lines r))
     + sum_list (map ln_other (rn_lines r))"
proof -
  have "\<forall>l \<in> set ls. line_ok l \<Longrightarrow> sum_list (map ln_deductions ls) = sum_list (map ln_tax ls) + sum_list (map ln_pension ls)
     + sum_list (map ln_other ls)" for ls
    by (induction ls) (simp_all add: line_okD)
  then show "totals_ok r \<Longrightarrow> ?thesis" by (simp add: totals_ok_def)
qed

lemma run_payrollD:
  assumes "run_payroll i user auto org s = Inr (n, s')"
  obtains r p where "run_of i s = Some r" "rn_status r = PR_Draft" "find_row pp_id (rn_period r) (payroll_periods s) = Some p"
    "n = length (eligible_employees org s)"
    "s' = save_run (run_totals (r\<lparr>rn_lines := map (\<lambda>e. line_of (compute_line e p (Some (active_templates s)) auto s))
              (eligible_employees org s)\<rparr>)\<lparr>rn_status := PR_In_Progress,
            rn_processed_by := (if user \<noteq> None then user else rn_processed_by r)\<rparr>) s"
  using assms by (auto simp: run_payroll_def persist_fold Let_def run_totals_def split: option.splits if_splits)

lemma run_payroll_totals_ok:
  assumes "run_payroll i user auto org s = Inr (n, s')" and "salaries_ok s"
  shows "\<exists>r. run_of i s' = Some r \<and> rn_status r = PR_In_Progress \<and> totals_ok r
    \<and> map ln_employee (rn_lines r) = map em_id (eligible_employees org s) \<and> n = length (rn_lines r)"
proof -
  obtain r p where r: "run_of i s = Some r" "n = length (eligible_employees org s)"
    and s': "s' = save_run (run_totals (r\<lparr>rn_lines := map (\<lambda>e. line_of (compute_line e p (Some (active_templates s)) auto s))
              (eligible_employees org s)\<rparr>)\<lparr>rn_status := PR_In_Progress,
            rn_processed_by := (if user \<noteq> None then user else rn_processed_by r)\<rparr>) s" (is "_ = save_run ?r s")
    using run_payrollD [OF assms(1)] by metis
  have i: "rn_id r = i" "i \<in> rn_id ` set (payroll_runs s)" using find_row_SomeD [of rn_id i "payroll_runs s" r] r(1) by (auto simp: run_of_def)
  have "run_of i s' = Some ?r" by (simp add: s' run_of_def save_run_def run_totals_def i)
  moreover have "line_ok (line_of (compute_line e p (Some (active_templates s)) auto s))" if "e \<in> set (eligible_employees org s)" for e
    by (rule line_of_ok, rule compute_line_ok(1), rule is_money_basic_of [OF assms(2)])
      (use that in \<open>auto simp: eligible_employees_def\<close>)
  then have "totals_ok ?r" by (auto simp: totals_ok_def run_totals_def)
  moreover have "ln_employee (line_of (compute_line e p ts auto s)) = em_id e" for e ts
    by (simp add: line_of_def stored_line_def compute_line_def Let_def)
  ultimately show ?thesis using r(2) by (simp add: run_totals_def)
qed

section \<open>The properties of a payslip\<close>

text \<open>
  Every computed payslip adds up: gross pay is the basic plus the earning rows,
  the deductions are tax, pension, housing fund and the rest, the net is their difference, and
  without the automatic statutory part the deductions are exactly the withheld component rows plus
  the employee amounts of the statutory rows.
\<close>

theorem payslip_adds_up:
  assumes "salaries_ok s" and "e \<in> set (employees s)" and "c = compute_line e p ts automatic s"
  shows "cl_gross c = cl_basic c + earned (cl_components c)
    \<and> cl_deductions c = cl_tax c + cl_pension c + cl_nhf c + cl_other c
    \<and> cl_net c = cl_gross c - cl_deductions c
    \<and> (\<not> automatic \<longrightarrow> cl_deductions c = withheld (cl_components c) + charged_to_employee (cl_statutory c))"
  using compute_line_ok [OF is_money_basic_of [OF assms(1,2), of "pp_start p"], where ts = ts and auto = automatic] assms(3)
  by (simp add: calculation_ok_def)

definition demo_period :: payroll_period where
  "demo_period = \<lparr>pp_id = 1, pp_type = ''Monthly'', pp_start = Date 2026 3 1, pp_end = Date 2026 3 31,
     pp_payment = Date 2026 3 25, pp_status = ''Open''\<rparr>"

definition demo_template :: statutory_template where
  "demo_template = \<lparr>st_id = 1, st_type = ''NHIS'', st_name = ''Health'', st_rate = 5/100, st_fixed = 0,
     st_employer_rate = 10/100, st_employer_fixed = 0, st_active = True, st_applies = [''Permanent''],
     st_minimum = 0, st_maximum = Some 5000\<rparr>"

lemma demo_salaries_ok: "salaries_ok demo_hr"
  by code_simp

theorem payslip_adds_up_witness:
  "cl_net (compute_line (demo_staff 2) demo_period (Some [demo_template]) False demo_hr)
     = cl_gross (compute_line (demo_staff 2) demo_period (Some [demo_template]) False demo_hr)
       - cl_deductions (compute_line (demo_staff 2) demo_period (Some [demo_template]) False demo_hr)
   \<and> cl_deductions (compute_line (demo_staff 2) demo_period (Some [demo_template]) False demo_hr) = 5000
   \<and> cl_net (compute_line (demo_staff 2) demo_period (Some [demo_template]) False demo_hr) = 145000"
proof -
  have e: "demo_staff 2 \<in> set (employees demo_hr)" by code_simp
  have "cl_deductions (compute_line (demo_staff 2) demo_period (Some [demo_template]) False demo_hr) = 5000"
    "cl_gross (compute_line (demo_staff 2) demo_period (Some [demo_template]) False demo_hr) = 150000"
    by code_simp+
  then show ?thesis
    using payslip_adds_up [OF demo_salaries_ok e refl, of demo_period "Some [demo_template]" False] by simp
qed

text \<open>
  C17: running a payroll computes exactly one line per eligible employee, in place of any lines an
  earlier run left; every stored line adds up and its amounts are whole kobo; the run's gross,
  deduction and net totals are the sums of those columns over its lines, and the net total is the
  gross total less the deductions; the computed run is not run again.  Base salaries are whole kobo,
  as their column has it.
\<close>

theorem run_payroll_adds_up:
  assumes "run_payroll i user auto org s = Inr (n, s')" and "salaries_ok s"
  shows "\<exists>r. run_of i s' = Some r \<and> rn_status r = PR_In_Progress
    \<and> map ln_employee (rn_lines r) = map em_id (eligible_employees org s) \<and> n = length (rn_lines r)
    \<and> (\<forall>l \<in> set (rn_lines r). line_ok l)
    \<and> rn_gross r = sum_list (map ln_gross (rn_lines r)) \<and> rn_deductions r = sum_list (map ln_deductions (rn_lines r))
    \<and> rn_net r = sum_list (map ln_net (rn_lines r)) \<and> rn_net r = rn_gross r - rn_deductions r
    \<and> run_payroll i user auto org s' = Inl ValueError"
proof -
  obtain r where r: "run_of i s' = Some r" "rn_status r = PR_In_Progress" "totals_ok r"
    "map ln_employee (rn_lines r) = map em_id (eligible_employees org s)" "n = length (rn_lines r)"
    using run_payroll_totals_ok [OF assms] by blast
  moreover have "run_payroll i user auto org s' = Inl ValueError" using r by (simp add: run_payroll_def)
  ultimately show ?thesis using totals_net [OF r(3)] by (auto simp: totals_ok_def)
qed

lemma run_payroll_succeeds:
  assumes "run_of i s = Some r" and "rn_status r = PR_Draft" and "find_row pp_id (rn_period r) (payroll_periods s) = Some p"
  shows "\<exists>s'. run_payroll i user auto org s = Inr (length (eligible_employees org s), s')"
  using assms by (simp add: run_payroll_def Let_def)

theorem run_payroll_adds_up_witness:
  "\<exists>r s'. run_payroll 1 (Some 9) True None demo_hr = Inr (2, s') \<and> run_of 1 s' = Some r
     \<and> rn_net r = rn_gross r - rn_deductions r \<and> length (rn_lines r) = 2"
proof -
  have d: "\<exists>r. run_of 1 demo_hr = Some r \<and> rn_status r = PR_Draft \<and> rn_period r = 1"
    "\<exists>p. find_row pp_id 1 (payroll_periods demo_hr) = Some p" "length (eligible_employees None demo_hr) = 2"
    by (simp_all add: demo_hr_def run_of_def eligible_employees_def demo_staff_def asset_state.defs hr_state.defs)
  then obtain s' where s': "run_payroll 1 (Some 9) True None demo_hr = Inr (2, s')"
    using run_payroll_succeeds [of 1 demo_hr _ _ "Some 9" True None] by fastforce
  from run_payroll_adds_up [OF this demo_salaries_ok] s' show ?thesis by fastforce
qed

section \<open>The older action does not add up\<close>

definition demo_process :: hr_state where
  \<comment> \<open>two percentage components of 0.33 and 0.34 percent on a basic of one naira and one kobo\<close>
  "demo_process = demo_hr\<lparr>employees := [(demo_staff 1)\<lparr>em_base_salary := Some (101/100)\<rparr>],
     salary_components := [\<lparr>cp_id = 1, cp_code = ''A'', cp_type = CT_Earning, cp_calculation = ''Percentage'',
         cp_value = 0, cp_percentage = Some (60/100), cp_taxable = False, cp_pensionable = False, cp_active = True\<rparr>,
       \<lparr>cp_id = 2, cp_code = ''D'', cp_type = CT_Deduction, cp_calculation = ''Percentage'',
         cp_value = 0, cp_percentage = Some (30/100), cp_taxable = False, cp_pensionable = False, cp_active = True\<rparr>],
     structure_rows := [\<lparr>sr_structure = 1, sr_component = 1, sr_active = True\<rparr>,
       \<lparr>sr_structure = 1, sr_component = 2, sr_active = True\<rparr>]\<rparr>"

text \<open>
  The \<^verbatim>\<open>process\<close> action stores unrounded amounts column by column: gross pay of 1.01606 and a deduction
  of 0.00303 are kept as 1.02 and 0.00, the net of 1.01303 as 1.01, so the line no longer adds up.
\<close>

lemma process_line_off:
  "map (\<lambda>l. (ln_gross l, ln_deductions l, ln_net l)) (map (process_line demo_period demo_process) (employees demo_process))
     = [(102/100, 0, 101/100)]"
  by code_simp

end
