(* ===== verification/PayrollPosting.thy ===== *)
theory PayrollPosting
  imports Payroll
begin

text \<open>
  Posting the payroll (\<^verbatim>\<open>accounting/services/payroll_posting.py\<close>) and the actions of
  \<^verbatim>\<open>PayrollRunViewSet\<close> (\<^verbatim>\<open>hrm/views.py\<close>) that call it: approval with the accrual journal, the second
  posting action, payment, and the month-end reversal.  An action that answers with an error leaves
  the state as it was, because its transaction is rolled back.
\<close>

section \<open>The accrual\<close>

definition department_of :: "payroll_line \<Rightarrow> 'z hr_state_scheme \<Rightarrow> department option" where
  "department_of l s =
     Option.bind (find_row em_id (ln_employee l) (employees s)) (\<lambda>e. find_row dp_id (em_department e) (departments s))"

definition allocate_line :: "'z hr_state_scheme \<Rightarrow> payroll_line \<Rightarrow> (nat \<times> nat \<times> rat) list \<times> rat \<Rightarrow> (nat \<times> nat \<times> rat) list \<times> rat" where
  \<comment> \<open>\<^verbatim>\<open>dept_totals\<close> (department, cost centre, gross) and \<^verbatim>\<open>unallocated_gross\<close>\<close>
  "allocate_line s l acc =
     (let (depts, rest) = acc
      in case Option.bind (department_of l s) (\<lambda>d. map_option (Pair (dp_id d)) (dp_cost_center d)) of
           Some (d, cc) \<Rightarrow>
             if 0 < ln_gross l
             then (AList.update d (cc, (case map_of depts d of Some (_, g) \<Rightarrow> g | None \<Rightarrow> 0) + ln_gross l) depts, rest - ln_gross l)
             else acc
         | None \<Rightarrow> acc)"

definition department_totals :: "payroll_run \<Rightarrow> 'z hr_state_scheme \<Rightarrow> (nat \<times> nat \<times> rat) list \<times> rat" where
  "department_totals r s = fold (allocate_line s) (rn_lines r) ([], rn_gross r)"

definition payroll_account :: "nat option \<Rightarrow> string \<Rightarrow> account_type \<Rightarrow> string \<Rightarrow> 'z hr_state_scheme \<Rightarrow> nat option" where
  \<comment> \<open>the run's own account, else the configured one\<close>
  "payroll_account override key ty name s =
     (if override \<noteq> None then override else map_option ac_id (get_gl_account key (Some ty) (Some name) s))"

definition payroll_header :: "string \<Rightarrow> payroll_run \<Rightarrow> date \<Rightarrow> journal" where
  \<comment> \<open>\<open>stamp\<close> is the date string that replaces a blank run number\<close>
  "payroll_header stamp r d =
     \<lparr>j_id = 0, j_date = d, j_ref = ''PR-'' @ (if rn_number r = [] then stamp else rn_number r), j_document = [],
      j_mda = None, j_fund = None, j_function = None, j_program = None, j_geo = None, j_status = J_Posted,
      j_source_module = Some ''hrm'', j_source_id = Some (rn_id r), j_posted_by = None, j_is_reversed = False,
      j_is_deleted = False, j_lines = []\<rparr>"

definition credit_when :: "rat \<Rightarrow> nat option \<Rightarrow> err + jline list" where
  \<comment> \<open>a credit written only for a positive amount, for which the account must exist\<close>
  "credit_when x account =
     (if x \<le> 0 then Inr []
      else case account of None \<Rightarrow> Inl TransactionPostingError | Some a \<Rightarrow> Inr [credit_entry a x])"

definition create_when :: "nat \<Rightarrow> rat \<Rightarrow> nat option \<Rightarrow> 'z hr_state_scheme \<Rightarrow> err + 'z hr_state_scheme" where
  "create_when i x account s = rbind (credit_when x account) (\<lambda>ls. create_lines i ls s)"

definition net_payable :: "payroll_run \<Rightarrow> rat" where
  "net_payable r = (if rn_net r \<noteq> 0 then rn_net r else rn_gross r - rn_deductions r)"

definition total_tax :: "payroll_run \<Rightarrow> rat" where
  "total_tax r = sum_list (map ln_tax (rn_lines r))"

definition total_pension :: "payroll_run \<Rightarrow> rat" where
  "total_pension r = sum_list (map ln_pension (rn_lines r))"

definition total_other :: "payroll_run \<Rightarrow> rat" where
  "total_other r = rn_deductions r - total_tax r - total_pension r"

definition post_payroll_run :: "string \<Rightarrow> payroll_run \<Rightarrow> 'z hr_state_scheme \<Rightarrow> err + (nat \<times> 'z hr_state_scheme)" where
  "post_payroll_run stamp r s =
     (if rn_status r \<noteq> PR_Approved then Inl TransactionPostingError
      else if \<exists>j \<in> set (journals s). j_ref j = ''PAYROLL-'' @ show_nat (rn_id r) \<and> j_status j = J_Posted
      then Inl TransactionPostingError
      else (case (payroll_account (rn_expense r) ''SALARY_EXPENSE'' AT_Expense ''Salary'' s,
                  payroll_account (rn_liability r) ''PAYROLL_LIABILITY'' AT_Liability ''Payroll'' s,
                  find_row pp_id (rn_period r) (payroll_periods s)) of
              (Some expense, Some liability, Some period) \<Rightarrow>
                rbind (insert_journal (payroll_header stamp r (pp_payment period)) s)
                  (\<lambda>(i, s1).
                     \<comment> \<open>a cost centre is no MDA: Django refuses the assignment to \<^verbatim>\<open>JournalLine.cost_center\<close>\<close>
                     if fst (department_totals r s) \<noteq> [] then Inl ValueError
                     else rbind (create_lines i [debit_entry expense (rn_gross r), credit_entry liability (net_payable r)] s1)
                       (\<lambda>s2. rbind (create_when i (total_tax r)
                               (payroll_account None ''TAX_PAYABLE'' AT_Liability ''Tax'' s) s2)
                         (\<lambda>s3. rbind (create_when i (total_pension r)
                                 (payroll_account (rn_pension r) ''PENSION_PAYABLE'' AT_Liability ''Pension'' s) s3)
                           (\<lambda>s4. rbind (create_when i (total_other r) (Some liability) s4)
                             (\<lambda>s5. rbind (validate_journal_balanced i s5)
                               (\<lambda>s6. rbind (base_update_gl_balances i s6) (\<lambda>s7. Inr (i, s7))))))))
            | _ \<Rightarrow> Inl TransactionPostingError))"

section \<open>The actions\<close>

definition approve_run :: "nat \<Rightarrow> nat \<Rightarrow> string \<Rightarrow> 'z hr_state_scheme \<Rightarrow> err + 'z hr_state_scheme" where
  "approve_run i user stamp s =
     (case run_of i s of
        None \<Rightarrow> Inl DoesNotExist
      | Some r \<Rightarrow>
          if rn_status r \<noteq> PR_In_Progress then Inl InvalidTransitionError
          else let r1 = r\<lparr>rn_status := PR_Approved, rn_approved_by := Some user\<rparr>; s1 = save_run r1 s
               in rbind (post_payroll_run stamp r1 s1) (\<lambda>(k, s2). Inr (save_run (r1\<lparr>rn_journal := Some k\<rparr>) s2)))"

definition post_run_to_gl :: "nat \<Rightarrow> string \<Rightarrow> 'z hr_state_scheme \<Rightarrow> err + 'z hr_state_scheme" where
  "post_run_to_gl i stamp s =
     (case run_of i s of
        None \<Rightarrow> Inl DoesNotExist
      | Some r \<Rightarrow>
          if rn_status r \<noteq> PR_Approved then Inl InvalidTransitionError
          else rbind (post_payroll_run stamp r s) (\<lambda>(k, s2). Inr (save_run (r\<lparr>rn_journal := Some k\<rparr>) s2)))"

definition payment_header :: "payroll_run \<Rightarrow> date \<Rightarrow> journal" where
  "payment_header r d =
     \<lparr>j_id = 0, j_date = d, j_ref = ''PAY-'' @ (if rn_number r = [] then show_nat (rn_id r) else rn_number r),
      j_document = [], j_mda = None, j_fund = None, j_function = None, j_program = None, j_geo = None,
      j_status = J_Posted, j_source_module = None, j_source_id = None, j_posted_by = None,
      j_is_reversed = False, j_is_deleted = False, j_lines = []\<rparr>"

definition mark_run_paid :: "nat \<Rightarrow> 'z hr_state_scheme \<Rightarrow> err + 'z hr_state_scheme" where
  "mark_run_paid i s =
     (case run_of i s of
        None \<Rightarrow> Inl DoesNotExist
      | Some r \<Rightarrow>
          if rn_status r \<noteq> PR_Approved then Inl InvalidTransitionError
          else let bank = (case get_gl_account ''BANK_ACCOUNT'' (Some AT_Asset) (Some ''Bank'') s of
                             Some a \<Rightarrow> Some a
                           | None \<Rightarrow> get_gl_account ''CASH_ACCOUNT'' (Some AT_Asset) (Some ''Cash'') s)
               in case (get_gl_account ''PAYROLL_LIABILITY'' (Some AT_Liability) (Some ''Payroll'') s, bank) of
                    (Some liability, Some b) \<Rightarrow>
                      rbind (if 0 < rn_net r
                             then rbind (post_validated (payment_header r (today s))
                                    [debit_entry (ac_id liability) (rn_net r), credit_entry (ac_id b) (rn_net r)] s)
                                  (\<lambda>(k, s1). Inr s1)
                             else Inr s)
                        (\<lambda>s1. Inr (save_run (r\<lparr>rn_status := PR_Paid\<rparr>) s1))
                  | _ \<Rightarrow> Inl TransactionPostingError)"

definition payroll_reversal_header :: "journal \<Rightarrow> date \<Rightarrow> journal" where
  "payroll_reversal_header j d =
     \<lparr>j_id = 0, j_date = d, j_ref = ''RVS-'' @ j_ref j, j_document = [], j_mda = None, j_fund = None,
      j_function = None, j_program = None, j_geo = None, j_status = J_Posted, j_source_module = Some ''hrm'',
      j_source_id = j_source_id j, j_posted_by = None, j_is_reversed = False, j_is_deleted = False, j_lines = []\<rparr>"

definition reverse_payroll_journal :: "nat \<Rightarrow> date \<Rightarrow> 'z hr_state_scheme \<Rightarrow> err + (nat \<times> 'z hr_state_scheme)" where
  "reverse_payroll_journal k d s =
     rbind (validate_fiscal_period d None s)
       (\<lambda>_. case journal_of k s of
          None \<Rightarrow> Inl DoesNotExist
        | Some j \<Rightarrow>
            rbind (insert_journal (payroll_reversal_header j d) s)
              (\<lambda>(i, s1). rbind (create_lines i (map reversed_line (j_lines j)) s1)
                (\<lambda>s2. rbind (save_journal (Some [F_is_reversed]) (j\<lparr>j_is_reversed := True\<rparr>) s2)
                  (\<lambda>s3. rbind (validate_journal_balanced i s3)
                    (\<lambda>s4. rbind (base_update_gl_balances i s4) (\<lambda>s5. Inr (i, s5)))))))"

definition reverse_run :: "nat \<Rightarrow> 'z hr_state_scheme \<Rightarrow> err + (nat \<times> 'z hr_state_scheme)" where
  "reverse_run i s =
     (case run_of i s of
        None \<Rightarrow> Inl DoesNotExist
      | Some r \<Rightarrow>
          if rn_status r \<notin> {PR_Paid, PR_Approved} then Inl InvalidTransitionError
          else (case (rn_journal r, find_row pp_id (rn_period r) (payroll_periods s)) of
                  (Some k, Some p) \<Rightarrow> reverse_payroll_journal k (pp_end p) s
                | _ \<Rightarrow> Inl InvalidTransitionError))"

section \<open>What a successful approval posts\<close>

definition payroll_entries :: "payroll_run \<Rightarrow> nat \<Rightarrow> nat \<Rightarrow> nat \<Rightarrow> nat \<Rightarrow> jline list" where
  "payroll_entries r expense liability tax pension =
     [debit_entry expense (rn_gross r), credit_entry liability (net_payable r)]
     @ (if 0 < total_tax r then [credit_entry tax (total_tax r)] else [])
     @ (if 0 < total_pension r then [credit_entry pension (total_pension r)] else [])
     @ (if 0 < total_other r then [credit_entry liability (total_other r)] else [])"

lemma credit_when_lines:
  "credit_when x a = Inr ls \<Longrightarrow> ls = (if 0 < x then [credit_entry (the a) x] else [])"
  by (auto simp: credit_when_def split: if_splits option.splits)

lemma create_lines_trans:
  "create_lines i xs s = Inr s1 \<Longrightarrow> create_lines i ys s1 = Inr s2 \<Longrightarrow> create_lines i (xs @ ys) s = Inr s2"
  by (simp add: create_lines_append rbind_def)

lemma create_whenD:
  "create_when i x a s = Inr s' \<Longrightarrow> create_lines i (if 0 < x then [credit_entry (the a) x] else []) s = Inr s'"
  by (auto simp: create_when_def rbind_eq_Inr dest!: credit_when_lines)

lemma create_when_account: "create_when i x a s = Inr s' \<Longrightarrow> 0 < x \<Longrightarrow> a = Some (the a)"
  by (auto simp: create_when_def rbind_eq_Inr credit_when_def split: option.splits)

lemma post_payroll_runD:
  assumes "post_payroll_run stamp r s = Inr (i, s')"
  obtains expense liability tax pension period where
    "payroll_account (rn_expense r) ''SALARY_EXPENSE'' AT_Expense ''Salary'' s = Some expense"
    "payroll_account (rn_liability r) ''PAYROLL_LIABILITY'' AT_Liability ''Payroll'' s = Some liability"
    "0 < total_tax r \<longrightarrow> payroll_account None ''TAX_PAYABLE'' AT_Liability ''Tax'' s = Some tax"
    "0 < total_pension r \<longrightarrow> payroll_account (rn_pension r) ''PENSION_PAYABLE'' AT_Liability ''Pension'' s = Some pension"
    "find_row pp_id (rn_period r) (payroll_periods s) = Some period" "fst (department_totals r s) = []"
    "post_validated (payroll_header stamp r (pp_payment period)) (payroll_entries r expense liability tax pension) s = Inr (i, s')"
proof -
  let ?tax = "the (payroll_account None ''TAX_PAYABLE'' AT_Liability ''Tax'' s)"
  let ?pen = "the (payroll_account (rn_pension r) ''PENSION_PAYABLE'' AT_Liability ''Pension'' s)"
  obtain expense liability period s1 s2 s3 s4 s5 s6 where
    a: "payroll_account (rn_expense r) ''SALARY_EXPENSE'' AT_Expense ''Salary'' s = Some expense"
      "payroll_account (rn_liability r) ''PAYROLL_LIABILITY'' AT_Liability ''Payroll'' s = Some liability"
      "find_row pp_id (rn_period r) (payroll_periods s) = Some period"
    and d: "fst (department_totals r s) = []"
    and c: "insert_journal (payroll_header stamp r (pp_payment period)) s = Inr (i, s1)"
      "create_lines i [debit_entry expense (rn_gross r), credit_entry liability (net_payable r)] s1 = Inr s2"
      "create_when i (total_tax r) (payroll_account None ''TAX_PAYABLE'' AT_Liability ''Tax'' s) s2 = Inr s3"
      "create_when i (total_pension r) (payroll_account (rn_pension r) ''PENSION_PAYABLE'' AT_Liability ''Pension'' s) s3 = Inr s4"
      "create_when i (total_other r) (Some liability) s4 = Inr s5"
      "validate_journal_balanced i s5 = Inr s6" "base_update_gl_balances i s6 = Inr s'"
    using assms by (auto simp: post_payroll_run_def rbind_eq_Inr split: if_splits option.splits)
  have "create_lines i (payroll_entries r expense liability ?tax ?pen) s1 = Inr s5"
    using create_lines_trans [OF create_lines_trans [OF create_lines_trans [OF c(2) create_whenD [OF c(3)]]
          create_whenD [OF c(4)]] create_whenD [OF c(5)]]
    by (simp only: payroll_entries_def append_assoc option.sel)
  then have v: "post_validated (payroll_header stamp r (pp_payment period)) (payroll_entries r expense liability ?tax ?pen) s = Inr (i, s')"
    by (simp add: post_validated_def c rbind_def)
  have "0 < total_tax r \<longrightarrow> payroll_account None ''TAX_PAYABLE'' AT_Liability ''Tax'' s = Some ?tax"
    "0 < total_pension r \<longrightarrow> payroll_account (rn_pension r) ''PENSION_PAYABLE'' AT_Liability ''Pension'' s = Some ?pen"
    using create_when_account [OF c(3)] create_when_account [OF c(4)] by blast+
  then show ?thesis by (rule that [OF a(1,2) _ _ a(3) d v])
qed

lemma save_run_sel [simp]:
  "journals (save_run r s) = journals s" "gl_balances (save_run r s) = gl_balances s" "auto_create (save_run r s) = auto_create s"
  "payroll_periods (save_run r s) = payroll_periods s" "employees (save_run r s) = employees s"
  "departments (save_run r s) = departments s" "ledger_ok (save_run r s) = ledger_ok s" "journal_of k (save_run r s) = journal_of k s"
  by (simp_all add: save_run_def ledger_ok_def keys_ok_def journal_of_def)

lemma payroll_account_save [simp]: "payroll_account x key ty n (save_run r s) = payroll_account x key ty n s"
  by (simp add: payroll_account_def get_gl_account_def account_by_code_def save_run_def Let_def cong: option.case_cong if_cong)

lemma run_of_save [simp]: "rn_id r = i \<Longrightarrow> run_of i s = Some r0 \<Longrightarrow> run_of i (save_run r s) = Some r"
  using find_row_SomeD [of rn_id i "payroll_runs s" r0] by (auto simp: run_of_def save_run_def intro: rev_image_eqI)

definition run_money :: "payroll_run \<Rightarrow> bool" where
  \<comment> \<open>the money columns of the run hold what their type, two decimal places, can hold\<close>
  "run_money r \<longleftrightarrow> is_money (rn_gross r) \<and> is_money (rn_deductions r) \<and> is_money (rn_net r)
     \<and> (\<forall>l \<in> set (rn_lines r). is_money (ln_tax l) \<and> is_money (ln_pension l))"

lemma run_money_amounts:
  assumes "run_money r"
  shows "is_money (rn_gross r)" "is_money (net_payable r)" "is_money (total_tax r)" "is_money (total_pension r)"
    "is_money (total_other r)"
proof -
  have m: "is_money (rn_gross r)" "is_money (rn_deductions r)" "is_money (rn_net r)"
    using assms by (simp_all add: run_money_def)
  have t: "is_money (total_tax r)" "is_money (total_pension r)"
    unfolding total_tax_def total_pension_def using assms by (auto simp: run_money_def intro!: is_money_sum_list)
  show "is_money (rn_gross r)" "is_money (net_payable r)" "is_money (total_tax r)" "is_money (total_pension r)"
    "is_money (total_other r)"
    using m t by (simp_all add: net_payable_def total_other_def is_money_diff)
qed

definition accrual_net :: "payroll_run \<Rightarrow> nat \<Rightarrow> nat \<Rightarrow> nat \<Rightarrow> nat \<Rightarrow> nat \<Rightarrow> rat" where
  \<comment> \<open>specification: what the accrual adds to account \<open>a\<close>; a total that is not positive is not posted\<close>
  "accrual_net r expense liability tax pension a =
     (if a = expense then rn_gross r else 0) - (if a = liability then net_payable r + max 0 (total_other r) else 0)
     - (if a = tax then max 0 (total_tax r) else 0) - (if a = pension then max 0 (total_pension r) else 0)"

lemma payroll_entries_net:
  "lines_net a (payroll_entries r e l t p) = accrual_net r e l t p a" "total_debit (payroll_entries r e l t p) = rn_gross r"
  by (auto simp: payroll_entries_def lines_net_def accrual_net_def total_debit_def debit_entry_def credit_entry_def)

lemma payroll_entries_money: "run_money r \<Longrightarrow> map round_line (payroll_entries r e l t p) = payroll_entries r e l t p"
  using run_money_amounts [of r] by (auto simp: payroll_entries_def debit_entry_def credit_entry_def)

lemma payroll_entries_debits: "l \<in> set (payroll_entries r e lb t p) \<Longrightarrow> 0 < l_debit (round_line l) \<Longrightarrow> l_account l = e"
  by (auto simp: payroll_entries_def debit_entry_def credit_entry_def round_line_def split: if_splits)

definition not_capitalised :: "payroll_run \<Rightarrow> 'z hr_state_scheme \<Rightarrow> bool" where
  \<comment> \<open>the salary account is not one that turns debits into assets\<close>
  "not_capitalised r s \<longleftrightarrow>
     (\<forall>a. payroll_account (rn_expense r) ''SALARY_EXPENSE'' AT_Expense ''Salary'' s = Some a \<longrightarrow> a \<notin> set (auto_create s))"

lemma approve_runD:
  assumes "approve_run i u stamp s = Inr s'" and "ledger_ok s" and "run_of i s = Some r" and "not_capitalised r s"
  obtains expense liability tax pension period j s1 where
    "payroll_account (rn_expense r) ''SALARY_EXPENSE'' AT_Expense ''Salary'' s = Some expense"
    "payroll_account (rn_liability r) ''PAYROLL_LIABILITY'' AT_Liability ''Payroll'' s = Some liability"
    "0 < total_tax r \<longrightarrow> payroll_account None ''TAX_PAYABLE'' AT_Liability ''Tax'' s = Some tax"
    "0 < total_pension r \<longrightarrow> payroll_account (rn_pension r) ''PENSION_PAYABLE'' AT_Liability ''Pension'' s = Some pension"
    "fst (department_totals r s) = []" "rn_status r = PR_In_Progress"
    "find_row pp_id (rn_period r) (payroll_periods s) = Some period"
    "direct_posted (payroll_header stamp r (pp_payment period)) (payroll_entries r expense liability tax pension) j
       (save_run (r\<lparr>rn_status := PR_Approved, rn_approved_by := Some u\<rparr>) s) s1"
    "s' = save_run (r\<lparr>rn_status := PR_Approved, rn_approved_by := Some u, rn_journal := Some (j_id j)\<rparr>) s1"
    "run_of i s1 = Some (r\<lparr>rn_status := PR_Approved, rn_approved_by := Some u\<rparr>)"
proof -
  let ?r = "r\<lparr>rn_status := PR_Approved, rn_approved_by := Some u\<rparr>" and ?s = "save_run (r\<lparr>rn_status := PR_Approved, rn_approved_by := Some u\<rparr>) s"
  obtain k s1 where p: "post_payroll_run stamp ?r ?s = Inr (k, s1)" and st: "rn_status r = PR_In_Progress"
    and s': "s' = save_run (?r\<lparr>rn_journal := Some k\<rparr>) s1"
    using assms(1,3) by (auto simp: approve_run_def Let_def rbind_eq_Inr split: if_splits)
  have same: "department_totals ?r ?s = department_totals r s"
    by (simp add: department_totals_def) (rule arg_cong [where f = "\<lambda>f. fold f _ _"], simp add: fun_eq_iff allocate_line_def department_of_def)
  have same_lines: "payroll_entries ?r e l t q = payroll_entries r e l t q" "payroll_header stamp ?r d = payroll_header stamp r d" for e l t q d
    by (simp_all add: payroll_entries_def net_payable_def total_tax_def total_pension_def total_other_def payroll_header_def)
  from p obtain expense liability tax pension period where
    a: "payroll_account (rn_expense ?r) ''SALARY_EXPENSE'' AT_Expense ''Salary'' ?s = Some expense"
      "payroll_account (rn_liability ?r) ''PAYROLL_LIABILITY'' AT_Liability ''Payroll'' ?s = Some liability"
      "0 < total_tax ?r \<longrightarrow> payroll_account None ''TAX_PAYABLE'' AT_Liability ''Tax'' ?s = Some tax"
      "0 < total_pension ?r \<longrightarrow> payroll_account (rn_pension ?r) ''PENSION_PAYABLE'' AT_Liability ''Pension'' ?s = Some pension"
      "find_row pp_id (rn_period ?r) (payroll_periods ?s) = Some period" "fst (department_totals ?r ?s) = []"
    and v: "post_validated (payroll_header stamp ?r (pp_payment period)) (payroll_entries ?r expense liability tax pension) ?s = Inr (k, s1)"
    by (rule post_payroll_runD)
  have "total_tax ?r = total_tax r" "total_pension ?r = total_pension r" by (simp_all add: total_tax_def total_pension_def)
  note a = a [unfolded payroll_account_save same save_run_sel this, simplified] and v = v [unfolded same_lines]
  have "keys_ok ?s" using ledger_okD(1) [of ?s] assms(2) by simp
  moreover have "\<forall>l \<in> set (payroll_entries r expense liability tax pension). 0 < l_debit (round_line l) \<longrightarrow> l_account l \<notin> set (auto_create ?s)"
    using a(1) assms(4) payroll_entries_debits by (fastforce simp: not_capitalised_def)
  ultimately obtain j where j: "k = j_id j"
    "direct_posted (payroll_header stamp r (pp_payment period)) (payroll_entries r expense liability tax pension) j ?s s1"
    using post_validatedD [OF v] by (auto simp: payroll_header_def)
  have i: "rn_id r = i" using assms(3) find_row_SomeD [of rn_id i "payroll_runs s" r] by (simp add: run_of_def)
  have "payroll_runs s1 = payroll_runs ?s" using direct_postedD(14) [OF j(2)] by auto
  then have "run_of i s1 = run_of i ?s" by (simp add: run_of_def)
  then have "run_of i s1 = Some ?r" using i assms(3) by simp
  then show ?thesis using that [OF a(1-4) a(6) st a(5) j(2)] s' j(1) by simp
qed

lemma allocate_line_nonempty:
  "fst acc \<noteq> [] \<Longrightarrow> fst (fold (allocate_line s) ls acc) \<noteq> []"
proof (induction ls arbitrary: acc)
  case (Cons l ls)
  have "AList.update k v xs \<noteq> []" for k and v :: "nat \<times> rat" and xs :: "(nat \<times> nat \<times> rat) list" by (cases xs) auto
  then have "fst (allocate_line s l acc) \<noteq> []"
    using Cons.prems by (auto simp: allocate_line_def Let_def split: prod.splits option.splits)
  then show ?case using Cons.IH by simp
qed simp

lemma allocated_to_cost_centre:
  assumes "l \<in> set ls" and "department_of l s = Some d" and "dp_cost_center d \<noteq> None" and "0 < ln_gross l"
  shows "fst (fold (allocate_line s) ls acc) \<noteq> []"
  using assms(1)
proof (induction ls arbitrary: acc)
  case (Cons x ls)
  show ?case
  proof (cases "x = l")
    case True
    have "AList.update k v xs \<noteq> []" for k and v :: "nat \<times> rat" and xs :: "(nat \<times> nat \<times> rat) list" by (cases xs) auto
    then have "fst (allocate_line s l acc) \<noteq> []"
      using assms(2-4) by (auto simp: allocate_line_def Let_def split: prod.splits)
    then show ?thesis using True allocate_line_nonempty by simp
  next
    case False
    then show ?thesis using Cons by simp
  qed
qed simp

section \<open>The properties of payroll posting\<close>

text \<open>
  C16: approving a computed run posts its accrual exactly.  The money columns of the run hold whole
  kobo and its salary account is not one that turns debits into assets; then a successful approval
  leaves the run approved and naming a balanced posted journal.  The salary account is debited with
  the run's gross total; the liability account is credited with the net pay and the deductions that are
  neither tax nor pension, the account of \<^verbatim>\<open>TAX_PAYABLE\<close> with the tax and the pension account of the
  run, else that of \<^verbatim>\<open>PENSION_PAYABLE\<close>, with the pension; the books stay in order and no other account
  moves.
\<close>

theorem approval_posts_accrual:
  assumes "approve_run i u stamp s = Inr s'" and "ledger_ok s" and "run_of i s = Some r" and "run_money r"
    and "not_capitalised r s"
  shows "ledger_ok s' \<and> (\<exists>r' j expense liability tax pension.
      run_of i s' = Some r' \<and> rn_status r' = PR_Approved \<and> rn_journal r' = Some (j_id j)
      \<and> journal_of (j_id j) s' = Some j \<and> j_status j = J_Posted \<and> balanced j \<and> total_debit (j_lines j) = rn_gross r
      \<and> payroll_account (rn_expense r) ''SALARY_EXPENSE'' AT_Expense ''Salary'' s = Some expense
      \<and> payroll_account (rn_liability r) ''PAYROLL_LIABILITY'' AT_Liability ''Payroll'' s = Some liability
      \<and> (0 < total_tax r \<longrightarrow> payroll_account None ''TAX_PAYABLE'' AT_Liability ''Tax'' s = Some tax)
      \<and> (0 < total_pension r \<longrightarrow> payroll_account (rn_pension r) ''PENSION_PAYABLE'' AT_Liability ''Pension'' s = Some pension)
      \<and> (\<forall>a. account_net a (gl_balances s') = account_net a (gl_balances s)
            + (if a = expense then rn_gross r else 0) - (if a = liability then net_payable r + max 0 (total_other r) else 0)
            - (if a = tax then max 0 (total_tax r) else 0) - (if a = pension then max 0 (total_pension r) else 0)))"
proof -
  obtain expense liability tax pension j s1 and period :: payroll_period where
    a: "payroll_account (rn_expense r) ''SALARY_EXPENSE'' AT_Expense ''Salary'' s = Some expense"
      "payroll_account (rn_liability r) ''PAYROLL_LIABILITY'' AT_Liability ''Payroll'' s = Some liability"
      "0 < total_tax r \<longrightarrow> payroll_account None ''TAX_PAYABLE'' AT_Liability ''Tax'' s = Some tax"
      "0 < total_pension r \<longrightarrow> payroll_account (rn_pension r) ''PENSION_PAYABLE'' AT_Liability ''Pension'' s = Some pension"
    and d: "direct_posted (payroll_header stamp r (pp_payment period)) (payroll_entries r expense liability tax pension) j
       (save_run (r\<lparr>rn_status := PR_Approved, rn_approved_by := Some u\<rparr>) s) s1"
    and s': "s' = save_run (r\<lparr>rn_status := PR_Approved, rn_approved_by := Some u, rn_journal := Some (j_id j)\<rparr>) s1"
      "run_of i s1 = Some (r\<lparr>rn_status := PR_Approved, rn_approved_by := Some u\<rparr>)"
    by (rule approve_runD [OF assms(1-3,5)]) blast
  note D = direct_postedD [OF d]
  have lines: "j_lines j = payroll_entries r expense liability tax pension"
    using D(4) payroll_entries_money [OF assms(4)] by simp
  have "ledger_ok s1" using ledger_ok_direct [OF _ d] assms(2) by (simp add: payroll_header_def)
  then have ok: "ledger_ok s'" by (simp add: s')
  have i: "rn_id r = i" using assms(3) find_row_SomeD [of rn_id i "payroll_runs s" r] by (simp add: run_of_def)
  let ?r = "r\<lparr>rn_status := PR_Approved, rn_approved_by := Some u, rn_journal := Some (j_id j)\<rparr>"
  have "run_of i s' = Some ?r" "journal_of (j_id j) s' = Some j"
    using s'(2) i D(3) by (simp_all add: s'(1))
  moreover have "rn_status ?r = PR_Approved" "rn_journal ?r = Some (j_id j)" "j_status j = J_Posted"
    using D(5) by (simp_all add: payroll_header_def)
  moreover have "\<forall>a. account_net a (gl_balances s') = account_net a (gl_balances s)
            + (if a = expense then rn_gross r else 0) - (if a = liability then net_payable r + max 0 (total_other r) else 0)
            - (if a = tax then max 0 (total_tax r) else 0) - (if a = pension then max 0 (total_pension r) else 0)"
    using D(2) payroll_entries_net(1) by (simp add: s'(1) account_net_gl_post lines accrual_net_def)
  moreover have "total_debit (j_lines j) = rn_gross r" by (simp add: lines payroll_entries_net(2))
  ultimately show ?thesis using ok a D(9) by blast
qed

definition demo_line :: payroll_line where
  "demo_line = \<lparr>ln_employee = 2, ln_basic = 100000, ln_gross = 150000, ln_earnings = 150000, ln_deductions = 20000,
     ln_net = 130000, ln_working_days = 22, ln_days_worked = 22, ln_tax = 9500, ln_pension = 8000, ln_other = 2500,
     ln_components = [(1, 50000, True)], ln_statutory = []\<rparr>"

definition demo_run :: payroll_run where
  "demo_run = \<lparr>rn_id = 1, rn_number = ''2026-03'', rn_period = 1, rn_status = PR_In_Progress, rn_gross = 150000,
     rn_deductions = 20000, rn_net = 130000, rn_processed_by = Some 9, rn_approved_by = None, rn_journal = None,
     rn_expense = Some 1, rn_liability = Some 2, rn_pension = Some 2, rn_lines = [demo_line]\<rparr>"

definition demo_payroll :: hr_state where
  "demo_payroll = demo_hr\<lparr>accounts := [demo_account 1 ''22010100'' AT_Expense, demo_account 2 ''41010100'' AT_Liability,
       (demo_account 3 ''41030100'' AT_Liability)\<lparr>ac_name := ''PAYE Tax''\<rparr>],
     payroll_runs := [demo_run]\<rparr>"

definition demo_approved_run :: hr_state where
  "demo_approved_run = projr (approve_run 1 7 ''20260325'' demo_payroll)"

lemma demo_approve_run: "approve_run 1 7 ''20260325'' demo_payroll = Inr demo_approved_run"
proof -
  have "\<not> isl (approve_run 1 7 ''20260325'' demo_payroll)" by code_simp
  then show ?thesis by (simp add: demo_approved_run_def)
qed

lemma demo_payroll_facts: "run_of 1 demo_payroll = Some demo_run" "run_money demo_run" "not_capitalised demo_run demo_payroll"
proof -
  show "run_of 1 demo_payroll = Some demo_run" by (simp add: run_of_def demo_payroll_def demo_run_def)
  show "run_money demo_run" by (simp add: demo_run_def demo_line_def run_money_def is_money_def)
  have "auto_create demo_payroll = []" by code_simp
  then show "not_capitalised demo_run demo_payroll" by (simp add: not_capitalised_def)
qed

lemma demo_payroll_ok: "ledger_ok demo_payroll"
  using demo_ledger_ok
  by (simp add: ledger_ok_def keys_ok_def rows_ok_def demo_payroll_def demo_hr_def budget_state.defs asset_state.defs hr_state.defs)

theorem approval_posts_accrual_witness:
  "ledger_ok demo_approved_run \<and> account_net 1 (gl_balances demo_approved_run) = 150000"
proof -
  have "account_net 1 (gl_balances demo_payroll) = 0" by code_simp
  have n: "gl_balances demo_payroll = []" by code_simp
  have e: "payroll_account (rn_expense demo_run) ''SALARY_EXPENSE'' AT_Expense ''Salary'' demo_payroll = Some 1"
    "payroll_account (rn_liability demo_run) ''PAYROLL_LIABILITY'' AT_Liability ''Payroll'' demo_payroll = Some 2"
    by (simp_all add: payroll_account_def demo_run_def)
  have "account_net 1 (gl_balances demo_approved_run) = 150000" by code_simp
  then show ?thesis
    using approval_posts_accrual [OF demo_approve_run demo_payroll_ok demo_payroll_facts] by blast
qed

text \<open>
  A run in which a paid employee belongs to a department with a cost centre can never be
  approved: the cost centre of a department is not the model the journal line's column refers to,
  the assignment raises, and the approval is rolled back.
\<close>

theorem cost_centre_blocks_approval:
  assumes "run_of i s = Some r" and "l \<in> set (rn_lines r)" and "department_of l s = Some d"
    and "dp_cost_center d \<noteq> None" and "0 < ln_gross l"
  shows "\<exists>e. approve_run i u stamp s = Inl e"
proof -
  let ?r = "r\<lparr>rn_status := PR_Approved, rn_approved_by := Some u\<rparr>"
  have "department_of l (save_run ?r s) = Some d" using assms(3) by (simp add: department_of_def)
  then have "fst (department_totals ?r (save_run ?r s)) \<noteq> []"
    using allocated_to_cost_centre [of l "rn_lines r" "save_run ?r s" d] assms(2,4,5) by (simp add: department_totals_def)
  then have "\<And>k s2. post_payroll_run stamp ?r (save_run ?r s) \<noteq> Inr (k, s2)"
    by (metis post_payroll_runD)
  then show ?thesis
    using assms(1) by (auto simp: approve_run_def Let_def rbind_def split: sum.splits)
qed

definition demo_cost_centre :: hr_state where
  "demo_cost_centre = demo_payroll\<lparr>departments := [\<lparr>dp_id = 1, dp_cost_center = Some 4\<rparr>]\<rparr>"

theorem cost_centre_blocks_approval_witness:
  "(\<exists>e. approve_run 1 7 ''20260325'' demo_cost_centre = Inl e) \<and> \<not> isl (approve_run 1 7 ''20260325'' demo_payroll)"
proof
  have r: "run_of 1 demo_cost_centre = Some demo_run"
    using demo_payroll_facts(1) by (simp add: run_of_def demo_cost_centre_def)
  have d: "department_of demo_line demo_cost_centre = Some \<lparr>dp_id = 1, dp_cost_center = Some 4\<rparr>"
    by code_simp
  show "\<exists>e. approve_run 1 7 ''20260325'' demo_cost_centre = Inl e"
    by (rule cost_centre_blocks_approval [OF r _ d]) (simp_all add: demo_run_def demo_line_def)
  show "\<not> isl (approve_run 1 7 ''20260325'' demo_payroll)" using demo_approve_run by simp
qed

text \<open>
  Once a run is approved its accrual can be neither posted again nor reversed: both actions
  would insert a posted journal that breaks a unique constraint, the second posting by its source
  document and the reversal because it carries the same source module and document as the original.
\<close>

theorem approved_run_not_reversible:
  assumes "approve_run i u stamp s = Inr s'" and "ledger_ok s" and "run_of i s = Some r" and "not_capitalised r s"
  shows "(\<exists>e. reverse_run i s' = Inl e) \<and> (\<exists>e. post_run_to_gl i stamp' s' = Inl e)"
proof -
  obtain expense liability tax pension j s1 and period :: payroll_period where
    d: "direct_posted (payroll_header stamp r (pp_payment period)) (payroll_entries r expense liability tax pension) j
       (save_run (r\<lparr>rn_status := PR_Approved, rn_approved_by := Some u\<rparr>) s) s1"
    and s': "s' = save_run (r\<lparr>rn_status := PR_Approved, rn_approved_by := Some u, rn_journal := Some (j_id j)\<rparr>) s1"
      "run_of i s1 = Some (r\<lparr>rn_status := PR_Approved, rn_approved_by := Some u\<rparr>)"
    by (rule approve_runD [OF assms]) blast
  note D = direct_postedD [OF d]
  have i: "rn_id r = i" using assms(3) find_row_SomeD [of rn_id i "payroll_runs s" r] by (simp add: run_of_def)
  let ?r = "r\<lparr>rn_status := PR_Approved, rn_approved_by := Some u, rn_journal := Some (j_id j)\<rparr>"
  have r': "run_of i s' = Some ?r" using s'(2) i by (simp add: s'(1))
  have j: "journal_of (j_id j) s' = Some j" "j_status j = J_Posted" "j_source_module j = Some ''hrm''" "j_source_id j = Some i"
    using D(3,5,6,7) i by (simp_all add: s'(1) payroll_header_def)
  have taken: "insert_journal h t \<noteq> Inr x"
    if "journals t = journals s'" "j_status h = J_Posted" "j_source_module h = Some ''hrm''" "j_source_id h = Some i"
    for h x and t :: "'a hr_state_scheme"
  proof -
    have "j \<in> set (journals t)" using j(1) that(1) by (auto simp: journal_of_def dest: find_row_SomeD)
    moreover from this have "j_id j \<noteq> fresh_pk j_id (journals t)" using fresh_pk_notin [of j_id "journals t"] by (metis imageI)
    ultimately have "\<not> journal_unique (h\<lparr>j_id := fresh_pk j_id (journals t), j_document := doc, j_lines := []\<rparr>) (journals t)" for doc
      using j that(2-4) by (auto simp: journal_unique_def intro!: bexI [of _ j])
    then show ?thesis by (auto simp: insert_journal_def Let_def split: prod.splits)
  qed
  have "\<exists>e. reverse_run i s' = Inl e"
    using r' j taken [of s' "payroll_reversal_header j d" for d]
    by (auto simp: reverse_run_def reverse_payroll_journal_def payroll_reversal_header_def rbind_def split: option.splits sum.splits)
  moreover have "\<exists>e. post_run_to_gl i stamp' s' = Inl e"
    using r' taken [of s' "payroll_header stamp' ?r d" for d] i
    by (auto simp: post_run_to_gl_def post_payroll_run_def payroll_header_def rbind_def split: option.splits sum.splits)
  ultimately show ?thesis by blast
qed

theorem approved_run_not_reversible_witness:
  "(\<exists>e. reverse_run 1 demo_approved_run = Inl e) \<and> \<not> isl (approve_run 1 7 ''20260325'' demo_payroll)"
  using approved_run_not_reversible [OF demo_approve_run demo_payroll_ok demo_payroll_facts(1,3)] demo_approve_run by simp

end
