(* ===== verification/YearEnd.thy ===== *)
theory YearEnd
  imports Postings
begin

text \<open>
  Year-end close (\<^verbatim>\<open>accounting/services/year_end_close.py\<close>, \<^verbatim>\<open>period_close.py\<close>): the journal that clears
  every income and expense account of a year into the accumulated fund, the lock of the year and its
  periods, the opening journal that carries the balance sheet into the next year, and the older
  close that stamps its journal with a reference.  The number the reference takes is drawn before the
  transaction, so a failed close leaves a gap in it; the gap is not modelled.
\<close>

section \<open>Data\<close>

record accounting_year =
  ay_id :: nat
  ay_year :: int
  ay_status :: string
  ay_closed_by :: "nat option"

record close_state = budget_state +
  accounting_years :: "accounting_year list"
  accumulated_code :: "string option" \<comment> \<open>\<^verbatim>\<open>AccountingSettings.accumulated_fund_account_code\<close>\<close>

definition year_debit :: "nat \<Rightarrow> int \<Rightarrow> gl_rows \<Rightarrow> rat" where
  "year_debit a y rows = sum_list (map (\<lambda>(k, d, c). if gk_account k = a \<and> gk_year k = y then d else 0) rows)"

definition year_credit :: "nat \<Rightarrow> int \<Rightarrow> gl_rows \<Rightarrow> rat" where
  "year_credit a y rows = sum_list (map (\<lambda>(k, d, c). if gk_account k = a \<and> gk_year k = y then c else 0) rows)"

definition has_balance :: "nat \<Rightarrow> int \<Rightarrow> gl_rows \<Rightarrow> bool" where
  "has_balance a y rows \<longleftrightarrow> list_ex (\<lambda>(k, d, c). gk_account k = a \<and> gk_year k = y) rows"

definition aggregate_nominals :: "int \<Rightarrow> account_type list \<Rightarrow> 'z close_state_scheme \<Rightarrow> (nat \<times> rat \<times> rat) list" where
  \<comment> \<open>account, debits and credits of the year, in order of code\<close>
  "aggregate_nominals y tys s =
     map (\<lambda>a. (ac_id a, year_debit (ac_id a) y (gl_balances s), year_credit (ac_id a) y (gl_balances s)))
       (filter (\<lambda>a. ac_type a \<in> set tys \<and> has_balance (ac_id a) y (gl_balances s)) (sort_key ac_code (accounts s)))"

section \<open>The closing journal\<close>

definition DEFAULT_ACCUMULATED_FUND_CODE :: string where
  "DEFAULT_ACCUMULATED_FUND_CODE = ''43100000''"

definition resolve_accumulated_fund_code :: "'z close_state_scheme \<Rightarrow> string" where
  "resolve_accumulated_fund_code s =
     (case accumulated_code s of Some c \<Rightarrow> if c = [] then DEFAULT_ACCUMULATED_FUND_CODE else c
      | None \<Rightarrow> DEFAULT_ACCUMULATED_FUND_CODE)"

fun revenue_lines :: "nat \<times> rat \<times> rat \<Rightarrow> jline list" where
  "revenue_lines (a, d, c) =
     (let net = c - d in if net = 0 then [] else if 0 < net then [debit_entry a net] else [credit_entry a (- net)])"

fun expense_lines_of :: "nat \<times> rat \<times> rat \<Rightarrow> jline list" where
  "expense_lines_of (a, d, c) =
     (let net = d - c in if net = 0 then [] else if 0 < net then [credit_entry a net] else [debit_entry a (- net)])"

definition revenue_total :: "(nat \<times> rat \<times> rat) list \<Rightarrow> rat" where
  "revenue_total rows = sum_list (map (\<lambda>(a, d, c). c - d) rows)"

definition expense_total :: "(nat \<times> rat \<times> rat) list \<Rightarrow> rat" where
  "expense_total rows = sum_list (map (\<lambda>(a, d, c). d - c) rows)"

definition fund_lines :: "nat \<Rightarrow> rat \<Rightarrow> jline list" where
  "fund_lines a surplus =
     (if 0 < surplus then [credit_entry a surplus] else if surplus < 0 then [debit_entry a (- surplus)] else [])"

definition closing_lines :: "nat \<Rightarrow> (nat \<times> rat \<times> rat) list \<Rightarrow> (nat \<times> rat \<times> rat) list \<Rightarrow> jline list" where
  "closing_lines fund revenue expense =
     concat (map revenue_lines revenue) @ concat (map expense_lines_of expense)
     @ fund_lines fund (revenue_total revenue - expense_total expense)"

definition plain_header :: "date \<Rightarrow> string \<Rightarrow> jstatus \<Rightarrow> string \<Rightarrow> nat option \<Rightarrow> nat option \<Rightarrow> journal" where
  \<comment> \<open>a header without dimensions\<close>
  "plain_header d ref st src source user =
     \<lparr>j_id = 0, j_date = d, j_ref = ref, j_document = [], j_mda = None, j_fund = None, j_function = None,
      j_program = None, j_geo = None, j_status = st, j_source_module = Some src, j_source_id = source,
      j_posted_by = user, j_is_reversed = False, j_is_deleted = False, j_lines = []\<rparr>"

definition unbalanced :: "nat \<Rightarrow> 'z close_state_scheme \<Rightarrow> bool" where
  \<comment> \<open>\<^verbatim>\<open>abs(total_dr - total_cr) > Decimal('0.01')\<close>\<close>
  "unbalanced i s \<longleftrightarrow>
     (case journal_of i s of None \<Rightarrow> False | Some j \<Rightarrow> 1/100 < \<bar>total_debit (j_lines j) - total_credit (j_lines j)\<bar>)"

definition draft_balanced :: "journal \<Rightarrow> jline list \<Rightarrow> 'z close_state_scheme \<Rightarrow> err + (nat \<times> 'z close_state_scheme)" where
  \<comment> \<open>create a draft with its lines and check that it balances\<close>
  "draft_balanced h ls s =
     rbind (insert_journal h s) (\<lambda>(i, s1). rbind (create_lines i ls s1)
       (\<lambda>s2. if unbalanced i s2 then Inl YearEndCloseError else Inr (i, s2)))"

definition lock_year :: "accounting_year \<Rightarrow> nat option \<Rightarrow> 'z close_state_scheme \<Rightarrow> 'z close_state_scheme" where
  "lock_year y user s =
     s\<lparr>accounting_years := put_row ay_id (y\<lparr>ay_status := ''Closed'', ay_closed_by := user\<rparr>) (accounting_years s),
       fiscal_periods := map (\<lambda>p. if fp_fiscal_year p = ay_year y then p\<lparr>fp_status := ''Closed'', fp_is_closed := True\<rparr> else p)
         (fiscal_periods s)\<rparr>"

section \<open>The opening journal\<close>

fun opening_lines :: "nat \<times> rat \<times> rat \<Rightarrow> jline list" where
  "opening_lines (a, d, c) =
     (let net = d - c in if net = 0 then [] else if 0 < net then [debit_entry a net] else [credit_entry a (- net)])"

definition post_opening_journal :: "accounting_year \<Rightarrow> nat option \<Rightarrow> 'z close_state_scheme \<Rightarrow> err + (nat option \<times> 'z close_state_scheme)" where
  "post_opening_journal y user s =
     (case find (\<lambda>j. j_source_module j = Some ''year_end_close.opening'' \<and> j_source_id j = Some (ay_id y)
                    \<and> j_status j = J_Posted \<and> \<not> j_is_deleted j) (journals s) of
        Some j \<Rightarrow> Inr (Some (j_id j), s)
      | None \<Rightarrow>
          let next = ay_year y + 1; rows = aggregate_nominals (ay_year y) [AT_Asset, AT_Liability, AT_Equity] s
          in if (\<forall>n \<in> set (accounting_years s). ay_year n \<noteq> next) \<or> rows = [] then Inr (None, s)
             else let (ref, s1) = sequence_next (''opening_bbf:'' @ show_int next) (''BBF'' @ show_int next @ ''-'') s
                  in rbind (draft_balanced (plain_header (Date next 1 1) ref J_Draft ''year_end_close.opening'' (Some (ay_id y)) user)
                              (concat (map opening_lines rows)) s1)
                       (\<lambda>(i, s2). case post_journal i user True s2 of
                            Inr s3 \<Rightarrow> Inr (Some i, s3)
                          | Inl e \<Rightarrow> rbind (post_saved i user s2) (\<lambda>s3. Inr (Some i, s3))))"

record close_summary =
  cs_journal :: nat
  cs_revenue :: rat
  cs_expense :: rat
  cs_surplus :: rat
  cs_opening :: "nat option"

definition close_fiscal_year :: "accounting_year \<Rightarrow> nat option \<Rightarrow> bool \<Rightarrow> 'z close_state_scheme \<Rightarrow> err + (close_summary \<times> 'z close_state_scheme)" where
  "close_fiscal_year y user force s =
     (if ay_status y = ''Closed'' then Inl YearEndCloseError
      else if \<not> force \<and> (\<exists>j \<in> set (journals s). d_year (j_date j) = ay_year y \<and> \<not> j_is_deleted j
                              \<and> j_status j \<in> {J_Draft, J_Pending, J_Approved})
      then Inl YearEndCloseError
      else (case account_by_code (resolve_accumulated_fund_code s) s of
              None \<Rightarrow> Inl YearEndCloseError
            | Some fund \<Rightarrow>
                let revenue = aggregate_nominals (ay_year y) [AT_Income] s;
                    expense = aggregate_nominals (ay_year y) [AT_Expense] s
                in if revenue = [] \<and> expense = [] then Inl YearEndCloseError
                   else let (ref, s1) = sequence_next (''year_close:'' @ show_int (ay_year y)) (''YEC'' @ show_int (ay_year y) @ ''-'') s
                        in rbind (draft_balanced (plain_header (Date (ay_year y) 12 31) ref J_Draft ''year_end_close'' (Some (ay_id y)) user)
                                    (closing_lines (ac_id fund) revenue expense) s1)
                             (\<lambda>(i, s2). rbind (post_saved i user s2)
                               (\<lambda>s3. rbind (post_opening_journal y user (lock_year y user s3))
                                 (\<lambda>(k, s4). Inr (\<lparr>cs_journal = i, cs_revenue = revenue_total revenue,
                                     cs_expense = expense_total expense,
                                     cs_surplus = revenue_total revenue - expense_total expense, cs_opening = k\<rparr>, s4))))))"

section \<open>The older close\<close>

definition REV_PREFIXES :: "string list" where
  "REV_PREFIXES = [''11'', ''12'', ''13'', ''14'']"

definition EXP_PREFIXES :: "string list" where
  "EXP_PREFIXES = [''21'', ''22'', ''23'', ''24'', ''25'']"

definition prefixed_rows :: "int \<Rightarrow> string list \<Rightarrow> 'z close_state_scheme \<Rightarrow> (nat \<times> rat \<times> rat) list" where
  "prefixed_rows y ps s =
     map (\<lambda>a. (ac_id a, year_debit (ac_id a) y (gl_balances s), year_credit (ac_id a) y (gl_balances s)))
       (filter (\<lambda>a. list_ex (\<lambda>p. has_prefix p (ac_code a)) ps \<and> has_balance (ac_id a) y (gl_balances s)) (accounts s))"

fun strip_blanks :: "string \<Rightarrow> string" where
  "strip_blanks [] = []"
| "strip_blanks (c # t) = (if c = CHR '' '' then strip_blanks t else c # t)"

definition resolve_setting :: "string option \<Rightarrow> string \<Rightarrow> string" where
  "resolve_setting v dflt =
     (case v of None \<Rightarrow> dflt
      | Some t \<Rightarrow> (let u = rev (strip_blanks (rev (strip_blanks t))) in if u = [] then dflt else u))"

record close_plan =
  pn_closed :: bool
  pn_lines :: "jline list"
  pn_revenue :: rat
  pn_expense :: rat

definition build_close_plan :: "int \<Rightarrow> 'z close_state_scheme \<Rightarrow> err + close_plan" where
  "build_close_plan y s =
     (if \<exists>j \<in> set (journals s). j_ref j = ''PERIOD-CLOSE:'' @ show_int y \<and> \<not> j_is_deleted j
      then Inr \<lparr>pn_closed = True, pn_lines = [], pn_revenue = 0, pn_expense = 0\<rparr>
      else (case qs_first ac_code (filter (\<lambda>a. ac_code a = resolve_setting (accumulated_code s) DEFAULT_ACCUMULATED_FUND_CODE
                                                \<and> ac_is_active a) (accounts s)) of
              None \<Rightarrow> Inl PeriodCloseError
            | Some fund \<Rightarrow>
                let revenue = prefixed_rows y REV_PREFIXES s; expense = prefixed_rows y EXP_PREFIXES s
                in Inr \<lparr>pn_closed = False, pn_lines = closing_lines (ac_id fund) revenue expense,
                        pn_revenue = revenue_total revenue, pn_expense = expense_total expense\<rparr>))"

definition period_close_fiscal_year :: "int \<Rightarrow> nat option \<Rightarrow> 'z close_state_scheme \<Rightarrow> err + (nat option \<times> 'z close_state_scheme)" where
  \<comment> \<open>\<^verbatim>\<open>period_close.close_fiscal_year\<close>; \<open>None\<close> when the year had been closed\<close>
  "period_close_fiscal_year y user s =
     (case build_close_plan y s of
        Inl e \<Rightarrow> Inl e
      | Inr p \<Rightarrow>
          if pn_closed p then Inr (None, s)
          else rbind (post_direct (plain_header (Date y 12 31) (''PERIOD-CLOSE:'' @ show_int y) J_Posted ''period_close'' None user)
                        (pn_lines p) s)
                 (\<lambda>(i, s1). Inr (Some i, s1)))"

section \<open>Balances of a year\<close>

definition year_net :: "nat \<Rightarrow> int \<Rightarrow> gl_rows \<Rightarrow> rat" where
  "year_net a y rows = year_debit a y rows - year_credit a y rows"

lemma year_net_gl_add:
  "year_net a y (gl_add k d c rows) = year_net a y rows + (if gk_account k = a \<and> gk_year k = y then d - c else 0)"
  by (induction k d c rows rule: gl_add.induct) (auto simp: year_net_def year_debit_def year_credit_def)

lemma year_net_gl_post:
  "year_net a y (gl_post j rows) = year_net a y rows + (if d_year (j_date j) = y then lines_net a (j_lines j) else 0)"
proof -
  have "year_net a y (fold (\<lambda>l. gl_add (line_key j l) (l_debit l) (l_credit l)) ls rows)
      = year_net a y rows + (if d_year (j_date j) = y then lines_net a ls else 0)" for ls
    by (induction ls arbitrary: rows) (auto simp: year_net_gl_add line_key_def lines_net_def)
  then show ?thesis by (simp add: gl_post_def)
qed

lemma year_net_none: "\<not> has_balance a y rows \<Longrightarrow> year_net a y rows = 0"
  by (induction rows) (auto simp: has_balance_def year_net_def year_debit_def year_credit_def split: if_splits)

lemma posted_money:
  assumes "\<forall>j \<in> set js. lines_ok j"
  shows "is_money (posted_debit k js)" "is_money (posted_credit k js)"
proof -
  have m: "is_money (l_debit l)" "is_money (l_credit l)" if "j \<in> set js" "l \<in> set (j_lines j)" for j l
    using assms that by (auto simp: lines_ok_def)
  have "is_money (journal_debit k j)" "is_money (journal_credit k j)" if "j \<in> set js" for j
    unfolding journal_debit_def journal_credit_def using m [OF that] by (auto intro!: is_money_sum_list)
  then show "is_money (posted_debit k js)" "is_money (posted_credit k js)"
    unfolding posted_debit_def posted_credit_def by (auto intro!: is_money_sum_list)
qed

lemma gl_row_money:
  assumes "ledger_ok s" and "(k, d, c) \<in> set (gl_balances s)"
  shows "is_money d" "is_money c"
proof -
  have dist: "distinct (map fst (gl_balances s))" using assms(1) by (simp add: ledger_ok_def rows_ok_def)
  have "gl_debit k rows = d \<and> gl_credit k rows = c" if "distinct (map fst rows)" "(k, d, c) \<in> set rows" for rows
    using that
  proof (induction rows)
    case (Cons r rows)
    have z: "k \<notin> fst ` set rows \<Longrightarrow> gl_debit k rows = 0 \<and> gl_credit k rows = 0"
      by (induction rows) (auto simp: gl_debit_def gl_credit_def)
    show ?case
    proof (cases "r = (k, d, c)")
      case True
      then show ?thesis using Cons.prems(1) z by (simp add: gl_debit_def gl_credit_def)
    next
      case False
      then have "(k, d, c) \<in> set rows" "fst r \<noteq> k" using Cons.prems by (auto simp: image_iff)
      then show ?thesis using Cons by (auto simp: gl_debit_def gl_credit_def split: prod.splits)
    qed
  qed simp
  from this [OF dist assms(2)] show "is_money d" "is_money c"
    using posted_money [of "journals s" k] ledger_okD(3,5,6) [OF assms(1)] by metis+
qed

lemma year_money:
  assumes "ledger_ok s"
  shows "is_money (year_debit a y (gl_balances s))" "is_money (year_credit a y (gl_balances s))"
  unfolding year_debit_def year_credit_def
  using gl_row_money [OF assms] by (auto intro!: is_money_sum_list)

section \<open>The journals\<close>

definition money_triples :: "(nat \<times> rat \<times> rat) list \<Rightarrow> bool" where
  "money_triples rows \<longleftrightarrow> (\<forall>(a, d, c) \<in> set rows. is_money d \<and> is_money c)"

definition moved :: "nat \<Rightarrow> (nat \<times> rat \<times> rat) list \<Rightarrow> rat" where
  \<comment> \<open>the net of account \<open>a\<close> over the rows\<close>
  "moved a rows = sum_list (map (\<lambda>(b, d, c). if b = a then d - c else 0) rows)"

lemma entries_net [simp]:
  "lines_net a (xs @ ys) = lines_net a xs + lines_net a ys"
  "lines_net a [debit_entry b x] = (if b = a then x else 0)" "lines_net a [credit_entry b x] = (if b = a then - x else 0)"
  "lines_net a [] = 0"
  by (auto simp: lines_net_def debit_entry_def credit_entry_def)

lemma clearing_net:
  "lines_net a (concat (map revenue_lines rows)) = - moved a rows"
  "lines_net a (concat (map expense_lines_of rows)) = - moved a rows"
  "lines_net a (concat (map opening_lines rows)) = moved a rows"
  "lines_net a (fund_lines f x) = (if a = f then - x else 0)"
  by (induction rows) (auto simp: moved_def Let_def fund_lines_def)

lemma lines_rounded:
  "money_triples rows \<Longrightarrow> map round_line (concat (map revenue_lines rows)) = concat (map revenue_lines rows)"
  "money_triples rows \<Longrightarrow> map round_line (concat (map expense_lines_of rows)) = concat (map expense_lines_of rows)"
  "money_triples rows \<Longrightarrow> map round_line (concat (map opening_lines rows)) = concat (map opening_lines rows)"
  "is_money x \<Longrightarrow> map round_line (fund_lines f x) = fund_lines f x"
proof -
  have m: "is_money x \<Longrightarrow> is_money (- x)" for x using is_money_diff [of 0 x] by simp
  show "money_triples rows \<Longrightarrow> map round_line (concat (map revenue_lines rows)) = concat (map revenue_lines rows)"
    "money_triples rows \<Longrightarrow> map round_line (concat (map expense_lines_of rows)) = concat (map expense_lines_of rows)"
    "money_triples rows \<Longrightarrow> map round_line (concat (map opening_lines rows)) = concat (map opening_lines rows)"
    by (induction rows) (auto simp: money_triples_def Let_def debit_entry_def credit_entry_def is_money_diff)
  show "is_money x \<Longrightarrow> map round_line (fund_lines f x) = fund_lines f x"
    by (simp add: fund_lines_def debit_entry_def credit_entry_def m)
qed

lemma totals_money_triples:
  assumes "money_triples rows"
  shows "is_money (revenue_total rows)" "is_money (expense_total rows)"
  using assms unfolding revenue_total_def expense_total_def money_triples_def
  by (auto intro!: is_money_sum_list is_money_diff)

lemma aggregate_money: "ledger_ok s \<Longrightarrow> money_triples (aggregate_nominals y tys s)"
  by (auto simp: money_triples_def aggregate_nominals_def year_money)

lemma moved_aggregate:
  assumes "distinct (map ac_id (accounts s))" and "a \<in> set (accounts s)"
  shows "moved (ac_id a) (aggregate_nominals y tys s) = (if ac_type a \<in> set tys then year_net (ac_id a) y (gl_balances s) else 0)"
proof -
  let ?P = "\<lambda>a. ac_type a \<in> set tys \<and> has_balance (ac_id a) y (gl_balances s)"
  have "moved (ac_id a) (map (\<lambda>a. (ac_id a, year_debit (ac_id a) y (gl_balances s), year_credit (ac_id a) y (gl_balances s))) (filter ?P as))
      = (if a \<in> set as \<and> ?P a then year_net (ac_id a) y (gl_balances s) else 0)"
    if "distinct (map ac_id as)" "set as \<subseteq> set (accounts s)" for as
    using that
  proof (induction as)
    case (Cons b as)
    have same: "ac_id b = ac_id a \<longleftrightarrow> b = a"
      using assms Cons.prems(2) by (auto simp: distinct_map inj_on_def)
    have "b \<notin> set as" using Cons.prems(1) by (auto simp: image_iff)
    then show ?case using Cons same by (auto simp: moved_def year_net_def)
  qed (simp add: moved_def)
  moreover have "distinct (map ac_id (sort_key ac_code (accounts s)))"
    using assms(1) by (simp add: distinct_map)
  ultimately have "moved (ac_id a) (aggregate_nominals y tys s) = (if ?P a then year_net (ac_id a) y (gl_balances s) else 0)"
    using assms(2) by (simp add: aggregate_nominals_def)
  then show ?thesis using year_net_none [of "ac_id a" y "gl_balances s"] by auto
qed

lemma moved_absent: "a \<notin> ac_id ` set (accounts s) \<Longrightarrow> moved a (aggregate_nominals y tys s) = 0"
proof -
  assume "a \<notin> ac_id ` set (accounts s)"
  then have "\<forall>x \<in> set (aggregate_nominals y tys s). fst x \<noteq> a" by (auto simp: aggregate_nominals_def image_iff)
  moreover have "moved a rows = 0" if "\<forall>x \<in> set rows. fst x \<noteq> a" for rows
    using that by (induction rows) (auto simp: moved_def)
  ultimately show ?thesis by blast
qed

section \<open>What the close does\<close>

lemma sequence_next_state:
  assumes "sequence_next n p s = (ref, s1)"
  shows "\<exists>sq. s1 = s\<lparr>sequences := sq\<rparr>"
  using assms by (auto simp: sequence_next_def Let_def split: prod.splits)

lemma draft_balancedD:
  assumes "draft_balanced h ls s = Inr (i, s2)" and "keys_ok s"
  obtains j doc sq where "i = j_id j" "i = fresh_pk j_id (journals s)"
    "j = h\<lparr>j_id := i, j_document := doc, j_lines := map round_line ls\<rparr>"
    "s2 = s\<lparr>sequences := sq, journals := journals s @ [j]\<rparr>" "lines_ok j"
proof -
  obtain s1 where 1: "insert_journal h s = Inr (i, s1)" "create_lines i ls s1 = Inr s2"
    using assms(1) by (auto simp: draft_balanced_def rbind_eq_Inr split: if_splits)
  obtain j doc sq where "i = j_id j" "j = h\<lparr>j_id := fresh_pk j_id (journals s), j_document := doc, j_lines := map round_line ls\<rparr>"
    "s2 = s\<lparr>sequences := sq, journals := journals s @ [j]\<rparr>" "lines_ok j"
    using insert_create [OF 1 assms(2)] by metis
  then show ?thesis using that [of j doc sq] by simp
qed

definition opening_effect :: "accounting_year \<Rightarrow> 'z close_state_scheme \<Rightarrow> 'z close_state_scheme \<Rightarrow> bool" where
  \<comment> \<open>the opening journal of the year after \<open>y\<close> has been posted\<close>
  "opening_effect y s s' \<longleftrightarrow>
     (\<exists>j sq. appended j (s\<lparr>sequences := sq\<rparr>) s' \<and> d_year (j_date j) = ay_year y + 1
        \<and> j_lines j = concat (map opening_lines (aggregate_nominals (ay_year y) [AT_Asset, AT_Liability, AT_Equity] s)))"

definition opening_posted :: "accounting_year \<Rightarrow> 'z ledger_scheme \<Rightarrow> bool" where
  \<comment> \<open>the opening journal of this close is in the books\<close>
  "opening_posted y s \<longleftrightarrow>
     list_ex (\<lambda>j. j_source_module j = Some ''year_end_close.opening'' \<and> j_source_id j = Some (ay_id y)
                  \<and> j_status j = J_Posted \<and> \<not> j_is_deleted j) (journals s)"

lemma post_opening_journalD:
  assumes "post_opening_journal y u s = Inr (k, s')" and "ledger_ok s"
  obtains "s' = s" "k \<noteq> None \<Longrightarrow> opening_posted y s"
      "k = None \<Longrightarrow> (\<forall>n \<in> set (accounting_years s). ay_year n \<noteq> ay_year y + 1)
         \<or> aggregate_nominals (ay_year y) [AT_Asset, AT_Liability, AT_Equity] s = []"
  | "opening_effect y s s'" "k \<noteq> None"
proof -
  let ?rows = "aggregate_nominals (ay_year y) [AT_Asset, AT_Liability, AT_Equity] s" and ?n = "ay_year y + 1"
  let ?open = "find (\<lambda>j. j_source_module j = Some ''year_end_close.opening'' \<and> j_source_id j = Some (ay_id y)
                    \<and> j_status j = J_Posted \<and> \<not> j_is_deleted j) (journals s)"
  show ?thesis
  proof (cases "?open")
    case (Some j)
    then have "s' = s" using assms(1) by (simp add: post_opening_journal_def)
    moreover have "opening_posted y s"
      using Some by (auto simp: find_Some_iff opening_posted_def list_ex_iff)
    moreover have "k \<noteq> None" using assms(1) Some by (auto simp: post_opening_journal_def)
    ultimately show ?thesis using that(1) by blast
  next
    case None
    show ?thesis
    proof (cases "(\<forall>n \<in> set (accounting_years s). ay_year n \<noteq> ?n) \<or> ?rows = []")
      case True
      then show ?thesis using that(1) assms(1) None by (simp add: post_opening_journal_def Let_def)
    next
      case False
      obtain ref s1 where s1: "sequence_next (''opening_bbf:'' @ show_int ?n) (''BBF'' @ show_int ?n @ ''-'') s = (ref, s1)" by fastforce
      then obtain sq1 where sq1: "s1 = s\<lparr>sequences := sq1\<rparr>" using sequence_next_state by blast
      let ?h = "plain_header (Date ?n 1 1) ref J_Draft ''year_end_close.opening'' (Some (ay_id y)) u"
      obtain i s2 where d: "draft_balanced ?h (concat (map opening_lines ?rows)) s1 = Inr (i, s2)"
        and post: "(case post_journal i u True s2 of Inr s3 \<Rightarrow> Inr (Some i, s3)
                     | Inl e \<Rightarrow> rbind (post_saved i u s2) (\<lambda>s3. Inr (Some i, s3))) = Inr (k, s')"
        using assms(1) False by (auto simp: post_opening_journal_def None Let_def s1 [simplified] rbind_eq_Inr)
      have ok1: "ledger_ok s1" using assms(2) by (simp add: sq1 ledger_ok_def)
      note k1 = ledger_okD(1) [OF ok1]
      from d k1 obtain j doc sq where j: "i = j_id j" "i = fresh_pk j_id (journals s1)"
        "j = ?h\<lparr>j_id := i, j_document := doc, j_lines := map round_line (concat (map opening_lines ?rows))\<rparr>"
        "s2 = s1\<lparr>sequences := sq, journals := journals s1 @ [j]\<rparr>" "lines_ok j"
        by (rule draft_balancedD)
      have jl: "j_lines j = concat (map opening_lines ?rows)" "d_year (j_date j) = ?n" "j_status j = J_Draft"
        using lines_rounded(3) [OF aggregate_money [OF assms(2)]] by (simp_all add: j(3) plain_header_def)
      have "\<exists>j'. appended j' s1 s' \<and> j_lines j' = j_lines j \<and> j_date j' = j_date j"
      proof (cases "post_journal i u True s2")
        case (Inr s3)
        then have "post_journal i u True s2 = Inr s'" using post by simp
        from post_draftD [OF this k1 j(5) j(1) [symmetric] j(4,2)] show ?thesis
          unfolding same_document_def by blast
      next
        case (Inl e)
        then have "post_saved i u s2 = Inr s'" using post by (auto simp: rbind_eq_Inr)
        from post_savedD [OF this k1 j(5) j(1) [symmetric] j(4,2)] jl(3) show ?thesis by auto
      qed
      then have "opening_effect y s s'" unfolding opening_effect_def sq1 using jl by metis
      moreover have "k \<noteq> None" using post by (auto simp: rbind_eq_Inr split: sum.splits)
      ultimately show ?thesis by (rule that(2))
    qed
  qed
qed

lemma close_fiscal_yearD:
  assumes "close_fiscal_year y u force s = Inr (m, s')" and "ledger_ok s"
  obtains fund j sq s3 where "account_by_code (resolve_accumulated_fund_code s) s = Some fund" "ay_status y \<noteq> ''Closed''"
    "appended j (s\<lparr>sequences := sq\<rparr>) s3" "d_year (j_date j) = ay_year y" "cs_journal m = j_id j"
    "j_lines j = closing_lines (ac_id fund) (aggregate_nominals (ay_year y) [AT_Income] s) (aggregate_nominals (ay_year y) [AT_Expense] s)"
    "cs_surplus m = revenue_total (aggregate_nominals (ay_year y) [AT_Income] s) - expense_total (aggregate_nominals (ay_year y) [AT_Expense] s)"
    "post_opening_journal y u (lock_year y u s3) = Inr (cs_opening m, s')" "j_source_module j = Some ''year_end_close''"
proof -
  let ?r = "aggregate_nominals (ay_year y) [AT_Income] s" and ?e = "aggregate_nominals (ay_year y) [AT_Expense] s"
  obtain ref s1 where s1: "sequence_next (''year_close:'' @ show_int (ay_year y)) (''YEC'' @ show_int (ay_year y) @ ''-'') s = (ref, s1)" by fastforce
  then obtain sq1 where sq1: "s1 = s\<lparr>sequences := sq1\<rparr>" using sequence_next_state by blast
  let ?h = "plain_header (Date (ay_year y) 12 31) ref J_Draft ''year_end_close'' (Some (ay_id y)) u"
  obtain fund i s2 s3 k where f: "account_by_code (resolve_accumulated_fund_code s) s = Some fund" "ay_status y \<noteq> ''Closed''"
    and d: "draft_balanced ?h (closing_lines (ac_id fund) ?r ?e) s1 = Inr (i, s2)" "post_saved i u s2 = Inr s3"
    and o: "post_opening_journal y u (lock_year y u s3) = Inr (k, s')"
    and m: "m = \<lparr>cs_journal = i, cs_revenue = revenue_total ?r, cs_expense = expense_total ?e,
                 cs_surplus = revenue_total ?r - expense_total ?e, cs_opening = k\<rparr>"
    using assms(1) by (auto simp: close_fiscal_year_def Let_def s1 [simplified] rbind_eq_Inr split: if_splits option.splits)
  have ok1: "ledger_ok s1" using assms(2) by (simp add: sq1 ledger_ok_def)
  note k1 = ledger_okD(1) [OF ok1]
  from d(1) k1 obtain j doc sq where j: "i = j_id j" "i = fresh_pk j_id (journals s1)"
    "j = ?h\<lparr>j_id := i, j_document := doc, j_lines := map round_line (closing_lines (ac_id fund) ?r ?e)\<rparr>"
    "s2 = s1\<lparr>sequences := sq, journals := journals s1 @ [j]\<rparr>" "lines_ok j"
    by (rule draft_balancedD)
  note M = aggregate_money [OF assms(2)]
  have jl: "j_lines j = closing_lines (ac_id fund) ?r ?e" "d_year (j_date j) = ay_year y" "j_status j = J_Draft"
    "j_source_module j = Some ''year_end_close''"
    using lines_rounded(1,2) [OF M] lines_rounded(4) [OF is_money_diff [OF totals_money_triples(1) [OF M] totals_money_triples(2) [OF M]]]
    by (simp_all add: j(3) plain_header_def closing_lines_def)
  from post_savedD [OF d(2) k1 j(5) j(1) [symmetric] j(4,2)] jl(3)
  have "appended (j\<lparr>j_status := J_Posted, j_posted_by := u\<rparr>) (s\<lparr>sequences := sq1\<rparr>) s3" by (simp add: sq1)
  then show ?thesis using that [OF f, of "j\<lparr>j_status := J_Posted, j_posted_by := u\<rparr>"] jl j(1) o m by simp
qed

lemma lock_year_sel [simp]:
  "gl_balances (lock_year y u s) = gl_balances s" "journals (lock_year y u s) = journals s"
  "accounts (lock_year y u s) = accounts s" "ledger_ok (lock_year y u s) = ledger_ok s"
  "aggregate_nominals z tys (lock_year y u s) = aggregate_nominals z tys s"
  by (simp_all add: lock_year_def ledger_ok_def aggregate_nominals_def)

lemma lock_year_years: "n \<in> set (accounting_years s) \<Longrightarrow> ay_id n \<noteq> ay_id y \<Longrightarrow> n \<in> set (accounting_years (lock_year y u s))"
  by (auto simp: lock_year_def put_row_def)

lemma opening_keeps:
  assumes "opening_effect y s s'" and "ledger_ok s"
  shows "ledger_ok s'" "year_net a (ay_year y) (gl_balances s') = year_net a (ay_year y) (gl_balances s)"
    "year_net a (ay_year y + 1) (gl_balances s') = year_net a (ay_year y + 1) (gl_balances s)
       + moved a (aggregate_nominals (ay_year y) [AT_Asset, AT_Liability, AT_Equity] s)"
    "accounting_years s' = accounting_years s"
proof -
  obtain j sq where j: "appended j (s\<lparr>sequences := sq\<rparr>) s'" "d_year (j_date j) = ay_year y + 1"
    "j_lines j = concat (map opening_lines (aggregate_nominals (ay_year y) [AT_Asset, AT_Liability, AT_Equity] s))"
    using assms(1) by (auto simp: opening_effect_def)
  have "ledger_ok (s\<lparr>sequences := sq\<rparr>)" using assms(2) by (simp add: ledger_ok_def)
  from appended_ledger_ok [OF this j(1)] show "ledger_ok s'" .
  show "year_net a (ay_year y) (gl_balances s') = year_net a (ay_year y) (gl_balances s)"
    using appendedD(2) [OF j(1)] j(2) by (simp add: year_net_gl_post)
  show "year_net a (ay_year y + 1) (gl_balances s') = year_net a (ay_year y + 1) (gl_balances s)
       + moved a (aggregate_nominals (ay_year y) [AT_Asset, AT_Liability, AT_Equity] s)"
    using appendedD(2) [OF j(1)] j(2,3) by (simp add: year_net_gl_post clearing_net)
  show "accounting_years s' = accounting_years s" using appendedD(10) [OF j(1)] by auto
qed

lemma post_opening_keeps:
  assumes "post_opening_journal y u s = Inr (k, s')" and "ledger_ok s"
  shows "ledger_ok s' \<and> year_net a (ay_year y) (gl_balances s') = year_net a (ay_year y) (gl_balances s)
    \<and> accounting_years s' = accounting_years s"
  using assms by (rule post_opening_journalD) (use assms(2) opening_keeps in blast)+

lemma close_nets:
  assumes "close_fiscal_year y u force s = Inr (m, s')" and "ledger_ok s"
  obtains fund s3 where "account_by_code (resolve_accumulated_fund_code s) s = Some fund" "ledger_ok s3" "ledger_ok s'"
    "accounts s3 = accounts s" "accounting_years s3 = accounting_years s"
    "\<And>z. z \<noteq> ay_year y \<Longrightarrow> year_net a z (gl_balances s3) = year_net a z (gl_balances s)"
    "year_net a (ay_year y) (gl_balances s3) = year_net a (ay_year y) (gl_balances s)
         - moved a (aggregate_nominals (ay_year y) [AT_Income] s) - moved a (aggregate_nominals (ay_year y) [AT_Expense] s)
         - (if a = ac_id fund then cs_surplus m else 0)"
    "year_net a (ay_year y) (gl_balances s') = year_net a (ay_year y) (gl_balances s3)"
    "post_opening_journal y u (lock_year y u s3) = Inr (cs_opening m, s')"
    "\<And>j. j \<in> set (journals s3) \<Longrightarrow> j \<in> set (journals s) \<or> j_source_module j = Some ''year_end_close''"
    "accounting_years s' = accounting_years (lock_year y u s3)"
proof -
  from assms obtain fund j sq s3 where f: "account_by_code (resolve_accumulated_fund_code s) s = Some fund"
    and j: "appended j (s\<lparr>sequences := sq\<rparr>) s3" "d_year (j_date j) = ay_year y"
    "j_lines j = closing_lines (ac_id fund) (aggregate_nominals (ay_year y) [AT_Income] s) (aggregate_nominals (ay_year y) [AT_Expense] s)"
    and m: "cs_surplus m = revenue_total (aggregate_nominals (ay_year y) [AT_Income] s) - expense_total (aggregate_nominals (ay_year y) [AT_Expense] s)"
    and o: "post_opening_journal y u (lock_year y u s3) = Inr (cs_opening m, s')"
    and src: "j_source_module j = Some ''year_end_close''"
    by (rule close_fiscal_yearD)
  have "ledger_ok (s\<lparr>sequences := sq\<rparr>)" using assms(2) by (simp add: ledger_ok_def)
  from appended_ledger_ok [OF this j(1)] have ok3: "ledger_ok s3" .
  then have "ledger_ok (lock_year y u s3)" by simp
  note after = post_opening_keeps [OF o this, of a]
  have old: "accounting_years s3 = accounting_years s" using appendedD(10) [OF j(1)] by auto
  show ?thesis
    by (rule that [OF f ok3 _ _ old _ _ _ o])
      (use appendedD(1,2,9) [OF j(1)] j(2,3) m src after in
        \<open>auto simp: year_net_gl_post closing_lines_def clearing_net\<close>)
qed

section \<open>A worked year\<close>

definition demo_year :: accounting_year where
  "demo_year = \<lparr>ay_id = 1, ay_year = 2026, ay_status = ''Open'', ay_closed_by = None\<rparr>"

definition demo_opening_books :: close_state where
  "demo_opening_books = budget_state.extend
     (demo_ledger\<lparr>accounts := [demo_account 1 ''31010101'' AT_Asset, demo_account 2 ''11010101'' AT_Income,
        demo_account 3 ''22020101'' AT_Expense, demo_account 4 ''43100000'' AT_Equity]\<rparr>)
     \<lparr>accounting_years = [demo_year, demo_year\<lparr>ay_id := 2, ay_year := 2027\<rparr>], accumulated_code = None\<rparr>"

definition demo_year_header :: journal where
  "demo_year_header = plain_header (Date 2026 3 10) ''JV/1'' J_Posted ''manual'' (Some 7) None"

definition demo_year_books :: close_state where
  "demo_year_books = snd (projr (post_direct demo_year_header
     [debit_entry 1 500, credit_entry 2 500, debit_entry 3 200, credit_entry 1 200] demo_opening_books))"

definition demo_year_end :: "close_summary \<times> close_state" where
  "demo_year_end = projr (close_fiscal_year demo_year (Some 9) False demo_year_books)"

lemma demo_year_books_ok: "ledger_ok demo_year_books"
proof -
  have "\<not> isl (post_direct demo_year_header
     [debit_entry 1 500, credit_entry 2 500, debit_entry 3 200, credit_entry 1 200] demo_opening_books)" by code_simp
  then have p: "post_direct demo_year_header
     [debit_entry 1 500, credit_entry 2 500, debit_entry 3 200, credit_entry 1 200] demo_opening_books
     = Inr (fst (projr (post_direct demo_year_header
     [debit_entry 1 500, credit_entry 2 500, debit_entry 3 200, credit_entry 1 200] demo_opening_books)), demo_year_books)"
    by (simp add: demo_year_books_def)
  have ok: "ledger_ok demo_opening_books"
    using demo_ledger_ok by (simp add: ledger_ok_def demo_opening_books_def budget_state.defs)
  from p ledger_okD(1) [OF ok] obtain j where "direct_posted demo_year_header
     [debit_entry 1 500, credit_entry 2 500, debit_entry 3 200, credit_entry 1 200] j demo_opening_books demo_year_books"
    by (rule post_directD)
  from ledger_ok_direct [OF ok this] show ?thesis by (simp add: demo_year_header_def plain_header_def)
qed

lemma demo_year_end_closed: "close_fiscal_year demo_year (Some 9) False demo_year_books = Inr (fst demo_year_end, snd demo_year_end)"
proof -
  have "\<not> isl (close_fiscal_year demo_year (Some 9) False demo_year_books)" by code_simp
  then show ?thesis by (simp add: demo_year_end_def)
qed

section \<open>The properties of the close\<close>

text \<open>
  C23: a successful year-end close keeps the ledger in order, leaves every income and expense account
  with a zero balance for the year, moves exactly the year's surplus into the accumulated fund and
  changes no other balance-sheet account of the year.
\<close>

theorem year_end_close_clears:
  assumes "close_fiscal_year y u force s = Inr (m, s')" and "ledger_ok s" and "distinct (map ac_id (accounts s))"
    and "account_by_code (resolve_accumulated_fund_code s) s = Some fund" and "fund \<in> set (accounts s)"
    and "ac_type fund \<notin> {AT_Income, AT_Expense}" and "a \<in> set (accounts s)"
  shows "ledger_ok s' \<and> year_net (ac_id a) (ay_year y) (gl_balances s') =
     (if ac_type a \<in> {AT_Income, AT_Expense} then 0
      else year_net (ac_id a) (ay_year y) (gl_balances s) - (if a = fund then cs_surplus m else 0))"
proof -
  have same: "ac_id a = ac_id fund \<longleftrightarrow> a = fund"
    using assms(3,5,7) by (auto simp: distinct_map inj_on_def)
  from close_nets [OF assms(1,2), where a = "ac_id a"]
  have "ledger_ok s' \<and> year_net (ac_id a) (ay_year y) (gl_balances s') = year_net (ac_id a) (ay_year y) (gl_balances s)
         - moved (ac_id a) (aggregate_nominals (ay_year y) [AT_Income] s)
         - moved (ac_id a) (aggregate_nominals (ay_year y) [AT_Expense] s)
         - (if ac_id a = ac_id fund then cs_surplus m else 0)"
    using assms(4) by (metis option.inject)
  then show ?thesis using assms(6) same by (auto simp: moved_aggregate [OF assms(3,7)])
qed

theorem year_end_close_clears_witness:
  "year_net 2 2026 (gl_balances demo_year_books) = -500 \<and> year_net 2 2026 (gl_balances (snd demo_year_end)) = 0
    \<and> cs_surplus (fst demo_year_end) = 300"
proof -
  let ?income = "demo_account 2 ''11010101'' AT_Income" and ?fund = "demo_account 4 ''43100000'' AT_Equity"
  have d: "distinct (map ac_id (accounts demo_year_books))" by code_simp
  have f: "account_by_code (resolve_accumulated_fund_code demo_year_books) demo_year_books = Some ?fund"
    "?fund \<in> set (accounts demo_year_books)" "?income \<in> set (accounts demo_year_books)"
    by code_simp+
  have v: "year_net 2 2026 (gl_balances demo_year_books) = -500" "cs_surplus (fst demo_year_end) = 300" by code_simp+
  show ?thesis
    using year_end_close_clears [OF demo_year_end_closed demo_year_books_ok d f(1,2) _ f(3)] v
    by (simp add: demo_account_def demo_year_def)
qed

text \<open>
  C24: the close carries the balance sheet forward: when the next year exists as another row and no
  opening journal of this very close is in the books yet (those of other years may be), every asset,
  liability and equity account starts the next year with what the closed year left on it, the surplus
  included, on top of what was posted to that year before.
\<close>

theorem year_end_close_opens_next_year:
  assumes "close_fiscal_year y u force s = Inr (m, s')" and "ledger_ok s" and "distinct (map ac_id (accounts s))"
    and "next \<in> set (accounting_years s)" and "ay_year next = ay_year y + 1" and "ay_id next \<noteq> ay_id y"
    and "\<not> opening_posted y s"
    and "a \<in> set (accounts s)" and "ac_type a \<in> {AT_Asset, AT_Liability, AT_Equity}"
  shows "year_net (ac_id a) (ay_year y + 1) (gl_balances s')
    = year_net (ac_id a) (ay_year y + 1) (gl_balances s) + year_net (ac_id a) (ay_year y) (gl_balances s')"
proof -
  from assms(1,2) obtain fund s3 where ok: "ledger_ok s3" and ac: "accounts s3 = accounts s"
    and ys: "accounting_years s3 = accounting_years s"
    and before: "\<And>z. z \<noteq> ay_year y \<Longrightarrow> year_net (ac_id a) z (gl_balances s3) = year_net (ac_id a) z (gl_balances s)"
    and keep: "year_net (ac_id a) (ay_year y) (gl_balances s') = year_net (ac_id a) (ay_year y) (gl_balances s3)"
    and o: "post_opening_journal y u (lock_year y u s3) = Inr (cs_opening m, s')"
    and src: "\<And>j. j \<in> set (journals s3) \<Longrightarrow> j \<in> set (journals s) \<or> j_source_module j = Some ''year_end_close''"
    by (rule close_nets [where a = "ac_id a"]) (rule that, assumption+)
  let ?L = "lock_year y u s3" and ?T = "[AT_Asset, AT_Liability, AT_Equity]"
  have okL: "ledger_ok ?L" using ok by simp
  have d: "distinct (map ac_id (accounts ?L))" "a \<in> set (accounts ?L)" using assms(3,8) ac by simp_all
  have mv: "moved (ac_id a) (aggregate_nominals (ay_year y) ?T ?L) = year_net (ac_id a) (ay_year y) (gl_balances s3)"
    using moved_aggregate [OF d, of "ay_year y" ?T] assms(9) by simp
  have "year_net (ac_id a) (ay_year y + 1) (gl_balances s')
      = year_net (ac_id a) (ay_year y + 1) (gl_balances ?L) + moved (ac_id a) (aggregate_nominals (ay_year y) ?T ?L)"
    using o okL
  proof (rule post_opening_journalD)
    assume stay: "s' = ?L" and none: "cs_opening m \<noteq> None \<Longrightarrow> opening_posted y ?L"
      and left: "cs_opening m = None \<Longrightarrow> (\<forall>n \<in> set (accounting_years ?L). ay_year n \<noteq> ay_year y + 1) \<or> aggregate_nominals (ay_year y) ?T ?L = []"
    have "next \<in> set (accounting_years ?L)"
      using assms(4,6) ys by (simp add: lock_year_years)
    moreover have "cs_opening m = None" using none src assms(7) by (fastforce simp: opening_posted_def list_ex_iff)
    ultimately have "aggregate_nominals (ay_year y) ?T ?L = []" using left assms(5) by auto
    then show ?thesis using stay by (simp add: moved_def)
  qed (use opening_keeps [OF _ okL] in blast)
  then show ?thesis using mv keep before [of "ay_year y + 1"] by simp
qed

theorem year_end_close_opens_next_year_witness:
  "year_net 4 2027 (gl_balances (snd demo_year_end)) = -300 \<and> year_net 4 2026 (gl_balances (snd demo_year_end)) = -300"
proof -
  let ?fund = "demo_account 4 ''43100000'' AT_Equity" and ?next = "demo_year\<lparr>ay_id := 2, ay_year := 2027\<rparr>"
  have d: "distinct (map ac_id (accounts demo_year_books))" by code_simp
  have f: "?next \<in> set (accounting_years demo_year_books)" "ay_year ?next = ay_year demo_year + 1"
    "ay_id ?next \<noteq> ay_id demo_year" "?fund \<in> set (accounts demo_year_books)"
    "\<not> opening_posted demo_year demo_year_books"
    by code_simp+
  have v: "year_net 4 2027 (gl_balances demo_year_books) = 0" "year_net 4 2026 (gl_balances (snd demo_year_end)) = -300"
    by code_simp+
  show ?thesis
    using year_end_close_opens_next_year [OF demo_year_end_closed demo_year_books_ok d f(1-3,5,4)] v
    by (simp add: demo_account_def demo_year_def)
qed

end
