(* ===== verification/Treasury.thy ===== *)
theory Treasury
  imports Postings
begin

text \<open>
  The treasury single account (\<^verbatim>\<open>accounting/services/treasury_service.py\<close>, \<^verbatim>\<open>tsa_gl_resolver.py\<close>,
  \<^verbatim>\<open>revenue_collection_posting.py\<close>, \<^verbatim>\<open>payment_voucher_posting.py\<close>): the balance column of each treasury
  account, the operations that move it beside a journal, the reconciliation that recomputes it from
  the ledger, and the daily sweep that moves it without one.
\<close>

section \<open>Data\<close>

record tsa =
  ts_id :: nat
  ts_number :: string
  ts_type :: string
  ts_segment :: "nat option"
  ts_fund_segment :: "nat option"
  ts_parent :: "nat option"
  ts_gl :: "nat option"
  ts_active :: bool
  ts_balance :: rat
  ts_last_reconciled :: "date option"

record payment_instruction =
  pi_id :: nat
  pi_tsa :: nat
  pi_amount :: rat
  pi_status :: string
  pi_bank_reference :: string

record revenue_collection =
  rc_id :: nat
  rc_tsa :: "nat option"
  rc_amount :: rat
  rc_date :: date
  rc_ncoa :: "nat option"
  rc_revenue_account :: "nat option" \<comment> \<open>\<^verbatim>\<open>revenue_head.economic_segment\<close>\<close>

record voucher_deduction =
  vd_amount :: rat
  vd_account :: "nat option"

record treasury_state = budget_state +
  tsas :: "tsa list"
  instructions :: "payment_instruction list"
  default_cash_code :: "string option" \<comment> \<open>\<^verbatim>\<open>AccountingSettings.default_cash_account_code\<close>\<close>

definition tsa_of :: "nat \<Rightarrow> 'z treasury_state_scheme \<Rightarrow> tsa option" where
  "tsa_of k s = find_row ts_id k (tsas s)"

definition move_balance :: "nat \<Rightarrow> rat \<Rightarrow> 'z treasury_state_scheme \<Rightarrow> 'z treasury_state_scheme" where
  \<comment> \<open>\<^verbatim>\<open>filter(pk=k).update(current_balance=F('current_balance') + x)\<close>\<close>
  "move_balance k x s = s\<lparr>tsas := upd_row ts_id k (\<lambda>t. t\<lparr>ts_balance := db_decimal (ts_balance t + x)\<rparr>) (tsas s)\<rparr>"

definition set_balance :: "nat \<Rightarrow> rat \<Rightarrow> 'z treasury_state_scheme \<Rightarrow> 'z treasury_state_scheme" where
  "set_balance k x s = s\<lparr>tsas := upd_row ts_id k (\<lambda>t. t\<lparr>ts_balance := db_decimal x\<rparr>) (tsas s)\<rparr>"

section \<open>Which account the cash is on\<close>

definition resolve_tsa_cash_gl :: "tsa option \<Rightarrow> 'z treasury_state_scheme \<Rightarrow> err + account" where
  "resolve_tsa_cash_gl t s =
     (case Option.bind (Option.bind t ts_gl) (\<lambda>a. account_of a s) of
        Some acct \<Rightarrow> Inr acct
      | None \<Rightarrow>
          let by_code = (if nonempty (default_cash_code s)
                         then qs_first ac_code (filter (\<lambda>a. ac_code a = the (default_cash_code s) \<and> ac_is_active a
                                                           \<and> ac_type a = AT_Asset) (accounts s))
                         else None)
          in case by_code of
               Some acct \<Rightarrow> Inr acct
             | None \<Rightarrow>
                 (case qs_first ac_code (filter (\<lambda>a. ac_is_active a \<and> ac_type a = AT_Asset
                                                    \<and> has_prefix ''31'' (ac_code a)) (accounts s)) of
                    Some acct \<Rightarrow> Inr acct
                  | None \<Rightarrow> Inl ImproperlyConfigured))"

section \<open>Cash movements without a journal of their own\<close>

definition process_payment :: "payment_instruction \<Rightarrow> 'z treasury_state_scheme \<Rightarrow> err + 'z treasury_state_scheme" where
  "process_payment p s =
     (case tsa_of (pi_tsa p) s of
        None \<Rightarrow> Inl DoesNotExist
      | Some t \<Rightarrow> Inr (set_balance (ts_id t) (ts_balance t - pi_amount p) s))"

definition reverse_payment :: "payment_instruction \<Rightarrow> 'z treasury_state_scheme \<Rightarrow> err + 'z treasury_state_scheme" where
  "reverse_payment p s =
     (case tsa_of (pi_tsa p) s of
        None \<Rightarrow> Inl DoesNotExist
      | Some t \<Rightarrow> Inr (set_balance (ts_id t) (ts_balance t + pi_amount p) s))"

definition process_revenue :: "revenue_collection \<Rightarrow> 'z treasury_state_scheme \<Rightarrow> err + 'z treasury_state_scheme" where
  "process_revenue c s =
     (case rc_tsa c of
        None \<Rightarrow> Inr s
      | Some k \<Rightarrow>
          (case tsa_of k s of
             None \<Rightarrow> Inl DoesNotExist
           | Some t \<Rightarrow> Inr (set_balance (ts_id t) (ts_balance t + rc_amount c) s)))"

section \<open>Transfers and the cash book\<close>

definition bridged :: "nat option \<Rightarrow> segment list \<Rightarrow> nat option" where
  \<comment> \<open>\<^verbatim>\<open>getattr(getattr(t, 'mda', None), 'legacy_mda', None)\<close>, and the same for the fund\<close>
  "bridged k segs = Option.bind (Option.bind k (\<lambda>i. find_row sg_id i segs)) sg_legacy"

definition treasury_header :: "date \<Rightarrow> string \<Rightarrow> string \<Rightarrow> tsa \<Rightarrow> nat option \<Rightarrow> 'z treasury_state_scheme \<Rightarrow> journal" where
  "treasury_header d ref source t user s =
     \<lparr>j_id = 0, j_date = d, j_ref = ref, j_document = [], j_mda = bridged (ts_segment t) (admin_segments s),
      j_fund = bridged (ts_fund_segment t) (fund_segments s), j_function = None, j_program = None, j_geo = None,
      j_status = J_Draft, j_source_module = Some source, j_source_id = None, j_posted_by = user,
      j_is_reversed = False, j_is_deleted = False, j_lines = []\<rparr>"

definition process_transfer ::
    "tsa \<Rightarrow> tsa \<Rightarrow> rat \<Rightarrow> nat option \<Rightarrow> date option \<Rightarrow> 'z treasury_state_scheme \<Rightarrow> err + (nat \<times> 'z treasury_state_scheme)" where
  \<comment> \<open>the guards read the caller's instances, the funds check the locked rows\<close>
  "process_transfer src tgt amount user d s =
     (if amount \<le> 0 \<or> ts_id src = ts_id tgt \<or> \<not> ts_active src \<or> \<not> ts_active tgt
         \<or> ts_gl src = None \<or> ts_gl tgt = None
      then Inl ValueError
      else (case (tsa_of (ts_id src) s, tsa_of (ts_id tgt) s) of
              (Some a, Some b) \<Rightarrow>
                if ts_balance a < amount then Inl ValueError
                else (case (ts_gl b, ts_gl a) of
                        (Some cash_in, Some cash_out) \<Rightarrow>
                          let (ref, s1) = sequence_next ''tsa_transfer'' ''TT-'' s
                          in rbind (post_new_journal
                                      (treasury_header (case d of Some x \<Rightarrow> x | None \<Rightarrow> today s) ref ''treasury'' a user s)
                                      [debit_entry cash_in amount, credit_entry cash_out amount] user s1)
                               (\<lambda>(i, s2). Inr (i, move_balance (ts_id b) amount (move_balance (ts_id a) (- amount) s2)))
                      | _ \<Rightarrow> Inl IntegrityError)
            | _ \<Rightarrow> Inl ValueError))"

definition to_upper :: "char \<Rightarrow> char" where
  "to_upper c = (if 97 \<le> (of_char c :: nat) \<and> (of_char c :: nat) \<le> 122 then char_of ((of_char c :: nat) - 32) else c)"

definition record_cash_movement ::
    "tsa \<Rightarrow> string \<Rightarrow> rat \<Rightarrow> nat option \<Rightarrow> nat option \<Rightarrow> date option \<Rightarrow> 'z treasury_state_scheme \<Rightarrow> err + (nat \<times> 'z treasury_state_scheme)" where
  "record_cash_movement t direction amount contra user d s =
     (let dir = map to_upper direction
      in if amount \<le> 0 \<or> dir \<notin> {''IN'', ''OUT''} \<or> \<not> ts_active t \<or> ts_gl t = None \<or> contra = None \<or> contra = ts_gl t
         then Inl ValueError
         else (case tsa_of (ts_id t) s of
                 None \<Rightarrow> Inl DoesNotExist
               | Some a \<Rightarrow>
                   if dir = ''OUT'' \<and> ts_balance a < amount then Inl ValueError
                   else (case ts_gl a of
                           None \<Rightarrow> Inl IntegrityError
                         | Some cash \<Rightarrow>
                             let (ref, s1) = sequence_next ''tsa_cashbook'' ''CB-'' s;
                                 lines = (if dir = ''IN'' then [debit_entry cash amount, credit_entry (the contra) amount]
                                          else [debit_entry (the contra) amount, credit_entry cash amount])
                             in rbind (post_new_journal
                                         (treasury_header (case d of Some x \<Rightarrow> x | None \<Rightarrow> today s) ref ''treasury_cashbook'' a user s)
                                         lines user s1)
                                  (\<lambda>(i, s2). Inr (i, move_balance (ts_id a) (if dir = ''IN'' then amount else - amount) s2)))))"

section \<open>Revenue and voucher postings\<close>

definition document_header :: "date \<Rightarrow> string \<Rightarrow> string \<Rightarrow> nat option \<Rightarrow> nat option \<Rightarrow> journal" where
  \<comment> \<open>a draft header without dimensions\<close>
  "document_header d ref source k user =
     \<lparr>j_id = 0, j_date = d, j_ref = ref, j_document = [], j_mda = None, j_fund = None, j_function = None,
      j_program = None, j_geo = None, j_status = J_Draft, j_source_module = Some source, j_source_id = k,
      j_posted_by = user, j_is_reversed = False, j_is_deleted = False, j_lines = []\<rparr>"

definition post_revenue_collection_to_gl ::
    "revenue_collection \<Rightarrow> nat option \<Rightarrow> 'z treasury_state_scheme \<Rightarrow> err + (nat \<times> 'z treasury_state_scheme)" where
  "post_revenue_collection_to_gl c user s =
     (let (ref, s1) = sequence_next ''journal'' ''JE-'' s
      in case resolve_tsa_cash_gl (Option.bind (rc_tsa c) (\<lambda>k. tsa_of k s)) s of
           Inl e \<Rightarrow> Inl e
         | Inr cash \<Rightarrow>
             (case rc_revenue_account c of
                None \<Rightarrow> Inl ValueError
              | Some revenue \<Rightarrow>
                  rbind (post_new_journal (document_header (rc_date c) ref ''revenue'' (Some (rc_id c)) None)
                           [(debit_entry (ac_id cash) (rc_amount c))\<lparr>l_ncoa := rc_ncoa c\<rparr>,
                            credit_entry revenue (rc_amount c)] user s1)
                    (\<lambda>(i, s2). rbind (process_revenue c s2) (\<lambda>s3. Inr (i, s3)))))"

definition voucher_wht_account :: "'z treasury_state_scheme \<Rightarrow> account option" where
  "voucher_wht_account s =
     (case account_by_code ''41200600'' s of
        Some a \<Rightarrow> Some a
      | None \<Rightarrow> qs_first ac_code (filter (\<lambda>a. has_prefix ''412'' (ac_code a) \<and> ac_type a = AT_Liability) (accounts s)))"

definition voucher_deduction_lines ::
    "voucher \<Rightarrow> voucher_deduction list \<Rightarrow> 'z treasury_state_scheme \<Rightarrow> jline list \<times> rat" where
  \<comment> \<open>the credit lines and \<^verbatim>\<open>total_deductions\<close>; without rows the header's withholding, when its account exists\<close>
  "voucher_deduction_lines v ds s =
     (if ds = [] \<and> 0 < pv_wht v
      then (case voucher_wht_account s of
              Some a \<Rightarrow> ([credit_entry (ac_id a) (pv_wht v)], pv_wht v)
            | None \<Rightarrow> ([], 0))
      else (List.map_filter (\<lambda>d. if 0 < vd_amount d
                                 then map_option (\<lambda>a. credit_entry a (vd_amount d)) (vd_account d) else None) ds,
            sum_list (map vd_amount ds)))"

definition voucher_lines :: "voucher \<Rightarrow> voucher_deduction list \<Rightarrow> nat \<Rightarrow> nat \<Rightarrow> 'z treasury_state_scheme \<Rightarrow> jline list" where
  "voucher_lines v ds expenditure cash s =
     (let (ls, withheld) = voucher_deduction_lines v ds s; net = pv_gross v - withheld
      in (debit_entry expenditure (pv_gross v))\<lparr>l_ncoa := Some (pv_ncoa v)\<rparr> # ls
         @ (if 0 < net then [credit_entry cash net] else []))"

definition post_payment_voucher_to_gl ::
    "voucher \<Rightarrow> voucher_deduction list \<Rightarrow> nat option \<Rightarrow> nat option \<Rightarrow> 'z treasury_state_scheme \<Rightarrow> err + (nat \<times> 'z treasury_state_scheme)" where
  "post_payment_voucher_to_gl v ds user cash_account s =
     (let (ref, s1) = sequence_next ''journal'' ''JE-'' s
      in case find_row n_id (pv_ncoa v) (ncoa_codes s) of
           None \<Rightarrow> Inl DoesNotExist
         | Some n \<Rightarrow>
             (case (case cash_account of
                      Some a \<Rightarrow> Inr a
                    | None \<Rightarrow> rbind (resolve_tsa_cash_gl (tsa_of (pv_tsa v) s) s) (\<lambda>a. Inr (ac_id a))) of
                Inl e \<Rightarrow> Inl e
              | Inr cash \<Rightarrow>
                  post_new_journal (document_header (today s) ref ''treasury'' (Some (pv_id v)) user)
                    (voucher_lines v ds (n_economic n) cash s) user s1))"

section \<open>Reconciliation\<close>

definition posted_net :: "nat \<Rightarrow> journal list \<Rightarrow> rat" where
  \<comment> \<open>debits less credits of account \<open>a\<close> over the posted journals\<close>
  "posted_net a js = sum_list (map (\<lambda>j. if j_status j = J_Posted then lines_net a (j_lines j) else 0) js)"

definition gl_cash_balance :: "tsa \<Rightarrow> 'z treasury_state_scheme \<Rightarrow> rat" where
  "gl_cash_balance t s = (case ts_gl t of None \<Rightarrow> 0 | Some a \<Rightarrow> posted_net a (journals s))"

definition reconcile_balance :: "tsa \<Rightarrow> 'z treasury_state_scheme \<Rightarrow> rat \<times> 'z treasury_state_scheme" where
  "reconcile_balance t s = (let x = gl_cash_balance t s in (x, set_balance (ts_id t) x s))"

definition reconcile_each :: "tsa list \<Rightarrow> 'z treasury_state_scheme \<Rightarrow> 'z treasury_state_scheme" where
  "reconcile_each ts s = fold (\<lambda>t s. snd (reconcile_balance t s)) ts s"

definition reconcile_from_gl_account :: "nat \<Rightarrow> 'z treasury_state_scheme \<Rightarrow> 'z treasury_state_scheme" where
  "reconcile_from_gl_account a s = reconcile_each (filter (\<lambda>t. ts_gl t = Some a) (tsas s)) s"

definition reconcile_all :: "'z treasury_state_scheme \<Rightarrow> 'z treasury_state_scheme" where
  "reconcile_all s = reconcile_each (filter (\<lambda>t. ts_gl t \<noteq> None) (tsas s)) s"

section \<open>The daily sweep\<close>

definition sweep_order :: "tsa list \<Rightarrow> tsa list" where
  \<comment> \<open>\<^verbatim>\<open>ordering = ['account_type', 'account_number']\<close>\<close>
  "sweep_order ts = sort_key ts_type (sort_key ts_number ts)"

definition main_tsa :: "'z treasury_state_scheme \<Rightarrow> tsa option" where
  "main_tsa s = (case sweep_order (filter (\<lambda>t. ts_type t = ''MAIN_TSA'' \<and> ts_active t) (tsas s)) of
                   [] \<Rightarrow> None | t # _ \<Rightarrow> Some t)"

definition sweep_one :: "nat \<Rightarrow> nat \<Rightarrow> rat \<times> 'z treasury_state_scheme \<Rightarrow> rat \<times> 'z treasury_state_scheme" where
  \<comment> \<open>one account; the main account's balance is held in memory until the end\<close>
  "sweep_one main k acc =
     (let (held, s) = acc
      in case tsa_of k s of
           None \<Rightarrow> acc
         | Some t \<Rightarrow>
             let x = ts_balance t; target = (case ts_parent t of Some p \<Rightarrow> p | None \<Rightarrow> main)
             in if x = 0 then acc
                else if target = main then (held + x, set_balance k 0 s)
                else (case tsa_of target s of
                        None \<Rightarrow> acc
                      | Some p \<Rightarrow> (held, set_balance k 0 (set_balance target (ts_balance p + x) s))))"

definition execute_daily_sweep :: "'z treasury_state_scheme \<Rightarrow> 'z treasury_state_scheme" where
  "execute_daily_sweep s =
     (case main_tsa s of
        None \<Rightarrow> s
      | Some m \<Rightarrow>
          let swept = sweep_order (filter (\<lambda>t. ts_type t \<in> {''ZERO_BALANCE'', ''SUB_ACCOUNT'', ''REVENUE''} \<and> ts_active t
                                              \<and> ts_balance t \<noteq> 0) (tsas s));
              (held, s') = fold (sweep_one (ts_id m)) (map ts_id swept) (ts_balance m, s)
          in set_balance (ts_id m) held s')"

section \<open>Marking as reconciled\<close>

definition unreconciled_total :: "nat \<Rightarrow> 'z treasury_state_scheme \<Rightarrow> rat" where
  "unreconciled_total k s =
     sum_list (map pi_amount (filter (\<lambda>p. pi_tsa p = k \<and> pi_status p = ''PROCESSED'' \<and> pi_bank_reference p = [])
       (instructions s)))"

definition reconcile_item :: "nat \<Rightarrow> string \<Rightarrow> 'z treasury_state_scheme \<Rightarrow> err + 'z treasury_state_scheme" where
  "reconcile_item i ref s =
     (case find_row pi_id i (instructions s) of
        None \<Rightarrow> Inl DoesNotExist
      | Some p \<Rightarrow> Inr (s\<lparr>instructions := put_row pi_id (p\<lparr>pi_bank_reference := ref\<rparr>) (instructions s)\<rparr>))"

definition mark_account_reconciled :: "nat \<Rightarrow> 'z treasury_state_scheme \<Rightarrow> err + 'z treasury_state_scheme" where
  "mark_account_reconciled k s =
     (case tsa_of k s of
        None \<Rightarrow> Inl DoesNotExist
      | Some t \<Rightarrow> Inr (s\<lparr>tsas := put_row ts_id (t\<lparr>ts_last_reconciled := Some (today s)\<rparr>) (tsas s)\<rparr>))"

section \<open>The ledger's cash and the balance column\<close>

lemma sum_over_keys:
  fixes K :: "gl_key set"
  assumes "finite K"
  shows "(\<Sum>k\<in>K. sum_list (map (\<lambda>x. if key x = k then v x else (0 :: rat)) xs)) = sum_list (map (\<lambda>x. if key x \<in> K then v x else 0) xs)"
  using assms by (induction xs) (simp_all add: sum.distrib)

lemma account_net_keys:
  assumes "finite K" and "\<And>k. k \<in> K \<Longrightarrow> gk_account k = a" and "\<And>k. k \<in> fst ` set rows \<Longrightarrow> gk_account k = a \<Longrightarrow> k \<in> K"
  shows "account_net a rows = (\<Sum>k\<in>K. gl_debit k rows - gl_credit k rows)"
proof -
  have "(\<Sum>k\<in>K. gl_debit k rows - gl_credit k rows)
      = (\<Sum>k\<in>K. sum_list (map (\<lambda>r. if fst r = k then fst (snd r) - snd (snd r) else 0) rows))"
    by (intro sum.cong refl) (induction rows; auto simp: gl_debit_def gl_credit_def split: prod.splits)
  also have "\<dots> = sum_list (map (\<lambda>r. if fst r \<in> K then fst (snd r) - snd (snd r) else 0) rows)"
    by (rule sum_over_keys [OF assms(1)])
  also have "\<dots> = account_net a rows"
    unfolding account_net_def using assms(2,3)
    by (intro arg_cong [where f = sum_list] map_cong refl) (fastforce split: prod.splits)
  finally show ?thesis by simp
qed

lemma lines_net_keys:
  assumes "finite K" and "\<And>k. k \<in> K \<Longrightarrow> gk_account k = a" and "\<And>l. l \<in> set (j_lines j) \<Longrightarrow> l_account l = a \<Longrightarrow> line_key j l \<in> K"
  shows "lines_net a (j_lines j) = (\<Sum>k\<in>K. journal_debit k j - journal_credit k j)"
proof -
  have "(\<Sum>k\<in>K. journal_debit k j - journal_credit k j)
      = (\<Sum>k\<in>K. sum_list (map (\<lambda>l. if line_key j l = k then l_debit l - l_credit l else 0) (j_lines j)))"
    unfolding journal_debit_def journal_credit_def
    by (intro sum.cong refl) (simp flip: sum_list_subtractf add: if_distrib cong: if_cong)
  also have "\<dots> = sum_list (map (\<lambda>l. if line_key j l \<in> K then l_debit l - l_credit l else 0) (j_lines j))"
    by (rule sum_over_keys [OF assms(1)])
  also have "\<dots> = lines_net a (j_lines j)"
    unfolding lines_net_def using assms(2,3)
    by (intro arg_cong [where f = sum_list] map_cong refl) (fastforce simp: line_key_def)
  finally show ?thesis by simp
qed

lemma posted_net_keys:
  assumes "finite K" and "\<And>k. k \<in> K \<Longrightarrow> gk_account k = a"
    and "\<And>j l. j \<in> set js \<Longrightarrow> l \<in> set (j_lines j) \<Longrightarrow> l_account l = a \<Longrightarrow> line_key j l \<in> K"
  shows "posted_net a js = (\<Sum>k\<in>K. posted_debit k js - posted_credit k js)"
  using assms(3)
proof (induction js)
  case (Cons j js)
  have "posted_net a js = (\<Sum>k\<in>K. posted_debit k js - posted_credit k js)" using Cons by simp
  moreover have "lines_net a (j_lines j) = (\<Sum>k\<in>K. journal_debit k j - journal_credit k j)"
    using Cons.prems by (intro lines_net_keys assms(1,2)) auto
  ultimately show ?case
    by (auto simp: posted_net_def posted_debit_def posted_credit_def sum.distrib sum_subtractf)
qed (simp add: posted_net_def posted_debit_def posted_credit_def)

lemma posted_net_ledger:
  assumes "ledger_ok s"
  shows "posted_net a (journals s) = account_net a (gl_balances s)"
proof -
  let ?K = "{k \<in> fst ` set (gl_balances s) \<union> (\<Union>j \<in> set (journals s). line_key j ` set (j_lines j)). gk_account k = a}"
  have f: "finite ?K" by simp
  have "account_net a (gl_balances s) = (\<Sum>k\<in>?K. gl_debit k (gl_balances s) - gl_credit k (gl_balances s))"
    by (rule account_net_keys [OF f]) auto
  moreover have "posted_net a (journals s) = (\<Sum>k\<in>?K. posted_debit k (journals s) - posted_credit k (journals s))"
    by (rule posted_net_keys [OF f]) (auto simp: line_key_def)
  ultimately show ?thesis by (simp add: ledger_okD(5,6) [OF assms])
qed

lemma lines_net_money: "lines_ok j \<Longrightarrow> is_money (lines_net a (j_lines j))"
  unfolding lines_net_def lines_ok_def by (auto intro!: is_money_sum_list is_money_diff)

lemma account_net_money:
  assumes "ledger_ok s"
  shows "is_money (account_net a (gl_balances s))"
  unfolding posted_net_ledger [OF assms, symmetric] posted_net_def
  using ledger_okD(3) [OF assms] by (auto intro!: is_money_sum_list lines_net_money)

section \<open>The balance column agrees with the ledger\<close>

definition cash_accounts :: "'z treasury_state_scheme \<Rightarrow> nat set" where
  "cash_accounts s = set (List.map_filter ts_gl (tsas s))"

lemma in_cash_accounts: "a \<in> cash_accounts s \<longleftrightarrow> (\<exists>t \<in> set (tsas s). ts_gl t = Some a)"
  by (force simp: cash_accounts_def map_filter_def)

definition treasury_ok :: "'z treasury_state_scheme \<Rightarrow> bool" where
  \<comment> \<open>every treasury account has a cash account of its own, and its balance is that account's net\<close>
  "treasury_ok s \<longleftrightarrow> ledger_ok s \<and> distinct (map ts_id (tsas s))
     \<and> (\<forall>t \<in> set (tsas s). \<forall>u \<in> set (tsas s). ts_gl t = ts_gl u \<and> ts_gl t \<noteq> None \<longrightarrow> t = u)
     \<and> (\<forall>t \<in> set (tsas s). \<forall>a. ts_gl t = Some a \<longrightarrow> ts_balance t = account_net a (gl_balances s))"

lemma treasury_okD:
  assumes "treasury_ok s"
  shows "ledger_ok s" "distinct (map ts_id (tsas s))"
    "t \<in> set (tsas s) \<Longrightarrow> u \<in> set (tsas s) \<Longrightarrow> ts_gl t = ts_gl u \<Longrightarrow> ts_gl t \<noteq> None \<Longrightarrow> t = u"
    "t \<in> set (tsas s) \<Longrightarrow> ts_gl t = Some a \<Longrightarrow> ts_balance t = account_net a (gl_balances s)"
    "t \<in> set (tsas s) \<Longrightarrow> ts_gl t = Some a \<Longrightarrow> is_money (ts_balance t)"
  using assms account_net_money [of s] unfolding treasury_ok_def by metis+

lemma tsa_of_in: "tsa_of k s = Some t \<Longrightarrow> t \<in> set (tsas s) \<and> ts_id t = k"
  unfolding tsa_of_def using find_row_SomeD by metis

lemma treasury_okI:
  \<comment> \<open>a posting and a change of the balances that follows its lines\<close>
  assumes "treasury_ok s" and "appended j (s\<lparr>sequences := sq\<rparr>) s2"
    and s3: "s3 = s2\<lparr>tsas := map f (tsas s2)\<rparr>"
    and f: "\<And>t. t \<in> set (tsas s) \<Longrightarrow> ts_id (f t) = ts_id t \<and> ts_gl (f t) = ts_gl t"
    and b: "\<And>t a. t \<in> set (tsas s) \<Longrightarrow> ts_gl t = Some a \<Longrightarrow> ts_balance (f t) = ts_balance t + lines_net a (j_lines j)"
  shows "treasury_ok s3"
proof -
  note ok = treasury_okD [OF assms(1)]
  have "ledger_ok (s\<lparr>sequences := sq\<rparr>)" using ok(1) by (simp add: ledger_ok_def)
  from appended_ledger_ok [OF this assms(2)] have l2: "ledger_ok s2" .
  have ts: "tsas s2 = tsas s" using appendedD(10) [OF assms(2)] by auto
  have net: "account_net a (gl_balances s2) = account_net a (gl_balances s) + lines_net a (j_lines j)" for a
    using appended_account_net [OF assms(2)] by simp
  have "map ts_id (map f (tsas s)) = map ts_id (tsas s)" using f by simp
  then have "distinct (map ts_id (map f (tsas s)))" using ok(2) by metis
  then show ?thesis
    unfolding treasury_ok_def using l2 f b ok(3,4) net
    by (auto simp: s3 ts ledger_ok_def dest: ok(3))
qed

lemma post_new_appended:
  assumes "post_new_journal h ls u s1 = Inr (i, s2)" and "ledger_ok s" and "s1 = s\<lparr>sequences := sq\<rparr>"
  obtains j where "i = j_id j" "appended j (s\<lparr>sequences := sq\<rparr>) s2" "j_lines j = map round_line ls"
proof -
  have "keys_ok s1" using ledger_okD(1) [OF assms(2)] by (simp add: assms(3) keys_ok_def)
  with assms(1) obtain j where "i = j_id j" "posted_new h ls u j s1 s2" by (rule post_new_journalD)
  then show ?thesis using that appended_posted_new unfolding posted_new_def assms(3) by blast
qed

lemma sequence_next_fst:
  assumes "sequence_next n p s = (ref, s1)"
  obtains sq where "s1 = s\<lparr>sequences := sq\<rparr>"
  using assms by (auto simp: sequence_next_def Let_def split: prod.splits)

lemma entries_net2 [simp]:
  "lines_net c (map round_line [debit_entry a x, credit_entry b x])
     = (if a = c then db_decimal x else 0) - (if b = c then db_decimal x else 0)"
  by (simp add: lines_net_def debit_entry_def credit_entry_def round_line_def)

lemma moved_money: "is_money b \<Longrightarrow> is_money x \<Longrightarrow> db_decimal (b + x) = b + x"
  using is_money_diff [of b "- x"] is_money_diff [of 0 x] by simp

lemma process_transfer_keeps:
  assumes "process_transfer src tgt x u d s = Inr (i, s')" and "treasury_ok s" and "is_money x"
  shows "treasury_ok s'"
proof -
  obtain a b cin cout ref s1 s2 where ab: "tsa_of (ts_id src) s = Some a" "tsa_of (ts_id tgt) s = Some b"
    and ne: "ts_id src \<noteq> ts_id tgt" and gl: "ts_gl b = Some cin" "ts_gl a = Some cout"
    and sq: "sequence_next ''tsa_transfer'' ''TT-'' s = (ref, s1)"
    and p: "post_new_journal (treasury_header (case d of Some x \<Rightarrow> x | None \<Rightarrow> today s) ref ''treasury'' a u s)
              [debit_entry cin x, credit_entry cout x] u s1 = Inr (i, s2)"
    and s': "s' = move_balance (ts_id b) x (move_balance (ts_id a) (- x) s2)"
    using assms(1) by (auto simp: process_transfer_def Let_def rbind_eq_Inr split: if_splits option.splits prod.splits)
  obtain q where q: "s1 = s\<lparr>sequences := q\<rparr>" using sequence_next_fst [OF sq] .
  obtain j where j: "appended j (s\<lparr>sequences := q\<rparr>) s2" "j_lines j = map round_line [debit_entry cin x, credit_entry cout x]"
    using post_new_appended [OF p treasury_okD(1) [OF assms(2)] q] by metis
  note in_ab = tsa_of_in [OF ab(1)] tsa_of_in [OF ab(2)]
  have ne': "cin \<noteq> cout" using treasury_okD(3) [OF assms(2), of a b] in_ab gl ne by auto
  define f where "f t = (if ts_id t = ts_id b then t\<lparr>ts_balance := db_decimal (ts_balance t + x)\<rparr>
     else if ts_id t = ts_id a then t\<lparr>ts_balance := db_decimal (ts_balance t + - x)\<rparr> else t)" for t :: tsa
  have eq: "s' = s2\<lparr>tsas := map f (tsas s2)\<rparr>"
    using ne in_ab by (auto simp: s' move_balance_def upd_row_def f_def)
  have inj: "t \<in> set (tsas s) \<Longrightarrow> v \<in> set (tsas s) \<Longrightarrow> ts_id t = ts_id v \<Longrightarrow> t = v" for t v
    using treasury_okD(2) [OF assms(2)] by (auto simp: distinct_map inj_on_def)
  show ?thesis
  proof (rule treasury_okI [OF assms(2) j(1) eq])
    fix t assume "t \<in> set (tsas s)"
    then show "ts_id (f t) = ts_id t \<and> ts_gl (f t) = ts_gl t" by (simp add: f_def)
  next
    fix t c assume t: "t \<in> set (tsas s)" "ts_gl t = Some c"
    have m: "is_money (ts_balance t)" by (rule treasury_okD(5) [OF assms(2) t])
    have net: "lines_net c (j_lines j) = (if c = cin then x else 0) - (if c = cout then x else 0)"
      using assms(3) by (simp only: j(2) entries_net2) simp
    have mv: "db_decimal (ts_balance t + x) = ts_balance t + x" "db_decimal (ts_balance t + - x) = ts_balance t + - x"
      using moved_money [OF m assms(3)] moved_money [OF m, of "- x"] assms(3) is_money_diff [of 0 x] by simp_all
    consider "t = a" | "t = b" | "t \<noteq> a" "t \<noteq> b" by blast
    then show "ts_balance (f t) = ts_balance t + lines_net c (j_lines j)"
    proof cases
      case 1
      then have "c = cout" "ts_id t = ts_id a" "ts_id t \<noteq> ts_id b" using t(2) gl ne in_ab by auto
      then show ?thesis using net ne' mv(2) by (simp add: f_def)
    next
      case 2
      then have "c = cin" "ts_id t = ts_id b" using t(2) gl by auto
      then show ?thesis using net ne' mv(1) by (simp add: f_def)
    next
      case 3
      have "ts_id t \<noteq> ts_id a" "ts_id t \<noteq> ts_id b" using 3 inj [OF t(1)] in_ab by blast+
      moreover have "c \<noteq> cin" "c \<noteq> cout"
        using 3 treasury_okD(3) [OF assms(2) t(1), of a] treasury_okD(3) [OF assms(2) t(1), of b] in_ab gl t(2) by (safe; simp)+
      ultimately show ?thesis using net by (simp add: f_def)
    qed
  qed
qed

lemma one_account_keeps:
  \<comment> \<open>a posting that touches one treasury account's cash and moves that account's balance\<close>
  assumes "treasury_ok s" and "appended j (s\<lparr>sequences := sq\<rparr>) s2" and "t0 \<in> set (tsas s)" and "ts_gl t0 = Some cash"
    and only: "\<And>a. a \<in> cash_accounts s \<Longrightarrow> lines_net a (j_lines j) = (if a = cash then x else 0)" and "is_money x"
    and s3: "s3 = s2\<lparr>tsas := upd_row ts_id (ts_id t0) (\<lambda>t. t\<lparr>ts_balance := db_decimal (ts_balance t + x)\<rparr>) (tsas s2)\<rparr>"
  shows "treasury_ok s3"
proof (rule treasury_okI [OF assms(1,2) s3 [unfolded upd_row_def]])
  fix t assume t: "t \<in> set (tsas s)"
  show "ts_id (if ts_id t = ts_id t0 then t\<lparr>ts_balance := db_decimal (ts_balance t + x)\<rparr> else t) = ts_id t
      \<and> ts_gl (if ts_id t = ts_id t0 then t\<lparr>ts_balance := db_decimal (ts_balance t + x)\<rparr> else t) = ts_gl t" by simp
  fix a assume a: "ts_gl t = Some a"
  have "a \<in> cash_accounts s" using t a by (auto simp: in_cash_accounts)
  then have l: "lines_net a (j_lines j) = (if a = cash then x else 0)" by (rule only)
  have mv: "db_decimal (ts_balance t + x) = ts_balance t + x"
    by (rule moved_money [OF treasury_okD(5) [OF assms(1) t a] assms(6)])
  have same: "ts_id t = ts_id t0 \<longleftrightarrow> a = cash"
    using t a assms(3,4) treasury_okD(2) [OF assms(1)] treasury_okD(3) [OF assms(1) t assms(3)]
    by (auto simp: distinct_map inj_on_def)
  show "ts_balance (if ts_id t = ts_id t0 then t\<lparr>ts_balance := db_decimal (ts_balance t + x)\<rparr> else t)
      = ts_balance t + lines_net a (j_lines j)"
    using l mv same by simp
qed

lemma record_cash_movement_keeps:
  assumes "record_cash_movement t dir x (Some contra) u d s = Inr (i, s')" and "treasury_ok s" and "is_money x"
    and "contra \<notin> cash_accounts s"
  shows "treasury_ok s'"
proof -
  define incoming where "incoming \<longleftrightarrow> map to_upper dir = ''IN''"
  obtain a cash ref s1 s2 ls where a: "tsa_of (ts_id t) s = Some a" "ts_gl a = Some cash"
    and sq: "sequence_next ''tsa_cashbook'' ''CB-'' s = (ref, s1)"
    and ls: "ls = (if incoming then [debit_entry cash x, credit_entry contra x] else [debit_entry contra x, credit_entry cash x])"
    and p: "post_new_journal (treasury_header (case d of Some x \<Rightarrow> x | None \<Rightarrow> today s) ref ''treasury_cashbook'' a u s) ls u s1 = Inr (i, s2)"
    and s': "s' = move_balance (ts_id a) (if incoming then x else - x) s2"
    using assms(1) by (auto simp: incoming_def record_cash_movement_def Let_def rbind_eq_Inr split: if_splits option.splits prod.splits)
  obtain q where q: "s1 = s\<lparr>sequences := q\<rparr>" using sequence_next_fst [OF sq] .
  obtain j where j: "appended j (s\<lparr>sequences := q\<rparr>) s2" "j_lines j = map round_line ls"
    using post_new_appended [OF p treasury_okD(1) [OF assms(2)] q] by metis
  have m: "is_money (- x)" using assms(3) is_money_diff [of 0 x] by simp
  show ?thesis
  proof (rule one_account_keeps [OF assms(2) j(1) _ a(2), where x = "if incoming then x else - x"])
    fix b assume "b \<in> cash_accounts s"
    then have "b \<noteq> contra" using assms(4) by auto
    then show "lines_net b (j_lines j) = (if b = cash then (if incoming then x else - x) else 0)"
      using assms(3) by (cases incoming) (simp_all only: j(2) ls if_True if_False entries_net2, auto)
  qed (use tsa_of_in [OF a(1)] s' m assms(3) in \<open>auto simp: move_balance_def\<close>)
qed

lemma post_revenue_keeps:
  assumes "post_revenue_collection_to_gl c u s = Inr (i, s')" and "treasury_ok s" and "is_money (rc_amount c)"
    and "rc_tsa c = Some k" and "tsa_of k s = Some t" and "ts_gl t = Some cash" and "account_of cash s = Some acct"
    and "rc_revenue_account c = Some revenue" and "revenue \<notin> cash_accounts s"
  shows "treasury_ok s'"
proof -
  let ?ls = "[(debit_entry cash (rc_amount c))\<lparr>l_ncoa := rc_ncoa c\<rparr>, credit_entry revenue (rc_amount c)]"
  have id: "ac_id acct = cash" using assms(7) find_row_SomeD unfolding account_of_def by metis
  obtain ref s1 where sq: "sequence_next ''journal'' ''JE-'' s = (ref, s1)" by fastforce
  obtain s2 where p: "post_new_journal (document_header (rc_date c) ref ''revenue'' (Some (rc_id c)) None) ?ls u s1 = Inr (i, s2)"
    and r: "process_revenue c s2 = Inr s'"
    using assms(1) by (auto simp: post_revenue_collection_to_gl_def sq resolve_tsa_cash_gl_def assms(4-8) id rbind_eq_Inr)
  obtain q where q: "s1 = s\<lparr>sequences := q\<rparr>" using sequence_next_fst [OF sq] .
  obtain j where j: "appended j (s\<lparr>sequences := q\<rparr>) s2" "j_lines j = map round_line ?ls"
    using post_new_appended [OF p treasury_okD(1) [OF assms(2)] q] by metis
  have ts: "tsas s2 = tsas s" using appendedD(10) [OF j(1)] by auto
  note t = tsa_of_in [OF assms(5)]
  have row: "tsa_of k s2 = Some t" using assms(5) by (simp add: tsa_of_def ts)
  have s': "s' = s2\<lparr>tsas := upd_row ts_id (ts_id t) (\<lambda>v. v\<lparr>ts_balance := db_decimal (ts_balance v + rc_amount c)\<rparr>) (tsas s2)\<rparr>"
  proof -
    have "v = t" if "v \<in> set (tsas s)" "ts_id v = ts_id t" for v
      using that t treasury_okD(2) [OF assms(2)] by (auto simp: distinct_map inj_on_def)
    then have "upd_row ts_id (ts_id t) (\<lambda>v. v\<lparr>ts_balance := db_decimal (ts_balance t + rc_amount c)\<rparr>) (tsas s)
        = upd_row ts_id (ts_id t) (\<lambda>v. v\<lparr>ts_balance := db_decimal (ts_balance v + rc_amount c)\<rparr>) (tsas s)"
      unfolding upd_row_def by (intro map_cong refl) auto
    then show ?thesis using r row by (simp add: process_revenue_def assms(4) set_balance_def ts)
  qed
  show ?thesis
  proof (rule one_account_keeps [OF assms(2) j(1) _ assms(6) _ assms(3) s'])
    fix b assume "b \<in> cash_accounts s"
    then have "b \<noteq> revenue" using assms(9) by auto
    then show "lines_net b (j_lines j) = (if b = cash then rc_amount c else 0)"
      unfolding j(2) using assms(3) by (simp add: lines_net_def debit_entry_def credit_entry_def round_line_def)
  qed (use t in blast)
qed

lemma reconcile_each_effect:
  assumes "\<forall>t \<in> set ts. \<forall>v \<in> set (tsas s). ts_id v = ts_id t \<longrightarrow> ts_gl v = ts_gl t"
  shows "reconcile_each ts s = s\<lparr>tsas := map (\<lambda>v. if ts_id v \<in> ts_id ` set ts
           then v\<lparr>ts_balance := db_decimal (gl_cash_balance v s)\<rparr> else v) (tsas s)\<rparr>"
  using assms
proof (induction ts arbitrary: s)
  case (Cons t ts)
  let ?s = "snd (reconcile_balance t s)"
  have sel: "journals ?s = journals s" "tsas ?s = upd_row ts_id (ts_id t) (\<lambda>v. v\<lparr>ts_balance := db_decimal (gl_cash_balance t s)\<rparr>) (tsas s)"
    by (simp_all add: reconcile_balance_def Let_def set_balance_def)
  have "\<forall>u \<in> set ts. \<forall>v \<in> set (tsas ?s). ts_id v = ts_id u \<longrightarrow> ts_gl v = ts_gl u"
    using Cons.prems by (fastforce simp: sel(2) upd_row_def)
  from Cons.IH [OF this] have "reconcile_each (t # ts) s = ?s\<lparr>tsas := map (\<lambda>v. if ts_id v \<in> ts_id ` set ts
           then v\<lparr>ts_balance := db_decimal (gl_cash_balance v ?s)\<rparr> else v) (tsas ?s)\<rparr>"
    by (simp add: reconcile_each_def)
  also have "map (\<lambda>v. if ts_id v \<in> ts_id ` set ts then v\<lparr>ts_balance := db_decimal (gl_cash_balance v ?s)\<rparr> else v) (tsas ?s)
      = map (\<lambda>v. if ts_id v \<in> ts_id ` set (t # ts) then v\<lparr>ts_balance := db_decimal (gl_cash_balance v s)\<rparr> else v) (tsas s)"
  proof -
    have "gl_cash_balance v ?s = gl_cash_balance v s" for v by (simp only: gl_cash_balance_def sel(1))
    moreover have "gl_cash_balance t s = gl_cash_balance v s" if "v \<in> set (tsas s)" "ts_id v = ts_id t" for v
      using Cons.prems that by (simp add: gl_cash_balance_def)
    moreover have "gl_cash_balance (v\<lparr>ts_balance := b\<rparr>) s = gl_cash_balance v s" for v b by (simp add: gl_cash_balance_def)
    ultimately show ?thesis unfolding sel(2) upd_row_def map_map by (intro map_cong refl) (simp add: comp_def)
  qed
  also have "?s\<lparr>tsas := map (\<lambda>v. if ts_id v \<in> ts_id ` set (t # ts) then v\<lparr>ts_balance := db_decimal (gl_cash_balance v s)\<rparr> else v) (tsas s)\<rparr>
      = s\<lparr>tsas := map (\<lambda>v. if ts_id v \<in> ts_id ` set (t # ts) then v\<lparr>ts_balance := db_decimal (gl_cash_balance v s)\<rparr> else v) (tsas s)\<rparr>"
    by (simp add: reconcile_balance_def Let_def set_balance_def)
  finally show ?case .
qed (simp add: reconcile_each_def)

lemma reconcile_each_some: "\<exists>rows. reconcile_each ts s = s\<lparr>tsas := rows\<rparr>"
proof (induction ts arbitrary: s)
  case Nil
  have "reconcile_each [] s = s\<lparr>tsas := tsas s\<rparr>" by (simp add: reconcile_each_def)
  then show ?case by blast
next
  case (Cons t ts)
  obtain rows where "reconcile_each ts (snd (reconcile_balance t s)) = (snd (reconcile_balance t s))\<lparr>tsas := rows\<rparr>"
    using Cons.IH by blast
  then have "reconcile_each (t # ts) s = s\<lparr>tsas := rows\<rparr>"
    by (simp add: reconcile_each_def reconcile_balance_def Let_def set_balance_def)
  then show ?case by blast
qed

lemma reconcile_each_ok:
  \<comment> \<open>reconciling repairs the accounts it visits and keeps the agreement of the others\<close>
  assumes "ledger_ok s" and "distinct (map ts_id (tsas s))" and "set ts \<subseteq> set (tsas s)"
    and "\<forall>t \<in> set (tsas s). \<forall>u \<in> set (tsas s). ts_gl t = ts_gl u \<and> ts_gl t \<noteq> None \<longrightarrow> t = u"
    and "\<forall>t \<in> set (tsas s) - set ts. \<forall>a. ts_gl t = Some a \<longrightarrow> ts_balance t = account_net a (gl_balances s)"
  shows "treasury_ok (reconcile_each ts s)"
proof -
  let ?f = "\<lambda>v. if ts_id v \<in> ts_id ` set ts then v\<lparr>ts_balance := db_decimal (gl_cash_balance v s)\<rparr> else v"
  have same: "ts_id v = ts_id t \<Longrightarrow> v = t" if "t \<in> set (tsas s)" "v \<in> set (tsas s)" for t v
    using assms(2) that by (auto simp: distinct_map inj_on_def)
  have "\<forall>t \<in> set ts. \<forall>v \<in> set (tsas s). ts_id v = ts_id t \<longrightarrow> ts_gl v = ts_gl t"
    using same assms(3) by (metis subsetD)
  from reconcile_each_effect [OF this] have eq: "reconcile_each ts s = s\<lparr>tsas := map ?f (tsas s)\<rparr>" .
  have id: "ts_id (?f v) = ts_id v" "ts_gl (?f v) = ts_gl v" for v by simp_all
  have "ts_balance (?f v) = account_net a (gl_balances s)" if v: "v \<in> set (tsas s)" "ts_gl v = Some a" for v a
  proof (cases "v \<in> set ts")
    case True
    then show ?thesis using posted_net_ledger [OF assms(1)] account_net_money [OF assms(1)] v(2)
      by (simp add: gl_cash_balance_def)
  next
    case False
    then have "ts_id v \<notin> ts_id ` set ts" using same v(1) assms(3) by blast
    then show ?thesis using assms(5) v False by simp
  qed
  moreover have "map ts_id (map ?f (tsas s)) = map ts_id (tsas s)" by (simp add: id)
  then have "distinct (map ts_id (map ?f (tsas s)))" using assms(2) by metis
  moreover have "\<forall>t \<in> set (map ?f (tsas s)). \<forall>u \<in> set (map ?f (tsas s)). ts_gl t = ts_gl u \<and> ts_gl t \<noteq> None \<longrightarrow> t = u"
    using assms(4) by (simp only: set_map ball_simps id) blast
  moreover have "\<forall>t \<in> set (map ?f (tsas s)). \<forall>a. ts_gl t = Some a \<longrightarrow> ts_balance t = account_net a (gl_balances s)"
    using calculation(1) id by fastforce
  moreover define r where "r = map ?f (tsas s)"
  ultimately show ?thesis
    using assms(1) unfolding eq r_def [symmetric] treasury_ok_def by (simp add: ledger_ok_def)
qed

lemma reconcile_all_repairs:
  assumes "ledger_ok s" and "distinct (map ts_id (tsas s))"
    and "\<forall>t \<in> set (tsas s). \<forall>u \<in> set (tsas s). ts_gl t = ts_gl u \<and> ts_gl t \<noteq> None \<longrightarrow> t = u"
  shows "treasury_ok (reconcile_all s)"
  unfolding reconcile_all_def by (rule reconcile_each_ok [OF assms(1,2) _ assms(3)]) auto

lemma reconcile_from_keeps:
  assumes "treasury_ok s"
  shows "treasury_ok (reconcile_from_gl_account a s)"
proof -
  note ok = assms [unfolded treasury_ok_def]
  show ?thesis
    unfolding reconcile_from_gl_account_def by (rule reconcile_each_ok) (use ok in auto)
qed

section \<open>What the sweep does\<close>

definition cash_total :: "'z treasury_state_scheme \<Rightarrow> rat" where
  "cash_total s = sum_list (map ts_balance (tsas s))"

definition tree_ok :: "'z treasury_state_scheme \<Rightarrow> bool" where
  \<comment> \<open>keys, amounts and foreign keys as the table holds them, and no account its own parent; the
      table does not exclude the last (\<open>self_parent_balance_lost\<close>)\<close>
  "tree_ok s \<longleftrightarrow> distinct (map ts_id (tsas s)) \<and> (\<forall>t \<in> set (tsas s). is_money (ts_balance t))
     \<and> (\<forall>t \<in> set (tsas s). \<forall>p. ts_parent t = Some p \<longrightarrow> p \<noteq> ts_id t \<and> p \<in> ts_id ` set (tsas s))"

definition unheld :: "nat \<Rightarrow> 'z treasury_state_scheme \<Rightarrow> rat" where
  \<comment> \<open>the balances outside account \<open>m\<close>\<close>
  "unheld m s = sum_list (map (\<lambda>t. if ts_id t = m then 0 else ts_balance t) (tsas s))"

lemma set_balance_sel [simp]:
  "journals (set_balance k x s) = journals s" "gl_balances (set_balance k x s) = gl_balances s"
  "ts_id ` set (tsas (set_balance k x s)) = ts_id ` set (tsas s)"
  "map ts_id (tsas (set_balance k x s)) = map ts_id (tsas s)"
  by (simp_all add: set_balance_def map_upd_row image_upd_row)

lemma tree_ok_set_balance:
  assumes "tree_ok s"
  shows "tree_ok (set_balance k x s)"
proof -
  have "t \<in> set (tsas (set_balance k x s)) \<Longrightarrow> \<exists>u \<in> set (tsas s). ts_id t = ts_id u \<and> ts_parent t = ts_parent u
      \<and> (ts_balance t = ts_balance u \<or> ts_balance t = db_decimal x)" for t
    by (auto simp: set_balance_def upd_row_def)
  then show ?thesis using assms unfolding tree_ok_def by (metis is_money_db_decimal set_balance_sel(3,4))
qed

lemma tsa_of_set_balance: "tsa_of i (set_balance k x s)
    = (if i = k then map_option (\<lambda>t. t\<lparr>ts_balance := db_decimal x\<rparr>) (tsa_of i s) else tsa_of i s)"
  by (simp add: tsa_of_def set_balance_def find_row_upd_row)

lemma set_balance_sum:
  assumes "tsa_of k s = Some t" and "tree_ok s" and "is_money x"
  shows "unheld m (set_balance k x s) = unheld m s + (if k = m then 0 else x - ts_balance t)"
    "cash_total (set_balance k x s) = cash_total s - ts_balance t + x"
proof -
  have d: "distinct (map ts_id (tsas s))" using assms(2) by (simp add: tree_ok_def)
  have r: "find_row ts_id k (tsas s) = Some t" "ts_id t = k" using assms(1) tsa_of_in [OF assms(1)] by (simp_all add: tsa_of_def)
  show "unheld m (set_balance k x s) = unheld m s + (if k = m then 0 else x - ts_balance t)"
    using sum_upd_row [OF r(1) d, where f = "\<lambda>t. t\<lparr>ts_balance := db_decimal x\<rparr>" and g = "\<lambda>t. if ts_id t = m then 0 else ts_balance t"] r(2) assms(3)
    by (simp add: unheld_def set_balance_def)
  show "cash_total (set_balance k x s) = cash_total s - ts_balance t + x"
    using sum_upd_row [OF r(1) d, where f = "\<lambda>t. t\<lparr>ts_balance := db_decimal x\<rparr>" and g = ts_balance] r(2) assms(3)
    by (simp add: cash_total_def set_balance_def)
qed

lemma sweep_one_effect:
  assumes "sweep_one m k (held, s) = (held', s')" and "tree_ok s" and "is_money held" and "k \<noteq> m"
  shows "held' + unheld m s' = held + unheld m s \<and> tree_ok s' \<and> is_money held'
    \<and> ts_id ` set (tsas s') = ts_id ` set (tsas s) \<and> journals s' = journals s \<and> gl_balances s' = gl_balances s"
proof (cases "tsa_of k s")
  case None
  then show ?thesis using assms by (simp add: sweep_one_def)
next
  case (Some t)
  note t = tsa_of_in [OF Some]
  have m: "is_money (ts_balance t)" and fk: "\<And>p. ts_parent t = Some p \<Longrightarrow> p \<noteq> k \<and> p \<in> ts_id ` set (tsas s)"
    using assms(2) t unfolding tree_ok_def by auto
  define target where "target = (case ts_parent t of Some p \<Rightarrow> p | None \<Rightarrow> m)"
  consider "ts_balance t = 0" | "ts_balance t \<noteq> 0" "target = m" | "ts_balance t \<noteq> 0" "target \<noteq> m" by blast
  then show ?thesis
  proof cases
    case 1
    then show ?thesis using assms Some by (simp add: sweep_one_def Let_def)
  next
    case 2
    then have e: "held' = held + ts_balance t" "s' = set_balance k 0 s"
      using assms(1) Some by (simp_all add: sweep_one_def Let_def target_def)
    show ?thesis
      using set_balance_sum(1) [OF Some assms(2), of 0 m] tree_ok_set_balance [OF assms(2)] assms(3,4) m is_money_diff [of held "- ts_balance t"] is_money_diff [of 0 "ts_balance t"]
      by (simp add: e)
  next
    case 3
    then have tk: "target \<noteq> k" "target \<in> ts_id ` set (tsas s)" using fk by (auto simp: target_def split: option.splits)
    have d: "distinct (map ts_id (tsas s))" using assms(2) by (simp add: tree_ok_def)
    obtain p where p: "tsa_of target s = Some p"
      using tk(2) find_row_distinct [OF d] by (auto simp: tsa_of_def)
    have e: "held' = held" "s' = set_balance k 0 (set_balance target (ts_balance p + ts_balance t) s)"
      using assms(1) Some 3 p by (simp_all add: sweep_one_def Let_def target_def [symmetric])
    let ?s1 = "set_balance target (ts_balance p + ts_balance t) s"
    have ok1: "tree_ok ?s1" by (rule tree_ok_set_balance [OF assms(2)])
    have "is_money (ts_balance p)" using tsa_of_in [OF p] assms(2) by (auto simp: tree_ok_def)
    then have mp: "is_money (ts_balance p + ts_balance t)" using m is_money_diff [of "ts_balance p" "- ts_balance t"] is_money_diff [of 0 "ts_balance t"] by simp
    have k1: "tsa_of k ?s1 = Some t" using tk(1) Some by (simp add: tsa_of_set_balance)
    have "unheld m s' = unheld m s"
      using set_balance_sum(1) [OF p assms(2) mp, of m] set_balance_sum(1) [OF k1 ok1, of 0 m] 3(2) assms(4) by (simp add: e)
    then show ?thesis using assms(3) tree_ok_set_balance [OF ok1] by (simp add: e)
  qed
qed

lemma sweep_all_effect:
  assumes "fold (sweep_one m) ks (held, s) = (held', s')" and "tree_ok s" and "is_money held" and "m \<notin> set ks"
  shows "held' + unheld m s' = held + unheld m s \<and> tree_ok s' \<and> is_money held'
    \<and> ts_id ` set (tsas s') = ts_id ` set (tsas s) \<and> journals s' = journals s \<and> gl_balances s' = gl_balances s"
  using assms
proof (induction ks arbitrary: held s)
  case (Cons k ks)
  obtain h1 s1 where 1: "sweep_one m k (held, s) = (h1, s1)" by fastforce
  have e: "h1 + unheld m s1 = held + unheld m s \<and> tree_ok s1 \<and> is_money h1
    \<and> ts_id ` set (tsas s1) = ts_id ` set (tsas s) \<and> journals s1 = journals s \<and> gl_balances s1 = gl_balances s"
    using sweep_one_effect [OF 1 Cons.prems(2,3)] Cons.prems(4) by auto
  show ?case using Cons.IH [of h1 s1] Cons.prems(1,4) e 1 by simp
qed simp

text \<open>
  C34: the daily sweep creates and loses no money when no treasury account is its own parent: with
  distinct keys, balances in kobo and parents that exist, as the table has them, the sum of all
  balances is what it was, whatever else the parents form, and the sweep posts nothing, so the
  ledger does not change.
\<close>

theorem sweep_conserves_cash:
  assumes "tree_ok s"
  shows "cash_total (execute_daily_sweep s) = cash_total s
    \<and> journals (execute_daily_sweep s) = journals s \<and> gl_balances (execute_daily_sweep s) = gl_balances s"
proof (cases "main_tsa s")
  case None
  then show ?thesis by (simp add: execute_daily_sweep_def)
next
  case (Some m)
  have in_sweep: "t \<in> set ts" if "sweep_order ts = t # rest" for t ts rest
  proof -
    have "t \<in> set (sweep_order ts)" using that by simp
    then show ?thesis by (simp add: sweep_order_def)
  qed
  have m: "m \<in> set (tsas s)" "ts_type m = ''MAIN_TSA''"
    using Some in_sweep by (auto simp: main_tsa_def split: list.splits dest: in_sweep)
  have d: "distinct (map ts_id (tsas s))" using assms by (simp add: tree_ok_def)
  define ks where "ks = map ts_id (sweep_order (filter (\<lambda>t. ts_type t \<in> {''ZERO_BALANCE'', ''SUB_ACCOUNT'', ''REVENUE''} \<and> ts_active t
                                              \<and> ts_balance t \<noteq> 0) (tsas s)))"
  obtain h s1 where f: "fold (sweep_one (ts_id m)) ks (ts_balance m, s) = (h, s1)" by fastforce
  have nin: "ts_id m \<notin> set ks"
  proof
    assume "ts_id m \<in> set ks"
    then obtain t where "t \<in> set (tsas s)" "ts_id t = ts_id m" "ts_type t \<in> {''ZERO_BALANCE'', ''SUB_ACCOUNT'', ''REVENUE''}"
      by (auto simp: ks_def sweep_order_def)
    then have "t = m" using d m(1) by (auto simp: distinct_map inj_on_def)
    then show False using m(2) \<open>ts_type t \<in> _\<close> by auto
  qed
  have mm: "is_money (ts_balance m)" using assms m(1) by (simp add: tree_ok_def)
  note e = sweep_all_effect [OF f assms mm nin]
  have row: "tsa_of (ts_id m) s = Some m" using find_row_distinct [OF d m(1)] by (simp add: tsa_of_def)
  have d1: "distinct (map ts_id (tsas s1))" using e by (simp add: tree_ok_def)
  have "ts_id m \<in> ts_id ` set (tsas s1)" using e m(1) by simp
  then obtain m1 where m1: "tsa_of (ts_id m) s1 = Some m1" using find_row_distinct [OF d1] by (auto simp: tsa_of_def)
  have split: "cash_total v = unheld k v + ts_balance t" if "tsa_of k v = Some t" "tree_ok v" for k v t
  proof -
    have "cash_total (set_balance k 0 v) = unheld k (set_balance k 0 v)"
      by (simp add: cash_total_def unheld_def set_balance_def upd_row_def comp_def if_distrib cong: if_cong)
    then show ?thesis using set_balance_sum(1) [OF that, of 0 k] set_balance_sum(2) [OF that, of 0] by simp
  qed
  have "execute_daily_sweep s = set_balance (ts_id m) h s1"
    using f by (simp add: execute_daily_sweep_def Some Let_def ks_def)
  moreover have "cash_total (set_balance (ts_id m) h s1) = cash_total s1 - ts_balance m1 + h"
    using set_balance_sum(2) [OF m1, of h] e by simp
  ultimately show ?thesis using split [OF m1] split [OF row assms] e by simp
qed

definition demo_tsa :: "nat \<Rightarrow> string \<Rightarrow> nat option \<Rightarrow> nat \<Rightarrow> rat \<Rightarrow> tsa" where
  "demo_tsa i ty parent gl x = \<lparr>ts_id = i, ts_number = show_nat i, ts_type = ty, ts_segment = None, ts_fund_segment = None,
     ts_parent = parent, ts_gl = Some gl, ts_active = True, ts_balance = x, ts_last_reconciled = None\<rparr>"

definition demo_tree :: treasury_state where
  \<comment> \<open>the main account, a sub-account below it and a zero-balance account below that\<close>
  "demo_tree = budget_state.extend demo_ledger
     \<lparr>tsas = [demo_tsa 1 ''MAIN_TSA'' None 11 50, demo_tsa 2 ''SUB_ACCOUNT'' (Some 1) 12 30, demo_tsa 3 ''ZERO_BALANCE'' (Some 2) 13 20],
      instructions = [], default_cash_code = None\<rparr>"

theorem sweep_conserves_cash_witness:
  "cash_total (execute_daily_sweep demo_tree) = 100 \<and> map ts_balance (tsas (execute_daily_sweep demo_tree)) = [80, 20, 0]"
proof -
  have "tree_ok demo_tree"
    by (simp add: tree_ok_def demo_tree_def demo_tsa_def budget_state.defs is_money_def)
  moreover have "cash_total demo_tree = 100" "map ts_balance (tsas (execute_daily_sweep demo_tree)) = [80, 20, 0]" by code_simp+
  ultimately show ?thesis using sweep_conserves_cash [of demo_tree] by simp
qed

text \<open>
  Nothing keeps an account from being entered as its own parent.  The sweep then adds its balance to
  a second instance of the same row and afterwards writes zero from the first: the amount is gone.
\<close>

theorem self_parent_balance_lost:
  assumes "tsa_of k s = Some t" and "ts_parent t = Some k" and "ts_balance t \<noteq> 0" and "k \<noteq> m"
    and "distinct (map ts_id (tsas s))"
  shows "sweep_one m k (held, s) = (held, set_balance k 0 s)
    \<and> cash_total (set_balance k 0 s) = cash_total s - ts_balance t"
proof -
  have "set_balance k 0 (set_balance k x s) = set_balance k 0 s" for x
    by (simp add: set_balance_def upd_row_def comp_def if_distrib cong: if_cong)
  then have "sweep_one m k (held, s) = (held, set_balance k 0 s)"
    using assms(1-4) by (simp add: sweep_one_def Let_def)
  moreover have "find_row ts_id k (tsas s) = Some t" "ts_id t = k"
    using assms(1) tsa_of_in [OF assms(1)] by (simp_all add: tsa_of_def)
  then have "cash_total (set_balance k 0 s) = cash_total s - ts_balance t"
    using sum_upd_row [where key = ts_id and k = k and rows = "tsas s" and r = t
        and f = "\<lambda>t. t\<lparr>ts_balance := db_decimal 0\<rparr>" and g = ts_balance] assms(5)
    by (simp add: cash_total_def set_balance_def)
  ultimately show ?thesis by simp
qed

theorem self_parent_balance_lost_witness:
  "cash_total (execute_daily_sweep (demo_tree\<lparr>tsas := [demo_tsa 1 ''MAIN_TSA'' None 11 50, demo_tsa 3 ''ZERO_BALANCE'' (Some 3) 13 20]\<rparr>)) = 50
   \<and> cash_total (set_balance 3 0 (demo_tree\<lparr>tsas := [demo_tsa 1 ''MAIN_TSA'' None 11 50, demo_tsa 3 ''ZERO_BALANCE'' (Some 3) 13 20]\<rparr>)) = 50"
proof -
  let ?s = "demo_tree\<lparr>tsas := [demo_tsa 1 ''MAIN_TSA'' None 11 50, demo_tsa 3 ''ZERO_BALANCE'' (Some 3) 13 20]\<rparr>"
  have "tsa_of 3 ?s = Some (demo_tsa 3 ''ZERO_BALANCE'' (Some 3) 13 20)" "cash_total ?s = 70"
    "cash_total (execute_daily_sweep ?s) = 50" by code_simp+
  then show ?thesis
    using self_parent_balance_lost [of 3 ?s "demo_tsa 3 ''ZERO_BALANCE'' (Some 3) 13 20" 1]
    by (simp add: demo_tsa_def)
qed

end
