(* ===== verification/Advances.thy ===== *)
theory Advances
  imports Treasury
begin

text \<open>
  Vendor advances (\<^verbatim>\<open>accounting/services/vendor_advance.py\<close>, \<^verbatim>\<open>accounting/models/vendor_advance.py\<close>): an
  advance recorded in a special control account when it is paid and moved to the payable account,
  slice by slice, when it is recovered.  With the treasury operations they form one step relation,
  over which the treasury balances and the control account agree with the ledger.
\<close>

section \<open>Data\<close>

datatype advance_status = VA_OUTSTANDING | VA_PARTIAL | VA_CLEARED

record vendor_advance =
  vadv_id :: nat
  vadv_vendor :: nat
  vadv_recon :: nat
  vadv_source_type :: string
  vadv_source_id :: "nat option"
  vadv_reference :: string
  vadv_paid :: rat
  vadv_recovered :: rat
  vadv_status :: advance_status
  vadv_date :: date
  vadv_journal :: "nat option"

record advance_clearance =
  vc_advance :: nat
  vc_amount :: rat
  vc_date :: date
  vc_journal :: nat

record advance_state = treasury_state +
  payees :: "vendor_info list"
  vendor_advances :: "vendor_advance list"
  clearances :: "advance_clearance list"

definition advance_sources :: "string list" where
  "advance_sources = [''MOBILIZATION'', ''PO_DOWNPAYMENT'', ''AP_DOWNPAYMENT'', ''OTHER'']"

definition amount_outstanding :: "vendor_advance \<Rightarrow> rat" where
  "amount_outstanding a = vadv_paid a - vadv_recovered a"

definition recompute_status :: "vendor_advance \<Rightarrow> vendor_advance" where
  "recompute_status a = a\<lparr>vadv_status := (if vadv_recovered a \<le> 0 then VA_OUTSTANDING
     else if vadv_paid a \<le> vadv_recovered a then VA_CLEARED else VA_PARTIAL)\<rparr>"

definition advance_check :: "vendor_advance \<Rightarrow> bool" where
  \<comment> \<open>the three \<^verbatim>\<open>CheckConstraint\<close>s\<close>
  "advance_check a \<longleftrightarrow> 0 \<le> vadv_paid a \<and> 0 \<le> vadv_recovered a \<and> vadv_recovered a \<le> vadv_paid a"

section \<open>Disbursement\<close>

definition resolve_advance_account :: "'z advance_state_scheme \<Rightarrow> account option" where
  "resolve_advance_account s =
     (case qs_first ac_code (filter (\<lambda>a. ac_reconciliation_type a = ''vendor_advance'' \<and> ac_is_active a) (accounts s)) of
        Some a \<Rightarrow> Some a
      | None \<Rightarrow> get_gl_account ''VENDOR_ADVANCE'' (Some AT_Asset) (Some ''Advance'') s)"

definition resolve_cash_account :: "nat option \<Rightarrow> 'z advance_state_scheme \<Rightarrow> err + nat" where
  \<comment> \<open>the bank account's own GL account, else the treasury's\<close>
  "resolve_cash_account bank s =
     (case bank of Some a \<Rightarrow> Inr a | None \<Rightarrow> rbind (resolve_tsa_cash_gl None s) (\<lambda>a. Inr (ac_id a)))"

definition withheld_lines :: "(nat option \<times> rat) list \<Rightarrow> (nat \<times> rat) list" where
  "withheld_lines ds =
     List.map_filter (\<lambda>(a, x). if x \<le> 0 then None else map_option (\<lambda>k. (k, quantize_currency x)) a) ds"

definition withheld_total :: "(nat option \<times> rat) list \<Rightarrow> rat" where
  "withheld_total ds = sum_list (map snd (withheld_lines ds))"

definition disburse_lines :: "nat \<Rightarrow> nat \<Rightarrow> rat \<Rightarrow> (nat option \<times> rat) list \<Rightarrow> jline list" where
  "disburse_lines recon cash amount ds =
     debit_entry recon amount # map (\<lambda>(a, x). credit_entry a x) (withheld_lines ds)
     @ [credit_entry cash (quantize_currency (amount - withheld_total ds))]"

definition disburse ::
    "nat \<Rightarrow> rat \<Rightarrow> string \<Rightarrow> nat option \<Rightarrow> string \<Rightarrow> date \<Rightarrow> nat option \<Rightarrow> nat option \<Rightarrow> (nat option \<times> rat) list
     \<Rightarrow> 'z advance_state_scheme \<Rightarrow> err + (nat \<times> 'z advance_state_scheme)" where
  "disburse vendor amount0 source k ref d user bank ds s =
     (let amount = quantize_currency amount0
      in if amount \<le> 0 \<or> source \<notin> set advance_sources then Inl TransactionPostingError
         else (case resolve_advance_account s of
                 None \<Rightarrow> Inl TransactionPostingError
               | Some recon \<Rightarrow>
                   rbind (resolve_cash_account bank s)
                     (\<lambda>cash. if amount \<le> withheld_total ds
                             \<or> (k \<noteq> None \<and> (\<exists>a \<in> set (vendor_advances s). vadv_source_type a = source \<and> vadv_source_id a = k))
                        then Inl TransactionPostingError
                        else rbind (post_new_journal (document_header d ref ''vendor_advance'' k user)
                                      (disburse_lines (ac_id recon) cash amount ds) user s)
                               (\<lambda>(i, s1).
                                  let s2 = reconcile_from_gl_account cash s1;
                                      n = fresh_pk vadv_id (vendor_advances s2)
                                  in Inr (n, s2\<lparr>vendor_advances := vendor_advances s2 @
                                       [\<lparr>vadv_id = n, vadv_vendor = vendor, vadv_recon = ac_id recon, vadv_source_type = source,
                                         vadv_source_id = k, vadv_reference = ref, vadv_paid = quantize_currency amount,
                                         vadv_recovered = 0, vadv_status = VA_OUTSTANDING, vadv_date = d,
                                         vadv_journal = Some i\<rparr>]\<rparr>)))))"

section \<open>Open advances\<close>

definition open_advance :: "nat \<Rightarrow> vendor_advance \<Rightarrow> bool" where
  "open_advance vendor a \<longleftrightarrow> vadv_vendor a = vendor \<and> vadv_status a \<in> {VA_OUTSTANDING, VA_PARTIAL}"

definition outstanding_for_vendor :: "nat option \<Rightarrow> 'z advance_state_scheme \<Rightarrow> rat" where
  "outstanding_for_vendor vendor s =
     (case vendor of None \<Rightarrow> 0
      | Some v \<Rightarrow> sum_list (map amount_outstanding (filter (open_advance v) (vendor_advances s))))"

definition list_outstanding :: "nat option \<Rightarrow> 'z advance_state_scheme \<Rightarrow> vendor_advance list" where
  "list_outstanding vendor s =
     (case vendor of None \<Rightarrow> []
      | Some v \<Rightarrow> sort_key vadv_date (sort_key vadv_id (filter (open_advance v) (vendor_advances s))))"

section \<open>Clearance\<close>

definition clear_account :: "vendor_advance \<Rightarrow> nat option \<Rightarrow> 'z advance_state_scheme \<Rightarrow> err + nat" where
  "clear_account a target s =
     (case target of
        Some k \<Rightarrow> Inr k
      | None \<Rightarrow> rbind (get_vendor_ap_account (find_row ve_id (vadv_vendor a) (payees s)) s) (\<lambda>acct. Inr (ac_id acct)))"

definition clearance_reference :: "vendor_advance \<Rightarrow> 'z advance_state_scheme \<Rightarrow> string" where
  "clearance_reference a s =
     ''CLR-'' @ vadv_reference a @ ''-'' @ zpad 2 (length (filter (\<lambda>c. vc_advance c = vadv_id a) (clearances s)) + 1)"

definition clear ::
    "vendor_advance \<Rightarrow> rat \<Rightarrow> date \<Rightarrow> nat option \<Rightarrow> nat option \<Rightarrow> 'z advance_state_scheme \<Rightarrow> err + 'z advance_state_scheme" where
  \<comment> \<open>the guard reads the caller's instance, the counter the locked row\<close>
  "clear a amount d user target s =
     (if amount \<le> 0 \<or> amount_outstanding a < amount then Inl TransactionPostingError
      else rbind (clear_account a target s)
        (\<lambda>ap. rbind (post_new_journal (document_header d (clearance_reference a s) ''vendor_advance_clearance'' None user)
                       [debit_entry ap amount, credit_entry (vadv_recon a) amount] user s)
           (\<lambda>(i, s1).
              if quantize_currency amount \<le> 0 then Inl IntegrityError
              else let s2 = s1\<lparr>clearances := clearances s1 @
                         [\<lparr>vc_advance = vadv_id a, vc_amount = quantize_currency amount, vc_date = d, vc_journal = i\<rparr>]\<rparr>
                   in case find_row vadv_id (vadv_id a) (vendor_advances s2) of
                        None \<Rightarrow> Inl DoesNotExist
                      | Some r \<Rightarrow>
                          let r1 = recompute_status (r\<lparr>vadv_recovered := quantize_currency (vadv_recovered r + amount)\<rparr>)
                          in if advance_check r1 then Inr (s2\<lparr>vendor_advances := put_row vadv_id r1 (vendor_advances s2)\<rparr>)
                             else Inl IntegrityError)))"

section \<open>Effect on the books\<close>

definition outstanding_on :: "nat \<Rightarrow> 'z advance_state_scheme \<Rightarrow> rat" where
  \<comment> \<open>what the advances recorded in control account \<open>a\<close> still have outstanding\<close>
  "outstanding_on a s = sum_list (map (\<lambda>v. if vadv_recon v = a then amount_outstanding v else 0) (vendor_advances s))"

definition advances_ok :: "'z advance_state_scheme \<Rightarrow> bool" where
  "advances_ok s \<longleftrightarrow> ledger_ok s \<and> distinct (map vadv_id (vendor_advances s))
     \<and> (\<forall>v \<in> set (vendor_advances s). advance_check v \<and> is_money (vadv_paid v) \<and> is_money (vadv_recovered v) \<and> recompute_status v = v)"

lemma withheld_money: "is_money (withheld_total ds)" "(a, x) \<in> set (withheld_lines ds) \<Longrightarrow> is_money x"
proof -
  show m: "(a, x) \<in> set (withheld_lines ds) \<Longrightarrow> is_money x" for a x
    by (auto simp: withheld_lines_def map_filter_def split: if_splits)
  then show "is_money (withheld_total ds)" unfolding withheld_total_def by (auto intro!: is_money_sum_list)
qed

lemma disburse_lines_net:
  assumes "is_money amount" and "a \<noteq> cash" and "a \<notin> fst ` set (withheld_lines ds)"
  shows "lines_net a (map round_line (disburse_lines recon cash amount ds)) = (if a = recon then amount else 0)"
proof -
  have "lines_net a (map round_line (map (\<lambda>(a, x). credit_entry a x) ws)) = 0" if "a \<notin> fst ` set ws" for ws
    using that by (induction ws) (auto simp: lines_net_def credit_entry_def round_line_def)
  from this [OF assms(3)] show ?thesis
    using assms(1,2) by (simp add: disburse_lines_def lines_net_def debit_entry_def credit_entry_def round_line_def)
qed

lemma disburseD:
  assumes "disburse vendor x source k ref d u bank ds s = Inr (n, s')" and "ledger_ok s"
  obtains recon cash j s1 adv where "resolve_advance_account s = Some recon" "resolve_cash_account bank s = Inr cash"
    "appended j s s1" "j_lines j = map round_line (disburse_lines (ac_id recon) cash (quantize_currency x) ds)"
    "0 < quantize_currency x" "withheld_total ds < quantize_currency x"
    "s' = (reconcile_from_gl_account cash s1)\<lparr>vendor_advances := vendor_advances s1 @ [adv]\<rparr>"
    "vadv_id adv = fresh_pk vadv_id (vendor_advances s1)" "vadv_recon adv = ac_id recon" "vadv_paid adv = quantize_currency x"
    "vadv_recovered adv = 0" "vadv_status adv = VA_OUTSTANDING"
proof -
  obtain recon cash i s1 where r: "resolve_advance_account s = Some recon" "resolve_cash_account bank s = Inr cash"
    and pos: "0 < quantize_currency x" "withheld_total ds < quantize_currency x"
    and p: "post_new_journal (document_header d ref ''vendor_advance'' k u)
        (disburse_lines (ac_id recon) cash (quantize_currency x) ds) u s = Inr (i, s1)"
    and s': "s' = (reconcile_from_gl_account cash s1)\<lparr>vendor_advances := vendor_advances (reconcile_from_gl_account cash s1) @
       [\<lparr>vadv_id = fresh_pk vadv_id (vendor_advances (reconcile_from_gl_account cash s1)), vadv_vendor = vendor, vadv_recon = ac_id recon,
         vadv_source_type = source, vadv_source_id = k, vadv_reference = ref, vadv_paid = quantize_currency (quantize_currency x),
         vadv_recovered = 0, vadv_status = VA_OUTSTANDING, vadv_date = d, vadv_journal = Some i\<rparr>]\<rparr>"
    using assms(1) by (auto simp: disburse_def Let_def rbind_eq_Inr split: if_splits option.splits)
  obtain j where j: "appended j (s\<lparr>sequences := sequences s\<rparr>) s1"
    "j_lines j = map round_line (disburse_lines (ac_id recon) cash (quantize_currency x) ds)"
    using post_new_appended [OF p assms(2), of "sequences s"] by (metis ledger.surjective ledger.update_convs(7))
  obtain rows where "reconcile_from_gl_account cash s1 = s1\<lparr>tsas := rows\<rparr>"
    using reconcile_each_some unfolding reconcile_from_gl_account_def by blast
  then have v: "vendor_advances (reconcile_from_gl_account cash s1) = vendor_advances s1" by simp
  show ?thesis
    by (rule that [OF r _ j(2) pos s' [unfolded v]]) (use j(1) in \<open>simp_all add: is_money_quantize\<close>)
qed

lemma reconcile_from_sel:
  "ledger_ok (reconcile_from_gl_account a s) = ledger_ok s" "gl_balances (reconcile_from_gl_account a s) = gl_balances s"
  "vendor_advances (reconcile_from_gl_account a s) = vendor_advances s"
proof -
  obtain rows where "reconcile_from_gl_account a s = s\<lparr>tsas := rows\<rparr>"
    using reconcile_each_some unfolding reconcile_from_gl_account_def by blast
  then show "ledger_ok (reconcile_from_gl_account a s) = ledger_ok s" "gl_balances (reconcile_from_gl_account a s) = gl_balances s"
    "vendor_advances (reconcile_from_gl_account a s) = vendor_advances s" by (simp_all add: ledger_ok_def)
qed

lemma appended_advances: "appended j s s' \<Longrightarrow> vendor_advances s' = vendor_advances s \<and> tsas s' = tsas s"
  using appendedD(10) [of j s s'] by auto

lemma disburse_control:
  assumes "disburse vendor x source k ref d u bank ds s = Inr (n, s')" and "advances_ok s"
    and "resolve_cash_account bank s \<noteq> Inr a" and "a \<notin> fst ` set (withheld_lines ds)"
  shows "advances_ok s' \<and> account_net a (gl_balances s') - outstanding_on a s' = account_net a (gl_balances s) - outstanding_on a s"
proof -
  have l: "ledger_ok s" using assms(2) by (simp add: advances_ok_def)
  from assms(1) l obtain recon cash j s1 adv where
    "resolve_advance_account s = Some recon" and r: "resolve_cash_account bank s = Inr cash"
    and j: "appended j s s1" "j_lines j = map round_line (disburse_lines (ac_id recon) cash (quantize_currency x) ds)"
    and pos: "0 < quantize_currency x" "withheld_total ds < quantize_currency x"
    and s': "s' = (reconcile_from_gl_account cash s1)\<lparr>vendor_advances := vendor_advances s1 @ [adv]\<rparr>"
    and adv: "vadv_id adv = fresh_pk vadv_id (vendor_advances s1)" "vadv_recon adv = ac_id recon" "vadv_paid adv = quantize_currency x"
      "vadv_recovered adv = 0" "vadv_status adv = VA_OUTSTANDING"
    by (rule disburseD)
  have v: "vendor_advances s1 = vendor_advances s" using appended_advances [OF j(1)] by blast
  have "a \<noteq> cash" using assms(3) r by auto
  then have "lines_net a (j_lines j) = (if a = ac_id recon then quantize_currency x else 0)"
    using disburse_lines_net [OF _ _ assms(4)] by (simp add: j(2))
  then have net: "account_net a (gl_balances s') = account_net a (gl_balances s) + (if a = ac_id recon then quantize_currency x else 0)"
    using appended_account_net [OF j(1)] by (simp add: s' reconcile_from_sel)
  have "outstanding_on a s' = outstanding_on a s + (if a = ac_id recon then quantize_currency x else 0)"
    by (auto simp: outstanding_on_def s' v adv amount_outstanding_def)
  moreover have "advances_ok s'"
  proof -
    have "ledger_ok s1" by (rule appended_ledger_ok [OF l j(1)])
    then have "ledger_ok (reconcile_from_gl_account cash s1)" by (simp add: reconcile_from_sel)
    then have "ledger_ok s'" by (simp add: s' ledger_ok_def)
    moreover have "recompute_status adv = adv" using adv(4,5) by (simp add: recompute_status_def)
    ultimately show ?thesis using assms(2) adv pos by (auto simp: advances_ok_def s' v advance_check_def)
  qed
  ultimately show ?thesis using net by simp
qed

lemma quantize_add:
  assumes "is_money r"
  shows "0 \<le> r \<Longrightarrow> 0 \<le> x \<Longrightarrow> quantize_currency (r + x) = r + quantize_currency x"
proof -
  assume nonneg: "0 \<le> r" "0 \<le> x"
  obtain n where n: "r * 100 = of_int n" using assms by (auto simp: is_money_iff)
  have half: "0 \<le> y \<Longrightarrow> round_half_up y = \<lfloor>y + 1/2\<rfloor>" for y by (simp add: round_half_up_def)
  have "(0 :: rat) \<le> of_int n + x * 100" "(0 :: rat) \<le> x * 100" using nonneg n [symmetric] by simp_all
  then have "round_half_up (of_int n + x * 100) = n + round_half_up (x * 100)"
    using floor_add_int [of "x * 100 + 1/2" n] by (simp add: half ac_simps)
  then show ?thesis using n by (simp add: quantize_currency_def ring_distribs field_simps)
qed

lemma clear_control:
  assumes "clear v x d u target s = Inr s'" and "advances_ok s" and "clear_account v target s \<noteq> Inr a"
    and "find_row vadv_id (vadv_id v) (vendor_advances s) = Some r" and "vadv_recon r = vadv_recon v"
  shows "advances_ok s' \<and> account_net a (gl_balances s') - outstanding_on a s' = account_net a (gl_balances s) - outstanding_on a s"
proof -
  have l: "ledger_ok s" and dist: "distinct (map vadv_id (vendor_advances s))" using assms(2) by (simp_all add: advances_ok_def)
  obtain ap i s1 where ap: "clear_account v target s = Inr ap" and x: "0 < x" "x \<le> amount_outstanding v" "0 < quantize_currency x"
    and p: "post_new_journal (document_header d (clearance_reference v s) ''vendor_advance_clearance'' None u)
        [debit_entry ap x, credit_entry (vadv_recon v) x] u s = Inr (i, s1)"
    and rest: "(let s2 = s1\<lparr>clearances := clearances s1 @
                         [\<lparr>vc_advance = vadv_id v, vc_amount = quantize_currency x, vc_date = d, vc_journal = i\<rparr>]\<rparr>
                in case find_row vadv_id (vadv_id v) (vendor_advances s2) of
                     None \<Rightarrow> Inl DoesNotExist
                   | Some r \<Rightarrow>
                       let r1 = recompute_status (r\<lparr>vadv_recovered := quantize_currency (vadv_recovered r + x)\<rparr>)
                       in if advance_check r1 then Inr (s2\<lparr>vendor_advances := put_row vadv_id r1 (vendor_advances s2)\<rparr>)
                          else Inl IntegrityError) = Inr s'"
    using assms(1) by (auto simp: clear_def rbind_eq_Inr split: if_splits)
  obtain j where j: "appended j (s\<lparr>sequences := sequences s\<rparr>) s1" "j_lines j = map round_line [debit_entry ap x, credit_entry (vadv_recon v) x]"
    using post_new_appended [OF p l, of "sequences s"] by (metis ledger.surjective ledger.update_convs(7))
  have j1: "appended j s s1" using j(1) by simp
  have va: "vendor_advances s1 = vendor_advances s" using appended_advances [OF j1] by blast
  have r: "r \<in> set (vendor_advances s)" "vadv_id r = vadv_id v" using find_row_SomeD [OF assms(4)] by simp_all
  have rm: "is_money (vadv_recovered r)" "advance_check r" using r(1) assms(2) by (auto simp: advances_ok_def)
  define r1 where "r1 = recompute_status (r\<lparr>vadv_recovered := quantize_currency (vadv_recovered r + x)\<rparr>)"
  have ck: "advance_check r1"
    and s': "s' = s1\<lparr>clearances := clearances s1 @
                         [\<lparr>vc_advance = vadv_id v, vc_amount = quantize_currency x, vc_date = d, vc_journal = i\<rparr>],
                         vendor_advances := put_row vadv_id r1 (vendor_advances s)\<rparr>"
    using rest assms(4) by (auto simp: va r1_def Let_def split: if_splits)
  have rec: "vadv_recovered r1 = vadv_recovered r + quantize_currency x" "vadv_paid r1 = vadv_paid r" "vadv_recon r1 = vadv_recon r" "vadv_id r1 = vadv_id r"
    using quantize_add [OF rm(1), of x] rm(2) x(1) by (simp_all add: r1_def recompute_status_def advance_check_def)
  have net: "account_net a (gl_balances s') = account_net a (gl_balances s) - (if vadv_recon v = a then quantize_currency x else 0)"
  proof -
    have "lines_net a (j_lines j) = (if ap = a then db_decimal x else 0) - (if vadv_recon v = a then db_decimal x else 0)"
      by (simp only: j(2) entries_net2)
    then show ?thesis using appended_account_net [OF j1, of a] assms(3) ap by (auto simp: s' db_decimal_def quantize_currency_def)
  qed
  have "upd_row vadv_id (vadv_id v) (\<lambda>_. r1) (vendor_advances s) = put_row vadv_id r1 (vendor_advances s)"
    using r(2) rec(4) by (simp add: upd_row_def put_row_def)
  then have out: "outstanding_on a s' = outstanding_on a s - (if vadv_recon v = a then quantize_currency x else 0)"
    using sum_upd_row [OF assms(4) dist, of "\<lambda>_. r1" "\<lambda>v. if vadv_recon v = a then amount_outstanding v else 0"] rec r(2) assms(5)
    by (simp add: outstanding_on_def s' amount_outstanding_def)
  have "advances_ok s'"
  proof -
    have l1: "ledger_ok s1" by (rule appended_ledger_ok [OF l j1])
    have "recompute_status r1 = r1" by (simp add: r1_def recompute_status_def)
    moreover have "is_money (vadv_recovered r1)" "is_money (vadv_paid r1)" using r(1) assms(2) by (auto simp: r1_def recompute_status_def advances_ok_def)
    moreover have "w = r1 \<or> w \<in> set (vendor_advances s)" if "w \<in> set (put_row vadv_id r1 (vendor_advances s))" for w
      using that by (auto simp: put_row_def)
    moreover have "distinct (map vadv_id (put_row vadv_id r1 (vendor_advances s)))" using dist by simp
    ultimately show ?thesis using assms(2) l1 ck unfolding advances_ok_def s' by (auto simp: ledger_ok_def)
  qed
  then show ?thesis using net out by simp
qed

lemma disburse_cash_keeps:
  assumes "disburse vendor x source k ref d u bank ds s = Inr (n, s')" and "treasury_ok s"
    and "\<forall>recon. resolve_advance_account s = Some recon \<longrightarrow> ac_id recon \<notin> cash_accounts s"
    and "fst ` set (withheld_lines ds) \<inter> cash_accounts s = {}"
  shows "treasury_ok s'"
proof -
  note ok = treasury_okD [OF assms(2)]
  from assms(1) ok(1) obtain recon cash j s1 adv where
    rec: "resolve_advance_account s = Some recon" and "resolve_cash_account bank s = Inr cash"
    and j: "appended j s s1" "j_lines j = map round_line (disburse_lines (ac_id recon) cash (quantize_currency x) ds)"
    and "0 < quantize_currency x" "withheld_total ds < quantize_currency x"
    and s': "s' = (reconcile_from_gl_account cash s1)\<lparr>vendor_advances := vendor_advances s1 @ [adv]\<rparr>"
    and "vadv_id adv = fresh_pk vadv_id (vendor_advances s1)" "vadv_recon adv = ac_id recon" "vadv_paid adv = quantize_currency x"
      "vadv_recovered adv = 0" "vadv_status adv = VA_OUTSTANDING"
    by (rule disburseD)
  have ts: "tsas s1 = tsas s" using appended_advances [OF j(1)] by blast
  have l1: "ledger_ok s1" by (rule appended_ledger_ok [OF ok(1) j(1)])
  have other: "account_net a (gl_balances s1) = account_net a (gl_balances s)" if "a \<in> cash_accounts s" "a \<noteq> cash" for a
  proof -
    have "a \<notin> fst ` set (withheld_lines ds)" "a \<noteq> ac_id recon" using that(1) assms(3,4) rec by auto
    then have "lines_net a (j_lines j) = 0"
      using disburse_lines_net [of "quantize_currency x" a cash ds "ac_id recon"] that(2) j(2) by simp
    then show ?thesis using appended_account_net [OF j(1)] by simp
  qed
  have "\<forall>t \<in> set (tsas s1) - set (filter (\<lambda>t. ts_gl t = Some cash) (tsas s1)). \<forall>a. ts_gl t = Some a \<longrightarrow> ts_balance t = account_net a (gl_balances s1)"
  proof (intro ballI allI impI)
    fix t a assume "t \<in> set (tsas s1) - set (filter (\<lambda>t. ts_gl t = Some cash) (tsas s1))" and a: "ts_gl t = Some a"
    then have t: "t \<in> set (tsas s)" "a \<noteq> cash" by (auto simp: ts)
    then have "a \<in> cash_accounts s" using a by (auto simp: in_cash_accounts)
    then show "ts_balance t = account_net a (gl_balances s1)" using ok(4) [OF t(1) a] other t(2) by simp
  qed
  moreover have "\<forall>t \<in> set (tsas s1). \<forall>u \<in> set (tsas s1). ts_gl t = ts_gl u \<and> ts_gl t \<noteq> None \<longrightarrow> t = u"
    using assms(2) unfolding ts treasury_ok_def by blast
  ultimately have "treasury_ok (reconcile_from_gl_account cash s1)"
    unfolding reconcile_from_gl_account_def using l1 ok(2) by (intro reconcile_each_ok) (auto simp: ts)
  then show ?thesis unfolding treasury_ok_def s' by (simp add: ledger_ok_def) blast
qed

lemma clear_cash_keeps:
  assumes "clear v x d u target s = Inr s'" and "treasury_ok s" and "vadv_recon v \<notin> cash_accounts s"
    and "\<forall>a. clear_account v target s = Inr a \<longrightarrow> a \<notin> cash_accounts s"
  shows "treasury_ok s'"
proof -
  note ok = treasury_okD [OF assms(2)]
  obtain ap i s1 cl va where ap: "clear_account v target s = Inr ap"
    and p: "post_new_journal (document_header d (clearance_reference v s) ''vendor_advance_clearance'' None u)
        [debit_entry ap x, credit_entry (vadv_recon v) x] u s = Inr (i, s1)"
    and s': "s' = s1\<lparr>clearances := cl, vendor_advances := va\<rparr>"
    using assms(1) by (auto simp: clear_def Let_def rbind_eq_Inr split: if_splits option.splits)
  obtain j where j: "appended j (s\<lparr>sequences := sequences s\<rparr>) s1" "j_lines j = map round_line [debit_entry ap x, credit_entry (vadv_recon v) x]"
    using post_new_appended [OF p ok(1), of "sequences s"] by (metis ledger.surjective ledger.update_convs(7))
  have "treasury_ok (s1\<lparr>tsas := map id (tsas s1)\<rparr>)"
  proof (rule treasury_okI [OF assms(2) j(1) refl])
    fix t a assume "t \<in> set (tsas s)" "ts_gl t = Some a"
    then have "a \<in> cash_accounts s" by (auto simp: in_cash_accounts)
    then have "a \<noteq> ap" "a \<noteq> vadv_recon v" using assms(3,4) ap by auto
    then have "lines_net a (j_lines j) = 0" by (simp only: j(2) entries_net2) simp
    then show "ts_balance (id t) = ts_balance t + lines_net a (j_lines j)" by simp
  qed simp
  then have "treasury_ok s1" by simp
  then show ?thesis unfolding treasury_ok_def s' by (simp add: ledger_ok_def) blast
qed

section \<open>Treasury and advances together\<close>

inductive cash_step :: "advance_state \<Rightarrow> advance_state \<Rightarrow> bool" where
  transfer: "process_transfer src tgt x u d s = Inr (i, s') \<Longrightarrow> is_money x \<Longrightarrow> cash_step s s'"
| cashbook: "record_cash_movement t dir x (Some contra) u d s = Inr (i, s') \<Longrightarrow> is_money x \<Longrightarrow>
    contra \<notin> cash_accounts s \<Longrightarrow> cash_step s s'"
| revenue: "post_revenue_collection_to_gl c u s = Inr (i, s') \<Longrightarrow> is_money (rc_amount c) \<Longrightarrow> rc_tsa c = Some k \<Longrightarrow>
    tsa_of k s = Some t \<Longrightarrow> ts_gl t = Some cash \<Longrightarrow> account_of cash s = Some acct \<Longrightarrow>
    rc_revenue_account c = Some revenue \<Longrightarrow> revenue \<notin> cash_accounts s \<Longrightarrow> cash_step s s'"
| advance: "disburse vendor x source sid ref day u bank ds s = Inr (n, s') \<Longrightarrow>
    \<forall>recon. resolve_advance_account s = Some recon \<longrightarrow> ac_id recon \<notin> cash_accounts s \<Longrightarrow>
    fst ` set (withheld_lines ds) \<inter> cash_accounts s = {} \<Longrightarrow> cash_step s s'"
| recovery: "clear v x day u target s = Inr s' \<Longrightarrow> vadv_recon v \<notin> cash_accounts s \<Longrightarrow>
    \<forall>a. clear_account v target s = Inr a \<longrightarrow> a \<notin> cash_accounts s \<Longrightarrow> cash_step s s'"
| reconcile: "cash_step s (reconcile_from_gl_account a s)"
| reconciled: "cash_step s (reconcile_all s)"

lemma cash_step_keeps: "cash_step s s' \<Longrightarrow> treasury_ok s \<Longrightarrow> treasury_ok s'"
proof (induction rule: cash_step.induct)
  case (reconciled s)
  then show ?case unfolding treasury_ok_def by (intro reconcile_all_repairs [unfolded treasury_ok_def]) auto
qed (blast intro: process_transfer_keeps record_cash_movement_keeps post_revenue_keeps disburse_cash_keeps
      clear_cash_keeps reconcile_from_keeps)+


inductive control_step :: "nat \<Rightarrow> advance_state \<Rightarrow> advance_state \<Rightarrow> bool" for a where
  pay: "disburse vendor x source sid ref day u bank ds s = Inr (n, s') \<Longrightarrow> resolve_cash_account bank s \<noteq> Inr a \<Longrightarrow>
    a \<notin> fst ` set (withheld_lines ds) \<Longrightarrow> control_step a s s'"
| recover: "clear v x day u target s = Inr s' \<Longrightarrow> clear_account v target s \<noteq> Inr a \<Longrightarrow>
    find_row vadv_id (vadv_id v) (vendor_advances s) = Some r \<Longrightarrow> vadv_recon r = vadv_recon v \<Longrightarrow> control_step a s s'"

text \<open>
  C21: the control account of the vendor advances carries exactly what the advances recorded in it
  have outstanding: paying and recovering advances, whole or in slices and also from stale
  instances, moves the account's net and the outstanding total alike, and no advance is ever
  recovered beyond what was paid.
\<close>

theorem advances_match_control:
  assumes "advances_ok s" and "(control_step a)\<^sup>*\<^sup>* s s'"
  shows "account_net a (gl_balances s') - outstanding_on a s' = account_net a (gl_balances s) - outstanding_on a s
    \<and> (\<forall>v \<in> set (vendor_advances s'). 0 \<le> vadv_recovered v \<and> vadv_recovered v \<le> vadv_paid v)"
proof -
  have "advances_ok s' \<and> account_net a (gl_balances s') - outstanding_on a s' = account_net a (gl_balances s) - outstanding_on a s"
    using assms(2)
  proof (induction rule: rtranclp_induct)
    case (step t w)
    from step.hyps(2) show ?case
    proof cases
      case pay
      then show ?thesis using disburse_control step.IH by metis
    next
      case recover
      then show ?thesis using clear_control step.IH by metis
    qed
  qed (use assms(1) in simp)
  then show ?thesis by (simp add: advances_ok_def advance_check_def)
qed

section \<open>A worked treasury\<close>

definition demo_treasury :: advance_state where
  "demo_treasury = budget_state.extend
     (demo_ledger\<lparr>accounts := [demo_account 11 ''31010101'' AT_Asset, demo_account 12 ''31010102'' AT_Asset,
        demo_account 13 ''12010101'' AT_Income,
        (demo_account 14 ''31050101'' AT_Asset)\<lparr>ac_reconciliation_type := ''vendor_advance''\<rparr>,
        (demo_account 15 ''41010101'' AT_Liability)\<lparr>ac_reconciliation_type := ''accounts_payable''\<rparr>]\<rparr>)
     \<lparr>tsas = [demo_tsa 1 ''MAIN_TSA'' None 11 0, demo_tsa 2 ''ZERO_BALANCE'' (Some 1) 12 0],
      instructions = [], default_cash_code = None,
      payees = [\<lparr>ve_id = 1, ve_category = None\<rparr>], vendor_advances = [], clearances = []\<rparr>"

definition demo_lodge :: "err + (nat \<times> advance_state)" where
  "demo_lodge = record_cash_movement (tsas demo_treasury ! 1) ''in'' 1000 (Some 13) None None demo_treasury"

definition demo_move :: "err + (nat \<times> advance_state)" where
  "demo_move = (let s = snd (projr demo_lodge) in process_transfer (tsas s ! 1) (tsas s ! 0) 600 None None s)"

definition demo_pay :: "err + (nat \<times> advance_state)" where
  "demo_pay = disburse 1 500 ''OTHER'' (Some 7) ''ADV/1'' (Date 2026 3 10) None None [] (snd (projr demo_move))"

definition demo_recover :: "err + advance_state" where
  "demo_recover = (let s = snd (projr demo_pay) in clear (hd (vendor_advances s)) 200 (Date 2026 3 12) None None s)"

lemma demo_treasury_ok: "treasury_ok demo_treasury" "advances_ok demo_treasury"
proof -
  have "ledger_ok demo_treasury" using demo_ledger_ok by (simp add: ledger_ok_def demo_treasury_def budget_state.defs)
  moreover have "gl_balances demo_treasury = []" by code_simp
  ultimately show "treasury_ok demo_treasury" "advances_ok demo_treasury"
    by (simp_all add: treasury_ok_def advances_ok_def account_net_def)
      (simp_all add: demo_treasury_def demo_tsa_def budget_state.defs)
qed

lemma demo_treasury_runs:
  "demo_lodge = Inr (fst (projr demo_lodge), snd (projr demo_lodge))"
  "demo_move = Inr (fst (projr demo_move), snd (projr demo_move))"
  "demo_pay = Inr (fst (projr demo_pay), snd (projr demo_pay))"
  "demo_recover = Inr (projr demo_recover)"
proof -
  have "\<not> isl demo_lodge" "\<not> isl demo_move" "\<not> isl demo_pay" "\<not> isl demo_recover" by code_simp+
  then show "demo_lodge = Inr (fst (projr demo_lodge), snd (projr demo_lodge))"
    "demo_move = Inr (fst (projr demo_move), snd (projr demo_move))"
    "demo_pay = Inr (fst (projr demo_pay), snd (projr demo_pay))" "demo_recover = Inr (projr demo_recover)" by simp_all
qed

lemma demo_cash_steps:
  "cash_step demo_treasury (snd (projr demo_lodge))" "cash_step (snd (projr demo_lodge)) (snd (projr demo_move))"
  "cash_step (snd (projr demo_move)) (snd (projr demo_pay))"
proof -
  have money: "is_money 1000" "is_money 600" by (simp_all add: is_money_def)
  have 1: "13 \<notin> cash_accounts demo_treasury" "14 \<notin> cash_accounts (snd (projr demo_move))"
    "resolve_advance_account (snd (projr demo_move))
       = Some ((demo_account 14 ''31050101'' AT_Asset)\<lparr>ac_reconciliation_type := ''vendor_advance''\<rparr>)" by code_simp+
  show "cash_step demo_treasury (snd (projr demo_lodge))"
    using demo_treasury_runs(1) money(1) 1(1) unfolding demo_lodge_def by (rule cash_step.cashbook)
  show "cash_step (snd (projr demo_lodge)) (snd (projr demo_move))"
    using demo_treasury_runs(2) money(2) unfolding demo_move_def Let_def by (rule cash_step.transfer)
  show "cash_step (snd (projr demo_move)) (snd (projr demo_pay))"
    using demo_treasury_runs(3) unfolding demo_pay_def
    by (rule cash_step.advance) (simp_all add: 1 demo_account_def withheld_lines_def map_filter_def)
qed


theorem advances_match_control_witness:
  "account_net 14 (gl_balances (projr demo_recover)) = 300 \<and> outstanding_on 14 (projr demo_recover) = 300"
proof -
  let ?s2 = "snd (projr demo_move)" and ?s3 = "snd (projr demo_pay)" and ?s4 = "projr demo_recover"
  let ?v = "hd (vendor_advances ?s3)"
  have "treasury_ok ?s2"
    using cash_step_keeps [OF demo_cash_steps(2) cash_step_keeps [OF demo_cash_steps(1) demo_treasury_ok(1)]] .
  moreover have "vendor_advances ?s2 = []" by code_simp
  ultimately have ok: "advances_ok ?s2" by (simp add: advances_ok_def treasury_ok_def)
  have 3: "resolve_cash_account None ?s2 \<noteq> Inr 14" by code_simp
  have "control_step 14 ?s2 ?s3"
    using demo_treasury_runs(3) unfolding demo_pay_def
    by (rule control_step.pay) (use 3 in \<open>simp_all add: withheld_lines_def map_filter_def\<close>)
  moreover have "control_step 14 ?s3 ?s4"
  proof (rule control_step.recover)
    show "clear ?v 200 (Date 2026 3 12) None None ?s3 = Inr ?s4"
      using demo_treasury_runs(4) unfolding demo_recover_def Let_def .
    show "clear_account ?v None ?s3 \<noteq> Inr 14" by code_simp
    show "find_row vadv_id (vadv_id ?v) (vendor_advances ?s3) = Some ?v" by code_simp
  qed simp
  ultimately have "(control_step 14)\<^sup>*\<^sup>* ?s2 ?s4" by (metis converse_rtranclp_into_rtranclp r_into_rtranclp)
  from advances_match_control [OF ok this]
  have "account_net 14 (gl_balances ?s4) - outstanding_on 14 ?s4 = account_net 14 (gl_balances ?s2) - outstanding_on 14 ?s2" by blast
  moreover have "account_net 14 (gl_balances ?s2) = 0" "outstanding_on 14 ?s2 = 0" "outstanding_on 14 ?s4 = 300" by code_simp+
  ultimately show ?thesis by simp
qed

end
