(* ===== verification/PurchaseData.thy ===== *)
theory PurchaseData
  imports Assets
begin

text \<open>
  The tables of procurement (\<^verbatim>\<open>procurement/models.py\<close>): requisitions, orders, receipts and invoice
  matchings with their status tables, the numbers of the first three, and the interface
  \<open>status_machine\<close> of the documents under \<^verbatim>\<open>StatusTransitionMixin\<close> (\<^verbatim>\<open>core/models.py\<close>).  Descriptions,
  delivery details and notes are not modelled.
\<close>

section \<open>Data\<close>

record legacy_budget =
  lb_id :: nat
  lb_code :: string
  lb_period :: "nat option"
  lb_account :: "nat option"
  lb_mda :: "nat option"
  lb_fund :: "nat option"

record encumbrance =
  ec_budget :: nat
  ec_type :: string
  ec_reference :: nat
  ec_date :: date
  ec_amount :: rat
  ec_status :: string

record request_line =
  rl_quantity :: rat
  rl_price :: rat
  rl_account :: "nat option"
  rl_item :: "nat option"
  rl_asset :: "nat option"

record purchase_request =
  pr_id :: nat
  pr_number :: string
  pr_date :: date
  pr_mda :: "nat option"
  pr_fund :: nat
  pr_function :: nat
  pr_program :: nat
  pr_geo :: nat
  pr_status :: string
  pr_lines :: "request_line list"

record order_line =
  ol_id :: nat
  ol_quantity :: rat
  ol_received :: rat
  ol_price :: rat
  ol_account :: nat
  ol_item :: "nat option"
  ol_asset :: "nat option" \<comment> \<open>the fixed asset procured\<close>

record purchase_order =
  po_id :: nat
  po_number :: string
  po_vendor :: nat
  po_request :: "nat option"
  po_date :: date
  po_delivery :: "date option"
  po_tax_rate :: rat
  po_tax :: rat
  po_mda :: "nat option"
  po_fund :: nat
  po_function :: nat
  po_program :: nat
  po_geo :: nat
  po_status :: string
  po_lines :: "order_line list"

record receipt_line =
  gnl_order_line :: nat
  gnl_quantity :: rat
  gnl_batch :: string

record receipt =
  gn_id :: nat
  gn_number :: string
  gn_order :: nat
  gn_date :: date
  gn_mda :: "nat option"
  gn_warehouse :: "nat option"
  gn_status :: string
  gn_lines :: "receipt_line list"

record matching =
  im_id :: nat
  im_number :: string
  im_order :: "nat option"
  im_receipt :: "nat option"
  im_invoice :: "nat option"
  im_amount :: rat
  im_tax :: rat
  im_subtotal :: rat
  im_order_amount :: "rat option"
  im_receipt_amount :: "rat option"
  im_status :: string
  im_type :: string
  im_variance :: rat
  im_percentage :: rat
  im_hold :: bool
  im_down_payment :: rat

record supplier =
  su_id :: nat
  su_active :: bool
  su_expiry :: "date option"
  su_orders :: nat
  su_on_time :: nat

record item =
  it_id :: nat
  it_inventory_account :: "nat option"
  it_type_account :: "nat option" \<comment> \<open>\<^verbatim>\<open>product_type.inventory_account\<close>\<close>

record purchasing_state = asset_state +
  legacy_budgets :: "legacy_budget list"
  encumbrances :: "encumbrance list"
  suppliers :: "supplier list"
  items :: "item list"
  requests :: "purchase_request list"
  orders :: "purchase_order list"
  receipts :: "receipt list"
  matchings :: "matching list"
  warehouses :: "(nat \<times> string) list" \<comment> \<open>key and name\<close>

section \<open>Status tables\<close>

type_synonym transitions = "(string \<times> string list) list"

definition REQUEST_TRANSITIONS :: transitions where
  "REQUEST_TRANSITIONS =
     [(''Draft'', [''Pending'']), (''Pending'', [''Approved'', ''Rejected'']), (''Approved'', []), (''Rejected'', [''Draft''])]"

definition ORDER_TRANSITIONS :: transitions where
  "ORDER_TRANSITIONS =
     [(''Draft'', [''Pending'', ''Approved'']), (''Pending'', [''Approved'', ''Rejected'']),
      (''Approved'', [''Posted'', ''Rejected'', ''Closed'']), (''Posted'', [''Closed'']),
      (''Rejected'', [''Draft'']), (''Closed'', [])]"

definition RECEIPT_TRANSITIONS :: transitions where
  "RECEIPT_TRANSITIONS =
     [(''Draft'', [''Received'', ''On Hold'', ''Posted'', ''Cancelled'']), (''Received'', [''On Hold'', ''Posted'', ''Cancelled'']),
      (''On Hold'', [''Received'', ''Posted'', ''Cancelled'']), (''Posted'', []), (''Cancelled'', [])]"

definition MATCHING_TRANSITIONS :: transitions where
  "MATCHING_TRANSITIONS =
     [(''Draft'', [''Pending_Review'', ''Matched'', ''Variance'', ''Rejected'']), (''Pending_Review'', [''Approved'', ''Rejected'']),
      (''Matched'', [''Pending_Review'', ''Variance'', ''Rejected'', ''Approved'']), (''Variance'', [''Matched'', ''Rejected'']),
      (''Approved'', []), (''Rejected'', [])]"

definition may_become :: "transitions \<Rightarrow> string \<Rightarrow> string \<Rightarrow> bool" where
  "may_become table old new \<longleftrightarrow> (case map_of table old of Some ts \<Rightarrow> new \<in> set ts | None \<Rightarrow> False)"

definition validate_status_transition :: "transitions \<Rightarrow> string option \<Rightarrow> string \<Rightarrow> err + unit" where
  \<comment> \<open>the stored status, \<open>None\<close> without a row, against the instance's\<close>
  "validate_status_transition table old new =
     (case old of
        None \<Rightarrow> Inr ()
      | Some a \<Rightarrow> if a = new \<or> may_become table a new then Inr () else Inl ValidationError)"

lemma validate_status_ok:
  "validate_status_transition table old new = Inr u \<longleftrightarrow> (case old of None \<Rightarrow> True | Some a \<Rightarrow> a = new \<or> may_become table a new)"
  by (cases old) (auto simp: validate_status_transition_def)

section \<open>The interface of a document with a status table\<close>

locale status_machine =
  fixes table :: transitions
    and removable :: "string \<Rightarrow> bool"
    and status :: "nat \<Rightarrow> 's \<Rightarrow> string option"
    and move :: "'s \<Rightarrow> 's \<Rightarrow> bool"
  assumes moves: "move s s' \<Longrightarrow> status i s = Some a \<Longrightarrow>
    (removable a \<and> status i s' = None) \<or> (\<exists>b. status i s' = Some b \<and> (may_become table)\<^sup>*\<^sup>* a b)"
begin

lemma confined:
  assumes "move\<^sup>*\<^sup>* s s'" and "status i s = Some a" and "a \<in> A"
    and closed: "\<And>x y. x \<in> A \<Longrightarrow> \<not> removable x \<and> (may_become table x y \<longrightarrow> y \<in> A)"
  shows "\<exists>b \<in> A. status i s' = Some b"
  using assms(1)
proof (induction rule: rtranclp_induct)
  case base
  then show ?case using assms(2,3) by blast
next
  case (step s1 s2)
  then obtain b c where b: "b \<in> A" "status i s1 = Some b" and c: "status i s2 = Some c" "(may_become table)\<^sup>*\<^sup>* b c"
    using moves closed by blast
  have "c \<in> A" using c(2) b(1) by (induction rule: rtranclp_induct) (auto simp: closed)
  with c(1) show ?case by blast
qed

lemma terminal:
  assumes "move\<^sup>*\<^sup>* s s'" and "status i s = Some a" and "map_of table a = Some []" and "\<not> removable a"
  shows "status i s' = Some a"
  using confined [OF assms(1,2), of "{a}"] assms(3,4) by (auto simp: may_become_def)

text \<open>The same along the steps that do not remove the document itself.\<close>

lemma confined_while_kept:
  assumes "(\<lambda>t u. move t u \<and> status i u \<noteq> None)\<^sup>*\<^sup>* s s'" and "status i s = Some a" and "a \<in> A"
    and closed: "\<And>x y. x \<in> A \<Longrightarrow> may_become table x y \<Longrightarrow> y \<in> A"
  shows "\<exists>b \<in> A. status i s' = Some b"
  using assms(1)
proof (induction rule: rtranclp_induct)
  case base
  then show ?case using assms(2,3) by blast
next
  case (step s1 s2)
  then obtain b where b: "b \<in> A" "status i s1 = Some b" by blast
  then obtain c where c: "status i s2 = Some c" "(may_become table)\<^sup>*\<^sup>* b c"
    using moves [of s1 s2 i b] step(2) by auto
  have "c \<in> A" using c(2) b(1) by (induction rule: rtranclp_induct) (auto dest: closed)
  with c(1) show ?case by blast
qed

lemma terminal_while_kept:
  assumes "(\<lambda>t u. move t u \<and> status i u \<noteq> None)\<^sup>*\<^sup>* s s'" and "status i s = Some a" and "map_of table a = Some []"
  shows "status i s' = Some a"
  using confined_while_kept [OF assms(1,2), of "{a}"] assms(3) by (auto simp: may_become_def)

end

section \<open>Document numbers\<close>

definition next_number :: "string \<Rightarrow> string list \<Rightarrow> string" where
  \<comment> \<open>\<^verbatim>\<open>PREFIX-YYYY-NNNNN\<close>: one after the number that sorts last among those with the prefix\<close>
  "next_number prefix numbers =
     (let taken = filter (has_prefix prefix) numbers;
          last_seq = (case taken of
                        [] \<Rightarrow> 0
                      | _ \<Rightarrow> (case parse_int (after_last_dash (Max (set taken))) of
                               Some n \<Rightarrow> n | None \<Rightarrow> int (length taken)))
      in prefix @ zpad 5 (nat (last_seq + 1)))"

definition year_prefix :: "string \<Rightarrow> 'z period_state_scheme \<Rightarrow> string" where
  "year_prefix kind s = kind @ ''-'' @ show_int (d_year (today s)) @ ''-''"

definition generate_pr_number :: "'z purchasing_state_scheme \<Rightarrow> string" where
  "generate_pr_number s = next_number (year_prefix ''PR'' s) (map pr_number (requests s))"

definition generate_po_number :: "'z purchasing_state_scheme \<Rightarrow> string" where
  "generate_po_number s = next_number (year_prefix ''PO'' s) (map po_number (orders s))"

definition generate_grn_number :: "'z purchasing_state_scheme \<Rightarrow> string" where
  "generate_grn_number s = next_number (year_prefix ''GRN'' s) (map gn_number (receipts s))"

section \<open>Numbers print and parse\<close>

definition digit_value :: "char \<Rightarrow> int" where
  "digit_value c = int (of_char c - 48)"

definition is_digit :: "char \<Rightarrow> bool" where
  "is_digit c \<longleftrightarrow> 48 \<le> (of_char c :: nat) \<and> (of_char c :: nat) \<le> 57"

definition value_of :: "string \<Rightarrow> int" where
  "value_of ds = fold (\<lambda>c n. n * 10 + digit_value c) ds 0"

lemma value_fold: "fold (\<lambda>c n. n * 10 + digit_value c) ds n = n * 10 ^ length ds + value_of ds"
proof (induction ds arbitrary: n)
  case (Cons c ds)
  have "value_of (c # ds) = digit_value c * 10 ^ length ds + value_of ds"
    using Cons.IH [of "digit_value c"] by (simp add: value_of_def)
  then show ?case using Cons.IH [of "n * 10 + digit_value c"] by (simp add: algebra_simps)
qed (simp add: value_of_def)

lemma value_of_simps [simp]:
  "value_of [] = 0" "value_of (c # ds) = digit_value c * 10 ^ length ds + value_of ds"
  "value_of (xs @ ys) = value_of xs * 10 ^ length ys + value_of ys"
  using value_fold [of ds "digit_value c"] value_fold [of ys "value_of xs"] by (simp_all add: value_of_def)

lemma parse_digits_value: "list_all is_digit ds \<Longrightarrow> ds \<noteq> [] \<Longrightarrow> parse_digits ds = Some (value_of ds)"
  by (simp add: parse_digits_def is_digit_def [abs_def] value_of_def digit_value_def)

lemma digit_char_value: "d < 10 \<Longrightarrow> is_digit (digit_char d) \<and> digit_value (digit_char d) = int d"
  by (simp add: is_digit_def digit_value_def digit_char_def of_char_of)

lemma show_pos_digits:
  "0 \<le> k \<Longrightarrow> list_all is_digit (show_pos k) \<and> show_pos k \<noteq> [] \<and> value_of (show_pos k) = k"
proof (induction k rule: show_pos.induct)
  case (1 k)
  show ?case
  proof (cases "k < 10")
    case True
    then show ?thesis using 1(2) digit_char_value [of "nat k"] by (simp add: show_pos.simps [of k])
  next
    case False
    then have "0 \<le> k div 10" "nat (k mod 10) < 10" by auto
    then show ?thesis using 1(1) [OF False] False digit_char_value [of "nat (k mod 10)"]
      by (simp add: show_pos.simps [of k])
  qed
qed

lemma show_pos_length: "0 \<le> k \<Longrightarrow> 0 < n \<Longrightarrow> k < 10 ^ n \<Longrightarrow> length (show_pos k) \<le> n"
proof (induction n arbitrary: k)
  case (Suc n)
  show ?case
  proof (cases "k < 10")
    case True
    then show ?thesis by (simp add: show_pos.simps [of k])
  next
    case False
    then have "k div 10 < 10 ^ n" "0 < n" using Suc.prems by (cases n; simp; linarith)+
    then show ?thesis using Suc.IH [of "k div 10"] False Suc.prems by (simp add: show_pos.simps [of k])
  qed
qed simp

lemma zpad_digits:
  "list_all is_digit (zpad w k)" "zpad w k \<noteq> []" "value_of (zpad w k) = int k"
  "0 < w \<Longrightarrow> k < 10 ^ w \<Longrightarrow> length (zpad w k) = w"
proof -
  note s = show_pos_digits [of "int k"]
  have z: "is_digit (CHR ''0'')" "value_of (replicate n (CHR ''0'')) = 0" for n
    by (induction n) (simp_all add: is_digit_def digit_value_def)
  show "list_all is_digit (zpad w k)" "zpad w k \<noteq> []" "value_of (zpad w k) = int k"
    using s z by (auto simp: zpad_def show_nat_def list_all_iff)
  show "length (zpad w k) = w" if "0 < w" "k < 10 ^ w"
  proof -
    have "int k < 10 ^ w" using that(2) by (metis of_nat_less_iff of_nat_numeral of_nat_power)
    then have "length (show_pos (int k)) \<le> w" using that(1) by (simp add: show_pos_length)
    then show ?thesis by (simp add: zpad_def show_nat_def)
  qed
qed

lemma parse_zpad: "parse_int (zpad w k) = Some (int k)"
proof -
  obtain c t where z: "zpad w k = c # t" using zpad_digits(2) by (cases "zpad w k") auto
  have "is_digit c" using zpad_digits(1) [of w k] z by simp
  then have "c \<noteq> CHR ''-''" "c \<noteq> CHR ''+''" by (auto simp: is_digit_def)
  then have "parse_int (zpad w k) = parse_digits (zpad w k)" unfolding z by (simp add: parse_int_def)
  then show ?thesis by (simp add: parse_digits_value zpad_digits)
qed

lemma after_last_dash_prefix:
  assumes "list_all is_digit ds"
  shows "after_last_dash (p @ ''-'' @ ds) = ds"
proof -
  have "takeWhile (\<lambda>c. c \<noteq> CHR ''-'') (rev ds @ CHR ''-'' # rev p) = rev ds @ takeWhile (\<lambda>c. c \<noteq> CHR ''-'') (CHR ''-'' # rev p)"
    by (rule takeWhile_append2) (use assms in \<open>auto simp: list_all_iff is_digit_def\<close>)
  then show ?thesis by (simp add: after_last_dash_def)
qed

lemma value_of_bounds: "list_all is_digit zs \<Longrightarrow> 0 \<le> value_of zs \<and> value_of zs < 10 ^ length zs"
proof (induction zs)
  case (Cons z zs)
  then have "0 \<le> digit_value z" "digit_value z \<le> 9" by (auto simp: is_digit_def digit_value_def)
  then have "digit_value z * 10 ^ length zs \<le> 9 * 10 ^ length zs" "0 \<le> digit_value z * 10 ^ length zs"
    by (auto intro: mult_right_mono)
  moreover have "0 \<le> value_of zs \<and> value_of zs < 10 ^ length zs" using Cons by simp
  moreover have "(10::int) ^ length (z # zs) = 10 * 10 ^ length zs" by simp
  ultimately show ?case unfolding value_of_simps(2) by linarith
qed simp

lemma less_eq_value:
  assumes "length xs = length ys" and "list_all is_digit xs" and "list_all is_digit ys" and "xs \<le> ys"
  shows "value_of xs \<le> value_of ys"
  using assms
proof (induction xs ys rule: list_induct2)
  case (Cons x xs y ys)
  show ?case
  proof (cases "x = y")
    case True
    then show ?thesis using Cons by simp
  next
    case False
    then have "x < y" using Cons.prems(3) by auto
    then have "digit_value x + 1 \<le> digit_value y"
      using Cons.prems(1,2) by (auto simp: digit_value_def is_digit_def less_char_def)
    then have "(digit_value x + 1) * 10 ^ length ys \<le> digit_value y * 10 ^ length ys"
      by (intro mult_right_mono) simp_all
    then show ?thesis using value_of_bounds [of xs] value_of_bounds [of ys] Cons.prems(1,2) Cons.hyps
      by (simp add: algebra_simps)
  qed
qed simp

lemma has_prefix_append: "has_prefix p s \<longleftrightarrow> (\<exists>t. s = p @ t)"
  by (induction p s rule: has_prefix.induct) auto

lemma append_less_eq: "p @ xs \<le> p @ (ys :: string) \<longleftrightarrow> xs \<le> ys"
  by (induction p) auto

lemma next_number_above:
  \<comment> \<open>when every number with the prefix is the prefix and five digits, the next one is the prefix and one more than the largest\<close>
  assumes p: "prefix = p @ ''-''"
    and shape: "\<And>x. x \<in> set numbers \<Longrightarrow> has_prefix prefix x \<Longrightarrow> \<exists>k<100000. x = prefix @ zpad 5 k"
  shows "\<exists>m. next_number prefix numbers = prefix @ zpad 5 (m + 1) \<and> m < 100000
           \<and> (\<forall>k<100000. prefix @ zpad 5 k \<in> set numbers \<longrightarrow> k \<le> m)"
proof (cases "filter (has_prefix prefix) numbers")
  case Nil
  have "prefix @ zpad 5 k \<notin> set numbers" for k
  proof
    assume "prefix @ zpad 5 k \<in> set numbers"
    then have "prefix @ zpad 5 k \<in> set (filter (has_prefix prefix) numbers)" by (simp add: has_prefix_append)
    with Nil show False by simp
  qed
  moreover have "next_number prefix numbers = prefix @ zpad 5 (0 + 1)" by (simp add: next_number_def Nil)
  ultimately show ?thesis by (intro exI [of _ 0]) auto
next
  case (Cons t ts)
  let ?taken = "set (filter (has_prefix prefix) numbers)"
  have max: "Max ?taken \<in> ?taken" using Cons by (intro Max_in) auto
  then obtain m where m: "m < 100000" "Max ?taken = prefix @ zpad 5 m" using shape by auto
  have "after_last_dash (prefix @ zpad 5 m) = zpad 5 m"
    unfolding p using after_last_dash_prefix [OF zpad_digits(1)] by simp
  then have "parse_int (after_last_dash (Max ?taken)) = Some (int m)" unfolding m(2) by (simp only: parse_zpad)
  then have "next_number prefix numbers = prefix @ zpad 5 (nat (int m + 1))"
    unfolding next_number_def Let_def by (simp add: Cons split: list.split)
  then have "next_number prefix numbers = prefix @ zpad 5 (m + 1)" by (simp add: nat_add_distrib)
  moreover have "k \<le> m" if "k < 100000" "prefix @ zpad 5 k \<in> set numbers" for k
  proof -
    have "prefix @ zpad 5 k \<le> Max ?taken" using that(2) by (intro Max_ge) (auto simp: has_prefix_append)
    then have "zpad 5 k \<le> zpad 5 m" unfolding m(2) append_less_eq .
    moreover have "length (zpad 5 k) = length (zpad 5 m)" using that(1) m(1) by (simp add: zpad_digits(4))
    ultimately have "value_of (zpad 5 k) \<le> value_of (zpad 5 m)" by (intro less_eq_value zpad_digits(1))
    then show ?thesis by (simp add: zpad_digits(3))
  qed
  ultimately show ?thesis using m(1) by blast
qed

text \<open>
  C22: Document numbers are fresh and read back.  While the numbers of a year are \<^verbatim>\<open>PREFIX-YYYY-\<close> and five digits, the
  number generated for the next document is not among them, and the counter parsed from it is one more than the
  counter of every existing number; the only way out of the form is the hundred-thousandth document.
\<close>
theorem document_number_fresh:
  assumes "prefix = p @ ''-''"
    and "\<And>x. x \<in> set numbers \<Longrightarrow> has_prefix prefix x \<Longrightarrow> \<exists>k<100000. x = prefix @ zpad 5 k"
  shows "next_number prefix numbers \<notin> set numbers
     \<and> (\<exists>n. next_number prefix numbers = prefix @ zpad 5 n \<and> n \<le> 100000
          \<and> parse_int (after_last_dash (next_number prefix numbers)) = Some (int n)
          \<and> (\<forall>k<100000. prefix @ zpad 5 k \<in> set numbers \<longrightarrow> k < n))"
proof -
  obtain m where m: "next_number prefix numbers = prefix @ zpad 5 (m + 1)" "m < 100000"
    "\<And>k. k < 100000 \<Longrightarrow> prefix @ zpad 5 k \<in> set numbers \<Longrightarrow> k \<le> m"
    using next_number_above [OF assms] by blast
  have fresh: "next_number prefix numbers \<notin> set numbers"
  proof
    assume in_numbers: "next_number prefix numbers \<in> set numbers"
    then obtain k where k: "k < 100000" "prefix @ zpad 5 (m + 1) = prefix @ zpad 5 k"
      using assms(2) [of "next_number prefix numbers"] by (auto simp: m(1) has_prefix_append)
    then have "k = m + 1" by (metis append_same_eq same_append_eq of_nat_eq_iff zpad_digits(3))
    with m(3) [OF k(1)] k in_numbers m(1) show False by simp
  qed
  have "after_last_dash (prefix @ zpad 5 (m + 1)) = zpad 5 (m + 1)"
    unfolding assms(1) using after_last_dash_prefix [OF zpad_digits(1)] by simp
  then have "parse_int (after_last_dash (next_number prefix numbers)) = Some (int (m + 1))"
    unfolding m(1) by (simp only: parse_zpad)
  with m fresh show ?thesis
    by (intro conjI exI [of _ "m + 1"]) (auto simp: less_Suc_eq_le)
qed

lemma document_number_fresh_witness:
  "next_number ''PO-2026-'' [''PO-2025-00009'', ''PO-2026-00041''] \<notin> set [''PO-2025-00009'', ''PO-2026-00041'']"
proof -
  have z: "''PO-2026-00041'' = ''PO-2026-'' @ zpad 5 41" "\<not> has_prefix ''PO-2026-'' ''PO-2025-00009''" by code_simp+
  have shape: "\<exists>k<100000. x = ''PO-2026-'' @ zpad 5 k"
    if "x \<in> set [''PO-2025-00009'', ''PO-2026-00041'']" "has_prefix ''PO-2026-'' x" for x
  proof -
    have "x = ''PO-2026-00041''" using that z(2) by auto
    then show ?thesis unfolding z(1) by (intro exI [of _ 41]) simp
  qed
  show ?thesis
    by (rule document_number_fresh [of "''PO-2026-''" "''PO-2026''" "[''PO-2025-00009'', ''PO-2026-00041'']", OF _ shape, THEN conjunct1])
      simp_all
qed

lemma numbers_exhausted:
  \<comment> \<open>six digits sort before the last five: the number is issued a second time\<close>
  "next_number ''PO-2026-'' [''PO-2026-99999'', ''PO-2026-100000''] = ''PO-2026-100000''"
proof -
  have "filter (has_prefix ''PO-2026-'') [''PO-2026-99999'', ''PO-2026-100000''] = [''PO-2026-99999'', ''PO-2026-100000'']"
    "Max (set [''PO-2026-99999'', ''PO-2026-100000'']) = ''PO-2026-99999''"
    "parse_int (after_last_dash ''PO-2026-99999'') = Some 99999" "show_pos 100000 = ''100000''"
    by code_simp+
  then show ?thesis by (simp add: next_number_def zpad_def show_nat_def)
qed

end
