(* ===== verification/Purchasing.thy ===== *)
theory Purchasing
  imports PurchaseData
begin

text \<open>
  Purchase requisitions and orders: the budget commitment of an order
  (\<^verbatim>\<open>accounting/services/procurement_commitments.py\<close>), the legacy encumbrances, the \<^verbatim>\<open>save\<close> methods of both
  documents (\<^verbatim>\<open>procurement/models.py\<close>) and their actions (\<^verbatim>\<open>procurement/views.py\<close>).  The lines of a stored
  document are read from its row; row locks have no effect on a run of one request.
\<close>

section \<open>Amounts by account\<close>

fun add_amount :: "nat \<Rightarrow> rat \<Rightarrow> (nat \<times> rat) list \<Rightarrow> (nat \<times> rat) list" where
  \<comment> \<open>\<^verbatim>\<open>totals[a] = totals.get(a, 0) + x\<close>, in insertion order\<close>
  "add_amount a x [] = [(a, x)]"
| "add_amount a x ((b, y) # ts) = (if a = b then (b, y + x) # ts else (b, y) # add_amount a x ts)"

definition totals_by_account :: "(nat \<times> rat) list \<Rightarrow> (nat \<times> rat) list" where
  "totals_by_account entries = fold (\<lambda>(a, x) ts. add_amount a x ts) entries []"

definition account_code :: "nat \<Rightarrow> 'z ledger_scheme \<Rightarrow> string" where
  "account_code a s = (case account_of a s of Some x \<Rightarrow> ac_code x | None \<Rightarrow> [])"

section \<open>The commitment of an order\<close>

definition OPEN_LINK :: "string list" where
  "OPEN_LINK = [''ACTIVE'', ''INVOICED'']"

definition order_subtotal :: "purchase_order \<Rightarrow> rat" where
  "order_subtotal p = sum_list (map (\<lambda>l. ol_quantity l * ol_price l) (po_lines p))"

definition order_total :: "purchase_order \<Rightarrow> rat" where
  "order_total p = order_subtotal p + po_tax p"

definition order_link :: "nat \<Rightarrow> 'z budget_state_scheme \<Rightarrow> commitment option" where
  "order_link i s = find_row cm_po i (commitments s)"

definition warrant_allows_order ::
    "nat \<Rightarrow> nat option \<Rightarrow> nat \<Rightarrow> nat \<Rightarrow> rat \<Rightarrow> 'z budget_state_scheme \<Rightarrow> bool" where
  \<comment> \<open>\<^verbatim>\<open>check_warrant_availability(..., exclude_po=po)\<close>, strict\<close>
  "warrant_allows_order i mda fund account amount s =
     (case (mda, List.find (\<lambda>g. sg_legacy g = mda) (admin_segments s), List.find (\<lambda>g. sg_legacy g = Some fund) (fund_segments s)) of
        (Some _, Some ag, Some fg) \<Rightarrow>
          (case nearest_appropriation account
                  (\<lambda>a. ap_admin a = sg_id ag \<and> ap_fund a = sg_id fg \<and> is_active_ci (ap_status a)) s of
             None \<Rightarrow> False
           | Some a \<Rightarrow>
               let consumed = max 0 (ap_amount a - available_balance a s);
                   others = (case List.find (\<lambda>c. cm_po c = i \<and> cm_appropriation c = ap_id a) (commitments s) of
                               Some c \<Rightarrow> max 0 (consumed - cm_amount c) | None \<Rightarrow> consumed)
               in amount \<le> total_warrants_released (ap_id a) s - others)
      | _ \<Rightarrow> False)"

definition put_link :: "commitment \<Rightarrow> 'z budget_state_scheme \<Rightarrow> 'z budget_state_scheme" where
  \<comment> \<open>\<^verbatim>\<open>update_or_create(purchase_order=po, ...)\<close>\<close>
  "put_link c s =
     s\<lparr>commitments := (case order_link (cm_po c) s of
                         None \<Rightarrow> commitments s @ [c] | Some _ \<Rightarrow> put_row cm_po c (commitments s))\<rparr>"

definition prior_commitment :: "nat \<Rightarrow> 'z budget_state_scheme \<Rightarrow> rat" where
  "prior_commitment i s =
     (case order_link i s of Some c \<Rightarrow> if cm_status c \<in> set OPEN_LINK then cm_amount c else 0 | None \<Rightarrow> 0)"

definition order_appropriation :: "purchase_order \<Rightarrow> nat \<Rightarrow> 'z budget_state_scheme \<Rightarrow> appropriation option" where
  "order_appropriation p account s =
     find_matching_appropriation (legacy_mda_of (po_mda p) s) (legacy_fund_of (Some (po_fund p)) s)
       (Some account) (Some (d_year (po_date p))) s"

definition commit_against :: "purchase_order \<Rightarrow> nat \<Rightarrow> rat \<Rightarrow> appropriation \<Rightarrow> 'z budget_state_scheme \<Rightarrow> err + 'z budget_state_scheme" where
  \<comment> \<open>the locked block of \<^verbatim>\<open>create_commitment_for_po\<close>\<close>
  "commit_against p account amount a s =
     (let projected = total_committed a s - prior_commitment (po_id p) s + total_expended a s + amount
      in if projected > ap_amount a then Inl BudgetExceededError
         else if warrant_before_payment s \<and> \<not> warrant_allows_order (po_id p) (po_mda p) (po_fund p) account amount s
         then Inl BudgetExceededError
         else refresh_totals (ap_id a)
                (put_link \<lparr>cm_po = po_id p, cm_appropriation = ap_id a, cm_amount = db_decimal amount, cm_status = ''ACTIVE''\<rparr> s))"

definition create_commitment_for_po :: "purchase_order \<Rightarrow> rat option \<Rightarrow> 'z budget_state_scheme \<Rightarrow> err + (bool \<times> 'z budget_state_scheme)" where
  "create_commitment_for_po p committed s =
     (case (legacy_mda_of (po_mda p) s, po_lines p) of
        (Some m, l # _) \<Rightarrow>
          let amount = (case committed of Some x \<Rightarrow> x | None \<Rightarrow> order_total p)
          in (case order_appropriation p (ol_account l) s of
                None \<Rightarrow> if ck_blocked (check_policy (account_code (ol_account l) s) None (Some amount) s)
                        then Inl BudgetExceededError else Inr (False, s)
              | Some a \<Rightarrow> rbind (commit_against p (ol_account l) amount a s) (\<lambda>s'. Inr (True, s')))
      | _ \<Rightarrow> Inr (False, s))"

definition move_link :: "nat \<Rightarrow> string list \<Rightarrow> string \<Rightarrow> 'z budget_state_scheme \<Rightarrow> nat \<times> 'z budget_state_scheme" where
  \<comment> \<open>\<^verbatim>\<open>filter(purchase_order=po, status__in=old).update(status=new)\<close>\<close>
  "move_link i old new s =
     (length (filter (\<lambda>c. cm_po c = i \<and> cm_status c \<in> set old) (commitments s)),
      s\<lparr>commitments := map (\<lambda>c. if cm_po c = i \<and> cm_status c \<in> set old then c\<lparr>cm_status := new\<rparr> else c) (commitments s)\<rparr>)"

definition move_and_refresh :: "nat \<Rightarrow> string list \<Rightarrow> string \<Rightarrow> 'z budget_state_scheme \<Rightarrow> err + (nat \<times> 'z budget_state_scheme)" where
  "move_and_refresh i old new s =
     (case order_link i s of
        None \<Rightarrow> Inr (0, s)
      | Some c \<Rightarrow>
          let (n, s1) = move_link i old new s
          in if n = 0 then Inr (0, s1) else rbind (refresh_totals (cm_appropriation c) s1) (\<lambda>s2. Inr (n, s2)))"

definition cancel_commitment_for_po :: "nat \<Rightarrow> 'z budget_state_scheme \<Rightarrow> err + (nat \<times> 'z budget_state_scheme)" where
  "cancel_commitment_for_po i s = move_and_refresh i OPEN_LINK ''CANCELLED'' s"

definition mark_commitment_invoiced_for_po :: "nat \<Rightarrow> 'z budget_state_scheme \<Rightarrow> err + (nat \<times> 'z budget_state_scheme)" where
  "mark_commitment_invoiced_for_po i s = move_and_refresh i [''ACTIVE''] ''INVOICED'' s"

definition mark_commitment_closed_for_po :: "nat \<Rightarrow> 'z budget_state_scheme \<Rightarrow> err + (nat \<times> 'z budget_state_scheme)" where
  "mark_commitment_closed_for_po i s =
     (let touched = map cm_appropriation (filter (\<lambda>c. cm_po c = i) (commitments s));
          (n, s1) = move_link i OPEN_LINK ''CLOSED'' s
      in rbind (refresh_many (map ap_id (filter (\<lambda>a. ap_id a \<in> set touched) (ordered_appropriations s1))) s1) (\<lambda>s2. Inr (n, s2)))"

definition refresh_appropriations_for_po :: "purchase_order \<Rightarrow> 'z budget_state_scheme \<Rightarrow> nat \<times> 'z budget_state_scheme" where
  "refresh_appropriations_for_po p s =
     (let touched = remdups (map cm_appropriation (filter (\<lambda>c. cm_po c = po_id p) (commitments s))
                      @ map ap_id (List.map_filter (\<lambda>l. order_appropriation p (ol_account l) s) (po_lines p)))
      in (length touched,
          case refresh_many (map ap_id (filter (\<lambda>a. ap_id a \<in> set touched) (ordered_appropriations s))) s of
            Inr s' \<Rightarrow> s' | Inl _ \<Rightarrow> s))"

section \<open>Legacy budgets and encumbrances\<close>

definition get_active_budget :: "nat option \<Rightarrow> nat \<Rightarrow> nat \<Rightarrow> date \<Rightarrow> 'z purchasing_state_scheme \<Rightarrow> legacy_budget option" where
  \<comment> \<open>for dimensions with a fund\<close>
  "get_active_budget mda fund account d s =
     (let covering = filter (\<lambda>p. bp_start p \<le> d \<and> d \<le> bp_end p) (budget_periods s);
          period = (case qs_first bp_order (filter (\<lambda>p. is_active_ci (bp_status p)) covering) of
                      Some p \<Rightarrow> Some p | None \<Rightarrow> qs_first bp_order covering)
      in case period of
           None \<Rightarrow> None
         | Some p \<Rightarrow> qs_first lb_code
             (filter (\<lambda>b. lb_period b = Some (bp_id p) \<and> lb_account b = Some account
                        \<and> (mda \<noteq> None \<longrightarrow> lb_mda b = mda) \<and> lb_fund b = Some fund) (legacy_budgets s)))"

definition put_encumbrance :: "encumbrance \<Rightarrow> 'z purchasing_state_scheme \<Rightarrow> err + 'z purchasing_state_scheme" where
  \<comment> \<open>\<^verbatim>\<open>update_or_create(budget=..., reference_type=..., reference_id=..., defaults=...)\<close>\<close>
  "put_encumbrance e s =
     (let same = (\<lambda>x. ec_budget x = ec_budget e \<and> ec_type x = ec_type e \<and> ec_reference x = ec_reference e)
      in case filter same (encumbrances s) of
           [] \<Rightarrow> Inr (s\<lparr>encumbrances := encumbrances s @ [e]\<rparr>)
         | [_] \<Rightarrow> Inr (s\<lparr>encumbrances := map (\<lambda>x. if same x then e else x) (encumbrances s)\<rparr>)
         | _ \<Rightarrow> Inl MultipleObjectsReturned)"

definition cancel_budget_encumbrance :: "nat \<Rightarrow> 'z purchasing_state_scheme \<Rightarrow> 'z purchasing_state_scheme" where
  "cancel_budget_encumbrance i s =
     s\<lparr>encumbrances := map (\<lambda>e. if ec_type e = ''PO'' \<and> ec_reference e = i \<and> ec_status e = ''ACTIVE''
                                then e\<lparr>ec_status := ''CANCELLED''\<rparr> else e) (encumbrances s)\<rparr>"

section \<open>Saving an order\<close>

definition calculate_tax :: "purchase_order \<Rightarrow> purchase_order" where
  "calculate_tax p = p\<lparr>po_tax := quantize_currency (dec_mul (order_subtotal p) (dec_div (po_tax_rate p) 100))\<rparr>"

definition order_clean :: "purchase_order \<Rightarrow> 'z purchasing_state_scheme \<Rightarrow> err + unit" where
  "order_clean p s =
     (if (case find_row su_id (po_vendor p) (suppliers s) of Some v \<Rightarrow> \<not> su_active v | None \<Rightarrow> False) then Inl ValidationError
      else if (case po_delivery p of Some d \<Rightarrow> d < po_date p | None \<Rightarrow> False) then Inl ValidationError
      else Inr ())"

definition check_warrant_ceiling :: "purchase_order \<Rightarrow> 'z purchasing_state_scheme \<Rightarrow> err + unit" where
  "check_warrant_ceiling p s =
     (let totals = totals_by_account (map (\<lambda>l. (ol_account l, ol_quantity l * ol_price l)) (po_lines p));
          taxed = (case totals of [] \<Rightarrow> [] | (a, x) # ts \<Rightarrow> (a, x + po_tax p) # ts)
      in if warrant_before_payment s
            \<and> list_ex (\<lambda>(a, x). \<not> warrant_allows_order (po_id p) (po_mda p) (po_fund p) a x s) taxed
         then Inl ValidationError else Inr ())"

definition encumber_account :: "purchase_order \<Rightarrow> nat \<times> rat \<Rightarrow> bool \<times> 'z purchasing_state_scheme \<Rightarrow> err + (bool \<times> 'z purchasing_state_scheme)" where
  \<comment> \<open>one account of the loop; the flag says whether an account has been blocked so far\<close>
  "encumber_account p t bs =
     (let (account, amount) = t; (blocked, s) = bs;
          result = check_policy (account_code account s) (order_appropriation p account s) (Some amount) s
      in rbind (case get_active_budget (po_mda p) (po_fund p) account (po_date p) s of
                  None \<Rightarrow> Inr s
                | Some b \<Rightarrow> put_encumbrance \<lparr>ec_budget = lb_id b, ec_type = ''PO'', ec_reference = po_id p, ec_date = po_date p,
                              ec_amount = db_decimal amount, ec_status = ''ACTIVE''\<rparr> s)
           (\<lambda>s'. Inr (blocked \<or> ck_blocked result, s')))"

definition process_budget_encumbrance :: "purchase_order \<Rightarrow> 'z purchasing_state_scheme \<Rightarrow> err + 'z purchasing_state_scheme" where
  "process_budget_encumbrance p s =
     rbind (rfold (encumber_account p)
              (totals_by_account (map (\<lambda>l. (ol_account l, ol_price l * ol_quantity l)) (po_lines p))) (False, s))
       (\<lambda>(blocked, s'). if blocked then Inl ValidationError else Inr s')"

definition order_unique :: "purchase_order \<Rightarrow> purchase_order list \<Rightarrow> bool" where
  \<comment> \<open>\<^verbatim>\<open>po_number\<close> is unique, and \<^verbatim>\<open>uniq_active_po_per_purchase_request\<close>\<close>
  "order_unique p others \<longleftrightarrow>
     po_number p \<notin> po_number ` set others
     \<and> (po_request p \<noteq> None \<and> po_status p \<noteq> ''Rejected''
         \<longrightarrow> \<not> list_ex (\<lambda>q. po_request q = po_request p \<and> po_status q \<noteq> ''Rejected'') others)"

definition write_order :: "purchase_order \<Rightarrow> 'z purchasing_state_scheme \<Rightarrow> err + 'z purchasing_state_scheme" where
  "write_order p s =
     (if order_unique p (filter (\<lambda>q. po_id q \<noteq> po_id p) (orders s))
      then Inr (s\<lparr>orders := put_row po_id p (orders s)\<rparr>) else Inl IntegrityError)"

abbreviation committed_status :: "string \<Rightarrow> bool" where
  "committed_status t \<equiv> t = ''Approved'' \<or> t = ''Posted''"

definition order_side_effects :: "string \<Rightarrow> purchase_order \<Rightarrow> 'z purchasing_state_scheme \<Rightarrow> err + 'z purchasing_state_scheme" where
  "order_side_effects old p s =
     (if committed_status (po_status p) then
        rbind (if committed_status old then Inr s
               else rbind (check_warrant_ceiling p s) (\<lambda>_. process_budget_encumbrance p s))
          (\<lambda>s1. rbind (create_commitment_for_po p None s1) (\<lambda>(_, s2). Inr s2))
      else if committed_status old \<and> po_status p \<in> {''Rejected'', ''Closed''} then
        rbind (cancel_commitment_for_po (po_id p) (cancel_budget_encumbrance (po_id p) s)) (\<lambda>(_, s2). Inr s2)
      else Inr s)"

definition save_order :: "purchase_order \<Rightarrow> 'z purchasing_state_scheme \<Rightarrow> err + 'z purchasing_state_scheme" where
  \<comment> \<open>\<^verbatim>\<open>PurchaseOrder.save()\<close> of an existing row\<close>
  "save_order p s =
     (case find_row po_id (po_id p) (orders s) of
        None \<Rightarrow> Inl DoesNotExist
      | Some old \<Rightarrow>
          let p1 = calculate_tax (p\<lparr>po_number := (if po_number p = [] then generate_po_number s else po_number p), po_lines := po_lines old\<rparr>)
          in rbind (order_clean p1 s)
               (\<lambda>_. rbind (validate_status_transition ORDER_TRANSITIONS (Some (po_status old)) (po_status p1))
                 (\<lambda>_. rbind (order_side_effects (po_status old) p1 s) (write_order p1))))"

definition insert_order :: "purchase_order \<Rightarrow> 'z purchasing_state_scheme \<Rightarrow> err + (nat \<times> 'z purchasing_state_scheme)" where
  \<comment> \<open>\<^verbatim>\<open>PurchaseOrder.objects.create()\<close>: no lines yet, no side effects\<close>
  "insert_order p s =
     (let k = fresh_pk po_id (orders s);
          p1 = p\<lparr>po_id := k, po_number := (if po_number p = [] then generate_po_number s else po_number p), po_lines := []\<rparr>
      in rbind (order_clean p1 s)
           (\<lambda>_. if order_unique p1 (orders s) then Inr (k, s\<lparr>orders := orders s @ [p1]\<rparr>) else Inl IntegrityError))"

definition put_order_line :: "nat \<Rightarrow> (order_line list \<Rightarrow> order_line list) \<Rightarrow> 'z purchasing_state_scheme \<Rightarrow> err + 'z purchasing_state_scheme" where
  \<comment> \<open>a change of one line row and \<^verbatim>\<open>_refresh_po_commitment\<close>\<close>
  "put_order_line i f s =
     (case find_row po_id i (orders s) of
        None \<Rightarrow> Inl DoesNotExist
      | Some p \<Rightarrow>
          let p1 = p\<lparr>po_lines := f (po_lines p)\<rparr>; s1 = s\<lparr>orders := put_row po_id p1 (orders s)\<rparr>
          in if committed_status (po_status p1)
             then rbind (create_commitment_for_po p1 None s1) (\<lambda>(_, s2). Inr s2) else Inr s1)"

section \<open>Requisitions\<close>

definition request_totals :: "purchase_request \<Rightarrow> (nat \<times> rat) list" where
  "request_totals r =
     totals_by_account (List.map_filter (\<lambda>l. map_option (\<lambda>a. (a, rl_price l * rl_quantity l)) (rl_account l)) (pr_lines r))"

definition request_appropriation :: "purchase_request \<Rightarrow> nat \<Rightarrow> 'z purchasing_state_scheme \<Rightarrow> appropriation option" where
  "request_appropriation r account s =
     find_matching_appropriation (legacy_mda_of (pr_mda r) s) (legacy_fund_of (Some (pr_fund r)) s)
       (Some account) (Some (d_year (pr_date r))) s"

definition request_blocked :: "purchase_request \<Rightarrow> 'z purchasing_state_scheme \<Rightarrow> bool" where
  "request_blocked r s \<longleftrightarrow>
     list_ex (\<lambda>(a, x). ck_blocked (check_policy (account_code a s) (request_appropriation r a s) (Some x) s)) (request_totals r)"

definition validate_request_budget :: "purchase_request \<Rightarrow> 'z purchasing_state_scheme \<Rightarrow> err + unit" where
  "validate_request_budget r s = (if request_blocked r s then Inl ValidationError else Inr ())"

definition save_request :: "purchase_request \<Rightarrow> 'z purchasing_state_scheme \<Rightarrow> err + 'z purchasing_state_scheme" where
  \<comment> \<open>\<^verbatim>\<open>PurchaseRequest.save()\<close> of an existing row\<close>
  "save_request r s =
     (case find_row pr_id (pr_id r) (requests s) of
        None \<Rightarrow> Inl DoesNotExist
      | Some old \<Rightarrow>
          let r1 = r\<lparr>pr_number := (if pr_number r = [] then generate_pr_number s else pr_number r), pr_lines := pr_lines old\<rparr>
          in rbind (validate_status_transition REQUEST_TRANSITIONS (Some (pr_status old)) (pr_status r1))
               (\<lambda>_. rbind (if pr_status r1 = ''Approved'' \<and> pr_status old \<noteq> ''Approved''
                           then validate_request_budget r1 s else Inr ())
                 (\<lambda>_. if pr_number r1 \<in> pr_number ` set (filter (\<lambda>q. pr_id q \<noteq> pr_id r1) (requests s)) then Inl IntegrityError
                      else Inr (s\<lparr>requests := put_row pr_id r1 (requests s)\<rparr>))))"

definition REQUEST_STATUSES :: "string list" where
  "REQUEST_STATUSES = [''Draft'', ''Pending'', ''Approved'', ''Rejected'']"

definition create_request :: "purchase_request \<Rightarrow> 'z purchasing_state_scheme \<Rightarrow> err + (nat \<times> 'z purchasing_state_scheme)" where
  \<comment> \<open>\<^verbatim>\<open>POST /requests/\<close> with validated data; the status is writable, and the period check of the serializer reads a
      date that is read-only\<close>
  "create_request r s =
     (let k = fresh_pk pr_id (requests s); r1 = r\<lparr>pr_id := k, pr_number := generate_pr_number s, pr_date := today s\<rparr>
      in if pr_status r \<notin> set REQUEST_STATUSES then Inl ValidationError
         else if pr_number r1 \<in> pr_number ` set (requests s) then Inl IntegrityError
         else Inr (k, s\<lparr>requests := requests s @ [r1]\<rparr>))"

definition patch_request_status :: "nat \<Rightarrow> string \<Rightarrow> 'z purchasing_state_scheme \<Rightarrow> err + 'z purchasing_state_scheme" where
  "patch_request_status i t s =
     (case find_row pr_id i (requests s) of
        None \<Rightarrow> Inl DoesNotExist
      | Some r \<Rightarrow> if t \<notin> set REQUEST_STATUSES then Inl ValidationError else save_request (r\<lparr>pr_status := t\<rparr>) s)"

definition request_encumbrances :: "purchase_request \<Rightarrow> 'z purchasing_state_scheme \<Rightarrow> encumbrance list" where
  \<comment> \<open>the rows the approval creates, one for each account with a legacy budget\<close>
  "request_encumbrances r s =
     List.map_filter (\<lambda>(a, x). map_option (\<lambda>b. \<lparr>ec_budget = lb_id b, ec_type = ''PR'', ec_reference = pr_id r, ec_date = pr_date r,
                                     ec_amount = db_decimal x, ec_status = ''ACTIVE''\<rparr>)
         (get_active_budget (pr_mda r) (pr_fund r) a (pr_date r) s)) (request_totals r)"

definition approve_stored_request :: "purchase_request \<Rightarrow> 'z purchasing_state_scheme \<Rightarrow> err + 'z purchasing_state_scheme" where
  \<comment> \<open>the atomic block both approvals share\<close>
  "approve_stored_request r s =
     (if request_blocked r s then Inl ValueError
      else save_request (r\<lparr>pr_status := ''Approved''\<rparr>) (s\<lparr>encumbrances := encumbrances s @ request_encumbrances r s\<rparr>))"

definition approve_request :: "nat \<Rightarrow> 'z purchasing_state_scheme \<Rightarrow> err + 'z purchasing_state_scheme" where
  "approve_request i s =
     (case find_row pr_id i (requests s) of
        None \<Rightarrow> Inl DoesNotExist
      | Some r \<Rightarrow> if pr_status r \<noteq> ''Pending'' then Inl ApprovalError else approve_stored_request r s)"

definition reject_request :: "nat \<Rightarrow> 'z purchasing_state_scheme \<Rightarrow> err + 'z purchasing_state_scheme" where
  "reject_request i s =
     (case find_row pr_id i (requests s) of
        None \<Rightarrow> Inl DoesNotExist
      | Some r \<Rightarrow> if pr_status r \<notin> {''Pending'', ''Draft''} then Inl ApprovalError
                  else save_request (r\<lparr>pr_status := ''Rejected''\<rparr>) s)"

datatype bulk_outcome = Done nat | Skipped nat | Failed nat err

fun bulk_approve_requests :: "purchase_request list \<Rightarrow> 'z purchasing_state_scheme \<Rightarrow> bulk_outcome list \<times> 'z purchasing_state_scheme" where
  \<comment> \<open>the selected rows, as loaded when the loop starts\<close>
  "bulk_approve_requests [] s = ([], s)"
| "bulk_approve_requests (r # rs) s =
     (let (o1, s1) = (if pr_status r \<notin> {''Draft'', ''Pending''} then (Skipped (pr_id r), s)
                      else case approve_stored_request r s of Inl e \<Rightarrow> (Failed (pr_id r) e, s) | Inr s' \<Rightarrow> (Done (pr_id r), s'));
          (os, s2) = bulk_approve_requests rs s1
      in (o1 # os, s2))"

definition bulk_approve :: "nat list \<Rightarrow> 'z purchasing_state_scheme \<Rightarrow> (err + bulk_outcome list) \<times> 'z purchasing_state_scheme" where
  "bulk_approve is s =
     (if is = [] \<or> 100 < length is then (Inl ValueError, s)
      else let (os, s') = bulk_approve_requests (filter (\<lambda>r. pr_id r \<in> set is) (requests s)) s in (Inr os, s'))"

definition delete_request :: "nat \<Rightarrow> 'z purchasing_state_scheme \<Rightarrow> 'z purchasing_state_scheme" where
  \<comment> \<open>\<^verbatim>\<open>pr.delete()\<close>: the orders' reference is set to null\<close>
  "delete_request i s =
     s\<lparr>requests := filter (\<lambda>r. pr_id r \<noteq> i) (requests s),
       orders := map (\<lambda>p. if po_request p = Some i then p\<lparr>po_request := None\<rparr> else p) (orders s)\<rparr>"

definition bulk_delete :: "nat list \<Rightarrow> 'z purchasing_state_scheme \<Rightarrow> (err + bulk_outcome list) \<times> 'z purchasing_state_scheme" where
  "bulk_delete is s =
     (if is = [] \<or> 100 < length is then (Inl ValueError, s)
      else let rs = List.map_filter (\<lambda>i. find_row pr_id i (requests s)) (remdups is);
               deletable = (\<lambda>r. pr_status r \<in> {''Draft'', ''Rejected''})
           in (Inr (map (\<lambda>r. if deletable r then Done (pr_id r) else Skipped (pr_id r)) rs),
               fold (\<lambda>r. delete_request (pr_id r)) (filter deletable rs) s))"

section \<open>From a requisition to an order\<close>

definition match_order_seq :: "string \<Rightarrow> int option" where
  \<comment> \<open>\<^verbatim>\<open>PO-\d{4}-(\d+)\<close> at the start\<close>
  "match_order_seq t =
     (let year = take 4 (drop 3 t)
      in if has_prefix ''PO-'' t \<and> length year = 4 \<and> list_all is_digit year \<and> has_prefix ''-'' (drop 7 t)
         then parse_digits (takeWhile is_digit (drop 8 t)) else None)"

fun search_order_seq :: "string \<Rightarrow> int option" where
  "search_order_seq [] = None"
| "search_order_seq (c # t) = (case match_order_seq (c # t) of Some n \<Rightarrow> Some n | None \<Rightarrow> search_order_seq t)"

definition conversion_number :: "'z purchasing_state_scheme \<Rightarrow> string" where
  "conversion_number s =
     (let taken = filter (has_prefix (year_prefix ''PO'' s)) (map po_number (orders s));
          max_seq = fold max (List.map_filter search_order_seq taken) 0;
          next_seq = (if max_seq > 0 then max_seq + 1
                      else if orders s = [] then 1 else int (Max (set (map po_id (orders s)))) + 1)
      in year_prefix ''PO'' s @ zpad 5 (nat next_seq))"

definition convert_to_po :: "nat \<Rightarrow> nat \<Rightarrow> date \<Rightarrow> date option \<Rightarrow> 'z purchasing_state_scheme \<Rightarrow> err + (nat \<times> 'z purchasing_state_scheme)" where
  \<comment> \<open>the order has no MDA: \<^verbatim>\<open>mda\<close> is not among the columns copied\<close>
  "convert_to_po i vendor d delivery s =
     (case (find_row pr_id i (requests s), find_row su_id vendor (suppliers s)) of
        (None, _) \<Rightarrow> Inl DoesNotExist
      | (Some r, v) \<Rightarrow>
          if pr_status r \<noteq> ''Approved'' then Inl ValueError
          else if v = None then Inl DoesNotExist
          else rbind (insert_order \<lparr>po_id = 0, po_number = conversion_number s, po_vendor = vendor, po_request = Some i,
                        po_date = d, po_delivery = delivery, po_tax_rate = 0, po_tax = 0, po_mda = None, po_fund = pr_fund r,
                        po_function = pr_function r, po_program = pr_program r, po_geo = pr_geo r,
                        po_status = ''Draft'', po_lines = []\<rparr> s)
                 (\<lambda>(k, s1). if list_ex (\<lambda>l. rl_account l = None) (pr_lines r) then Inl IntegrityError
                   else let base = fresh_pk ol_id (concat (map po_lines (orders s1)));
                            ls = map (\<lambda>(n, l). \<lparr>ol_id = base + n, ol_quantity = rl_quantity l, ol_received = 0,
                                        ol_price = rl_price l, ol_account = the (rl_account l), ol_item = rl_item l,
                                        ol_asset = rl_asset l\<rparr>) (zip [0 ..< length (pr_lines r)] (pr_lines r))
                        in Inr (k, s1\<lparr>orders := upd_row po_id k (\<lambda>p. p\<lparr>po_lines := ls\<rparr>) (orders s1)\<rparr>)))"

section \<open>The actions on an order\<close>

definition with_order :: "nat \<Rightarrow> (purchase_order \<Rightarrow> 'z purchasing_state_scheme \<Rightarrow> err + 'z purchasing_state_scheme) \<Rightarrow>
    'z purchasing_state_scheme \<Rightarrow> err + 'z purchasing_state_scheme" where
  "with_order i f s = (case find_row po_id i (orders s) of None \<Rightarrow> Inl DoesNotExist | Some p \<Rightarrow> f p s)"

definition registration_valid :: "supplier \<Rightarrow> 'z purchasing_state_scheme \<Rightarrow> bool" where
  "registration_valid v s \<longleftrightarrow> su_active v \<and> (case su_expiry v of None \<Rightarrow> True | Some d \<Rightarrow> today s \<le> d)"

definition validate_order :: "purchase_order \<Rightarrow> 'z purchasing_state_scheme \<Rightarrow> err + unit" where
  \<comment> \<open>\<^verbatim>\<open>PurchaseOrderSerializer.validate\<close>; its price check reads a key the line serializer does not have\<close>
  "validate_order p s =
     (if (case find_row su_id (po_vendor p) (suppliers s) of Some v \<Rightarrow> \<not> registration_valid v s | None \<Rightarrow> False) then Inl ValidationError
      else if (case po_delivery p of Some d \<Rightarrow> d < po_date p | None \<Rightarrow> False) then Inl ValidationError
      else if (case Option.bind (po_request p) (\<lambda>r. find_row pr_id r (requests s)) of
                 Some r \<Rightarrow> pr_status r \<noteq> ''Approved'' | None \<Rightarrow> False) then Inl ValidationError
      else Inr ())"

fun create_order_lines :: "nat \<Rightarrow> order_line list \<Rightarrow> 'z purchasing_state_scheme \<Rightarrow> (err + unit) \<times> 'z purchasing_state_scheme" where
  \<comment> \<open>each row is committed before the commitment of its order is refreshed\<close>
  "create_order_lines i [] s = (Inr (), s)"
| "create_order_lines i (l # ls) s =
     (let k = fresh_pk ol_id (concat (map po_lines (orders s)));
          s1 = s\<lparr>orders := upd_row po_id i (\<lambda>p. p\<lparr>po_lines := po_lines p @ [l\<lparr>ol_id := k\<rparr>]\<rparr>) (orders s)\<rparr>
      in case find_row po_id i (orders s1) of
           None \<Rightarrow> (Inl DoesNotExist, s1)
         | Some p \<Rightarrow>
             if committed_status (po_status p)
             then (case create_commitment_for_po p None s1 of
                     Inl e \<Rightarrow> (Inl e, s1) | Inr (_, s2) \<Rightarrow> create_order_lines i ls s2)
             else create_order_lines i ls s1)"

definition create_order :: "purchase_order \<Rightarrow> 'z purchasing_state_scheme \<Rightarrow> (err + nat) \<times> 'z purchasing_state_scheme" where
  \<comment> \<open>\<^verbatim>\<open>POST /orders/\<close> with the validated data; no transaction around its writes\<close>
  "create_order p s =
     (if (case po_request p of None \<Rightarrow> False
          | Some r \<Rightarrow> list_ex (\<lambda>q. po_request q = Some r \<and> po_status q \<noteq> ''Rejected'') (orders s))
      then (Inl IntegrityError, s)
      else case rbind (validate_order p s) (\<lambda>_. insert_order (p\<lparr>po_number := []\<rparr>) s) of
             Inl e \<Rightarrow> (Inl e, s)
           | Inr (k, s1) \<Rightarrow>
               (case create_order_lines k (po_lines p) s1 of
                  (Inl e, s2) \<Rightarrow> (Inl e, s2)
                | (Inr _, s2) \<Rightarrow> (case with_order k save_order s2 of Inl e \<Rightarrow> (Inl e, s2) | Inr s3 \<Rightarrow> (Inr k, s3))))"

definition approve_order :: "nat \<Rightarrow> 'z purchasing_state_scheme \<Rightarrow> err + 'z purchasing_state_scheme" where
  "approve_order i = with_order i
     (\<lambda>p s. if po_status p \<noteq> ''Pending'' then Inl ApprovalError else save_order (p\<lparr>po_status := ''Approved''\<rparr>) s)"

definition reject_order :: "nat \<Rightarrow> 'z purchasing_state_scheme \<Rightarrow> err + 'z purchasing_state_scheme" where
  "reject_order i = with_order i
     (\<lambda>p s. if po_status p \<noteq> ''Pending'' then Inl ApprovalError else save_order (p\<lparr>po_status := ''Rejected''\<rparr>) s)"

definition post_order :: "nat \<Rightarrow> 'z purchasing_state_scheme \<Rightarrow> err + 'z purchasing_state_scheme" where
  \<comment> \<open>\<^verbatim>\<open>post_purchase_order\<close> writes no journal\<close>
  "post_order i = with_order i
     (\<lambda>p s. if po_status p = ''Posted'' then Inl ApprovalError else save_order (p\<lparr>po_status := ''Posted''\<rparr>) s)"

definition active_receipts :: "nat \<Rightarrow> 'z purchasing_state_scheme \<Rightarrow> receipt list" where
  "active_receipts i s = filter (\<lambda>g. gn_order g = i \<and> gn_status g \<noteq> ''Cancelled'') (receipts s)"

definition close_order :: "nat \<Rightarrow> 'z purchasing_state_scheme \<Rightarrow> err + 'z purchasing_state_scheme" where
  "close_order i = with_order i
     (\<lambda>p s. if \<not> committed_status (po_status p) \<or> active_receipts i s \<noteq> [] then Inl ApprovalError
            else save_order (p\<lparr>po_status := ''Closed''\<rparr>) s)"

definition cancel_order :: "nat \<Rightarrow> 'z purchasing_state_scheme \<Rightarrow> err + 'z purchasing_state_scheme" where
  "cancel_order i = with_order i
     (\<lambda>p s. if po_status p \<in> {''Rejected'', ''Closed'', ''Posted''} \<or> active_receipts i s \<noteq> []
               \<or> list_ex (\<lambda>m. im_order m = Some i \<and> im_status m \<notin> {''Rejected'', ''Draft''}) (matchings s)
            then Inl ApprovalError else save_order (p\<lparr>po_status := ''Rejected''\<rparr>) s)"

definition ORDER_STATUSES :: "string list" where
  "ORDER_STATUSES = [''Draft'', ''Pending'', ''Approved'', ''Posted'', ''Rejected'', ''Closed'']"

definition patch_order_status :: "nat \<Rightarrow> string \<Rightarrow> 'z purchasing_state_scheme \<Rightarrow> err + 'z purchasing_state_scheme" where
  \<comment> \<open>\<^verbatim>\<open>PATCH {"status": t}\<close>: the serializer does not make the status read-only\<close>
  "patch_order_status i t = with_order i
     (\<lambda>p s. if active_receipts i s \<noteq> [] then Inl ApprovalError
            else if t \<notin> set ORDER_STATUSES then Inl ValidationError
            else save_order (p\<lparr>po_status := t\<rparr>) s)"

section \<open>What a write of an order leaves alone\<close>

lemma refresh_totals_frame: "refresh_totals i s = Inr s' \<Longrightarrow> \<exists>ap. s' = s\<lparr>appropriations := ap\<rparr>"
  by (auto simp: refresh_totals_def save_appropriation_def split: option.splits)

lemma refresh_many_frame: "refresh_many is s = Inr s' \<Longrightarrow> \<exists>ap. s' = s\<lparr>appropriations := ap\<rparr>"
  unfolding refresh_many_def
proof (induction "is" arbitrary: s)
  case Nil
  then have "s' = s\<lparr>appropriations := appropriations s\<rparr>" by simp
  then show ?case by blast
next
  case (Cons i "is")
  obtain s1 where "refresh_totals i s = Inr s1" "rfold refresh_totals is s1 = Inr s'"
    using Cons.prems by (auto simp: rbind_eq_Inr)
  moreover obtain ap where "s1 = s\<lparr>appropriations := ap\<rparr>" using refresh_totals_frame calculation(1) by blast
  ultimately show ?case using Cons.IH [of s1] by auto
qed

lemma commit_againstD:
  assumes "commit_against p account x a s = Inr s'"
  obtains ap where
    "s' = (put_link \<lparr>cm_po = po_id p, cm_appropriation = ap_id a, cm_amount = db_decimal x, cm_status = ''ACTIVE''\<rparr> s)
            \<lparr>appropriations := ap\<rparr>"
    "total_committed a s - prior_commitment (po_id p) s + total_expended a s + x \<le> ap_amount a"
    "refresh_totals (ap_id a) (put_link \<lparr>cm_po = po_id p, cm_appropriation = ap_id a, cm_amount = db_decimal x, cm_status = ''ACTIVE''\<rparr> s) = Inr s'"
  using assms refresh_totals_frame unfolding commit_against_def Let_def by (fastforce split: if_splits)

lemma create_commitmentD:
  assumes "create_commitment_for_po p x s = Inr (b, s')"
  shows "(\<not> b \<and> s' = s) \<or>
     (\<exists>l ls a y. b \<and> po_lines p = l # ls \<and> legacy_mda_of (po_mda p) s \<noteq> None \<and> y = (case x of Some v \<Rightarrow> v | None \<Rightarrow> order_total p)
        \<and> order_appropriation p (ol_account l) s = Some a \<and> commit_against p (ol_account l) y a s = Inr s')"
  using assms by (auto simp: create_commitment_for_po_def rbind_eq_Inr Let_def split: option.splits list.splits if_splits)

lemma commitments_put_link: "commitments (put_link c s) =
    (if order_link (cm_po c) s = None then commitments s @ [c] else put_row cm_po c (commitments s))"
  by (simp add: put_link_def split: option.splits)

definition links_of_others :: "nat \<Rightarrow> 'z budget_state_scheme \<Rightarrow> commitment list" where
  "links_of_others i s = filter (\<lambda>c. cm_po c \<noteq> i) (commitments s)"

lemma others_put_link: "links_of_others (cm_po c) (put_link c s) = links_of_others (cm_po c) s"
proof -
  have "filter (\<lambda>x. cm_po x \<noteq> cm_po c) (put_row cm_po c cs) = filter (\<lambda>x. cm_po x \<noteq> cm_po c) cs" for cs
    by (induction cs) (auto simp: put_row_def)
  then show ?thesis by (simp add: links_of_others_def commitments_put_link)
qed

definition budget_write :: "nat \<Rightarrow> 'z budget_state_scheme \<Rightarrow> 'z budget_state_scheme \<Rightarrow> bool" where
  \<comment> \<open>only the links of one order and the caches of budget lines differ\<close>
  "budget_write i s s' \<longleftrightarrow> (\<exists>com ap. s' = s\<lparr>commitments := com, appropriations := ap\<rparr>)
     \<and> links_of_others i s' = links_of_others i s"

lemma budget_writeD: "budget_write i s s' \<Longrightarrow> \<exists>com ap. s' = s\<lparr>commitments := com, appropriations := ap\<rparr>"
  by (simp add: budget_write_def)

lemma budget_write_refl [simp]: "budget_write i s s"
proof -
  have "s = s\<lparr>commitments := commitments s, appropriations := appropriations s\<rparr>" by simp
  then show ?thesis unfolding budget_write_def by blast
qed

lemma budget_write_trans: "budget_write i s t \<Longrightarrow> budget_write i t u \<Longrightarrow> budget_write i s u"
  unfolding budget_write_def by (elim conjE exE) (simp, blast)

lemma put_link_budget_write: "budget_write (cm_po c) s ((put_link c s)\<lparr>appropriations := ap\<rparr>)"
proof -
  have "(put_link c s)\<lparr>appropriations := ap\<rparr> = s\<lparr>commitments := commitments (put_link c s), appropriations := ap\<rparr>"
    by (simp add: put_link_def)
  then show ?thesis using others_put_link [of c s] by (auto simp: budget_write_def links_of_others_def)
qed

lemma create_commitment_write: "create_commitment_for_po p x s = Inr (b, s') \<Longrightarrow> budget_write (po_id p) s s'"
  by (drule create_commitmentD) (auto elim!: commit_againstD intro: put_link_budget_write [of "\<lparr>cm_po = po_id p, cm_appropriation = _, cm_amount = _, cm_status = _\<rparr>", simplified])

lemma move_link_fields:
  "snd (move_link i old new s) = s\<lparr>commitments := map (\<lambda>c. if cm_po c = i \<and> cm_status c \<in> set old then c\<lparr>cm_status := new\<rparr> else c) (commitments s)\<rparr>"
  by (simp add: move_link_def)

lemma move_link_write: "budget_write i s ((snd (move_link i old new s))\<lparr>appropriations := ap\<rparr>)"
proof -
  let ?f = "\<lambda>c. if cm_po c = i \<and> cm_status c \<in> set old then c\<lparr>cm_status := new\<rparr> else c"
  have "filter (\<lambda>c. cm_po c \<noteq> i) (map ?f cs) = filter (\<lambda>c. cm_po c \<noteq> i) cs" for cs
    by (induction cs) auto
  then show ?thesis by (auto simp: budget_write_def links_of_others_def move_link_fields)
qed

lemma move_and_refreshD:
  assumes "move_and_refresh i old new s = Inr (n, s')"
  shows "\<exists>ap. s' = (snd (move_link i old new s))\<lparr>appropriations := ap\<rparr>"
proof (cases "order_link i s")
  case None
  then have "cm_po c \<noteq> i" if "c \<in> set (commitments s)" for c
    using that by (auto simp: order_link_def find_row_None_iff)
  then have "map (\<lambda>c. if cm_po c = i \<and> cm_status c \<in> set old then c\<lparr>cm_status := new\<rparr> else c) (commitments s) = commitments s"
    by (intro map_idI) auto
  then have "s' = (snd (move_link i old new s))\<lparr>appropriations := appropriations s\<rparr>"
    using assms None by (simp add: move_and_refresh_def move_link_fields)
  then show ?thesis by blast
next
  case (Some c)
  obtain s1 where m: "move_link i old new s = (fst (move_link i old new s), s1)" "s1 = snd (move_link i old new s)" by simp
  show ?thesis
  proof (cases "fst (move_link i old new s) = 0")
    case True
    then have "s' = s1\<lparr>appropriations := appropriations s1\<rparr>"
      using assms Some m by (simp add: move_and_refresh_def Let_def split_beta)
    then show ?thesis using m(2) by metis
  next
    case False
    then have "refresh_totals (cm_appropriation c) s1 = Inr s'"
      using assms Some m by (auto simp: move_and_refresh_def Let_def split_beta rbind_eq_Inr)
    then show ?thesis using refresh_totals_frame m(2) by blast
  qed
qed

lemma move_and_refresh_write: "move_and_refresh i old new s = Inr (n, s') \<Longrightarrow> budget_write i s s'"
  using move_and_refreshD move_link_write by blast

section \<open>Inversion of the save\<close>

lemma put_encumbrance_frame: "put_encumbrance e s = Inr s' \<Longrightarrow> \<exists>ec. s' = s\<lparr>encumbrances := ec\<rparr>"
  by (auto simp: put_encumbrance_def Let_def split: list.splits)

lemma encumber_account_frame:
  assumes "encumber_account p t (b, s) = Inr (b', s')"
  shows "\<exists>ec. s' = s\<lparr>encumbrances := ec\<rparr>"
proof (cases "get_active_budget (po_mda p) (po_fund p) (fst t) (po_date p) s")
  case None
  then have "s' = s\<lparr>encumbrances := encumbrances s\<rparr>"
    using assms by (cases t) (simp add: encumber_account_def Let_def)
  then show ?thesis by blast
next
  case (Some x)
  then show ?thesis using assms put_encumbrance_frame
    by (cases t) (auto simp: encumber_account_def Let_def rbind_eq_Inr)
qed

lemma encumber_accounts_frame: "rfold (encumber_account p) ts (b, s) = Inr (b', s') \<Longrightarrow> \<exists>ec. s' = s\<lparr>encumbrances := ec\<rparr>"
proof (induction ts arbitrary: b s)
  case Nil
  then have "s' = s\<lparr>encumbrances := encumbrances s\<rparr>" by simp
  then show ?case by blast
next
  case (Cons t ts)
  obtain b1 s1 where 1: "encumber_account p t (b, s) = Inr (b1, s1)" "rfold (encumber_account p) ts (b1, s1) = Inr (b', s')"
    using Cons.prems by (auto simp: rbind_eq_Inr)
  show ?case using encumber_account_frame [OF 1(1)] Cons.IH [OF 1(2)] by auto
qed

lemma process_budget_frame:
  assumes "process_budget_encumbrance p s = Inr s'"
  shows "\<exists>ec. s' = s\<lparr>encumbrances := ec\<rparr>"
  using assms encumber_accounts_frame by (auto simp: process_budget_encumbrance_def rbind_eq_Inr split: if_splits)

definition order_write :: "nat \<Rightarrow> 'z purchasing_state_scheme \<Rightarrow> 'z purchasing_state_scheme \<Rightarrow> bool" where
  \<comment> \<open>encumbrances, and the budget as in \<open>budget_write\<close>\<close>
  "order_write i s s' \<longleftrightarrow> (\<exists>ec. budget_write i (s\<lparr>encumbrances := ec\<rparr>) s')"

lemma order_writeD: "order_write i s s' \<Longrightarrow> \<exists>ec com ap. s' = s\<lparr>encumbrances := ec, commitments := com, appropriations := ap\<rparr>"
  unfolding order_write_def using budget_writeD by blast

lemma order_write_orders [simp]: "order_write i s s' \<Longrightarrow> orders s' = orders s"
  by (drule order_writeD) auto

lemma order_write_links: "order_write i s s' \<Longrightarrow> links_of_others i s' = links_of_others i s"
  by (auto simp: order_write_def budget_write_def links_of_others_def)

lemma budget_order_write: "budget_write i s s' \<Longrightarrow> order_write i s s'"
  unfolding order_write_def by (rule exI [of _ "encumbrances s"]) simp

lemma side_effects_write:
  assumes "order_side_effects old p s = Inr s'"
  shows "order_write (po_id p) s s'"
proof -
  consider (keep) "s' = s"
    | (commit) s1 b ec where "s1 = s\<lparr>encumbrances := ec\<rparr>" "create_commitment_for_po p None s1 = Inr (b, s')"
    | (cancel) n where "cancel_commitment_for_po (po_id p) (cancel_budget_encumbrance (po_id p) s) = Inr (n, s')"
  proof (cases "committed_status (po_status p)")
    case True
    then obtain s1 b where 1: "(if committed_status old then Inr s else rbind (check_warrant_ceiling p s) (\<lambda>_. process_budget_encumbrance p s)) = Inr s1"
      "create_commitment_for_po p None s1 = Inr (b, s')"
      using assms by (auto simp: order_side_effects_def rbind_eq_Inr)
    have "\<exists>ec. s1 = s\<lparr>encumbrances := ec\<rparr>"
    proof (cases "committed_status old")
      case True
      then have "s1 = s\<lparr>encumbrances := encumbrances s\<rparr>" using 1(1) by simp
      then show ?thesis by blast
    next
      case False
      then show ?thesis using 1(1) process_budget_frame by (auto simp: rbind_eq_Inr)
    qed
    then show thesis using that(2) 1(2) by blast
  next
    case False
    then show thesis using assms that(1,3) by (auto simp: order_side_effects_def rbind_eq_Inr split: if_splits)
  qed
  then show ?thesis
  proof cases
    case keep
    then show ?thesis by (simp add: budget_order_write)
  next
    case commit
    then show ?thesis using create_commitment_write [OF commit(2)] by (auto simp: order_write_def)
  next
    case cancel
    then have "budget_write (po_id p) (cancel_budget_encumbrance (po_id p) s) s'"
      by (simp add: cancel_commitment_for_po_def move_and_refresh_write)
    then show ?thesis unfolding order_write_def cancel_budget_encumbrance_def by blast
  qed
qed

lemma save_orderE:
  assumes "save_order p s = Inr s'"
  obtains old p1 s1 where "find_row po_id (po_id p) (orders s) = Some old"
    "p1 = calculate_tax (p\<lparr>po_number := (if po_number p = [] then generate_po_number s else po_number p), po_lines := po_lines old\<rparr>)"
    "order_clean p1 s = Inr ()" "po_status p = po_status old \<or> may_become ORDER_TRANSITIONS (po_status old) (po_status p)"
    "order_side_effects (po_status old) p1 s = Inr s1" "order_write (po_id p) s s1"
    "order_unique p1 (filter (\<lambda>q. po_id q \<noteq> po_id p) (orders s))"
    "s' = s1\<lparr>orders := put_row po_id p1 (orders s)\<rparr>"
proof -
  obtain old where old: "find_row po_id (po_id p) (orders s) = Some old"
    using assms by (auto simp: save_order_def split: option.splits)
  define p1 where "p1 = calculate_tax (p\<lparr>po_number := (if po_number p = [] then generate_po_number s else po_number p), po_lines := po_lines old\<rparr>)"
  have f: "po_id p1 = po_id p" "po_status p1 = po_status p" by (simp_all add: p1_def calculate_tax_def)
  obtain s1 where 1: "order_clean p1 s = Inr ()" "validate_status_transition ORDER_TRANSITIONS (Some (po_status old)) (po_status p1) = Inr ()"
    "order_side_effects (po_status old) p1 s = Inr s1" "write_order p1 s1 = Inr s'"
    using assms old unfolding save_order_def p1_def Let_def by (auto simp: rbind_eq_Inr)
  have w: "order_write (po_id p) s s1" using side_effects_write [OF 1(3)] by (simp add: f)
  have "po_status p = po_status old \<or> may_become ORDER_TRANSITIONS (po_status old) (po_status p)"
    using 1(2) by (auto simp: validate_status_ok f)
  moreover have "order_unique p1 (filter (\<lambda>q. po_id q \<noteq> po_id p) (orders s))" "s' = s1\<lparr>orders := put_row po_id p1 (orders s)\<rparr>"
    using 1(4) w by (auto simp: write_order_def f split: if_splits)
  ultimately show ?thesis using that old 1(1,3) w p1_def by blast
qed

section \<open>Only approved and posted orders hold an open commitment\<close>

definition order_status :: "nat \<Rightarrow> 'z purchasing_state_scheme \<Rightarrow> string option" where
  "order_status i s = map_option po_status (find_row po_id i (orders s))"

abbreviation committed_order :: "nat \<Rightarrow> 'z purchasing_state_scheme \<Rightarrow> bool" where
  "committed_order i s \<equiv> order_status i s = Some ''Approved'' \<or> order_status i s = Some ''Posted''"

definition links_backed :: "'z purchasing_state_scheme \<Rightarrow> bool" where
  "links_backed s \<longleftrightarrow> (\<forall>c \<in> set (commitments s). cm_status c \<in> set OPEN_LINK \<longrightarrow> committed_order (cm_po c) s)"

lemma links_backedI:
  assumes "links_backed s" and "links_of_others i s' = links_of_others i s"
    and "\<And>j. j \<noteq> i \<Longrightarrow> committed_order j s \<Longrightarrow> committed_order j s'"
    and "\<And>c. c \<in> set (commitments s') \<Longrightarrow> cm_po c = i \<Longrightarrow> cm_status c \<in> set OPEN_LINK \<Longrightarrow> committed_order i s'"
  shows "links_backed s'"
  unfolding links_backed_def
proof (intro ballI impI)
  fix c assume c: "c \<in> set (commitments s')" "cm_status c \<in> set OPEN_LINK"
  show "committed_order (cm_po c) s'"
  proof (cases "cm_po c = i")
    case True
    then show ?thesis using assms(4) c by blast
  next
    case False
    then have "c \<in> set (links_of_others i s')" using c by (simp add: links_of_others_def)
    then have "c \<in> set (links_of_others i s)" unfolding assms(2) .
    then have "c \<in> set (commitments s)" by (simp add: links_of_others_def)
    then show ?thesis using assms(1,3) False c(2) unfolding links_backed_def by blast
  qed
qed

lemma order_status_put_row:
  "find_row po_id (po_id p) (orders s) = Some old \<Longrightarrow>
     order_status j (s'\<lparr>orders := put_row po_id p (orders s)\<rparr>) = (if j = po_id p then Some (po_status p) else order_status j s)"
  using find_row_SomeD [of po_id "po_id p" "orders s" old] by (auto simp: order_status_def) (metis image_eqI)+

lemma cancel_leaves_none_open:
  assumes "cancel_commitment_for_po i s = Inr (n, s')" and "c \<in> set (commitments s')" and "cm_po c = i"
  shows "cm_status c \<notin> set OPEN_LINK"
proof -
  obtain ap where "s' = (snd (move_link i OPEN_LINK ''CANCELLED'' s))\<lparr>appropriations := ap\<rparr>"
    using move_and_refreshD [OF assms(1) [unfolded cancel_commitment_for_po_def]] by blast
  then have "c \<in> (\<lambda>c. if cm_po c = i \<and> cm_status c \<in> set OPEN_LINK then c\<lparr>cm_status := ''CANCELLED''\<rparr> else c) ` set (commitments s)"
    using assms(2) by (simp add: move_link_fields)
  then show ?thesis by (rule imageE) (use assms(3) in \<open>auto simp: OPEN_LINK_def split: if_splits\<close>)
qed

lemma order_transitions [simp]:
  "may_become ORDER_TRANSITIONS ''Approved'' t \<longleftrightarrow> t = ''Posted'' \<or> t = ''Rejected'' \<or> t = ''Closed''"
  "may_become ORDER_TRANSITIONS ''Posted'' t \<longleftrightarrow> t = ''Closed''"
  "may_become ORDER_TRANSITIONS ''Closed'' t \<longleftrightarrow> False"
  "may_become ORDER_TRANSITIONS ''Rejected'' t \<longleftrightarrow> t = ''Draft''"
  by (auto simp: may_become_def ORDER_TRANSITIONS_def)

lemma save_order_links_backed:
  assumes "save_order p s = Inr s'" and "links_backed s"
  shows "links_backed s'"
proof -
  obtain old p1 s1 where o: "find_row po_id (po_id p) (orders s) = Some old"
    "p1 = calculate_tax (p\<lparr>po_number := (if po_number p = [] then generate_po_number s else po_number p), po_lines := po_lines old\<rparr>)"
    "po_status p = po_status old \<or> may_become ORDER_TRANSITIONS (po_status old) (po_status p)"
    "order_side_effects (po_status old) p1 s = Inr s1" "order_write (po_id p) s s1"
    "s' = s1\<lparr>orders := put_row po_id p1 (orders s)\<rparr>"
    using assms(1) by (rule save_orderE)
  have f: "po_id p1 = po_id p" "po_status p1 = po_status p" by (simp_all add: o(2) calculate_tax_def)
  have st: "order_status j s' = (if j = po_id p then Some (po_status p) else order_status j s)" for j
    using order_status_put_row [of p1 s old j s1] o(1) by (simp add: f o(6))
  have com: "commitments s' = commitments s1" by (simp add: o(6))
  show ?thesis
  proof (rule links_backedI [OF assms(2), of "po_id p"])
    show "links_of_others (po_id p) s' = links_of_others (po_id p) s"
      using order_write_links [OF o(5)] by (simp add: links_of_others_def com)
  next
    fix c assume c: "c \<in> set (commitments s')" "cm_po c = po_id p" "cm_status c \<in> set OPEN_LINK"
    show "committed_order (po_id p) s'"
    proof (rule ccontr)
      assume "\<not> committed_order (po_id p) s'"
      then have n: "\<not> committed_status (po_status p)" by (simp add: st)
      show False
      proof (cases "committed_status (po_status old)")
        case True
        then have "po_status p \<in> {''Rejected'', ''Closed''}" using o(3) n by auto
        then obtain k where "cancel_commitment_for_po (po_id p) (cancel_budget_encumbrance (po_id p) s) = Inr (k, s1)"
          using o(4) n True by (auto simp: order_side_effects_def f rbind_eq_Inr)
        then show False using cancel_leaves_none_open c com by metis
      next
        case False
        then have "s1 = s" using o(4) n by (simp add: order_side_effects_def f)
        moreover have "order_status (po_id p) s = Some (po_status old)" using o(1) by (simp add: order_status_def)
        ultimately show False using assms(2) c False by (auto simp: links_backed_def com)
      qed
    qed
  qed (simp add: st)
qed

lemma budget_write_fields: "budget_write i s s' \<Longrightarrow> orders s' = orders s \<and> links_of_others i s' = links_of_others i s"
  by (auto simp: budget_write_def)

lemma find_row_map: "(\<And>r. key (f r) = key r) \<Longrightarrow> find_row key k (map f rows) = map_option f (find_row key k rows)"
  by (induction rows) auto

lemma order_status_upd: "(\<And>q. po_id (f q) = po_id q \<and> po_status (f q) = po_status q) \<Longrightarrow>
    order_status j (s\<lparr>orders := upd_row po_id i f (orders s)\<rparr>) = order_status j s"
  by (cases "find_row po_id j (orders s)") (auto simp: order_status_def find_row_upd_row)

end
