(* ===== verification/Receiving.thy ===== *)
theory Receiving
  imports Purchasing
begin

text \<open>
  Goods received notes (\<^verbatim>\<open>procurement/models.py\<close>, \<^verbatim>\<open>procurement/views.py\<close>) and their journal
  (\<^verbatim>\<open>accounting/services/procurement_posting.py\<close>).  Batches, expiry dates and notes are not modelled; stock rows
  are not, because no movement of a receipt can be stored (\<open>receipt_movement_refused\<close>).
\<close>

section \<open>The receiving warehouse and the stock movement\<close>

definition get_default_warehouse_for_mda :: "nat \<Rightarrow> 'z purchasing_state_scheme \<Rightarrow> err + (nat \<times> 'z purchasing_state_scheme)" where
  "get_default_warehouse_for_mda m s =
     (case find_row le_id m (legacy_mdas s) of
        None \<Rightarrow> Inl DoesNotExist
      | Some x \<Rightarrow>
          if le_code x = [] then Inl ValueError
          else (let name = le_code x @ '' - Stores'' in
                case filter (\<lambda>w. snd w = name) (warehouses s) of
                  [] \<Rightarrow> let k = fresh_pk fst (warehouses s) in Inr (k, s\<lparr>warehouses := warehouses s @ [(k, name)]\<rparr>)
                | [w] \<Rightarrow> Inr (fst w, s)
                | _ \<Rightarrow> Inl MultipleObjectsReturned))"

record stock_movement =
  mv_type :: string
  mv_item :: nat
  mv_warehouse :: nat
  mv_quantity :: rat
  mv_price :: rat
  mv_reference :: string
  mv_remarks :: string
  mv_cost_method :: string

definition movement_full_clean :: "stock_movement \<Rightarrow> err + unit" where
  \<comment> \<open>\<^verbatim>\<open>StockMovement.save()\<close> runs \<^verbatim>\<open>full_clean\<close>: required text columns are not blank, quantity and price are not negative\<close>
  "movement_full_clean m =
     (if mv_type m \<notin> {''IN'', ''OUT'', ''ADJ'', ''TRF''} \<or> mv_quantity m < 0 \<or> mv_price m < 0
         \<or> mv_reference m = [] \<or> mv_remarks m = [] \<or> mv_cost_method m = []
      then Inl ValidationError else Inr ())"

definition receipt_movement :: "receipt \<Rightarrow> nat \<Rightarrow> nat \<Rightarrow> receipt_line \<Rightarrow> order_line \<Rightarrow> stock_movement" where
  \<comment> \<open>the instance the receipt builds; \<^verbatim>\<open>cost_method\<close> is left at the column's default, the empty string\<close>
  "receipt_movement g w i gl l =
     \<lparr>mv_type = ''IN'', mv_item = i, mv_warehouse = w, mv_quantity = gnl_quantity gl, mv_price = ol_price l,
      mv_reference = gn_number g, mv_remarks = ''GRN: '' @ gn_number g, mv_cost_method = []\<rparr>"

lemma receipt_movement_refused [simp]: "movement_full_clean (receipt_movement g w i gl l) = Inl ValidationError"
  by (simp add: movement_full_clean_def receipt_movement_def)

section \<open>The journal of a receipt\<close>

definition order_line_of :: "nat \<Rightarrow> 'z purchasing_state_scheme \<Rightarrow> order_line option" where
  "order_line_of k s = find_row ol_id k (concat (map po_lines (orders s)))"

definition receipt_debit_account :: "order_line \<Rightarrow> 'z purchasing_state_scheme \<Rightarrow> nat" where
  \<comment> \<open>a fixed asset has no \<^verbatim>\<open>gl_account\<close> attribute, so its branch falls through to the line's account\<close>
  "receipt_debit_account l s =
     (case Option.bind (ol_item l) (\<lambda>i. find_row it_id i (items s)) of
        None \<Rightarrow> ol_account l
      | Some x \<Rightarrow>
          (case it_inventory_account x of Some a \<Rightarrow> a
           | None \<Rightarrow> (case it_type_account x of Some a \<Rightarrow> a
              | None \<Rightarrow> (case get_gl_account ''INVENTORY'' (Some AT_Asset) (Some ''Inventory'') s of
                         Some a \<Rightarrow> ac_id a | None \<Rightarrow> ol_account l))))"

definition receipt_values :: "receipt \<Rightarrow> 'z purchasing_state_scheme \<Rightarrow> (nat \<times> rat) list" where
  \<comment> \<open>account and value of each line with a positive value\<close>
  "receipt_values g s =
     List.map_filter (\<lambda>gl. case order_line_of (gnl_order_line gl) s of
         None \<Rightarrow> None
       | Some l \<Rightarrow> let x = gnl_quantity gl * ol_price l
                   in if x \<le> 0 then None else Some (receipt_debit_account l s, x)) (gn_lines g)"

definition receipt_journal_lines :: "nat \<Rightarrow> (nat \<times> rat) list \<Rightarrow> jline list" where
  "receipt_journal_lines clearing vs =
     (let total = sum_list (map snd vs)
      in map (\<lambda>(a, x). \<lparr>l_account = a, l_debit = x, l_credit = 0, l_ncoa = None, l_asset = None\<rparr>) vs
         @ (if 0 < total then [\<lparr>l_account = clearing, l_debit = 0, l_credit = total, l_ncoa = None, l_asset = None\<rparr>] else []))"

definition posted_under :: "string \<Rightarrow> 'z ledger_scheme \<Rightarrow> bool" where
  \<comment> \<open>\<^verbatim>\<open>JournalHeader.objects.filter(reference_number=..., status='Posted').exists()\<close>\<close>
  "posted_under r s \<longleftrightarrow> list_ex (\<lambda>j. j_ref j = r \<and> j_status j = J_Posted \<and> \<not> j_is_deleted j) (journals s)"

definition receipt_header :: "receipt \<Rightarrow> purchase_order \<Rightarrow> journal" where
  "receipt_header g p =
     \<lparr>j_id = 0, j_date = gn_date g, j_ref = gn_number g, j_document = [], j_mda = po_mda p, j_fund = Some (po_fund p),
      j_function = Some (po_function p), j_program = Some (po_program p), j_geo = Some (po_geo p), j_status = J_Posted,
      j_source_module = Some ''grn'', j_source_id = Some (gn_id g), j_posted_by = None, j_is_reversed = False,
      j_is_deleted = False, j_lines = []\<rparr>"

definition post_goods_received_note :: "receipt \<Rightarrow> 'z purchasing_state_scheme \<Rightarrow> err + (nat \<times> 'z purchasing_state_scheme)" where
  "post_goods_received_note g s =
     (if gn_status g \<noteq> ''Posted'' \<or> posted_under (gn_number g) s then Inl TransactionPostingError
      else rbind (validate_fiscal_period (gn_date g) None s)
        (\<lambda>_. case (get_gl_account ''GOODS_RECEIPT_CLEARING'' (Some AT_Liability) (Some ''GR/IR'') s,
                   find_row po_id (gn_order g) (orders s)) of
               (Some c, Some p) \<Rightarrow>
                 post_validated (receipt_header g p) (receipt_journal_lines (ac_id c) (receipt_values g s)) s
             | _ \<Rightarrow> Inl TransactionPostingError))"

section \<open>The draft vendor invoice\<close>

definition invoice_prefix :: "'z period_state_scheme \<Rightarrow> string" where
  "invoice_prefix s = ''VINV-'' @ show_int (d_year (today s)) @ zpad 2 (nat (d_month (today s)))"

definition next_invoice_number :: "'z budget_state_scheme \<Rightarrow> string" where
  \<comment> \<open>\<^verbatim>\<open>VendorInvoice.save()\<close> without a number\<close>
  "next_invoice_number s =
     (let taken = filter (has_prefix (invoice_prefix s)) (map vi_number (vendor_invoices s));
          seq = (case taken of
                   [] \<Rightarrow> 1
                 | _ \<Rightarrow> (case parse_int (after_last_dash (Max (set taken))) of Some n \<Rightarrow> n + 1 | None \<Rightarrow> 1))
      in invoice_prefix s @ ''-'' @ zpad 4 (nat seq))"

definition draft_receipt_invoice :: "receipt \<Rightarrow> purchase_order \<Rightarrow> 'z purchasing_state_scheme \<Rightarrow> err + 'z purchasing_state_scheme" where
  \<comment> \<open>the exception handler around it does not help: a failed insert has already doomed the enclosing transaction\<close>
  "draft_receipt_invoice g p s =
     (let subtotal = sum_list (map (\<lambda>gl. case order_line_of (gnl_order_line gl) s of
                                       Some l \<Rightarrow> gnl_quantity gl * ol_price l | None \<Rightarrow> 0) (gn_lines g));
          v = \<lparr>vi_id = fresh_pk vi_id (vendor_invoices s), vi_number = next_invoice_number s, vi_reference = ''GRN '' @ gn_number g,
               vi_vendor = po_vendor p, vi_status = ''Draft'', vi_po = Some (po_id p), vi_mda = po_mda p, vi_account = None,
               vi_fund = Some (po_fund p), vi_date = gn_date g, vi_subtotal = db_decimal subtotal,
               vi_total = db_decimal subtotal, vi_paid = 0, vi_retention = 0\<rparr>
      in if list_ex (\<lambda>i. vi_po i = Some (po_id p) \<and> vi_status i \<in> {''Draft'', ''Approved''}) (vendor_invoices s) then Inr s
         else if list_ex (\<lambda>i. vi_vendor i = vi_vendor v \<and> vi_number i = vi_number v) (vendor_invoices s) then Inl IntegrityError
         else Inr (s\<lparr>vendor_invoices := vendor_invoices s @ [v]\<rparr>))"

section \<open>Saving a receipt\<close>

definition receive_line :: "receipt \<Rightarrow> nat \<Rightarrow> receipt_line \<Rightarrow> 'z purchasing_state_scheme \<Rightarrow> err + 'z purchasing_state_scheme" where
  "receive_line g w gl s =
     (case List.find (\<lambda>p. list_ex (\<lambda>l. ol_id l = gnl_order_line gl) (po_lines p)) (orders s) of
        None \<Rightarrow> Inl DoesNotExist
      | Some p \<Rightarrow>
          rbind (put_order_line (po_id p)
                   (upd_row ol_id (gnl_order_line gl) (\<lambda>l. l\<lparr>ol_received := ol_received l + gnl_quantity gl\<rparr>)) s)
            (\<lambda>s1. case order_line_of (gnl_order_line gl) s1 of
                    None \<Rightarrow> Inl DoesNotExist
                  | Some l \<Rightarrow>
                      (case ol_item l of
                         Some i \<Rightarrow> if 0 < gnl_quantity gl
                                   then rbind (movement_full_clean (receipt_movement g w i gl l)) (\<lambda>_. Inr s1) else Inr s1
                       | None \<Rightarrow> Inr s1)))"

definition fully_received :: "purchase_order \<Rightarrow> bool" where
  "fully_received p \<longleftrightarrow> list_all (\<lambda>l. ol_quantity l \<le> ol_received l) (po_lines p)"

definition vendor_statistics :: "receipt \<Rightarrow> purchase_order \<Rightarrow> 'z purchasing_state_scheme \<Rightarrow> 'z purchasing_state_scheme" where
  "vendor_statistics g p s =
     (let n = length (filter (\<lambda>q. po_vendor q = po_vendor p \<and> po_status q \<in> {''Approved'', ''Posted'', ''Closed''}) (orders s));
          punctual = remdups (map gn_order (filter (\<lambda>r. gn_status r = ''Posted''
                        \<and> (case find_row po_id (gn_order r) (orders s) of
                             Some q \<Rightarrow> po_vendor q = po_vendor p \<and> (case po_delivery q of Some d \<Rightarrow> gn_date r \<le> d | None \<Rightarrow> False)
                           | None \<Rightarrow> False)) (receipts s)))
      in s\<lparr>suppliers := upd_row su_id (po_vendor p)
             (\<lambda>v. v\<lparr>su_orders := n, su_on_time := (if po_delivery p = None then su_on_time v else length punctual)\<rparr>) (suppliers s)\<rparr>)"

definition write_receipt :: "receipt \<Rightarrow> 'z purchasing_state_scheme \<Rightarrow> err + 'z purchasing_state_scheme" where
  "write_receipt g s =
     (if gn_number g \<in> gn_number ` set (filter (\<lambda>r. gn_id r \<noteq> gn_id g) (receipts s)) then Inl IntegrityError
      else Inr (s\<lparr>receipts := put_row gn_id g (receipts s)\<rparr>))"

definition close_if_received :: "nat \<Rightarrow> 'z purchasing_state_scheme \<Rightarrow> err + 'z purchasing_state_scheme" where
  "close_if_received i = with_order i (\<lambda>p s. if fully_received p then save_order (p\<lparr>po_status := ''Closed''\<rparr>) s else Inr s)"

definition process_receipt :: "receipt \<Rightarrow> 'z purchasing_state_scheme \<Rightarrow> err + 'z purchasing_state_scheme" where
  \<comment> \<open>the branch of \<^verbatim>\<open>save\<close> for a receipt that becomes \<^verbatim>\<open>Posted\<close>\<close>
  "process_receipt g s =
     rbind (write_receipt g s)
       (\<lambda>s1. case gn_warehouse g of
          None \<Rightarrow> Inl ValidationError
        | Some w \<Rightarrow>
            rbind (rfold (receive_line g w) (gn_lines g) s1)
              (\<lambda>s2. rbind (close_if_received (gn_order g) s2)
                (\<lambda>s3. with_order (gn_order g)
                   (\<lambda>p s4. rbind (draft_receipt_invoice g p (vendor_statistics g p s4))
                      (\<lambda>s5. rbind (mark_commitment_invoiced_for_po (po_id p) s5)
                        (\<lambda>(_, s6). rbind (post_goods_received_note g s6) (\<lambda>(_, s7). Inr s7)))) s3)))"

definition located_receipt :: "receipt \<Rightarrow> 'z purchasing_state_scheme \<Rightarrow> err + (receipt \<times> 'z purchasing_state_scheme)" where
  \<comment> \<open>number, MDA and warehouse filled in\<close>
  "located_receipt g s =
     (let g1 = g\<lparr>gn_number := (if gn_number g = [] then generate_grn_number s else gn_number g),
                 gn_mda := (case gn_mda g of Some m \<Rightarrow> Some m
                            | None \<Rightarrow> Option.bind (find_row po_id (gn_order g) (orders s)) po_mda)\<rparr>
      in case (gn_warehouse g1, gn_mda g1) of
           (None, Some m) \<Rightarrow> rbind (get_default_warehouse_for_mda m s) (\<lambda>(w, s1). Inr (g1\<lparr>gn_warehouse := Some w\<rparr>, s1))
         | _ \<Rightarrow> Inr (g1, s))"

definition save_receipt :: "receipt \<Rightarrow> 'z purchasing_state_scheme \<Rightarrow> err + 'z purchasing_state_scheme" where
  \<comment> \<open>\<^verbatim>\<open>GoodsReceivedNote.save()\<close> of an existing row\<close>
  "save_receipt g s =
     (case find_row gn_id (gn_id g) (receipts s) of
        None \<Rightarrow> Inl DoesNotExist
      | Some old \<Rightarrow>
          rbind (located_receipt (g\<lparr>gn_lines := gn_lines old\<rparr>) s)
            (\<lambda>(g1, s1). rbind (validate_status_transition RECEIPT_TRANSITIONS (Some (gn_status old)) (gn_status g1))
               (\<lambda>_. if gn_status old \<noteq> ''Posted'' \<and> gn_status g1 = ''Posted'' then process_receipt g1 s1
                    else write_receipt g1 s1)))"

definition insert_receipt :: "receipt \<Rightarrow> 'z purchasing_state_scheme \<Rightarrow> err + (nat \<times> 'z purchasing_state_scheme)" where
  \<comment> \<open>the first save, in a status other than \<^verbatim>\<open>Posted\<close>\<close>
  "insert_receipt g s =
     rbind (located_receipt g s)
       (\<lambda>(g1, s1). if gn_number g1 \<in> gn_number ` set (receipts s1) then Inl IntegrityError
          else let k = fresh_pk gn_id (receipts s1) in Inr (k, s1\<lparr>receipts := receipts s1 @ [g1\<lparr>gn_id := k, gn_lines := []\<rparr>]\<rparr>))"

definition line_fits :: "receipt_line \<Rightarrow> 'z purchasing_state_scheme \<Rightarrow> bool" where
  \<comment> \<open>\<^verbatim>\<open>GoodsReceivedNoteLine.save()\<close> of a new line: against what has been posted so far\<close>
  "line_fits gl s \<longleftrightarrow>
     (case order_line_of (gnl_order_line gl) s of
        Some l \<Rightarrow> gnl_quantity gl \<le> ol_quantity l - ol_received l | None \<Rightarrow> False)"

fun create_receipt_lines :: "nat \<Rightarrow> receipt_line list \<Rightarrow> 'z purchasing_state_scheme \<Rightarrow> (err + unit) \<times> 'z purchasing_state_scheme" where
  "create_receipt_lines k [] s = (Inr (), s)"
| "create_receipt_lines k (gl # gls) s =
     (if \<not> line_fits gl s then (Inl ValidationError, s)
      else create_receipt_lines k gls (s\<lparr>receipts := upd_row gn_id k (\<lambda>g. g\<lparr>gn_lines := gn_lines g @ [gl]\<rparr>) (receipts s)\<rparr>))"

definition create_receipt :: "receipt \<Rightarrow> 'z purchasing_state_scheme \<Rightarrow> (err + nat) \<times> 'z purchasing_state_scheme" where
  \<comment> \<open>\<^verbatim>\<open>POST /grns/\<close> with validated data; the status is read-only, and no transaction surrounds the writes\<close>
  "create_receipt g s =
     (case find_row po_id (gn_order g) (orders s) of
        None \<Rightarrow> (Inl ValidationError, s)
      | Some p \<Rightarrow>
          if gn_date g < po_date p \<or> (gn_mda g \<noteq> None \<and> po_mda p \<noteq> None \<and> gn_mda g \<noteq> po_mda p)
             \<or> list_ex (\<lambda>gl. gnl_quantity gl \<le> 0) (gn_lines g)
          then (Inl ValidationError, s)
          else case insert_receipt (g\<lparr>gn_number := [], gn_status := ''Draft'', gn_warehouse := None\<rparr>) s of
                 Inl e \<Rightarrow> (Inl e, s)
               | Inr (k, s1) \<Rightarrow> (case create_receipt_lines k (gn_lines g) s1 of
                                   (Inl e, s2) \<Rightarrow> (Inl e, s2) | (Inr _, s2) \<Rightarrow> (Inr k, s2)))"

section \<open>The actions on a receipt\<close>

definition with_receipt :: "nat \<Rightarrow> (receipt \<Rightarrow> 'z purchasing_state_scheme \<Rightarrow> err + 'z purchasing_state_scheme) \<Rightarrow>
    'z purchasing_state_scheme \<Rightarrow> err + 'z purchasing_state_scheme" where
  "with_receipt i f s = (case find_row gn_id i (receipts s) of None \<Rightarrow> Inl DoesNotExist | Some g \<Rightarrow> f g s)"

definition invoiced_so_far :: "nat \<Rightarrow> 'z purchasing_state_scheme \<Rightarrow> rat" where
  "invoiced_so_far i s =
     sum_amounts im_amount (\<lambda>m. im_order m = Some i \<and> im_status m \<in> {''Matched'', ''Approved''}) (matchings s)"

definition receipt_total :: "receipt \<Rightarrow> 'z purchasing_state_scheme \<Rightarrow> rat" where
  "receipt_total g s =
     sum_list (map (\<lambda>gl. case order_line_of (gnl_order_line gl) s of
                       Some l \<Rightarrow> gnl_quantity gl * ol_price l | None \<Rightarrow> 0) (gn_lines g))"

definition receipt_postable :: "receipt \<Rightarrow> purchase_order \<Rightarrow> 'z purchasing_state_scheme \<Rightarrow> bool" where
  \<comment> \<open>the checks of \<^verbatim>\<open>post_grn\<close> inside its transaction\<close>
  "receipt_postable g p s \<longleftrightarrow>
     list_all (\<lambda>gl. line_fits gl s) (gn_lines g)
     \<and> (0 < invoiced_so_far (po_id p) s \<longrightarrow> receipt_total g s \<le> order_total p - invoiced_so_far (po_id p) s)
     \<and> gn_mda g \<noteq> None \<and> (po_mda p \<noteq> None \<longrightarrow> gn_mda g = po_mda p)"

definition post_grn :: "bool \<Rightarrow> nat \<Rightarrow> 'z purchasing_state_scheme \<Rightarrow> err + 'z purchasing_state_scheme" where
  \<comment> \<open>whether a pending approval exists for the receipt is passed in by the workflow (\<^verbatim>\<open>Workflow\<close>)\<close>
  "post_grn pending i = with_receipt i
     (\<lambda>g s. if gn_status g = ''Posted'' then Inl ApprovalError
            else if posted_under (gn_number g) s then save_receipt (g\<lparr>gn_status := ''Posted''\<rparr>) s
            else if pending then Inl ApprovalError
            else case find_row po_id (gn_order g) (orders s) of
                   None \<Rightarrow> Inl DoesNotExist
                 | Some p \<Rightarrow>
                     if po_status p \<notin> {''Approved'', ''Posted'', ''Closed''} \<or> \<not> receipt_postable g p s then Inl ApprovalError
                     else save_receipt (g\<lparr>gn_status := ''Posted''\<rparr>) s)"

definition cancel_grn :: "nat \<Rightarrow> 'z purchasing_state_scheme \<Rightarrow> err + 'z purchasing_state_scheme" where
  \<comment> \<open>the reversal of a posted receipt comes after a check no posted receipt passes (\<open>posted_receipt_not_cancelled\<close>)\<close>
  "cancel_grn i = with_receipt i
     (\<lambda>g s. if gn_status g = ''Cancelled'' \<or> \<not> may_become RECEIPT_TRANSITIONS (gn_status g) ''Cancelled'' then Inl ApprovalError
            else if gn_status g = ''Received''
               \<and> list_ex (\<lambda>m. im_receipt m = Some i \<and> im_status m \<in> {''Matched'', ''Approved'', ''Pending_Review''}) (matchings s)
            then Inl ApprovalError
            else save_receipt (g\<lparr>gn_status := ''Cancelled''\<rparr>) s)"

fun bulk_cancel_receipts :: "nat list \<Rightarrow> 'z purchasing_state_scheme \<Rightarrow> bulk_outcome list \<times> 'z purchasing_state_scheme" where
  \<comment> \<open>the loop of \<^verbatim>\<open>bulk_cancel\<close>, one transaction for each receipt; what it reverses for a posted one is undone when the
      save refuses the status\<close>
  "bulk_cancel_receipts [] s = ([], s)"
| "bulk_cancel_receipts (i # is) s =
     (let (o1, s1) = (case find_row gn_id i (receipts s) of
                        None \<Rightarrow> (Failed i DoesNotExist, s)
                      | Some g \<Rightarrow>
                          if gn_status g = ''Cancelled'' then (Skipped i, s)
                          else (case save_receipt (g\<lparr>gn_status := ''Cancelled''\<rparr>) s of
                                  Inl e \<Rightarrow> (Failed i e, s) | Inr s' \<Rightarrow> (Done i, s')));
          (os, s2) = bulk_cancel_receipts is s1
      in (o1 # os, s2))"

definition bulk_cancel :: "nat list \<Rightarrow> 'z purchasing_state_scheme \<Rightarrow> (err + bulk_outcome list) \<times> 'z purchasing_state_scheme" where
  "bulk_cancel is s =
     (if is = [] \<or> 100 < length is then (Inl ValueError, s)
      else let (os, s') = bulk_cancel_receipts is s in (Inr os, s'))"

section \<open>Received quantities\<close>

definition posted_quantity :: "nat \<Rightarrow> 'z purchasing_state_scheme \<Rightarrow> rat" where
  \<comment> \<open>the quantity of one order line over all posted receipts\<close>
  "posted_quantity k s =
     sum_list (map (\<lambda>g. if gn_status g = ''Posted''
                       then sum_amounts gnl_quantity (\<lambda>gl. gnl_order_line gl = k) (gn_lines g) else 0) (receipts s))"

definition recalc_quantity_received_for_po :: "nat \<Rightarrow> 'z purchasing_state_scheme \<Rightarrow> 'z purchasing_state_scheme" where
  "recalc_quantity_received_for_po i s =
     s\<lparr>orders := upd_row po_id i
         (\<lambda>p. p\<lparr>po_lines := map (\<lambda>l. l\<lparr>ol_received := posted_quantity (ol_id l) s\<rparr>) (po_lines p)\<rparr>) (orders s)\<rparr>"

end
