(* ===== verification/Workflow.thy ===== *)
theory Workflow
  imports Receiving
begin

text \<open>
  The approval engine (\<^verbatim>\<open>workflow/models.py\<close>, \<^verbatim>\<open>workflow/views.py\<close>, \<^verbatim>\<open>workflow/signals.py\<close>) for the procurement
  documents: routing, the actions on an approval, and what its end does to the document.  Other document types,
  notifications, comments, times and SLAs are not modelled; organisations are in the unified mode.
\<close>

section \<open>Data\<close>

datatype doc_kind = K_Request | K_Order | K_Receipt

record approval_setting =
  st_module :: string
  st_mode :: string
  st_use_threshold :: bool
  st_low :: rat
  st_auto_below :: bool

record approval_group =
  gp_id :: nat
  gp_members :: "nat list"
  gp_min :: "rat option"
  gp_max :: "rat option"

record approval_template =
  tp_id :: nat
  tp_kind :: doc_kind
  tp_active :: bool
  tp_steps :: "(nat \<times> nat) list" \<comment> \<open>\<^verbatim>\<open>sequence\<close> and group, one row for each sequence\<close>

record approval_step_row =
  stp_number :: nat
  stp_group :: "nat option"
  stp_approver :: "nat option"
  stp_status :: string

record approval =
  av_id :: nat
  av_kind :: doc_kind
  av_object :: nat
  av_amount :: "rat option"
  av_status :: string
  av_current :: nat
  av_total :: nat
  av_requester :: nat
  av_template :: "nat option"
  av_steps :: "approval_step_row list"

record delegation =
  dg_delegator :: nat
  dg_delegate :: nat
  dg_start :: date
  dg_end :: date
  dg_active :: bool

record approval_log =
  lg_approval :: nat
  lg_step :: "nat option"
  lg_action :: string
  lg_user :: nat

record workflow_state = purchasing_state +
  approval_settings :: "approval_setting list"
  approval_groups :: "approval_group list"
  approval_templates :: "approval_template list"
  approvals :: "approval list" \<comment> \<open>in order of creation\<close>
  delegations :: "delegation list"
  approval_logs :: "approval_log list"

section \<open>Settings\<close>

fun module_key :: "doc_kind \<Rightarrow> string" where
  "module_key K_Request = ''PurchaseRequest''"
| "module_key K_Order = ''PurchaseOrder''"
| "module_key K_Receipt = ''GoodsReceivedNote''"

definition setting_for :: "string \<Rightarrow> 'z workflow_state_scheme \<Rightarrow> approval_setting option" where
  "setting_for m s = find_row st_module m (approval_settings s)"

definition get_mode :: "string \<Rightarrow> 'z workflow_state_scheme \<Rightarrow> string" where
  "get_mode m s = (case setting_for m s of None \<Rightarrow> ''Required'' | Some x \<Rightarrow> st_mode x)"

definition is_enabled :: "string \<Rightarrow> 'z workflow_state_scheme \<Rightarrow> bool" where
  "is_enabled m s \<longleftrightarrow> get_mode m s \<in> {''Required'', ''Strict''}"

definition should_auto_approve :: "string \<Rightarrow> rat option \<Rightarrow> 'z workflow_state_scheme \<Rightarrow> bool" where
  \<comment> \<open>the query helper; it does not read \<^verbatim>\<open>use_amount_threshold\<close>\<close>
  "should_auto_approve m amount s \<longleftrightarrow>
     (case setting_for m s of
        None \<Rightarrow> False | Some x \<Rightarrow> st_auto_below x \<and> opt_amount amount \<noteq> 0 \<and> opt_amount amount < st_low x)"

section \<open>Routing\<close>

datatype routing = Routed nat | Already_pending nat | Auto_approved

definition bypassed :: "doc_kind \<Rightarrow> rat \<Rightarrow> 'z workflow_state_scheme \<Rightarrow> bool" where
  \<comment> \<open>approvals disabled, or the amount below the threshold\<close>
  "bypassed k amount s \<longleftrightarrow>
     (case setting_for (module_key k) s of
        None \<Rightarrow> False
      | Some x \<Rightarrow> st_mode x = ''Disabled'' \<or> (st_auto_below x \<and> st_use_threshold x \<and> amount < st_low x))"

definition covers_amount :: "rat \<Rightarrow> approval_group \<Rightarrow> bool" where
  "covers_amount x g \<longleftrightarrow> opt_amount (gp_min g) \<le> x \<and> (case gp_max g of None \<Rightarrow> True | Some m \<Rightarrow> x \<le> m)"

definition template_steps :: "approval_template \<Rightarrow> (nat \<times> nat) list" where
  "template_steps t = sort_key fst (tp_steps t)"

definition active_approval_templates :: "doc_kind \<Rightarrow> 'z workflow_state_scheme \<Rightarrow> approval_template list" where
  "active_approval_templates k s = sort_key tp_id (filter (\<lambda>t. tp_kind t = k \<and> tp_active t) (approval_templates s))"

definition select_template :: "doc_kind \<Rightarrow> rat \<Rightarrow> 'z workflow_state_scheme \<Rightarrow> approval_template option" where
  "select_template k x s =
     (let ts = active_approval_templates k s;
          fits = (\<lambda>t. list_ex (\<lambda>(_, g). case find_row gp_id g (approval_groups s) of
                                          Some r \<Rightarrow> covers_amount x r | None \<Rightarrow> False) (tp_steps t))
      in case List.find fits ts of Some t \<Rightarrow> Some t | None \<Rightarrow> (case ts of [] \<Rightarrow> None | t # _ \<Rightarrow> Some t))"

definition new_steps :: "approval_template option \<Rightarrow> approval_step_row list" where
  \<comment> \<open>one step for each row of the template, or a single step without a group\<close>
  "new_steps t =
     (case map (\<lambda>(n, g). \<lparr>stp_number = n, stp_group = Some g, stp_approver = None, stp_status = ''Pending''\<rparr>)
             (case t of None \<Rightarrow> [] | Some x \<Rightarrow> template_steps x) of
        [] \<Rightarrow> [\<lparr>stp_number = 1, stp_group = None, stp_approver = None, stp_status = ''Pending''\<rparr>]
      | ss \<Rightarrow> ss)"

definition pending_approval :: "doc_kind \<Rightarrow> nat \<Rightarrow> 'z workflow_state_scheme \<Rightarrow> approval option" where
  \<comment> \<open>\<^verbatim>\<open>ordering = ['-created_at']\<close>\<close>
  "pending_approval k i s =
     List.find (\<lambda>v. av_kind v = k \<and> av_object v = i \<and> av_status v = ''Pending'') (rev (approvals s))"

definition log_action :: "nat \<Rightarrow> nat option \<Rightarrow> string \<Rightarrow> nat \<Rightarrow> 'z workflow_state_scheme \<Rightarrow> 'z workflow_state_scheme" where
  "log_action v n a u s = s\<lparr>approval_logs := approval_logs s @ [\<lparr>lg_approval = v, lg_step = n, lg_action = a, lg_user = u\<rparr>]\<rparr>"

definition auto_route_approval :: "doc_kind \<Rightarrow> nat \<Rightarrow> rat option \<Rightarrow> nat \<Rightarrow> 'z workflow_state_scheme \<Rightarrow> routing \<times> 'z workflow_state_scheme" where
  "auto_route_approval k i amount user s =
     (case pending_approval k i s of
        Some v \<Rightarrow> (Already_pending (av_id v), s)
      | None \<Rightarrow>
          if bypassed k (opt_amount amount) s then (Auto_approved, s)
          else let t = select_template k (opt_amount amount) s;
                   v = fresh_pk av_id (approvals s);
                   total = (case t of None \<Rightarrow> 1 | Some x \<Rightarrow> max 1 (length (template_steps x)))
               in (Routed v,
                   log_action v None ''Submit'' user
                     (s\<lparr>approvals := approvals s @
                          [\<lparr>av_id = v, av_kind = k, av_object = i, av_amount = amount, av_status = ''Pending'', av_current = 1,
                            av_total = total, av_requester = user, av_template = map_option tp_id t, av_steps = new_steps t\<rparr>]\<rparr>)))"

section \<open>Who may act\<close>

definition delegates_to :: "nat \<Rightarrow> nat \<Rightarrow> 'z workflow_state_scheme \<Rightarrow> bool" where
  "delegates_to member user s \<longleftrightarrow>
     list_ex (\<lambda>d. dg_delegator d = member \<and> dg_delegate d = user \<and> dg_active d \<and> dg_start d \<le> today s \<and> today s \<le> dg_end d)
       (delegations s)"

definition may_act_for :: "nat \<Rightarrow> nat \<Rightarrow> 'z workflow_state_scheme \<Rightarrow> bool" where
  \<comment> \<open>a member of the group, or the active delegate of one\<close>
  "may_act_for g user s \<longleftrightarrow>
     (case find_row gp_id g (approval_groups s) of
        None \<Rightarrow> False
      | Some r \<Rightarrow> user \<in> set (gp_members r) \<or> list_ex (\<lambda>m. delegates_to m user s) (gp_members r))"

definition visible_to :: "nat \<Rightarrow> approval \<Rightarrow> 'z workflow_state_scheme \<Rightarrow> bool" where
  \<comment> \<open>\<^verbatim>\<open>get_queryset\<close>: what \<^verbatim>\<open>get_object\<close> can find\<close>
  "visible_to user v s \<longleftrightarrow>
     av_requester v = user
     \<or> list_ex (\<lambda>p. stp_status p = ''Pending'' \<and> (case stp_group p of Some g \<Rightarrow> may_act_for g user s | None \<Rightarrow> False)) (av_steps v)"

definition current_step :: "approval \<Rightarrow> approval_step_row option" where
  "current_step v = find_row stp_number (av_current v) (av_steps v)"

definition authorised :: "nat \<Rightarrow> approval \<Rightarrow> 'z workflow_state_scheme \<Rightarrow> bool" where
  \<comment> \<open>nothing is asked of a missing step, or of one without a group\<close>
  "authorised user v s \<longleftrightarrow>
     (case Option.bind (current_step v) stp_group of None \<Rightarrow> True | Some g \<Rightarrow> may_act_for g user s)"

section \<open>The document\<close>

definition set_order_status :: "nat \<Rightarrow> string \<Rightarrow> 'z purchasing_state_scheme \<Rightarrow> err + 'z purchasing_state_scheme" where
  "set_order_status i t = with_order i (\<lambda>p. save_order (p\<lparr>po_status := t\<rparr>))"

definition set_receipt_status :: "nat \<Rightarrow> string \<Rightarrow> 'z purchasing_state_scheme \<Rightarrow> err + 'z purchasing_state_scheme" where
  "set_receipt_status i t = with_receipt i (\<lambda>g. save_receipt (g\<lparr>gn_status := t\<rparr>))"

definition set_request_status :: "nat \<Rightarrow> string \<Rightarrow> 'z purchasing_state_scheme \<Rightarrow> err + 'z purchasing_state_scheme" where
  "set_request_status i t s =
     (case find_row pr_id i (requests s) of None \<Rightarrow> Inl DoesNotExist | Some r \<Rightarrow> save_request (r\<lparr>pr_status := t\<rparr>) s)"

fun doc_status :: "doc_kind \<Rightarrow> nat \<Rightarrow> 'z purchasing_state_scheme \<Rightarrow> string option" where
  "doc_status K_Request i s = map_option pr_status (find_row pr_id i (requests s))"
| "doc_status K_Order i s = map_option po_status (find_row po_id i (orders s))"
| "doc_status K_Receipt i s = map_option gn_status (find_row gn_id i (receipts s))"

fun doc_transitions :: "doc_kind \<Rightarrow> transitions" where
  "doc_transitions K_Request = REQUEST_TRANSITIONS"
| "doc_transitions K_Order = ORDER_TRANSITIONS"
| "doc_transitions K_Receipt = RECEIPT_TRANSITIONS"

fun set_doc_status :: "doc_kind \<Rightarrow> nat \<Rightarrow> string \<Rightarrow> 'z purchasing_state_scheme \<Rightarrow> err + 'z purchasing_state_scheme" where
  "set_doc_status K_Request i t s = set_request_status i t s"
| "set_doc_status K_Order i t s = set_order_status i t s"
| "set_doc_status K_Receipt i t s = set_receipt_status i t s"

definition sync_document_status_on_approval :: "approval \<Rightarrow> 'z purchasing_state_scheme \<Rightarrow> err + 'z purchasing_state_scheme" where
  \<comment> \<open>the \<^verbatim>\<open>post_save\<close> receiver\<close>
  "sync_document_status_on_approval v s =
     (if av_status v \<notin> {''Approved'', ''Rejected''} then Inr s
      else case doc_status (av_kind v) (av_object v) s of
             None \<Rightarrow> Inr s
           | Some c \<Rightarrow>
               if c = av_status v \<or> \<not> may_become (doc_transitions (av_kind v)) c (av_status v) then Inr s
               else set_doc_status (av_kind v) (av_object v) (av_status v) s)"

definition save_approval :: "approval \<Rightarrow> 'z workflow_state_scheme \<Rightarrow> err + 'z workflow_state_scheme" where
  "save_approval v s = sync_document_status_on_approval v (s\<lparr>approvals := put_row av_id v (approvals s)\<rparr>)"

fun ended_status :: "bool \<Rightarrow> doc_kind \<Rightarrow> string" where
  "ended_status True k = (if k = K_Receipt then ''Received'' else ''Approved'')"
| "ended_status False k = (if k = K_Receipt then ''Cancelled'' else ''Rejected'')"

definition trigger_document_action :: "bool \<Rightarrow> approval \<Rightarrow> 'z purchasing_state_scheme \<Rightarrow> err + 'z purchasing_state_scheme" where
  "trigger_document_action approve v s =
     (case doc_status (av_kind v) (av_object v) s of
        None \<Rightarrow> Inr s
      | Some _ \<Rightarrow> set_doc_status (av_kind v) (av_object v) (ended_status approve (av_kind v)) s)"

section \<open>The actions on an approval\<close>

definition with_approval :: "nat \<Rightarrow> nat \<Rightarrow> (approval \<Rightarrow> 'z workflow_state_scheme \<Rightarrow> err + 'z workflow_state_scheme) \<Rightarrow>
    'z workflow_state_scheme \<Rightarrow> err + 'z workflow_state_scheme" where
  "with_approval user i f s =
     (case find_row av_id i (approvals s) of
        None \<Rightarrow> Inl DoesNotExist
      | Some v \<Rightarrow> if visible_to user v s then f v s else Inl DoesNotExist)"

definition sign_step :: "nat \<Rightarrow> string \<Rightarrow> approval \<Rightarrow> approval" where
  "sign_step user t v =
     v\<lparr>av_steps := upd_row stp_number (av_current v) (\<lambda>p. p\<lparr>stp_status := t, stp_approver := Some user\<rparr>) (av_steps v)\<rparr>"

definition pending_steps :: "approval \<Rightarrow> nat" where
  "pending_steps v = length (filter (\<lambda>p. stp_status p = ''Pending'') (av_steps v))"

definition approve_approval :: "nat \<Rightarrow> nat \<Rightarrow> 'z workflow_state_scheme \<Rightarrow> err + 'z workflow_state_scheme" where
  "approve_approval user i = with_approval user i
     (\<lambda>v s. if av_status v \<noteq> ''Pending'' then Inl ApprovalError
            else if \<not> authorised user v s then Inl PermissionError
            else let v1 = sign_step user ''Approved'' v; log = log_action i (map_option stp_number (current_step v)) ''Approve'' user
                 in if pending_steps v1 = 0
                    then rbind (save_approval (v1\<lparr>av_status := ''Approved''\<rparr>) s)
                           (\<lambda>s1. rbind (trigger_document_action True v s1) (\<lambda>s2. Inr (log s2)))
                    else rbind (save_approval (v1\<lparr>av_current := Suc (av_current v)\<rparr>) s) (\<lambda>s1. Inr (log s1)))"

definition reject_approval :: "nat \<Rightarrow> nat \<Rightarrow> 'z workflow_state_scheme \<Rightarrow> err + 'z workflow_state_scheme" where
  "reject_approval user i = with_approval user i
     (\<lambda>v s. if av_status v \<noteq> ''Pending'' then Inl ApprovalError
            else if \<not> authorised user v s then Inl PermissionError
            else rbind (save_approval ((sign_step user ''Rejected'' v)\<lparr>av_status := ''Rejected''\<rparr>) s)
                   (\<lambda>s1. rbind (trigger_document_action False v s1)
                      (\<lambda>s2. Inr (log_action i (map_option stp_number (current_step v)) ''Reject'' user s2))))"

definition cancel_approval :: "bool \<Rightarrow> nat \<Rightarrow> nat \<Rightarrow> 'z workflow_state_scheme \<Rightarrow> err + 'z workflow_state_scheme" where
  "cancel_approval admin user i = with_approval user i
     (\<lambda>v s. if av_status v \<notin> {''Draft'', ''Pending''} then Inl ApprovalError
            else if av_requester v \<noteq> user \<and> \<not> admin then Inl PermissionError
            else rbind (save_approval (v\<lparr>av_status := ''Cancelled''\<rparr>) s) (\<lambda>s1. Inr (log_action i None ''Cancel'' user s1)))"

definition submit_approval :: "nat \<Rightarrow> nat \<Rightarrow> 'z workflow_state_scheme \<Rightarrow> err + 'z workflow_state_scheme" where
  "submit_approval user i = with_approval user i
     (\<lambda>v s. if av_status v \<noteq> ''Draft'' then Inl ApprovalError
            else rbind (save_approval (v\<lparr>av_status := ''Pending''\<rparr>) s) (\<lambda>s1. Inr (log_action i None ''Submit'' user s1)))"

definition patch_approval_status :: "nat \<Rightarrow> nat \<Rightarrow> string \<Rightarrow> 'z workflow_state_scheme \<Rightarrow> err + 'z workflow_state_scheme" where
  \<comment> \<open>\<^verbatim>\<open>PATCH {"status": t}\<close>: \<^verbatim>\<open>status\<close> is not among the read-only fields of \<^verbatim>\<open>ApprovalSerializer\<close>\<close>
  "patch_approval_status user i t = with_approval user i
     (\<lambda>v s. if t \<notin> {''Draft'', ''Pending'', ''Approved'', ''Rejected'', ''Cancelled''} then Inl ValidationError
            else save_approval (v\<lparr>av_status := t\<rparr>) s)"

definition approval_step_clean :: "nat \<Rightarrow> nat list \<Rightarrow> err + unit" where
  \<comment> \<open>a new step against the numbers of the existing ones\<close>
  "approval_step_clean n existing = (if n > Suc (fold max existing 0) then Inl ValidationError else Inr ())"

definition pending_count :: "nat \<Rightarrow> 'z workflow_state_scheme \<Rightarrow> nat" where
  "pending_count user s =
     length (filter (\<lambda>v. av_status v = ''Pending''
       \<and> list_ex (\<lambda>p. stp_status p = ''Pending''
            \<and> (case Option.bind (stp_group p) (\<lambda>g. find_row gp_id g (approval_groups s)) of
                 Some r \<Rightarrow> user \<in> set (gp_members r) | None \<Rightarrow> False)) (av_steps v)) (approvals s))"

section \<open>Submitting a document\<close>

definition routed_status :: "routing \<Rightarrow> doc_kind \<Rightarrow> string" where
  "routed_status r k =
     (if r = Auto_approved then (if k = K_Receipt then ''Received'' else ''Approved'')
      else (if k = K_Receipt then ''On Hold'' else ''Pending''))"

definition doc_amount :: "doc_kind \<Rightarrow> nat \<Rightarrow> 'z purchasing_state_scheme \<Rightarrow> rat option" where
  \<comment> \<open>\<^verbatim>\<open>_get_doc_amount\<close>: a requisition has none of the attributes it looks for\<close>
  "doc_amount k i s =
     (case k of
        K_Request \<Rightarrow> None
      | K_Order \<Rightarrow> map_option order_total (find_row po_id i (orders s))
      | K_Receipt \<Rightarrow> map_option (\<lambda>g. receipt_total g s) (find_row gn_id i (receipts s)))"

definition submit_for_approval :: "doc_kind \<Rightarrow> nat \<Rightarrow> nat \<Rightarrow> 'z workflow_state_scheme \<Rightarrow> (err + routing) \<times> 'z workflow_state_scheme" where
  \<comment> \<open>the three actions of that name; the approval is committed before the document is saved\<close>
  "submit_for_approval k i user s =
     (case doc_status k i s of
        None \<Rightarrow> (Inl DoesNotExist, s)
      | Some c \<Rightarrow>
          if c \<notin> (if k = K_Receipt then {''Draft''} else {''Draft'', ''Rejected''}) then (Inl ApprovalError, s)
          else (let (r, s1) = auto_route_approval k i (doc_amount k i s) user s
                in case set_doc_status k i (routed_status r k) s1 of Inl e \<Rightarrow> (Inl e, s1) | Inr s2 \<Rightarrow> (Inr r, s2)))"

definition unassigned_approval :: "nat \<Rightarrow> doc_kind \<Rightarrow> nat \<Rightarrow> rat option \<Rightarrow> nat \<Rightarrow> approval" where
  \<comment> \<open>a single step without a group\<close>
  "unassigned_approval v k i amount user =
     \<lparr>av_id = v, av_kind = k, av_object = i, av_amount = amount, av_status = ''Pending'', av_current = 1, av_total = 1,
      av_requester = user, av_template = None, av_steps = new_steps None\<rparr>"

definition submit_new :: "doc_kind \<Rightarrow> nat \<Rightarrow> rat option \<Rightarrow> nat \<Rightarrow> 'z workflow_state_scheme \<Rightarrow> err + (routing \<times> 'z workflow_state_scheme)" where
  \<comment> \<open>the document is not touched and a pending approval not looked for; \<^verbatim>\<open>template.steps\<close> are groups, which have no \<^verbatim>\<open>group\<close>,
    so the loop over the active templates fails on its first round\<close>
  "submit_new k i amount user s =
     (if doc_status k i s = None then Inl DoesNotExist
      else if (case setting_for (module_key k) s of
                 None \<Rightarrow> False | Some x \<Rightarrow> st_auto_below x \<and> st_use_threshold x \<and> opt_amount amount < st_low x)
      then Inr (Auto_approved, s)
      else if active_approval_templates k s \<noteq> [] then Inl AttributeError
      else let v = fresh_pk av_id (approvals s)
           in Inr (Routed v, log_action v None ''Submit'' user (s\<lparr>approvals := approvals s @ [unassigned_approval v k i amount user]\<rparr>)))"

definition post_receipt :: "nat \<Rightarrow> 'z workflow_state_scheme \<Rightarrow> err + 'z workflow_state_scheme" where
  \<comment> \<open>\<^verbatim>\<open>post_grn\<close> with the approvals of the receipt\<close>
  "post_receipt i s = post_grn (pending_approval K_Receipt i s \<noteq> None) i s"

end
