(* ===== verification/Procurement.thy ===== *)
theory Procurement
  imports Workflow
begin

text \<open>
  What holds of the procurement documents in every state the actions of \<open>Purchasing\<close>, \<open>Receiving\<close> and \<open>Workflow\<close>
  reach: the status tables, the commitments of orders, the received quantities and the signatures of approvals.
\<close>

section \<open>A posting leaves the documents alone\<close>

definition books_write :: "'z asset_state_scheme \<Rightarrow> 'z asset_state_scheme \<Rightarrow> bool" where
  \<comment> \<open>only the ledger, the asset register and the caches of budget lines differ\<close>
  "books_write s s' \<longleftrightarrow>
     (\<exists>sq js gl ap fa. s' = s\<lparr>sequences := sq, journals := js, gl_balances := gl, appropriations := ap, fixed_assets := fa\<rparr>)"

lemma books_writeI:
  "s' = s\<lparr>sequences := sq, journals := js, gl_balances := gl, appropriations := ap, fixed_assets := fa\<rparr> \<Longrightarrow> books_write s s'"
  unfolding books_write_def by blast

lemma books_write_trans [trans]: "books_write s t \<Longrightarrow> books_write t u \<Longrightarrow> books_write s u"
  unfolding books_write_def by (elim exE) (simp, blast)

lemma books_write_updates [intro]:
  "books_write s (s\<lparr>sequences := sq\<rparr>)" "books_write s (s\<lparr>journals := js\<rparr>)" "books_write s (s\<lparr>gl_balances := gl\<rparr>)"
  "books_write s (s\<lparr>appropriations := ap\<rparr>)" "books_write s (s\<lparr>fixed_assets := fa\<rparr>)"
proof -
  note I = books_writeI [where s = s]
  show "books_write s (s\<lparr>sequences := sq\<rparr>)"
    by (rule I [where sq = sq and js = "journals s" and gl = "gl_balances s" and ap = "appropriations s" and fa = "fixed_assets s"]) simp
  show "books_write s (s\<lparr>journals := js\<rparr>)"
    by (rule I [where sq = "sequences s" and js = js and gl = "gl_balances s" and ap = "appropriations s" and fa = "fixed_assets s"]) simp
  show "books_write s (s\<lparr>gl_balances := gl\<rparr>)"
    by (rule I [where sq = "sequences s" and js = "journals s" and gl = gl and ap = "appropriations s" and fa = "fixed_assets s"]) simp
  show "books_write s (s\<lparr>appropriations := ap\<rparr>)"
    by (rule I [where sq = "sequences s" and js = "journals s" and gl = "gl_balances s" and ap = ap and fa = "fixed_assets s"]) simp
  show "books_write s (s\<lparr>fixed_assets := fa\<rparr>)"
    by (rule I [where sq = "sequences s" and js = "journals s" and gl = "gl_balances s" and ap = "appropriations s" and fa = fa]) simp
qed

lemma books_write_refl [simp, intro]: "books_write s s"
  using books_write_updates(1) [of s "sequences s"] by simp

lemma rfold_books_write:
  assumes "\<And>x s s'. f x s = Inr s' \<Longrightarrow> books_write s s'"
  shows "rfold f xs s = Inr s' \<Longrightarrow> books_write s s'"
proof (induction xs arbitrary: s)
  case (Cons x xs)
  then obtain s1 where "f x s = Inr s1" "rfold f xs s1 = Inr s'" by (auto simp: rbind_eq_Inr)
  then show ?case using assms Cons.IH books_write_trans by blast
qed simp

lemma insert_journal_books: "insert_journal h s = Inr (i, s') \<Longrightarrow> books_write s s'"
  by (elim insert_journalD) (auto intro: books_write_trans [OF books_write_updates(1) books_write_updates(2)])

lemma create_lines_books: "create_lines i ls s = Inr s' \<Longrightarrow> books_write s s'"
  unfolding create_lines_def
  by (erule rfold_books_write [rotated]) (auto simp: create_jline_def Let_def split: option.splits if_splits)

lemma save_journal_books: "save_journal fs j s = Inr s' \<Longrightarrow> books_write s s'"
  by (auto simp: save_journal_def Let_def refresh_after_post_def rbind_eq_Inr split: option.splits if_splits
      dest!: refresh_many_frame intro: books_write_trans [OF books_write_updates(2) books_write_updates(4)])

lemma capitalise_line_books: "capitalise_line i n s = Inr s' \<Longrightarrow> books_write s s'"
  by (auto simp: capitalise_line_def insert_asset_def stamp_line_def Let_def rbind_eq_Inr split: option.splits if_splits
      dest!: create_lines_books intro: books_write_trans [OF books_write_trans [OF books_write_updates(5)]])

lemma post_validated_books:
  assumes "post_validated h ls s = Inr (i, s')"
  shows "books_write s s'"
proof -
  obtain s1 s2 s3 where 1: "insert_journal h s = Inr (i, s1)" "create_lines i ls s1 = Inr s2"
    and 2: "validate_journal_balanced i s2 = Inr s3" "base_update_gl_balances i s3 = Inr s'"
    using assms by (auto simp: post_validated_def rbind_eq_Inr)
  have "apply_asset_capitalization i s2 = Inr s3"
    using 2(1) by (auto simp: validate_journal_balanced_def split: sum.splits option.splits if_splits)
  then have 3: "books_write s2 s3"
    by (auto simp: apply_asset_capitalization_def split: option.splits intro: rfold_books_write capitalise_line_books)
  obtain j s4 where 4: "update_gl_balances j s3 = Inr s4" "s' = s4 \<or> save_journal (Some [F_status]) (j\<lparr>j_status := J_Posted\<rparr>) s4 = Inr s'"
    using 2(2) by (auto simp: base_update_gl_balances_def rbind_eq_Inr split: option.splits if_splits)
  have "books_write s3 s4" using 4(1) by (auto simp: update_gl_balances_def rbind_eq_Inr)
  moreover have "books_write s4 s'" using 4(2) save_journal_books by auto
  ultimately show ?thesis using 3 insert_journal_books [OF 1(1)] create_lines_books [OF 1(2)] by (meson books_write_trans)
qed

section \<open>Drift along the status tables\<close>

definition drifts :: "transitions \<Rightarrow> (nat \<Rightarrow> string option) \<Rightarrow> (nat \<Rightarrow> string option) \<Rightarrow> bool" where
  "drifts T f g \<longleftrightarrow> (\<forall>i a. f i = Some a \<longrightarrow> (\<exists>b. g i = Some b \<and> (may_become T)\<^sup>*\<^sup>* a b))"

lemma drifts_refl [simp, intro]: "drifts T f f"
  by (auto simp: drifts_def)

lemma drifts_trans [trans]: "drifts T f g \<Longrightarrow> drifts T g h \<Longrightarrow> drifts T f h"
  unfolding drifts_def by (meson rtranclp_trans)

abbreviation kind_status :: "doc_kind \<Rightarrow> 'z purchasing_state_scheme \<Rightarrow> nat \<Rightarrow> string option" where
  "kind_status k s \<equiv> (\<lambda>i. doc_status k i s)"

definition lawful :: "'z purchasing_state_scheme \<Rightarrow> 'z purchasing_state_scheme \<Rightarrow> bool" where
  \<comment> \<open>statuses drift along their tables, and open commitments stay with committed orders\<close>
  "lawful s s' \<longleftrightarrow> (\<forall>k. drifts (doc_transitions k) (kind_status k s) (kind_status k s')) \<and> (links_backed s \<longrightarrow> links_backed s')"

definition quiet :: "'z purchasing_state_scheme \<Rightarrow> 'z purchasing_state_scheme \<Rightarrow> bool" where
  \<comment> \<open>lawful, and nothing of the approval engine changes\<close>
  "quiet s s' \<longleftrightarrow> lawful s s' \<and> purchasing_state.more s' = purchasing_state.more s"

lemma lawful_refl [simp, intro]: "lawful s s"
  by (simp add: lawful_def)

lemma lawful_trans [trans]: "lawful s t \<Longrightarrow> lawful t u \<Longrightarrow> lawful s u"
  unfolding lawful_def by (meson drifts_trans)

lemma quiet_refl [simp, intro]: "quiet s s"
  by (simp add: quiet_def)

lemma quiet_trans [trans]: "quiet s t \<Longrightarrow> quiet t u \<Longrightarrow> quiet s u"
  unfolding quiet_def using lawful_trans by simp blast

lemma quiet_lawful: "quiet s s' \<Longrightarrow> lawful s s'"
  by (simp add: quiet_def)

lemma quiet_engine:
  fixes s :: "'z workflow_state_scheme"
  assumes "quiet s s'"
  shows "approvals s' = approvals s" "approval_groups s' = approval_groups s" "approval_templates s' = approval_templates s"
    "delegations s' = delegations s" "approval_settings s' = approval_settings s"
  using assms by (cases s; cases s'; simp add: quiet_def)+

lemma order_status_doc: "order_status i s = doc_status K_Order i s"
  by (simp add: order_status_def)

lemma lawful_same:
  assumes "\<And>k i. doc_status k i s' = doc_status k i s" and "commitments s' = commitments s"
  shows "lawful s s'"
  using assms by (simp add: lawful_def links_backed_def order_status_doc)

lemma quiet_same:
  assumes "\<And>k i. doc_status k i s' = doc_status k i s" and "commitments s' = commitments s"
    and "purchasing_state.more s' = purchasing_state.more s"
  shows "quiet s s'"
  using lawful_same [OF assms(1,2)] assms(3) by (simp add: quiet_def)

lemma lawful_same_tables:
  assumes "orders s' = orders s" and "requests s' = requests s" and "receipts s' = receipts s" and "commitments s' = commitments s"
  shows "lawful s s'"
proof (rule lawful_same)
  show "doc_status k i s' = doc_status k i s" for k i by (cases k) (simp_all add: assms)
qed (fact assms(4))

lemma quiet_same_tables:
  assumes "orders s' = orders s" and "requests s' = requests s" and "receipts s' = receipts s" and "commitments s' = commitments s"
    and "purchasing_state.more s' = purchasing_state.more s"
  shows "quiet s s'"
  using lawful_same_tables [OF assms(1-4)] assms(5) by (simp add: quiet_def)

lemma books_write_quiet: "books_write s s' \<Longrightarrow> quiet s (s' :: 'z purchasing_state_scheme)"
  by (auto simp: books_write_def intro!: quiet_same_tables)

lemma save_order_quiet:
  assumes "save_order p s = Inr s'"
  shows "quiet s s'"
proof -
  obtain old p1 s1 where o: "find_row po_id (po_id p) (orders s) = Some old"
    "p1 = calculate_tax (p\<lparr>po_number := (if po_number p = [] then generate_po_number s else po_number p), po_lines := po_lines old\<rparr>)"
    "po_status p = po_status old \<or> may_become ORDER_TRANSITIONS (po_status old) (po_status p)"
    "order_write (po_id p) s s1" "s' = s1\<lparr>orders := put_row po_id p1 (orders s)\<rparr>"
    using assms by (rule save_orderE)
  obtain ec com ap where s1: "s1 = s\<lparr>encumbrances := ec, commitments := com, appropriations := ap\<rparr>"
    using order_writeD [OF o(4)] by blast
  have "po_id p1 = po_id p" "po_status p1 = po_status p" by (simp_all add: o(2) calculate_tax_def)
  then have st: "order_status j s' = (if j = po_id p then Some (po_status p) else order_status j s)" for j
    using order_status_put_row [of p1 s old j s1] o(1,5) by simp
  have "drifts (doc_transitions k) (kind_status k s) (kind_status k s')" for k
  proof (cases k)
    case K_Order
    have "order_status (po_id p) s = Some (po_status old)" using o(1) by (simp add: order_status_def)
    then show ?thesis using o(3) st unfolding drifts_def K_Order doc_transitions.simps order_status_doc [symmetric]
      by (metis option.inject r_into_rtranclp rtranclp.rtrancl_refl)
  qed (simp_all add: o(5) s1)
  then show ?thesis using save_order_links_backed [OF assms] by (simp add: quiet_def lawful_def o(5) s1)
qed

lemma save_request_quiet:
  assumes "save_request r s = Inr s'"
  shows "quiet s s'"
proof -
  obtain old where old: "find_row pr_id (pr_id r) (requests s) = Some old"
    using assms by (auto simp: save_request_def split: option.splits)
  define r1 where "r1 = r\<lparr>pr_number := (if pr_number r = [] then generate_pr_number s else pr_number r), pr_lines := pr_lines old\<rparr>"
  have r1: "pr_id r1 = pr_id r" "pr_status r1 = pr_status r" by (simp_all add: r1_def)
  have "validate_status_transition REQUEST_TRANSITIONS (Some (pr_status old)) (pr_status r1) = Inr ()"
    and s': "s' = s\<lparr>requests := put_row pr_id r1 (requests s)\<rparr>"
    using assms unfolding save_request_def old option.case Let_def r1_def [symmetric]
    by (auto simp: rbind_eq_Inr split: if_splits)
  then have t: "pr_status r = pr_status old \<or> may_become REQUEST_TRANSITIONS (pr_status old) (pr_status r)"
    by (auto simp: validate_status_ok r1)
  have "pr_id r \<in> pr_id ` set (requests s)" using find_row_SomeD [OF old] by (metis image_eqI)
  then have st: "doc_status K_Request i s' = (if i = pr_id r then Some (pr_status r) else doc_status K_Request i s)" for i
    using old by (simp add: s' r1)
  have "drifts (doc_transitions k) (kind_status k s) (kind_status k s')" for k
  proof (cases k)
    case K_Request
    have "doc_status K_Request (pr_id r) s = Some (pr_status old)" using old by simp
    then show ?thesis using t st unfolding drifts_def K_Request doc_transitions.simps
      by (metis option.inject r_into_rtranclp rtranclp.rtrancl_refl)
  qed (simp_all add: s')
  then show ?thesis by (simp add: quiet_def lawful_def links_backed_def order_status_doc s')
qed

lemma commitment_quiet:
  assumes c: "create_commitment_for_po p x s = Inr (b, s')" and "committed_order (po_id p) s"
  shows "quiet s (s' :: 'z purchasing_state_scheme)"
proof -
  obtain com ap where s': "s' = s\<lparr>commitments := com, appropriations := ap\<rparr>"
    using budget_writeD [OF create_commitment_write [OF c]] by blast
  have same: "order_status j s' = order_status j s" for j by (simp add: s' order_status_def)
  note w = budget_write_fields [OF create_commitment_write [OF c], THEN conjunct2]
  have "links_backed s'" if "links_backed s"
    by (rule links_backedI [OF that w]) (use assms(2) in \<open>simp_all only: same\<close>)
  moreover have "doc_status k j s' = doc_status k j s" for k j by (cases k) (simp_all add: s')
  ultimately show ?thesis by (simp add: quiet_def lawful_def s')
qed

lemma put_order_line_quiet:
  assumes "put_order_line i f s = Inr s'"
  shows "quiet s s'"
proof -
  obtain p where p: "find_row po_id i (orders s) = Some p"
    using assms by (auto simp: put_order_line_def split: option.splits)
  define p1 s1 where "p1 = p\<lparr>po_lines := f (po_lines p)\<rparr>" and "s1 = s\<lparr>orders := put_row po_id p1 (orders s)\<rparr>"
  have id: "po_id p = i" "p \<in> set (orders s)" using find_row_SomeD [OF p] by simp_all
  have p1: "po_id p1 = i" "po_status p1 = po_status p" by (simp_all add: p1_def id)
  have at: "order_status j s1 = (if j = i then Some (po_status p) else order_status j s)" for j
    unfolding s1_def using order_status_put_row [of p1 s p j s] p by (simp add: p1)
  have st: "order_status j s1 = order_status j s" for j
    using at [of j] p by (simp add: order_status_def split: if_splits)
  have 1: "quiet s s1"
  proof (rule quiet_same)
    show "doc_status k j s1 = doc_status k j s" for k j
      by (cases k) (use st in \<open>simp_all add: order_status_def, simp_all add: s1_def\<close>)
  qed (simp_all add: s1_def)
  have run: "(if committed_status (po_status p1) then rbind (create_commitment_for_po p1 None s1) (\<lambda>(_, s2). Inr s2) else Inr s1) = Inr s'"
    unfolding p1_def s1_def using assms p by (simp add: put_order_line_def Let_def split del: if_split)
  have "quiet s1 s'"
  proof (cases "committed_status (po_status p1)")
    case False
    then show ?thesis using run by simp
  next
    case True
    then obtain b where "create_commitment_for_po p1 None s1 = Inr (b, s')" using run by (auto simp: rbind_eq_Inr)
    then show ?thesis by (rule commitment_quiet) (use True at [of i] in \<open>simp add: p1\<close>)
  qed
  with 1 show ?thesis by (rule quiet_trans)
qed

lemma rfold_quiet:
  assumes "\<And>x s s'. f x s = Inr s' \<Longrightarrow> quiet s s'"
  shows "rfold f xs s = Inr s' \<Longrightarrow> quiet s s'"
proof (induction xs arbitrary: s)
  case (Cons x xs)
  then obtain s1 where "f x s = Inr s1" "rfold f xs s1 = Inr s'" by (auto simp: rbind_eq_Inr)
  then show ?case using assms Cons.IH quiet_trans by blast
qed simp

lemma receive_line_step:
  assumes "receive_line g w gl s = Inr s'"
  obtains p where "p \<in> set (orders s)" "gnl_order_line gl \<in> ol_id ` set (po_lines p)"
    "put_order_line (po_id p) (upd_row ol_id (gnl_order_line gl) (\<lambda>l. l\<lparr>ol_received := ol_received l + gnl_quantity gl\<rparr>)) s = Inr s'"
    "\<exists>l. order_line_of (gnl_order_line gl) s' = Some l \<and> (ol_item l = None \<or> gnl_quantity gl \<le> 0)"
proof -
  obtain p where p: "List.find (\<lambda>p. list_ex (\<lambda>l. ol_id l = gnl_order_line gl) (po_lines p)) (orders s) = Some p"
    using assms by (auto simp: receive_line_def split: option.splits)
  obtain s1 where 1: "put_order_line (po_id p) (upd_row ol_id (gnl_order_line gl) (\<lambda>l. l\<lparr>ol_received := ol_received l + gnl_quantity gl\<rparr>)) s = Inr s1"
    and 2: "(case order_line_of (gnl_order_line gl) s1 of None \<Rightarrow> Inl DoesNotExist
       | Some l \<Rightarrow> (case ol_item l of Some i \<Rightarrow> if 0 < gnl_quantity gl then rbind (movement_full_clean (receipt_movement g w i gl l)) (\<lambda>_. Inr s1) else Inr s1
                  | None \<Rightarrow> Inr s1)) = Inr s'"
    using assms unfolding receive_line_def p option.case rbind_eq_Inr by blast
  then have "s' = s1 \<and> (\<exists>l. order_line_of (gnl_order_line gl) s1 = Some l \<and> (ol_item l = None \<or> gnl_quantity gl \<le> 0))"
    by (auto split: option.splits if_splits)
  moreover have "p \<in> set (orders s)" "gnl_order_line gl \<in> ol_id ` set (po_lines p)"
    using p by (auto simp: find_Some_iff list_ex_iff image_iff) (metis nth_mem)
  ultimately show ?thesis using that 1 by blast
qed

lemma receive_line_quiet: "receive_line g w gl s = Inr s' \<Longrightarrow> quiet s s'"
  by (erule receive_line_step) (rule put_order_line_quiet)

lemma move_invoiced_quiet:
  assumes "mark_commitment_invoiced_for_po i s = Inr (n, s')"
  shows "quiet s (s' :: 'z purchasing_state_scheme)"
proof -
  obtain ap where s': "s' = (snd (move_link i [''ACTIVE''] ''INVOICED'' s))\<lparr>appropriations := ap\<rparr>"
    using move_and_refreshD [OF assms [unfolded mark_commitment_invoiced_for_po_def]] by blast
  have docs: "orders s' = orders s" "requests s' = requests s" "receipts s' = receipts s"
    by (simp_all add: s' move_link_def)
  have com: "set (commitments s') = (\<lambda>c. if cm_po c = i \<and> cm_status c \<in> set [''ACTIVE''] then c\<lparr>cm_status := ''INVOICED''\<rparr> else c) ` set (commitments s)"
    by (simp add: s' move_link_fields)
  have "links_backed s'" if b: "links_backed s"
    unfolding links_backed_def
  proof (intro ballI impI)
    fix c assume c: "c \<in> set (commitments s')" "cm_status c \<in> set OPEN_LINK"
    then obtain d where d: "d \<in> set (commitments s)" "cm_po c = cm_po d" "cm_status d = ''ACTIVE'' \<or> cm_status d = cm_status c"
      unfolding com by (auto split: if_splits)
    then have "committed_order (cm_po d) s" using b c(2) by (auto simp: links_backed_def OPEN_LINK_def)
    then show "committed_order (cm_po c) s'" by (simp add: order_status_def docs d(2))
  qed
  moreover have "doc_status k j s' = doc_status k j s" for k j by (cases k) (simp_all add: docs)
  ultimately show ?thesis by (simp add: quiet_def lawful_def s' move_link_def)
qed

lemma close_if_received_cases:
  assumes "close_if_received i s = Inr s'"
  obtains (open_order) p where "find_row po_id i (orders s) = Some p" "\<not> fully_received p" "s' = s"
    | (closed) p where "find_row po_id i (orders s) = Some p" "fully_received p" "save_order (p\<lparr>po_status := ''Closed''\<rparr>) s = Inr s'"
  using assms by (auto simp: close_if_received_def with_order_def split: option.splits if_splits)

lemma close_if_received_quiet: "close_if_received i s = Inr s' \<Longrightarrow> quiet s s'"
  by (erule close_if_received_cases) (auto intro: save_order_quiet)

lemma vendor_statistics_same: "\<exists>su. vendor_statistics g p s = s\<lparr>suppliers := su\<rparr>"
  by (auto simp: vendor_statistics_def Let_def)

lemma draft_receipt_invoice_same: "draft_receipt_invoice g p s = Inr s' \<Longrightarrow> \<exists>vi. s' = s\<lparr>vendor_invoices := vi\<rparr>"
proof -
  have keep: "s = s\<lparr>vendor_invoices := vendor_invoices s\<rparr>" by simp
  assume "draft_receipt_invoice g p s = Inr s'"
  then show ?thesis using keep unfolding draft_receipt_invoice_def Let_def by (simp only: split: if_split_asm) blast+
qed

lemma post_receipt_books: "post_goods_received_note g s = Inr (j, s') \<Longrightarrow> books_write s s'"
  by (auto simp: post_goods_received_note_def rbind_eq_Inr split: if_splits option.splits intro: post_validated_books)

lemma process_receiptE:
  assumes "process_receipt g s = Inr s'"
  obtains w s2 s3 p s4 n s5 j where
    "gn_warehouse g = Some w" "gn_number g \<notin> gn_number ` set (filter (\<lambda>r. gn_id r \<noteq> gn_id g) (receipts s))"
    "rfold (receive_line g w) (gn_lines g) (s\<lparr>receipts := put_row gn_id g (receipts s)\<rparr>) = Inr s2"
    "close_if_received (gn_order g) s2 = Inr s3" "find_row po_id (gn_order g) (orders s3) = Some p"
    "draft_receipt_invoice g p (vendor_statistics g p s3) = Inr s4"
    "mark_commitment_invoiced_for_po (po_id p) s4 = Inr (n, s5)" "post_goods_received_note g s5 = Inr (j, s')"
  using assms unfolding process_receipt_def write_receipt_def with_order_def
  by (auto simp: rbind_eq_Inr split: option.splits if_splits)

lemma located_receipt_same:
  assumes "located_receipt g s = Inr (g', s')"
  shows "(\<exists>ws. s' = s\<lparr>warehouses := ws\<rparr>) \<and> gn_id g' = gn_id g \<and> gn_status g' = gn_status g \<and> gn_lines g' = gn_lines g
     \<and> gn_order g' = gn_order g"
proof -
  have keep: "\<exists>ws. s = s\<lparr>warehouses := ws\<rparr>" by (rule exI [of _ "warehouses s"]) simp
  show ?thesis using assms keep
    by (auto simp: located_receipt_def get_default_warehouse_for_mda_def Let_def rbind_eq_Inr
        split: option.splits if_splits list.splits)
qed

lemma put_receipt_quiet:
  assumes "find_row gn_id (gn_id g) (receipts s) = Some old"
    and "gn_status g = gn_status old \<or> may_become RECEIPT_TRANSITIONS (gn_status old) (gn_status g)"
  shows "quiet s (s\<lparr>receipts := put_row gn_id g (receipts s)\<rparr>)"
proof -
  have "gn_id g \<in> gn_id ` set (receipts s)" using find_row_SomeD [OF assms(1)] by (metis image_eqI)
  then have st: "doc_status K_Receipt i (s\<lparr>receipts := put_row gn_id g (receipts s)\<rparr>)
      = (if i = gn_id g then Some (gn_status g) else doc_status K_Receipt i s)" for i
    using assms(1) by simp
  have "drifts (doc_transitions k) (kind_status k s) (kind_status k (s\<lparr>receipts := put_row gn_id g (receipts s)\<rparr>))" for k
  proof (cases k)
    case K_Receipt
    have "doc_status K_Receipt (gn_id g) s = Some (gn_status old)" using assms(1) by simp
    then show ?thesis using assms(2) st unfolding drifts_def K_Receipt doc_transitions.simps
      by (metis option.inject r_into_rtranclp rtranclp.rtrancl_refl)
  qed simp_all
  then show ?thesis by (simp add: quiet_def lawful_def links_backed_def order_status_doc)
qed

lemma process_receipt_quiet:
  assumes "process_receipt g s = Inr s'" and "find_row gn_id (gn_id g) (receipts s) = Some old"
    and "gn_status g = gn_status old \<or> may_become RECEIPT_TRANSITIONS (gn_status old) (gn_status g)"
  shows "quiet s s'"
proof -
  obtain w s2 s3 p s4 n s5 j where r: "rfold (receive_line g w) (gn_lines g) (s\<lparr>receipts := put_row gn_id g (receipts s)\<rparr>) = Inr s2"
    "close_if_received (gn_order g) s2 = Inr s3" "draft_receipt_invoice g p (vendor_statistics g p s3) = Inr s4"
    "mark_commitment_invoiced_for_po (po_id p) s4 = Inr (n, s5)" "post_goods_received_note g s5 = Inr (j, s')"
    using assms(1) by (rule process_receiptE)
  have "quiet s (s\<lparr>receipts := put_row gn_id g (receipts s)\<rparr>)" by (rule put_receipt_quiet [OF assms(2,3)])
  also have "quiet \<dots> s2" using r(1) by (rule rfold_quiet [rotated]) (rule receive_line_quiet)
  also have "quiet s2 s3" using r(2) by (rule close_if_received_quiet)
  also have "quiet s3 s4"
    using vendor_statistics_same [of g p s3] draft_receipt_invoice_same [OF r(3)]
    by (auto intro!: quiet_same_tables)
  also have "quiet s4 s5" using r(4) by (rule move_invoiced_quiet)
  also have "quiet s5 s'" using post_receipt_books [OF r(5)] by (rule books_write_quiet)
  finally show ?thesis .
qed

lemma save_receipt_quiet:
  assumes "save_receipt g s = Inr s'"
  shows "quiet s s'"
proof -
  obtain old g1 s1 where old: "find_row gn_id (gn_id g) (receipts s) = Some old"
    and l: "located_receipt (g\<lparr>gn_lines := gn_lines old\<rparr>) s = Inr (g1, s1)"
    and t: "validate_status_transition RECEIPT_TRANSITIONS (Some (gn_status old)) (gn_status g1) = Inr ()"
    and r: "(if gn_status old \<noteq> ''Posted'' \<and> gn_status g1 = ''Posted'' then process_receipt g1 s1 else write_receipt g1 s1) = Inr s'"
    using assms by (auto simp: save_receipt_def rbind_eq_Inr split: option.splits)
  obtain ws where s1: "s1 = s\<lparr>warehouses := ws\<rparr>" and f: "gn_id g1 = gn_id g"
    using located_receipt_same [OF l] by auto
  have st: "gn_status g1 = gn_status old \<or> may_become RECEIPT_TRANSITIONS (gn_status old) (gn_status g1)"
    using t by (auto simp: validate_status_ok)
  have old1: "find_row gn_id (gn_id g1) (receipts s1) = Some old" using old by (simp add: s1 f)
  have "quiet s s1" by (rule quiet_same_tables) (simp_all add: s1)
  also have "quiet s1 s'"
  proof (cases "gn_status old \<noteq> ''Posted'' \<and> gn_status g1 = ''Posted''")
    case True
    have "process_receipt g1 s1 = Inr s'" using r unfolding if_P [OF True] .
    then show ?thesis using old1 st by (rule process_receipt_quiet)
  next
    case False
    have "write_receipt g1 s1 = Inr s'" using r unfolding if_not_P [OF False] .
    then have "s' = s1\<lparr>receipts := put_row gn_id g1 (receipts s1)\<rparr>" by (simp add: write_receipt_def split: if_splits)
    then show ?thesis using put_receipt_quiet [OF old1 st] by simp
  qed
  finally show ?thesis .
qed

section \<open>Every action is lawful\<close>

lemma with_order_quiet: "(\<And>p. f p s = Inr s' \<Longrightarrow> quiet s s') \<Longrightarrow> with_order i f s = Inr s' \<Longrightarrow> quiet s s'"
  by (auto simp: with_order_def split: option.splits)

lemma with_receipt_quiet: "(\<And>g. f g s = Inr s' \<Longrightarrow> quiet s s') \<Longrightarrow> with_receipt i f s = Inr s' \<Longrightarrow> quiet s s'"
  by (auto simp: with_receipt_def split: option.splits)

lemma set_doc_status_quiet: "set_doc_status k i t s = Inr s' \<Longrightarrow> quiet s s'"
  by (cases k) (auto simp: set_order_status_def set_receipt_status_def set_request_status_def split: option.splits
      elim!: with_order_quiet [rotated] with_receipt_quiet [rotated] intro: save_order_quiet save_receipt_quiet save_request_quiet)

lemma order_actions_quiet:
  "approve_order i s = Inr s' \<Longrightarrow> quiet s s'" "reject_order i s = Inr s' \<Longrightarrow> quiet s s'"
  "post_order i s = Inr s' \<Longrightarrow> quiet s s'" "close_order i s = Inr s' \<Longrightarrow> quiet s s'"
  "cancel_order i s = Inr s' \<Longrightarrow> quiet s s'" "patch_order_status i t s = Inr s' \<Longrightarrow> quiet s s'"
  unfolding approve_order_def reject_order_def post_order_def close_order_def cancel_order_def patch_order_status_def
  by (erule with_order_quiet [rotated], auto split: if_splits intro: save_order_quiet)+

lemma approve_stored_quiet:
  assumes "approve_stored_request r s = Inr s'"
  shows "quiet s s'"
proof -
  obtain ec where "save_request (r\<lparr>pr_status := ''Approved''\<rparr>) (s\<lparr>encumbrances := ec\<rparr>) = Inr s'"
    using assms by (auto simp: approve_stored_request_def split: if_splits)
  then have "quiet (s\<lparr>encumbrances := ec\<rparr>) s'" by (rule save_request_quiet)
  moreover have "quiet s (s\<lparr>encumbrances := ec\<rparr>)" by (rule quiet_same_tables) simp_all
  ultimately show ?thesis using quiet_trans by blast
qed

lemma request_actions_quiet:
  "approve_request i s = Inr s' \<Longrightarrow> quiet s s'" "reject_request i s = Inr s' \<Longrightarrow> quiet s s'"
  by (auto simp: approve_request_def reject_request_def split: option.splits if_splits
      intro: approve_stored_quiet save_request_quiet)

lemma bulk_approve_quiet: "quiet s (snd (bulk_approve is s))"
proof -
  have "quiet s (snd (bulk_approve_requests rs s))" for rs
  proof (induction rs arbitrary: s)
    case (Cons r rs)
    obtain o1 s1 where 1: "(if pr_status r \<notin> {''Draft'', ''Pending''} then (Skipped (pr_id r), s)
                      else case approve_stored_request r s of Inl e \<Rightarrow> (Failed (pr_id r) e, s) | Inr s' \<Rightarrow> (Done (pr_id r), s')) = (o1, s1)"
      by fastforce
    then have "quiet s s1" by (auto split: if_splits sum.splits intro: approve_stored_quiet)
    moreover have "snd (bulk_approve_requests (r # rs) s) = snd (bulk_approve_requests rs s1)"
      unfolding bulk_approve_requests.simps 1 by (simp add: Let_def split_beta)
    ultimately show ?case using Cons.IH [of s1] quiet_trans by metis
  qed simp
  then show ?thesis by (simp add: bulk_approve_def Let_def split_beta)
qed

lemma receipt_actions_quiet:
  "post_grn b i s = Inr s' \<Longrightarrow> quiet s s'" "cancel_grn i s = Inr s' \<Longrightarrow> quiet s s'"
  unfolding post_grn_def cancel_grn_def
  by (erule with_receipt_quiet [rotated], auto split: if_splits option.splits intro: save_receipt_quiet)+

lemma bulk_cancel_quiet: "quiet s (snd (bulk_cancel is s))"
proof -
  have "quiet s (snd (bulk_cancel_receipts js s))" for js
  proof (induction js arbitrary: s)
    case (Cons i js)
    obtain o1 s1 where 1: "(case find_row gn_id i (receipts s) of
                        None \<Rightarrow> (Failed i DoesNotExist, s)
                      | Some g \<Rightarrow> if gn_status g = ''Cancelled'' then (Skipped i, s)
                          else (case save_receipt (g\<lparr>gn_status := ''Cancelled''\<rparr>) s of
                                  Inl e \<Rightarrow> (Failed i e, s) | Inr s' \<Rightarrow> (Done i, s'))) = (o1, s1)"
      by fastforce
    then have "quiet s s1" by (auto split: if_splits option.splits sum.splits intro: save_receipt_quiet)
    moreover have "snd (bulk_cancel_receipts (i # js) s) = snd (bulk_cancel_receipts js s1)"
      unfolding bulk_cancel_receipts.simps 1 by (simp add: Let_def split_beta)
    ultimately show ?case using Cons.IH [of s1] quiet_trans by metis
  qed simp
  then show ?thesis by (simp add: bulk_cancel_def Let_def split_beta)
qed

lemma recalc_quiet: "quiet s (recalc_quantity_received_for_po i s)"
proof (rule quiet_same)
  show "doc_status k j (recalc_quantity_received_for_po i s) = doc_status k j s" for k j
  proof (cases k)
    case K_Order
    then show ?thesis
      using order_status_upd [where f = "\<lambda>p. p\<lparr>po_lines := map (\<lambda>l. l\<lparr>ol_received := posted_quantity (ol_id l) s\<rparr>) (po_lines p)\<rparr>" and j = j and s = s and i = i]
      by (simp add: recalc_quantity_received_for_po_def order_status_def)
  qed (simp_all add: recalc_quantity_received_for_po_def)
qed (simp_all add: recalc_quantity_received_for_po_def)

lemma quiet_extend:
  \<comment> \<open>documents are only added, and the links stay\<close>
  assumes "\<And>k i a. doc_status k i s = Some a \<Longrightarrow> doc_status k i s' = Some a" and "commitments s' = commitments s"
    and "purchasing_state.more s' = purchasing_state.more s"
  shows "quiet s s'"
proof -
  have "committed_order i s'" if "committed_order i s" for i
    using that assms(1) [of K_Order i] by (auto simp: order_status_doc)
  then show ?thesis using assms(1) by (auto simp: quiet_def lawful_def drifts_def links_backed_def assms(2,3))
qed

lemma insert_order_quiet:
  assumes "insert_order p s = Inr (k, s')"
  shows "quiet s s'"
proof -
  obtain p1 where s': "s' = s\<lparr>orders := orders s @ [p1]\<rparr>"
    using assms by (auto simp: insert_order_def Let_def rbind_eq_Inr split: if_splits)
  show ?thesis
  proof (rule quiet_extend)
    show "doc_status k i s = Some a \<Longrightarrow> doc_status k i s' = Some a" for k i a
      by (cases k) (auto simp: s' find_row_append split: option.splits)
  qed (simp_all add: s')
qed

lemma create_request_quiet:
  assumes "create_request r s = Inr (k, s')"
  shows "quiet s s'"
proof -
  obtain r1 where s': "s' = s\<lparr>requests := requests s @ [r1]\<rparr>"
    using assms by (auto simp: create_request_def Let_def split: if_splits)
  show ?thesis
  proof (rule quiet_extend)
    show "doc_status k i s = Some a \<Longrightarrow> doc_status k i s' = Some a" for k i a
      by (cases k) (auto simp: s' find_row_append split: option.splits)
  qed (simp_all add: s')
qed

lemma patch_request_quiet: "patch_request_status i t s = Inr s' \<Longrightarrow> quiet s s'"
  by (auto simp: patch_request_status_def split: option.splits if_splits intro: save_request_quiet)

lemma upd_order_quiet:
  assumes "\<And>q. po_id (f q) = po_id q \<and> po_status (f q) = po_status q"
  shows "quiet s (s\<lparr>orders := upd_row po_id i f (orders s)\<rparr>)"
proof (rule quiet_same)
  show "doc_status k j (s\<lparr>orders := upd_row po_id i f (orders s)\<rparr>) = doc_status k j s" for k j
    using order_status_upd [where f = f and j = j and s = s and i = i] assms by (cases k) (simp_all add: order_status_def)
qed simp_all

lemma create_lines_quiet: "create_order_lines i ls s = (r, s') \<Longrightarrow> quiet s s'"
proof (induction ls arbitrary: s)
  case (Cons l ls)
  define s1 where "s1 = s\<lparr>orders := upd_row po_id i (\<lambda>p. p\<lparr>po_lines := po_lines p @ [l\<lparr>ol_id := fresh_pk ol_id (concat (map po_lines (orders s)))\<rparr>]\<rparr>) (orders s)\<rparr>"
  have 1: "quiet s s1" unfolding s1_def by (rule upd_order_quiet) simp
  have run: "(case find_row po_id i (orders s1) of
         None \<Rightarrow> (Inl DoesNotExist, s1)
       | Some p \<Rightarrow> if committed_status (po_status p)
                   then (case create_commitment_for_po p None s1 of Inl e \<Rightarrow> (Inl e, s1) | Inr (_, s2) \<Rightarrow> create_order_lines i ls s2)
                   else create_order_lines i ls s1) = (r, s')"
    using Cons.prems unfolding create_order_lines.simps Let_def s1_def [symmetric] .
  consider "s' = s1" | "create_order_lines i ls s1 = (r, s')"
    | p b s2 where "find_row po_id i (orders s1) = Some p" "committed_status (po_status p)"
        "create_commitment_for_po p None s1 = Inr (b, s2)" "create_order_lines i ls s2 = (r, s')"
    using run by (auto split: option.splits if_splits sum.splits)
  then have "quiet s1 s'"
  proof cases
    case 3
    have "po_id p = i" using find_row_SomeD [OF 3(1)] by simp
    then have "committed_order (po_id p) s1" using 3(1,2) by (simp add: order_status_def)
    with 3(3) have "quiet s1 s2" by (rule commitment_quiet)
    then show ?thesis using Cons.IH [OF 3(4)] by (rule quiet_trans)
  qed (use Cons.IH in auto)
  with 1 show ?case by (rule quiet_trans)
qed simp

lemma create_order_quiet: "create_order p s = (r, s') \<Longrightarrow> quiet s s'"
proof -
  assume c: "create_order p s = (r, s')"
  show ?thesis
  proof (cases "s' = s")
    case False
    then obtain k s1 r2 s2 where 1: "insert_order (p\<lparr>po_number := []\<rparr>) s = Inr (k, s1)" "create_order_lines k (po_lines p) s1 = (r2, s2)"
      and 2: "s' = s2 \<or> with_order k save_order s2 = Inr s'"
      using c by (auto simp: create_order_def rbind_eq_Inr split: if_splits sum.splits prod.splits)
    have "quiet s2 s'" using 2
    proof
      assume "with_order k save_order s2 = Inr s'"
      then show ?thesis by (rule with_order_quiet [rotated]) (rule save_order_quiet)
    qed simp
    then show ?thesis using insert_order_quiet [OF 1(1)] create_lines_quiet [OF 1(2)] quiet_trans by blast
  qed simp
qed

lemma convert_quiet:
  assumes "convert_to_po i v d e s = Inr (k, s')"
  shows "quiet s s'"
proof -
  obtain p s1 ls where 1: "insert_order p s = Inr (k, s1)" "s' = s1\<lparr>orders := upd_row po_id k (\<lambda>p. p\<lparr>po_lines := ls\<rparr>) (orders s1)\<rparr>"
    using assms by (auto simp: convert_to_po_def rbind_eq_Inr Let_def split: option.splits if_splits)
  have "quiet s1 s'" unfolding 1(2) by (rule upd_order_quiet) simp
  with insert_order_quiet [OF 1(1)] show ?thesis by (rule quiet_trans)
qed

lemma create_receipt_lines_quiet: "create_receipt_lines k gls s = (r, s') \<Longrightarrow> quiet s s'"
proof (induction gls arbitrary: s)
  case (Cons gl gls)
  let ?f = "\<lambda>g. g\<lparr>gn_lines := gn_lines g @ [gl]\<rparr>"
  have "doc_status j i (s\<lparr>receipts := upd_row gn_id k ?f (receipts s)\<rparr>) = doc_status j i s" for j i
    by (cases j; cases "find_row gn_id i (receipts s)") (auto simp: find_row_upd_row)
  then have "quiet s (s\<lparr>receipts := upd_row gn_id k ?f (receipts s)\<rparr>)" by (rule quiet_same) simp_all
  then show ?case using Cons quiet_trans by (auto split: if_splits)
qed simp

lemma insert_receiptE:
  assumes "insert_receipt g s = Inr (k, s')"
  obtains g1 ws where "s' = s\<lparr>warehouses := ws, receipts := receipts s @ [g1]\<rparr>" "gn_lines g1 = []" "gn_id g1 = fresh_pk gn_id (receipts s)"
    "k = gn_id g1" "gn_status g1 = gn_status g" "gn_order g1 = gn_order g"
proof -
  obtain g1 s1 where 1: "located_receipt g s = Inr (g1, s1)"
    "s' = s1\<lparr>receipts := receipts s1 @ [g1\<lparr>gn_id := fresh_pk gn_id (receipts s1), gn_lines := []\<rparr>]\<rparr>" "k = fresh_pk gn_id (receipts s1)"
    using assms by (auto simp: insert_receipt_def rbind_eq_Inr Let_def split: if_splits)
  obtain ws where "s1 = s\<lparr>warehouses := ws\<rparr>" using located_receipt_same [OF 1(1)] by blast
  then show ?thesis using that [of "g1\<lparr>gn_id := k, gn_lines := []\<rparr>" ws] 1 located_receipt_same [OF 1(1)] by simp
qed

lemma create_receipt_quiet:
  assumes "create_receipt g s = (r, s')"
  shows "quiet s s'"
proof (cases "s' = s")
  case False
  then obtain k s1 r2 where i: "insert_receipt (g\<lparr>gn_number := [], gn_status := ''Draft'', gn_warehouse := None\<rparr>) s = Inr (k, s1)"
    and c: "create_receipt_lines k (gn_lines g) s1 = (r2, s')"
    using assms by (auto simp: create_receipt_def split: option.splits if_splits sum.splits prod.splits)
  obtain g1 ws where s1: "s1 = s\<lparr>warehouses := ws, receipts := receipts s @ [g1]\<rparr>"
    using i by (rule insert_receiptE)
  have "quiet s s1"
  proof (rule quiet_extend)
    show "doc_status k i s = Some a \<Longrightarrow> doc_status k i s1 = Some a" for k i a
      by (cases k) (auto simp: s1 find_row_append split: option.splits)
  qed (simp_all add: s1)
  then show ?thesis using create_receipt_lines_quiet [OF c] by (rule quiet_trans)
qed simp

section \<open>The actions of the approval engine\<close>

lemma put_approval_lawful: "lawful s (s\<lparr>approvals := vs\<rparr>)" "lawful s (s\<lparr>approval_logs := ls\<rparr>)"
  by (rule lawful_same_tables; simp)+

lemma log_action_lawful: "lawful s (log_action v n a u s)"
  by (simp add: log_action_def put_approval_lawful)

lemma sync_quiet: "sync_document_status_on_approval v s = Inr s' \<Longrightarrow> quiet s s'"
  by (auto simp: sync_document_status_on_approval_def split: if_splits option.splits intro: set_doc_status_quiet)

lemma save_approval_lawful: "save_approval v s = Inr s' \<Longrightarrow> lawful s s'"
  unfolding save_approval_def using put_approval_lawful(1) quiet_lawful [OF sync_quiet] lawful_trans by blast

lemma trigger_quiet: "trigger_document_action b v s = Inr s' \<Longrightarrow> quiet s s'"
  by (auto simp: trigger_document_action_def split: option.splits intro: set_doc_status_quiet)

lemma with_approval_lawful: "(\<And>v. f v s = Inr s' \<Longrightarrow> lawful s s') \<Longrightarrow> with_approval u i f s = Inr s' \<Longrightarrow> lawful s s'"
  by (auto simp: with_approval_def split: option.splits if_splits)

lemma approval_actions_lawful:
  "approve_approval u i s = Inr s' \<Longrightarrow> lawful s s'" "reject_approval u i s = Inr s' \<Longrightarrow> lawful s s'"
  "cancel_approval b u i s = Inr s' \<Longrightarrow> lawful s s'" "submit_approval u i s = Inr s' \<Longrightarrow> lawful s s'"
  "patch_approval_status u i t s = Inr s' \<Longrightarrow> lawful s s'"
  unfolding approve_approval_def reject_approval_def cancel_approval_def submit_approval_def patch_approval_status_def
  by (erule with_approval_lawful [rotated],
      auto simp: Let_def rbind_eq_Inr split: if_splits
        dest!: save_approval_lawful quiet_lawful [OF trigger_quiet] intro: lawful_trans log_action_lawful)+

lemma route_lawful: "lawful s (snd (auto_route_approval k i x u s))"
  by (auto simp: auto_route_approval_def log_action_def Let_def split: option.splits
      intro!: lawful_same_tables)

lemma submit_for_approval_lawful: "submit_for_approval k i u s = (r, s') \<Longrightarrow> lawful s s'"
proof -
  assume r: "submit_for_approval k i u s = (r, s')"
  obtain x s1 where 1: "auto_route_approval k i (doc_amount k i s) u s = (x, s1)" by fastforce
  then have "lawful s s1" using route_lawful [of s k i "doc_amount k i s" u] by simp
  moreover have "s' = s \<or> s' = s1 \<or> set_doc_status k i (routed_status x k) s1 = Inr s'"
    using r by (auto simp: submit_for_approval_def 1 split: option.splits if_splits sum.splits)
  ultimately show ?thesis using quiet_lawful [OF set_doc_status_quiet] lawful_trans by blast
qed

lemma submit_new_lawful: "submit_new k i x u s = Inr (r, s') \<Longrightarrow> lawful s s'"
  by (auto simp: submit_new_def log_action_def Let_def split: option.splits if_splits intro!: lawful_same_tables)

section \<open>Deletion\<close>

text \<open>
  \<^verbatim>\<open>DELETE\<close> of a single document: no viewset overrides it.  The protected foreign keys refuse the deletion of
  an order with a commitment, a receipt or a matching and of a receipt with a matching; purchase returns,
  which also protect both, are not modelled.
\<close>

definition destroy_request :: "nat \<Rightarrow> 'z purchasing_state_scheme \<Rightarrow> err + 'z purchasing_state_scheme" where
  "destroy_request i s = (case find_row pr_id i (requests s) of None \<Rightarrow> Inl DoesNotExist | Some _ \<Rightarrow> Inr (delete_request i s))"

definition destroy_order :: "nat \<Rightarrow> 'z purchasing_state_scheme \<Rightarrow> err + 'z purchasing_state_scheme" where
  "destroy_order i = with_order i
     (\<lambda>p s. if po_status p = ''Posted'' then Inl ValidationError
            else if list_ex (\<lambda>c. cm_po c = i) (commitments s) \<or> list_ex (\<lambda>m. im_order m = Some i) (matchings s)
               \<or> list_ex (\<lambda>g. gn_order g = i \<or> list_ex (\<lambda>gl. gnl_order_line gl \<in> ol_id ` set (po_lines p)) (gn_lines g)) (receipts s)
            then Inl IntegrityError
            else Inr (s\<lparr>orders := filter (\<lambda>q. po_id q \<noteq> i) (orders s)\<rparr>))"

definition destroy_receipt :: "nat \<Rightarrow> 'z purchasing_state_scheme \<Rightarrow> err + 'z purchasing_state_scheme" where
  \<comment> \<open>whatever its status\<close>
  "destroy_receipt i = with_receipt i
     (\<lambda>g s. if list_ex (\<lambda>m. im_receipt m = Some i) (matchings s) then Inl IntegrityError
            else Inr (s\<lparr>receipts := filter (\<lambda>r. gn_id r \<noteq> i) (receipts s)\<rparr>))"

definition deletable :: "string \<Rightarrow> bool" where
  "deletable t \<longleftrightarrow> t = ''Draft'' \<or> t = ''Rejected''"

lemma find_row_filter: "find_row key k (filter (\<lambda>r. key r \<noteq> i) rows) = (if k = i then None else find_row key k rows)"
  by (induction rows) auto

lemma delete_request_status:
  "doc_status K_Request j (delete_request i s) = (if j = i then None else doc_status K_Request j s)"
  "doc_status K_Order j (delete_request i s) = doc_status K_Order j s"
  "doc_status K_Receipt j (delete_request i s) = doc_status K_Receipt j s"
  "commitments (delete_request i s) = commitments s"
  by (simp_all add: delete_request_def find_row_filter find_row_map option.map_comp o_def)
    (cases "find_row po_id j (orders s)"; simp)

lemma delete_requests_status:
  "doc_status K_Request j (fold (\<lambda>r. delete_request (pr_id r)) rs s) = (if j \<in> pr_id ` set rs then None else doc_status K_Request j s)"
  "doc_status K_Order j (fold (\<lambda>r. delete_request (pr_id r)) rs s) = doc_status K_Order j s"
  "doc_status K_Receipt j (fold (\<lambda>r. delete_request (pr_id r)) rs s) = doc_status K_Receipt j s"
  "commitments (fold (\<lambda>r. delete_request (pr_id r)) rs s) = commitments s"
  by (induction rs arbitrary: s) (auto simp: delete_request_status simp del: doc_status.simps)

lemma delete_requests_engine:
  "purchasing_state.more (fold (\<lambda>r. delete_request (pr_id r)) rs s) = purchasing_state.more s"
  by (induction rs arbitrary: s) (simp_all add: delete_request_def)

lemma bulk_delete_effect:
  assumes "bulk_delete is s = (out, s')"
  shows "doc_status K_Order j s' = doc_status K_Order j s" "doc_status K_Receipt j s' = doc_status K_Receipt j s"
    "commitments s' = commitments s"
    "doc_status K_Request j s = Some a \<Longrightarrow> doc_status K_Request j s' = Some a \<or> (deletable a \<and> doc_status K_Request j s' = None)"
    "doc_status K_Request j s = None \<Longrightarrow> doc_status K_Request j s' = None"
    "purchasing_state.more s' = purchasing_state.more s"
proof -
  obtain rs where rs: "s' = fold (\<lambda>r. delete_request (pr_id r)) rs s"
    and r: "\<forall>r \<in> set rs. (\<exists>i. find_row pr_id i (requests s) = Some r) \<and> deletable (pr_status r)"
  proof (cases "is = [] \<or> 100 < length is")
    case True
    then show ?thesis using assms that [of "[]"] by (simp add: bulk_delete_def)
  next
    case False
    let ?rs = "filter (\<lambda>r. pr_status r \<in> {''Draft'', ''Rejected''}) (List.map_filter (\<lambda>i. find_row pr_id i (requests s)) (remdups is))"
    have "s' = fold (\<lambda>r. delete_request (pr_id r)) ?rs s" using assms False by (simp add: bulk_delete_def Let_def split: if_splits)
    moreover have "\<forall>r \<in> set ?rs. (\<exists>i. find_row pr_id i (requests s) = Some r) \<and> deletable (pr_status r)"
      by (auto simp: map_filter_def deletable_def)
    ultimately show ?thesis by (rule that)
  qed
  note d = delete_requests_status [where rs = rs and s = s, folded rs]
  show "doc_status K_Order j s' = doc_status K_Order j s" "doc_status K_Receipt j s' = doc_status K_Receipt j s"
    by (rule d)+
  show "commitments s' = commitments s" using d(4) by blast
  show "purchasing_state.more s' = purchasing_state.more s" unfolding rs by (rule delete_requests_engine)
  show "doc_status K_Request j s' = None" if "doc_status K_Request j s = None" using d(1) [of j] that by simp
  assume a: "doc_status K_Request j s = Some a"
  show "doc_status K_Request j s' = Some a \<or> (deletable a \<and> doc_status K_Request j s' = None)"
  proof (cases "j \<in> pr_id ` set rs")
    case True
    then obtain q i where q: "q \<in> set rs" "pr_id q = j" "find_row pr_id i (requests s) = Some q" "deletable (pr_status q)"
      using r by auto
    then have "i = j" using find_row_SomeD [OF q(3)] by simp
    then have "a = pr_status q" using a q(3) by simp
    then show ?thesis using d(1) True q(4) by simp
  next
    case False
    then show ?thesis using d(1) [of j] a by simp
  qed
qed

definition erased :: "'z purchasing_state_scheme \<Rightarrow> 'z purchasing_state_scheme \<Rightarrow> bool" where
  \<comment> \<open>documents may be gone, but no posted order and no order with a commitment\<close>
  "erased s s' \<longleftrightarrow> commitments s' = commitments s \<and> purchasing_state.more s' = purchasing_state.more s
     \<and> (\<forall>k j. doc_status k j s' = doc_status k j s
          \<or> (doc_status k j s' = None
             \<and> (k = K_Order \<longrightarrow> doc_status k j s \<noteq> Some ''Posted'' \<and> (\<forall>c \<in> set (commitments s). cm_po c \<noteq> j))))"

lemma bulk_delete_erased:
  assumes "bulk_delete is s = (out, s')"
  shows "erased s s'"
proof -
  have "doc_status k j s' = doc_status k j s \<or> (k \<noteq> K_Order \<and> doc_status k j s' = None)" for k j
    using bulk_delete_effect(1,2,4) [OF assms] bulk_delete_effect(5) [OF assms]
    by (cases k; cases "doc_status k j s") (fastforce simp del: doc_status.simps)+
  then show ?thesis using bulk_delete_effect(3,6) [OF assms] unfolding erased_def by blast
qed

lemma destroy_erased:
  "destroy_request i s = Inr s' \<Longrightarrow> erased s s'"
  "destroy_order i s = Inr s' \<Longrightarrow> erased s s'"
  "destroy_receipt i s = Inr s' \<Longrightarrow> erased s s'"
proof -
  show "erased s s'" if "destroy_request i s = Inr s'"
  proof -
    have s': "s' = delete_request i s" using that by (simp add: destroy_request_def split: option.splits)
    have "doc_status k j s' = doc_status k j s \<or> (k \<noteq> K_Order \<and> doc_status k j s' = None)" for k j
      unfolding s' by (cases k) (auto simp: delete_request_status simp del: doc_status.simps)
    moreover have "commitments s' = commitments s" "purchasing_state.more s' = purchasing_state.more s"
      by (simp_all add: s' delete_request_def)
    ultimately show ?thesis unfolding erased_def by blast
  qed
  show "erased s s'" if d: "destroy_order i s = Inr s'"
  proof -
    obtain p where p: "find_row po_id i (orders s) = Some p" "po_status p \<noteq> ''Posted''" "\<not> list_ex (\<lambda>c. cm_po c = i) (commitments s)"
      and s': "s' = s\<lparr>orders := filter (\<lambda>q. po_id q \<noteq> i) (orders s)\<rparr>"
      using d by (auto simp: destroy_order_def with_order_def split: option.splits if_splits)
    have "doc_status k j s' = (if k = K_Order \<and> j = i then None else doc_status k j s)" for k j
      unfolding s' by (cases k) (simp_all add: find_row_filter)
    moreover have "doc_status K_Order i s \<noteq> Some ''Posted''" using p by simp
    moreover have "\<forall>c \<in> set (commitments s). cm_po c \<noteq> i" using p(3) by (auto simp: list_ex_iff)
    moreover have "commitments s' = commitments s" "purchasing_state.more s' = purchasing_state.more s" by (simp_all add: s')
    ultimately show ?thesis unfolding erased_def by (auto simp del: doc_status.simps)
  qed
  show "erased s s'" if "destroy_receipt i s = Inr s'"
  proof -
    have s': "s' = s\<lparr>receipts := filter (\<lambda>r. gn_id r \<noteq> i) (receipts s)\<rparr>"
      using that by (auto simp: destroy_receipt_def with_receipt_def split: option.splits if_splits)
    have "doc_status k j s' = (if k = K_Receipt \<and> j = i then None else doc_status k j s)" for k j
      unfolding s' by (cases k) (simp_all add: find_row_filter)
    moreover have "commitments s' = commitments s" "purchasing_state.more s' = purchasing_state.more s" by (simp_all add: s')
    ultimately show ?thesis unfolding erased_def by (auto simp del: doc_status.simps)
  qed
qed

lemma erased_engine:
  fixes s :: "'z workflow_state_scheme"
  assumes "erased s s'"
  shows "approvals s' = approvals s"
  using assms by (cases s; cases s') (simp add: erased_def)

lemma erased_links_backed:
  assumes "erased s s'" and "links_backed s"
  shows "links_backed s'"
  using assms unfolding erased_def links_backed_def order_status_doc by metis

section \<open>The transition system\<close>

text \<open>
  One constructor for each action; \<open>elsewhere\<close> is whatever other modules do to the rest of the database.  With the
  flag \<open>regular\<close>, orders are created with nothing received, no posted receipt is deleted and no one writes the status of
  an approval directly; the code enforces none of the three.
\<close>

inductive procurement_step :: "bool \<Rightarrow> 'z workflow_state_scheme \<Rightarrow> 'z workflow_state_scheme \<Rightarrow> bool" for regular where
  step_create_order: "create_order p s = (r, s') \<Longrightarrow> regular \<longrightarrow> list_all (\<lambda>l. ol_received l = 0) (po_lines p) \<Longrightarrow> procurement_step regular s s'"
| step_convert: "convert_to_po i v d e s = Inr (k, s') \<Longrightarrow> procurement_step regular s s'"
| step_approve_order: "approve_order i s = Inr s' \<Longrightarrow> procurement_step regular s s'"
| step_reject_order: "reject_order i s = Inr s' \<Longrightarrow> procurement_step regular s s'"
| step_post_order: "post_order i s = Inr s' \<Longrightarrow> procurement_step regular s s'"
| step_close_order: "close_order i s = Inr s' \<Longrightarrow> procurement_step regular s s'"
| step_cancel_order: "cancel_order i s = Inr s' \<Longrightarrow> procurement_step regular s s'"
| step_patch_order: "patch_order_status i t s = Inr s' \<Longrightarrow> procurement_step regular s s'"
| step_create_request: "create_request q s = Inr (k, s') \<Longrightarrow> procurement_step regular s s'"
| step_patch_request: "patch_request_status i t s = Inr s' \<Longrightarrow> procurement_step regular s s'"
| step_approve_request: "approve_request i s = Inr s' \<Longrightarrow> procurement_step regular s s'"
| step_reject_request: "reject_request i s = Inr s' \<Longrightarrow> procurement_step regular s s'"
| step_bulk_approve: "bulk_approve is s = (out, s') \<Longrightarrow> procurement_step regular s s'"
| step_bulk_delete: "bulk_delete is s = (out, s') \<Longrightarrow> procurement_step regular s s'"
| step_destroy_request: "destroy_request i s = Inr s' \<Longrightarrow> procurement_step regular s s'"
| step_destroy_order: "destroy_order i s = Inr s' \<Longrightarrow> procurement_step regular s s'"
| step_destroy_receipt: "destroy_receipt i s = Inr s' \<Longrightarrow> regular \<longrightarrow> doc_status K_Receipt i s \<noteq> Some ''Posted'' \<Longrightarrow>
    procurement_step regular s s'"
| step_create_receipt: "create_receipt g s = (r, s') \<Longrightarrow> procurement_step regular s s'"
| step_post_receipt: "post_receipt i s = Inr s' \<Longrightarrow> procurement_step regular s s'"
| step_cancel_receipt: "cancel_grn i s = Inr s' \<Longrightarrow> procurement_step regular s s'"
| step_bulk_cancel: "bulk_cancel is s = (out, s') \<Longrightarrow> procurement_step regular s s'"
| step_recalc: "procurement_step regular s (recalc_quantity_received_for_po i s)"
| step_invoice_closed: "mark_commitment_closed_for_po i s = Inr (n, s') \<Longrightarrow> procurement_step regular s s'"
| step_submit: "submit_for_approval k i u s = (r, s') \<Longrightarrow> procurement_step regular s s'"
| step_submit_new: "submit_new k i x u s = Inr (r, s') \<Longrightarrow> procurement_step regular s s'"
| step_approve: "approve_approval u i s = Inr s' \<Longrightarrow> procurement_step regular s s'"
| step_reject: "reject_approval u i s = Inr s' \<Longrightarrow> procurement_step regular s s'"
| step_cancel: "cancel_approval b u i s = Inr s' \<Longrightarrow> procurement_step regular s s'"
| step_resubmit: "submit_approval u i s = Inr s' \<Longrightarrow> procurement_step regular s s'"
| step_patch_approval: "\<not> regular \<Longrightarrow> patch_approval_status u i t s = Inr s' \<Longrightarrow> procurement_step regular s s'"
| step_elsewhere: "orders s' = orders s \<Longrightarrow> requests s' = requests s \<Longrightarrow> receipts s' = receipts s \<Longrightarrow>
    commitments s' = commitments s \<Longrightarrow> approvals s' = approvals s \<Longrightarrow> procurement_step regular s s'"

lemma step_irregular: "procurement_step c s s' \<Longrightarrow> procurement_step False s s'"
  by (induction rule: procurement_step.induct) (simp_all add: procurement_step.intros)

lemma invoice_closed_quiet:
  assumes "mark_commitment_closed_for_po i s = Inr (n, s')"
  shows "quiet s (s' :: 'z purchasing_state_scheme)"
proof -
  obtain ap where s': "s' = (snd (move_link i OPEN_LINK ''CLOSED'' s))\<lparr>appropriations := ap\<rparr>"
    using assms by (auto simp: mark_commitment_closed_for_po_def Let_def split_beta rbind_eq_Inr dest: refresh_many_frame)
  have docs: "orders s' = orders s" "requests s' = requests s" "receipts s' = receipts s"
    by (simp_all add: s' move_link_def)
  have com: "set (commitments s') = (\<lambda>c. if cm_po c = i \<and> cm_status c \<in> set OPEN_LINK then c\<lparr>cm_status := ''CLOSED''\<rparr> else c) ` set (commitments s)"
    by (simp add: s' move_link_fields)
  have "links_backed s'" if b: "links_backed s"
    unfolding links_backed_def
  proof (intro ballI impI)
    fix c assume c: "c \<in> set (commitments s')" "cm_status c \<in> set OPEN_LINK"
    then have "c \<in> set (commitments s)" unfolding com by (auto simp: OPEN_LINK_def split: if_splits)
    then have "committed_order (cm_po c) s" using b c(2) by (auto simp: links_backed_def)
    then show "committed_order (cm_po c) s'" by (simp add: order_status_def docs)
  qed
  moreover have "doc_status k j s' = doc_status k j s" for k j by (cases k) (simp_all add: docs)
  ultimately show ?thesis by (simp add: quiet_def lawful_def s' move_link_def)
qed

lemma documents_step:
  \<comment> \<open>the actions that are not the engine's\<close>
  assumes "procurement_step c s s'"
  obtains (documents) "quiet s s'"
    | (deletion) "erased s s'"
    | (submission) k i u r where "submit_for_approval k i u s = (r, s')"
    | (approval) u i where "approve_approval u i s = Inr s'"
    | (rejection) u i where "reject_approval u i s = Inr s'"
    | (cancellation) b u i where "cancel_approval b u i s = Inr s'"
    | (resubmission) u i where "submit_approval u i s = Inr s'"
    | (patch) u i t where "\<not> c" "patch_approval_status u i t s = Inr s'"
    | (outside) "lawful s s'" "approvals s' = approvals s"
    | (creation) k i x u r where "submit_new k i x u s = Inr (r, s')"
  using assms
proof (cases rule: procurement_step.cases)
  case step_bulk_approve
  then show ?thesis using bulk_approve_quiet that(1) by (metis snd_conv)
next
  case step_bulk_cancel
  then show ?thesis using bulk_cancel_quiet that(1) by (metis snd_conv)
next
  case step_bulk_delete
  then show ?thesis using bulk_delete_erased that(2) by blast
next
  case step_destroy_request
  then show ?thesis using destroy_erased(1) that(2) by blast
next
  case step_destroy_order
  then show ?thesis using destroy_erased(2) that(2) by blast
next
  case step_destroy_receipt
  then show ?thesis using destroy_erased(3) that(2) by blast
next
  case step_elsewhere
  then show ?thesis by (intro that(9) lawful_same_tables) simp_all
next
  case (step_post_receipt i)
  then show ?thesis by (auto simp: post_receipt_def intro: that(1) receipt_actions_quiet)
qed (blast intro: that create_order_quiet create_request_quiet patch_request_quiet convert_quiet order_actions_quiet request_actions_quiet create_receipt_quiet
      receipt_actions_quiet recalc_quiet invoice_closed_quiet)+

lemma step_lawful:
  assumes "procurement_step c s s'"
  shows "lawful s s' \<or> erased s s'"
  using assms
  by (cases rule: documents_step)
    (blast intro: quiet_lawful submit_for_approval_lawful approval_actions_lawful submit_new_lawful)+

lemma step_status:
  assumes "procurement_step c s s'" and "doc_status k i s = Some a"
  shows "((k = K_Order \<longrightarrow> a \<noteq> ''Posted'') \<and> doc_status k i s' = None)
       \<or> (\<exists>b. doc_status k i s' = Some b \<and> (may_become (doc_transitions k))\<^sup>*\<^sup>* a b)"
  using step_lawful [OF assms(1)]
proof
  assume "lawful s s'"
  then have "drifts (doc_transitions k) (kind_status k s) (kind_status k s')" by (simp add: lawful_def)
  then show ?thesis using assms(2) by (auto simp: drifts_def)
next
  assume "erased s s'"
  then show ?thesis using assms(2) unfolding erased_def by (metis rtranclp.rtrancl_refl)
qed

interpretation order_machine: status_machine ORDER_TRANSITIONS "\<lambda>a. a \<noteq> ''Posted''" "doc_status K_Order" "procurement_step False"
  by unfold_locales (use step_status [where k = K_Order] in \<open>fastforce simp del: doc_status.simps\<close>)

interpretation receipt_machine: status_machine RECEIPT_TRANSITIONS "\<lambda>_. True" "doc_status K_Receipt" "procurement_step False"
  by unfold_locales (use step_status [where k = K_Receipt] in \<open>fastforce simp del: doc_status.simps\<close>)

interpretation request_machine: status_machine REQUEST_TRANSITIONS "\<lambda>_. True" "doc_status K_Request" "procurement_step False"
  by unfold_locales (use step_status [where k = K_Request] in \<open>fastforce simp del: doc_status.simps\<close>)

end
