(* ===== verification/Approvals.thy ===== *)
theory Approvals
  imports Procurement
begin

text \<open>
  The life of an approval while its status is only moved by the actions of the engine: who may act, what is signed, and
  that an ended approval stays ended.
\<close>

section \<open>What the actions write\<close>

lemma save_approval_writes:
  assumes "save_approval v s = Inr s'"
  shows "approvals s' = put_row av_id v (approvals s)" "approval_groups s' = approval_groups s"
  using quiet_engine(1,2) [OF sync_quiet [OF assms [unfolded save_approval_def]]] by simp_all

lemma trigger_writes: "trigger_document_action b v s = Inr s' \<Longrightarrow> approvals s' = approvals s"
  using quiet_engine(1) [OF trigger_quiet] by blast

lemma log_action_approvals [simp]: "approvals (log_action v n a u s) = approvals s"
  by (simp add: log_action_def)

lemma sign_step_fields [simp]:
  "av_id (sign_step u t v) = av_id v" "av_status (sign_step u t v) = av_status v"
  by (simp_all add: sign_step_def)

lemma approve_approvalE:
  assumes "approve_approval u i s = Inr s'"
  obtains v w where "find_row av_id i (approvals s) = Some v" "visible_to u v s" "av_status v = ''Pending''" "authorised u v s"
    "w = (if pending_steps (sign_step u ''Approved'' v) = 0 then (sign_step u ''Approved'' v)\<lparr>av_status := ''Approved''\<rparr>
          else (sign_step u ''Approved'' v)\<lparr>av_current := Suc (av_current v)\<rparr>)"
    "approvals s' = put_row av_id w (approvals s)"
proof -
  obtain v where v: "find_row av_id i (approvals s) = Some v" "visible_to u v s" "av_status v = ''Pending''" "authorised u v s"
    using assms by (auto simp: approve_approval_def with_approval_def split: option.splits if_splits)
  let ?w = "if pending_steps (sign_step u ''Approved'' v) = 0 then (sign_step u ''Approved'' v)\<lparr>av_status := ''Approved''\<rparr>
          else (sign_step u ''Approved'' v)\<lparr>av_current := Suc (av_current v)\<rparr>"
  have "approvals s' = put_row av_id ?w (approvals s)"
    using assms v by (auto simp: approve_approval_def with_approval_def Let_def rbind_eq_Inr split: if_splits
        dest!: save_approval_writes(1) trigger_writes)
  with v show ?thesis using that by blast
qed

lemma other_actions:
  "reject_approval u i s = Inr s' \<Longrightarrow> \<exists>v. find_row av_id i (approvals s) = Some v \<and> av_status v = ''Pending''
     \<and> approvals s' = put_row av_id ((sign_step u ''Rejected'' v)\<lparr>av_status := ''Rejected''\<rparr>) (approvals s)"
  "cancel_approval b u i s = Inr s' \<Longrightarrow> \<exists>v. find_row av_id i (approvals s) = Some v \<and> av_status v \<in> {''Draft'', ''Pending''}
     \<and> approvals s' = put_row av_id (v\<lparr>av_status := ''Cancelled''\<rparr>) (approvals s)"
  "submit_approval u i s = Inr s' \<Longrightarrow> \<exists>v. find_row av_id i (approvals s) = Some v \<and> av_status v = ''Draft''
     \<and> approvals s' = put_row av_id (v\<lparr>av_status := ''Pending''\<rparr>) (approvals s)"
  by (auto simp: reject_approval_def cancel_approval_def submit_approval_def with_approval_def rbind_eq_Inr
      split: option.splits if_splits dest!: save_approval_writes(1) trigger_writes)

definition routed_approval :: "doc_kind \<Rightarrow> nat \<Rightarrow> rat option \<Rightarrow> nat \<Rightarrow> 'z workflow_state_scheme \<Rightarrow> approval" where
  "routed_approval k i amount user s =
     (let t = select_template k (opt_amount amount) s
      in \<lparr>av_id = fresh_pk av_id (approvals s), av_kind = k, av_object = i, av_amount = amount, av_status = ''Pending'', av_current = 1,
          av_total = (case t of None \<Rightarrow> 1 | Some x \<Rightarrow> max 1 (length (template_steps x))), av_requester = user,
          av_template = map_option tp_id t, av_steps = new_steps t\<rparr>)"

lemma route_writes:
  assumes "auto_route_approval k i x u s = (r, s')"
  shows "(r = Routed (fresh_pk av_id (approvals s)) \<and> approvals s' = approvals s @ [routed_approval k i x u s]
            \<and> approval_groups s' = approval_groups s \<and> delegations s' = delegations s)
       \<or> (s' = s \<and> (\<forall>v. r \<noteq> Routed v))"
  using assms by (auto simp: auto_route_approval_def routed_approval_def log_action_def Let_def split: option.splits if_splits)

lemma submit_writes:
  assumes "submit_for_approval k i u s = (r, s')"
  shows "approvals s' = approvals s
     \<or> approvals s' = approvals s @ [routed_approval k i (doc_amount k i s) u s]"
    and "r = Inr (Routed v) \<Longrightarrow> v = fresh_pk av_id (approvals s)
       \<and> approvals s' = approvals s @ [routed_approval k i (doc_amount k i s) u s]
       \<and> approval_groups s' = approval_groups s \<and> delegations s' = delegations s"
proof -
  obtain x s1 where 1: "auto_route_approval k i (doc_amount k i s) u s = (x, s1)" by fastforce
  have "(s' = s \<and> isl r) \<or> (s' = s1 \<and> isl r) \<or> (set_doc_status k i (routed_status x k) s1 = Inr s' \<and> r = Inr x)"
    using assms by (auto simp: submit_for_approval_def 1 split: option.splits if_splits sum.splits)
  then consider "s' = s" "isl r" | "s' = s1" "isl r" | "quiet s1 s'" "r = Inr x" using set_doc_status_quiet by blast
  note cases = this
  from cases show "approvals s' = approvals s \<or> approvals s' = approvals s @ [routed_approval k i (doc_amount k i s) u s]"
    by cases (use route_writes [OF 1] quiet_engine in auto)
  show "v = fresh_pk av_id (approvals s)
       \<and> approvals s' = approvals s @ [routed_approval k i (doc_amount k i s) u s]
       \<and> approval_groups s' = approval_groups s \<and> delegations s' = delegations s" if "r = Inr (Routed v)"
    using cases
  proof cases
    case 3
    then show ?thesis using route_writes [OF 1] quiet_engine [OF 3(1)] that by auto
  qed (use that in auto)
qed

lemma submit_new_writes:
  assumes "submit_new k i x u s = Inr (r, s')"
  shows "approvals s' = approvals s \<or> (\<exists>v. approvals s' = approvals s @ [unassigned_approval v k i x u])"
  using assms by (auto simp: submit_new_def Let_def log_action_def split: if_splits)

section \<open>Signatures\<close>

definition signatures_ok :: "approval \<Rightarrow> bool" where
  \<comment> \<open>unless it was rejected, a step is pending or approved by someone; an approved approval has no pending step\<close>
  "signatures_ok v \<longleftrightarrow>
     (av_status v = ''Rejected''
        \<or> (\<forall>p \<in> set (av_steps v). stp_status p = ''Pending'' \<or> (stp_status p = ''Approved'' \<and> stp_approver p \<noteq> None)))
     \<and> (av_status v = ''Approved'' \<longrightarrow> pending_steps v = 0)"

lemma new_steps_pending: "p \<in> set (new_steps t) \<Longrightarrow> stp_status p = ''Pending''"
  by (auto simp: new_steps_def split: list.splits option.splits prod.splits)

lemma signatures_steps:
  assumes "procurement_step True s s'" and "\<forall>v \<in> set (approvals s). signatures_ok v"
  shows "\<forall>v \<in> set (approvals s'). signatures_ok v"
proof -
  have put: "\<forall>v \<in> set (put_row av_id w (approvals s)). signatures_ok v" if "signatures_ok w" for w
    using assms(2) that by (auto dest: set_put_row)
  have found: "signatures_ok v" if "find_row av_id i (approvals s) = Some v" for i v
    using assms(2) find_row_SomeD [OF that] by blast
  from assms(1) show ?thesis
  proof (cases rule: documents_step)
    case documents
    then show ?thesis using quiet_engine(1) assms(2) by metis
  next
    case deletion
    then show ?thesis using erased_engine assms(2) by metis
  next
    case (submission k i u r)
    have "signatures_ok (routed_approval k i x u s)" for x
      by (auto simp: signatures_ok_def routed_approval_def Let_def dest: new_steps_pending)
    then show ?thesis using submit_writes(1) [OF submission] assms(2) by auto
  next
    case (approval u i)
    then obtain v w where v: "find_row av_id i (approvals s) = Some v" "av_status v = ''Pending''"
      and w: "w = (if pending_steps (sign_step u ''Approved'' v) = 0 then (sign_step u ''Approved'' v)\<lparr>av_status := ''Approved''\<rparr>
            else (sign_step u ''Approved'' v)\<lparr>av_current := Suc (av_current v)\<rparr>)"
        "approvals s' = put_row av_id w (approvals s)"
      by (rule approve_approvalE)
    have "signatures_ok w"
      using found [OF v(1)] v(2) unfolding w(1) signatures_ok_def
      by (auto simp: sign_step_def pending_steps_def dest!: set_upd_row)
    then show ?thesis using put w(2) by simp
  next
    case (rejection u i)
    obtain v where v: "approvals s' = put_row av_id ((sign_step u ''Rejected'' v)\<lparr>av_status := ''Rejected''\<rparr>) (approvals s)"
      using other_actions(1) [OF rejection] by blast
    have "signatures_ok ((sign_step u ''Rejected'' v)\<lparr>av_status := ''Rejected''\<rparr>)" by (simp add: signatures_ok_def)
    then show ?thesis using put v by simp
  next
    case (cancellation b u i)
    obtain v where v: "find_row av_id i (approvals s) = Some v" "av_status v \<in> {''Draft'', ''Pending''}"
      "approvals s' = put_row av_id (v\<lparr>av_status := ''Cancelled''\<rparr>) (approvals s)" using other_actions(2) [OF cancellation] by blast
    have "signatures_ok (v\<lparr>av_status := ''Cancelled''\<rparr>)" using found [OF v(1)] v(2) by (auto simp: signatures_ok_def)
    then show ?thesis using put v(3) by simp
  next
    case (resubmission u i)
    obtain v where v: "find_row av_id i (approvals s) = Some v" "av_status v = ''Draft''"
      "approvals s' = put_row av_id (v\<lparr>av_status := ''Pending''\<rparr>) (approvals s)" using other_actions(3) [OF resubmission] by blast
    have "signatures_ok (v\<lparr>av_status := ''Pending''\<rparr>)" using found [OF v(1)] v(2) by (auto simp: signatures_ok_def)
    then show ?thesis using put v(3) by simp
  next
    case (creation k i x u r)
    have "signatures_ok (unassigned_approval v k i x u)" for v
      by (auto simp: signatures_ok_def unassigned_approval_def dest: new_steps_pending)
    then show ?thesis using submit_new_writes [OF creation] assms(2) by auto
  next
    case outside
    then show ?thesis using assms(2) by simp
  qed simp
qed

section \<open>The statuses of an approval\<close>

definition APPROVAL_MOVES :: transitions where
  \<comment> \<open>the guards of the actions as a table\<close>
  "APPROVAL_MOVES =
     [(''Draft'', [''Pending'', ''Cancelled'']), (''Pending'', [''Approved'', ''Rejected'', ''Cancelled'']),
      (''Approved'', []), (''Rejected'', []), (''Cancelled'', [])]"

definition approval_status :: "nat \<Rightarrow> 'z workflow_state_scheme \<Rightarrow> string option" where
  "approval_status i s = map_option av_status (find_row av_id i (approvals s))"

lemma approval_status_put:
  "find_row av_id (av_id w) (approvals s) = Some v \<Longrightarrow> approvals s' = put_row av_id w (approvals s) \<Longrightarrow>
     approval_status i s' = (if i = av_id w then Some (av_status w) else approval_status i s)"
  using find_row_SomeD [of av_id "av_id w" "approvals s" v] by (auto simp: approval_status_def) (metis image_eqI)+

lemma approval_moves:
  assumes "procurement_step True s s'" and "approval_status i s = Some a"
  shows "\<exists>b. approval_status i s' = Some b \<and> (may_become APPROVAL_MOVES)\<^sup>*\<^sup>* a b"
proof -
  have same: ?thesis if "approvals s' = approvals s" using assms(2) that by (auto simp: approval_status_def)
  have put: ?thesis if w: "find_row av_id j (approvals s) = Some v" "av_id w = av_id v" "approvals s' = put_row av_id w (approvals s)"
    and m: "av_status w = av_status v \<or> may_become APPROVAL_MOVES (av_status v) (av_status w)" for j v w
  proof -
    have "av_id w = j" using find_row_SomeD [OF w(1)] w(2) by simp
    then have "find_row av_id (av_id w) (approvals s) = Some v" "approval_status (av_id w) s = Some (av_status v)"
      using w(1) by (simp_all add: approval_status_def)
    with approval_status_put [OF this(1) w(3), of i] assms(2) m show ?thesis
      by (auto split: if_splits)
  qed
  from assms(1) show ?thesis
  proof (cases rule: documents_step)
    case documents
    then show ?thesis using quiet_engine(1) same by blast
  next
    case deletion
    then show ?thesis using erased_engine same by blast
  next
    case (submission k j u r)
    have "approval_status i s' = Some a"
      using submit_writes(1) [OF submission] assms(2) by (auto simp: approval_status_def find_row_append)
    then show ?thesis by blast
  next
    case (approval u j)
    then obtain v w where v: "find_row av_id j (approvals s) = Some v" "av_status v = ''Pending''"
      and w: "w = (if pending_steps (sign_step u ''Approved'' v) = 0 then (sign_step u ''Approved'' v)\<lparr>av_status := ''Approved''\<rparr>
            else (sign_step u ''Approved'' v)\<lparr>av_current := Suc (av_current v)\<rparr>)"
        "approvals s' = put_row av_id w (approvals s)"
      by (rule approve_approvalE)
    show ?thesis by (rule put [OF v(1) _ w(2)]) (simp_all add: w(1) v(2) may_become_def APPROVAL_MOVES_def)
  next
    case (rejection u j)
    obtain v where v: "find_row av_id j (approvals s) = Some v" "av_status v = ''Pending''"
      "approvals s' = put_row av_id ((sign_step u ''Rejected'' v)\<lparr>av_status := ''Rejected''\<rparr>) (approvals s)" using other_actions(1) [OF rejection] by blast
    show ?thesis by (rule put [OF v(1) _ v(3)]) (use v(2) in \<open>auto simp: may_become_def APPROVAL_MOVES_def\<close>)
  next
    case (cancellation b u j)
    obtain v where v: "find_row av_id j (approvals s) = Some v" "av_status v \<in> {''Draft'', ''Pending''}"
      "approvals s' = put_row av_id (v\<lparr>av_status := ''Cancelled''\<rparr>) (approvals s)" using other_actions(2) [OF cancellation] by blast
    show ?thesis by (rule put [OF v(1) _ v(3)]) (use v(2) in \<open>auto simp: may_become_def APPROVAL_MOVES_def\<close>)
  next
    case (resubmission u j)
    obtain v where v: "find_row av_id j (approvals s) = Some v" "av_status v = ''Draft''"
      "approvals s' = put_row av_id (v\<lparr>av_status := ''Pending''\<rparr>) (approvals s)" using other_actions(3) [OF resubmission] by blast
    show ?thesis by (rule put [OF v(1) _ v(3)]) (use v(2) in \<open>auto simp: may_become_def APPROVAL_MOVES_def\<close>)
  next
    case (creation k j x u r)
    have "approval_status i s' = Some a"
      using submit_new_writes [OF creation] assms(2) by (auto simp: approval_status_def find_row_append)
    then show ?thesis by blast
  next
    case outside
    then show ?thesis using same by simp
  qed simp
qed

interpretation approval_machine: status_machine APPROVAL_MOVES "\<lambda>_. False" approval_status "procurement_step True"
  by unfold_locales (use approval_moves in blast)

end
