(* ===== verification/Received.thy ===== *)
theory Received
  imports Approvals "HOL-Library.Multiset"
begin

text \<open>
  The received quantity of an order line is the sum over the posted receipts (\<^verbatim>\<open>recalc_quantity_received_for_po\<close> has
  nothing to correct), and what follows for a full receipt.
\<close>

section \<open>The lines of all orders\<close>

definition all_lines :: "'z purchasing_state_scheme \<Rightarrow> order_line list" where
  "all_lines s = concat (map po_lines (orders s))"

definition received_ok :: "'z purchasing_state_scheme \<Rightarrow> bool" where
  \<comment> \<open>keys are unique, receipts refer to existing lines, and a line has received what the posted receipts say\<close>
  "received_ok s \<longleftrightarrow>
     distinct (map po_id (orders s)) \<and> distinct (map gn_id (receipts s)) \<and> distinct (map ol_id (all_lines s))
     \<and> (\<forall>g \<in> set (receipts s). \<forall>gl \<in> set (gn_lines g). gnl_order_line gl \<in> ol_id ` set (all_lines s))
     \<and> (\<forall>l \<in> set (all_lines s). ol_received l = posted_quantity (ol_id l) s)"

lemma order_line_of_all: "order_line_of k s = find_row ol_id k (all_lines s)"
  by (simp add: order_line_of_def all_lines_def)

lemma posted_quantity_receipts: "receipts s' = receipts s \<Longrightarrow> posted_quantity k s' = posted_quantity k s"
  by (simp add: posted_quantity_def)

definition same_lines :: "'z purchasing_state_scheme \<Rightarrow> 'z purchasing_state_scheme \<Rightarrow> bool" where
  "same_lines s s' \<longleftrightarrow> receipts s' = receipts s \<and> map po_id (orders s') = map po_id (orders s) \<and> all_lines s' = all_lines s"

lemma received_ok_same: "received_ok s \<Longrightarrow> same_lines s s' \<Longrightarrow> received_ok s'"
  unfolding received_ok_def same_lines_def posted_quantity_def by simp

lemma same_lines_tables: "orders s' = orders s \<Longrightarrow> receipts s' = receipts s \<Longrightarrow> same_lines s s'"
  by (simp add: same_lines_def all_lines_def)

lemma same_lines_trans: "same_lines s t \<Longrightarrow> same_lines t u \<Longrightarrow> same_lines s u"
  by (simp add: same_lines_def)

lemma map_put_row_same:
  assumes "distinct (map key rows)" and "find_row key (key r) rows = Some old" and "f r = f old"
  shows "map f (put_row key r rows) = map f rows"
proof -
  have o: "old \<in> set rows" "key old = key r" using find_row_SomeD [OF assms(2)] by simp_all
  have "x = old" if "x \<in> set rows" "key x = key r" for x
    using that o assms(1) by (metis distinct_map inj_onD)
  then show ?thesis by (auto simp: put_row_def assms(3))
qed

lemma save_order_lines:
  assumes "save_order p s = Inr s'" and "distinct (map po_id (orders s))"
  shows "same_lines s s'"
proof -
  obtain old p1 s1 where o: "find_row po_id (po_id p) (orders s) = Some old"
    "p1 = calculate_tax (p\<lparr>po_number := (if po_number p = [] then generate_po_number s else po_number p), po_lines := po_lines old\<rparr>)"
    "order_write (po_id p) s s1" "s' = s1\<lparr>orders := put_row po_id p1 (orders s)\<rparr>"
    using assms(1) by (rule save_orderE)
  obtain ec com ap where s1: "s1 = s\<lparr>encumbrances := ec, commitments := com, appropriations := ap\<rparr>"
    using order_writeD [OF o(3)] by blast
  have f: "po_id p1 = po_id p" "po_lines p1 = po_lines old" unfolding o(2) calculate_tax_def by simp_all
  have "map po_lines (put_row po_id p1 (orders s)) = map po_lines (orders s)"
    using assms(2) o(1) f by (intro map_put_row_same) simp_all
  moreover have "map po_id (put_row po_id p1 (orders s)) = map po_id (orders s)" by simp
  ultimately show ?thesis unfolding same_lines_def all_lines_def o(4) s1 by simp
qed

lemma save_order_received: "save_order p s = Inr s' \<Longrightarrow> received_ok s \<Longrightarrow> received_ok s'"
  using save_order_lines received_ok_same by (metis received_ok_def)

lemma insert_order_received:
  assumes "insert_order p s = Inr (k, s')" and "received_ok s"
  shows "received_ok s'" and "\<exists>q. find_row po_id k (orders s') = Some q \<and> po_lines q = []"
proof -
  define p1 where "p1 = p\<lparr>po_id := fresh_pk po_id (orders s),
      po_number := (if po_number p = [] then generate_po_number s else po_number p), po_lines := []\<rparr>"
  have "k = fresh_pk po_id (orders s)" "s' = s\<lparr>orders := orders s @ [p1]\<rparr>"
    using assms(1) unfolding insert_order_def Let_def p1_def [symmetric] by (auto simp: rbind_eq_Inr split: if_splits)
  then have p1: "s' = s\<lparr>orders := orders s @ [p1]\<rparr>" "po_lines p1 = []" "po_id p1 = k" "k = fresh_pk po_id (orders s)"
    by (simp_all add: p1_def)
  have k: "k \<notin> po_id ` set (orders s)" unfolding p1(4) by (rule fresh_pk_notin)
  have all: "all_lines s' = all_lines s" by (simp add: all_lines_def p1(1,2))
  have "distinct (map po_id (orders s'))" using assms(2) k by (simp add: p1(1,3) received_ok_def)
  then show "received_ok s'" using assms(2) unfolding received_ok_def all posted_quantity_def by (simp add: p1(1))
  have "find_row po_id k (orders s) = None" using k by (simp add: find_row_None_iff)
  then show "\<exists>q. find_row po_id k (orders s') = Some q \<and> po_lines q = []" by (simp add: p1(1-3) find_row_append)
qed

lemma posted_quantity_absent:
  assumes "received_ok s" and "k \<notin> ol_id ` set (all_lines s)"
  shows "posted_quantity k s = 0"
proof -
  have "sum_amounts gnl_quantity (\<lambda>gl. gnl_order_line gl = k) (gn_lines g) = 0" if "g \<in> set (receipts s)" for g
  proof -
    have "filter (\<lambda>gl. gnl_order_line gl = k) (gn_lines g) = []"
      using assms that by (auto simp: received_ok_def filter_empty_conv)
    then show ?thesis by (simp add: sum_amounts_def)
  qed
  then have "map (\<lambda>g. if gn_status g = ''Posted'' then sum_amounts gnl_quantity (\<lambda>gl. gnl_order_line gl = k) (gn_lines g) else 0) (receipts s)
      = map (\<lambda>_. 0) (receipts s)" by simp
  then show ?thesis by (simp add: posted_quantity_def sum_list_0 del: map_eq_conv)
qed

lemma new_lines_received:
  \<comment> \<open>lines with new keys and nothing received join an order\<close>
  assumes ok: "received_ok s" and same: "receipts s' = receipts s" "map po_id (orders s') = map po_id (orders s)"
    and lines: "mset (all_lines s') = mset (all_lines s) + mset new"
    and fresh: "distinct (map ol_id new)" "ol_id ` set new \<inter> ol_id ` set (all_lines s) = {}" "\<forall>l \<in> set new. ol_received l = 0"
  shows "received_ok s'"
proof -
  have set: "set (all_lines s') = set (all_lines s) \<union> set new"
    using arg_cong [OF lines, of set_mset] by simp
  have "mset (map ol_id (all_lines s')) = mset (map ol_id (all_lines s @ new))" by (simp add: lines)
  then have "distinct (map ol_id (all_lines s')) \<longleftrightarrow> distinct (map ol_id (all_lines s @ new))"
    by (rule mset_eq_imp_distinct_iff)
  moreover have "distinct (map ol_id (all_lines s @ new))" using ok fresh(1,2) by (auto simp: received_ok_def)
  moreover have "posted_quantity (ol_id l) s = 0" if "l \<in> set new" for l
    using that fresh(2) by (intro posted_quantity_absent [OF ok]) blast
  ultimately show ?thesis using ok fresh(3) same
    by (auto simp: received_ok_def set image_Un posted_quantity_receipts [OF same(1)])
qed

lemma mset_concat_upd:
  assumes "distinct (map key rows)" and "find_row key k rows = Some r" and "g (f r) = g r @ new"
  shows "mset (concat (map g (upd_row key k f rows))) = mset (concat (map g rows)) + mset new"
  using assms
proof (induction rows)
  case (Cons x xs)
  show ?case
  proof (cases "key x = k")
    case True
    then have "k \<notin> key ` set xs" using Cons.prems(1) by auto
    then have "upd_row key k f xs = xs" by (intro upd_row_absent) (simp add: find_row_None_iff)
    moreover have "r = x" using Cons.prems(2) True by simp
    moreover have "upd_row key k f (x # xs) = f x # upd_row key k f xs" using True by (simp add: upd_row_def)
    ultimately show ?thesis using Cons.prems(3) by (simp add: ac_simps)
  next
    case False
    then have "upd_row key k f (x # xs) = x # upd_row key k f xs" by (simp add: upd_row_def)
    then show ?thesis using Cons False by (simp add: ac_simps)
  qed
qed simp


section \<open>Lines join an order\<close>

lemma join_lines_received:
  assumes ok: "received_ok s" and p: "find_row po_id i (orders s) = Some p"
    and s': "s' = s\<lparr>orders := upd_row po_id i f (orders s)\<rparr>"
    and f: "po_lines (f p) = po_lines p @ new" "\<And>q. po_id (f q) = po_id q"
    and fresh: "distinct (map ol_id new)" "ol_id ` set new \<inter> ol_id ` set (all_lines s) = {}" "\<forall>l \<in> set new. ol_received l = 0"
  shows "received_ok s'"
proof (rule new_lines_received [OF ok _ _ _ fresh])
  show "mset (all_lines s') = mset (all_lines s) + mset new"
    unfolding all_lines_def s' using ok mset_concat_upd [of po_id "orders s" i p po_lines f new] p f(1)
    by (simp add: received_ok_def)
  show "map po_id (orders s') = map po_id (orders s)" using f(2) by (simp add: s' map_upd_row)
qed (simp add: s')

lemma fresh_line: "fresh_pk ol_id (concat (map po_lines (orders s))) \<notin> ol_id ` set (all_lines s)"
  unfolding all_lines_def by (rule fresh_pk_notin)

lemma create_lines_received:
  assumes "create_order_lines i ls s = (r, s')" and "received_ok s" and "\<forall>l \<in> set ls. ol_received l = 0"
  shows "received_ok s'"
  using assms
proof (induction ls arbitrary: s)
  case (Cons l ls)
  define k where "k = fresh_pk ol_id (concat (map po_lines (orders s)))"
  define f :: "purchase_order \<Rightarrow> purchase_order" where "f = (\<lambda>p. p\<lparr>po_lines := po_lines p @ [l\<lparr>ol_id := k\<rparr>]\<rparr>)"
  define s1 where "s1 = s\<lparr>orders := upd_row po_id i f (orders s)\<rparr>"
  have run: "(case find_row po_id i (orders s1) of
         None \<Rightarrow> (Inl DoesNotExist, s1)
       | Some p \<Rightarrow> if committed_status (po_status p)
                   then (case create_commitment_for_po p None s1 of Inl e \<Rightarrow> (Inl e, s1) | Inr (_, s2) \<Rightarrow> create_order_lines i ls s2)
                   else create_order_lines i ls s1) = (r, s')"
    using Cons.prems(1) unfolding create_order_lines.simps Let_def k_def [symmetric] f_def [symmetric] s1_def [symmetric] .
  have ok1: "received_ok s1"
  proof (cases "find_row po_id i (orders s)")
    case None
    then have "upd_row po_id i f (orders s) = orders s" by (rule upd_row_absent)
    then have "s1 = s" by (simp add: s1_def)
    then show ?thesis using Cons.prems(2) by simp
  next
    case (Some p)
    show ?thesis
      by (rule join_lines_received [OF Cons.prems(2) Some s1_def, of "[l\<lparr>ol_id := k\<rparr>]"])
        (use Cons.prems(3) fresh_line [of s] in \<open>simp_all add: f_def k_def\<close>)
  qed
  consider "s' = s1" | "create_order_lines i ls s1 = (r, s')"
    | p b s2 where "create_commitment_for_po p None s1 = Inr (b, s2)" "create_order_lines i ls s2 = (r, s')"
    using run by (auto split: option.splits if_splits sum.splits)
  then show ?case
  proof cases
    case 3
    obtain com ap where "s2 = s1\<lparr>commitments := com, appropriations := ap\<rparr>"
      using budget_writeD [OF create_commitment_write [OF 3(1)]] by blast
    then have "same_lines s1 s2" by (intro same_lines_tables) simp_all
    then have "received_ok s2" using ok1 received_ok_same by blast
    then show ?thesis using Cons.IH [OF 3(2)] Cons.prems(3) by simp
  qed (use ok1 Cons in auto)
qed simp

lemma create_order_received:
  assumes "create_order p s = (r, s')" and "received_ok s" and "list_all (\<lambda>l. ol_received l = 0) (po_lines p)"
  shows "received_ok s'"
proof (cases "s' = s")
  case False
  then obtain k s1 r2 s2 where 1: "insert_order (p\<lparr>po_number := []\<rparr>) s = Inr (k, s1)" "create_order_lines k (po_lines p) s1 = (r2, s2)"
    and 2: "s' = s2 \<or> with_order k save_order s2 = Inr s'"
    using assms(1) by (auto simp: create_order_def rbind_eq_Inr split: if_splits sum.splits prod.splits)
  have "received_ok s2"
    by (rule create_lines_received [OF 1(2) insert_order_received(1) [OF 1(1) assms(2)]]) (use assms(3) in \<open>simp add: list_all_iff\<close>)
  then show ?thesis using 2 save_order_received by (auto simp: with_order_def split: option.splits)
qed (use assms(2) in simp)

lemma fresh_pk_above: "x \<in> key ` set rows \<Longrightarrow> x < fresh_pk key rows"
proof -
  assume "x \<in> key ` set rows"
  then have "x \<le> fold max (map key rows) 0" using fold_max_ge [of 0 "map key rows"] by auto
  then show ?thesis by (simp add: fresh_pk_def)
qed

lemma convert_received:
  assumes "convert_to_po i v d e s = Inr (k, s')" and "received_ok s"
  shows "received_ok s'"
proof -
  obtain r where r: "find_row pr_id i (requests s) = Some r" using assms(1) by (auto simp: convert_to_po_def split: option.splits)
  define base where "base s1 = fresh_pk ol_id (concat (map po_lines (orders s1)))" for s1 :: "'a purchasing_state_scheme"
  define ls where "ls s1 = map (\<lambda>(n, l). \<lparr>ol_id = base s1 + n, ol_quantity = rl_quantity l, ol_received = 0,
                                        ol_price = rl_price l, ol_account = the (rl_account l), ol_item = rl_item l,
                                        ol_asset = rl_asset l\<rparr>) (zip [0 ..< length (pr_lines r)] (pr_lines r))" for s1 :: "'a purchasing_state_scheme"
  define form where "form = \<lparr>po_id = 0, po_number = conversion_number s, po_vendor = v, po_request = Some i,
                        po_date = d, po_delivery = e, po_tax_rate = 0, po_tax = 0, po_mda = None, po_fund = pr_fund r,
                        po_function = pr_function r, po_program = pr_program r, po_geo = pr_geo r,
                        po_status = ''Draft'', po_lines = []\<rparr>"
  define run where "run = rbind (insert_order form s)
      (\<lambda>(k, s1). if list_ex (\<lambda>l. rl_account l = None) (pr_lines r) then Inl IntegrityError
                 else Inr (k, s1\<lparr>orders := upd_row po_id k (\<lambda>p. p\<lparr>po_lines := ls s1\<rparr>) (orders s1)\<rparr>))"
  have "convert_to_po i v d e s = (if pr_status r \<noteq> ''Approved'' then Inl ValueError
      else if find_row su_id v (suppliers s) = None then Inl DoesNotExist else run)"
    unfolding convert_to_po_def r option.case prod.case Let_def run_def form_def ls_def base_def by (rule refl)
  then have ran: "run = Inr (k, s')" using assms(1) by (cases "find_row su_id v (suppliers s)") (simp_all split: if_split_asm)
  obtain x where x: "insert_order form s = Inr x"
    "(case x of (k, s1) \<Rightarrow> if list_ex (\<lambda>l. rl_account l = None) (pr_lines r) then Inl IntegrityError
        else Inr (k, s1\<lparr>orders := upd_row po_id k (\<lambda>p. p\<lparr>po_lines := ls s1\<rparr>) (orders s1)\<rparr>)) = Inr (k, s')"
    using ran unfolding run_def rbind_eq_Inr by blast
  obtain k1 s1 where k1: "x = (k1, s1)" by (cases x)
  have k: "k1 = k \<and> s1\<lparr>orders := upd_row po_id k1 (\<lambda>p. p\<lparr>po_lines := ls s1\<rparr>) (orders s1)\<rparr> = s'"
  proof (cases "list_ex (\<lambda>l. rl_account l = None) (pr_lines r)")
    case True
    then show ?thesis using x(2) unfolding k1 prod.case by simp
  next
    case False
    have "Inr (k1, s1\<lparr>orders := upd_row po_id k1 (\<lambda>p. p\<lparr>po_lines := ls s1\<rparr>) (orders s1)\<rparr>) = (Inr (k, s') :: err + (nat \<times> 'a purchasing_state_scheme))"
      using x(2) unfolding k1 prod.case if_not_P [OF False] .
    then show ?thesis unfolding sum.inject prod.inject .
  qed
  have 1: "insert_order form s = Inr (k, s1)" "s' = s1\<lparr>orders := upd_row po_id k (\<lambda>p. p\<lparr>po_lines := ls s1\<rparr>) (orders s1)\<rparr>"
    using x(1) unfolding k1 k [THEN conjunct1] k [THEN conjunct2, symmetric] by simp_all
  obtain q where q: "find_row po_id k (orders s1) = Some q" "po_lines q = []" using insert_order_received(2) [OF 1(1) assms(2)] by blast
  have ids: "map ol_id (ls s1) = map (\<lambda>n. base s1 + n) [0 ..< length (pr_lines r)]"
    unfolding ls_def by (rule nth_equalityI) simp_all
  have above: "x < base s1" if "x \<in> ol_id ` set (all_lines s1)" for x
    using that fresh_pk_above [of x ol_id "concat (map po_lines (orders s1))"] by (simp add: base_def all_lines_def)
  show ?thesis
  proof (rule join_lines_received [OF insert_order_received(1) [OF 1(1) assms(2)] q(1) 1(2)])
    show "distinct (map ol_id (ls s1))" unfolding ids by (simp add: distinct_map)
    have "base s1 \<le> x" if "x \<in> ol_id ` set (ls s1)" for x
    proof -
      have "x \<in> set (map ol_id (ls s1))" using that by (simp only: set_map)
      then show ?thesis unfolding ids by auto
    qed
    then show "ol_id ` set (ls s1) \<inter> ol_id ` set (all_lines s1) = {}" using above by (meson disjoint_iff leD)
    show "\<forall>l \<in> set (ls s1). ol_received l = 0" by (auto simp: ls_def)
  qed (simp_all add: q(2))
qed


section \<open>Receipts\<close>

lemma save_receiptE:
  assumes "save_receipt g s = Inr s'"
  obtains old g1 ws where "find_row gn_id (gn_id g) (receipts s) = Some old" "gn_id g1 = gn_id g" "gn_status g1 = gn_status g"
    "gn_lines g1 = gn_lines old" "gn_order g1 = gn_order g"
    "gn_status g1 = gn_status old \<or> may_become RECEIPT_TRANSITIONS (gn_status old) (gn_status g1)"
    "(gn_status old \<noteq> ''Posted'' \<and> gn_status g = ''Posted'' \<and> process_receipt g1 (s\<lparr>warehouses := ws\<rparr>) = Inr s')
     \<or> ((gn_status old = ''Posted'' \<or> gn_status g \<noteq> ''Posted'') \<and> s' = s\<lparr>warehouses := ws, receipts := put_row gn_id g1 (receipts s)\<rparr>)"
proof -
  obtain old g1 s1 where old: "find_row gn_id (gn_id g) (receipts s) = Some old"
    and l: "located_receipt (g\<lparr>gn_lines := gn_lines old\<rparr>) s = Inr (g1, s1)"
    and t: "validate_status_transition RECEIPT_TRANSITIONS (Some (gn_status old)) (gn_status g1) = Inr ()"
    and r: "(if gn_status old \<noteq> ''Posted'' \<and> gn_status g1 = ''Posted'' then process_receipt g1 s1 else write_receipt g1 s1) = Inr s'"
    using assms by (auto simp: save_receipt_def rbind_eq_Inr split: option.splits)
  obtain ws where s1: "s1 = s\<lparr>warehouses := ws\<rparr>" and f: "gn_id g1 = gn_id g" "gn_status g1 = gn_status g"
    "gn_lines g1 = gn_lines old" "gn_order g1 = gn_order g"
    using located_receipt_same [OF l] by auto
  have "gn_status g1 = gn_status old \<or> may_become RECEIPT_TRANSITIONS (gn_status old) (gn_status g1)"
    using t by (auto simp: validate_status_ok)
  moreover have "(gn_status old \<noteq> ''Posted'' \<and> gn_status g = ''Posted'' \<and> process_receipt g1 (s\<lparr>warehouses := ws\<rparr>) = Inr s')
     \<or> ((gn_status old = ''Posted'' \<or> gn_status g \<noteq> ''Posted'') \<and> s' = s\<lparr>warehouses := ws, receipts := put_row gn_id g1 (receipts s)\<rparr>)"
  proof (cases "gn_status old \<noteq> ''Posted'' \<and> gn_status g1 = ''Posted''")
    case True
    have "process_receipt g1 s1 = Inr s'" using r unfolding if_P [OF True] .
    then show ?thesis using True f(2) s1 by simp
  next
    case False
    have "write_receipt g1 s1 = Inr s'" using r unfolding if_not_P [OF False] .
    then have "s' = s1\<lparr>receipts := put_row gn_id g1 (receipts s1)\<rparr>" by (simp add: write_receipt_def split: if_splits)
    then show ?thesis using False f(2) by (simp add: s1)
  qed
  ultimately show ?thesis using that old f by blast
qed

definition line_quantity :: "nat \<Rightarrow> receipt_line list \<Rightarrow> rat" where
  "line_quantity k gls = sum_amounts gnl_quantity (\<lambda>gl. gnl_order_line gl = k) gls"

definition counted :: "nat \<Rightarrow> receipt \<Rightarrow> rat" where
  \<comment> \<open>what one receipt contributes to \<open>posted_quantity\<close>\<close>
  "counted k g = (if gn_status g = ''Posted'' then line_quantity k (gn_lines g) else 0)"

lemma posted_quantity_counted: "posted_quantity k s = sum_list (map (counted k) (receipts s))"
  unfolding posted_quantity_def counted_def line_quantity_def by (rule refl)

lemma posted_quantity_put:
  assumes "find_row gn_id (gn_id g) (receipts s) = Some old" and "distinct (map gn_id (receipts s))"
    and "receipts s' = put_row gn_id g (receipts s)"
  shows "posted_quantity k s' = posted_quantity k s - counted k old + counted k g"
  using sum_put_row [OF assms(1,2), of "counted k"] by (simp add: posted_quantity_counted assms(3))

lemma put_receipt_received:
  \<comment> \<open>a receipt that is not posted by the write\<close>
  assumes "received_ok s" and old: "find_row gn_id (gn_id g) (receipts s) = Some old" and "gn_lines g = gn_lines old"
    and "gn_status g = ''Posted'' \<longleftrightarrow> gn_status old = ''Posted''"
    and s': "receipts s' = put_row gn_id g (receipts s)" "orders s' = orders s"
  shows "received_ok s'"
proof -
  have "counted k g = counted k old" for k using assms(3,4) by (simp add: counted_def)
  then have q: "posted_quantity k s' = posted_quantity k s" for k
    using posted_quantity_put [OF old _ s'(1)] assms(1) by (simp add: received_ok_def)
  have "all_lines s' = all_lines s" by (simp add: all_lines_def s'(2))
  moreover have "\<forall>x \<in> set (receipts s'). \<forall>gl \<in> set (gn_lines x). gnl_order_line gl \<in> ol_id ` set (all_lines s)"
    using assms(1,3) find_row_SomeD [OF old] unfolding s'(1) received_ok_def by (metis set_put_row)
  ultimately show ?thesis using assms(1) by (simp add: received_ok_def q s')
qed

lemma order_lines_write:
  \<comment> \<open>one line of one order\<close>
  assumes "put_order_line i (upd_row ol_id k f) s = Inr s'" and ok: "distinct (map po_id (orders s))" "distinct (map ol_id (all_lines s))"
    and p: "p \<in> set (orders s)" "po_id p = i" "k \<in> ol_id ` set (po_lines p)" and f: "\<And>l. ol_id (f l) = ol_id l"
  shows "all_lines s' = upd_row ol_id k f (all_lines s)" "receipts s' = receipts s" "map po_id (orders s') = map po_id (orders s)"
proof -
  have fp: "find_row po_id i (orders s) = Some p" using find_row_distinct [OF ok(1) p(1)] p(2) by simp
  define p1 s1 where "p1 = p\<lparr>po_lines := upd_row ol_id k f (po_lines p)\<rparr>" and "s1 = s\<lparr>orders := put_row po_id p1 (orders s)\<rparr>"
  have run: "(if committed_status (po_status p1) then rbind (create_commitment_for_po p1 None s1) (\<lambda>(_, s2). Inr s2) else Inr s1) = Inr s'"
    unfolding p1_def s1_def using assms(1) fp by (simp add: put_order_line_def Let_def split del: if_split)
  have frame: "orders s' = orders s1 \<and> receipts s' = receipts s1"
  proof (cases "committed_status (po_status p1)")
    case True
    then obtain b where "create_commitment_for_po p1 None s1 = Inr (b, s')" using run by (auto simp: rbind_eq_Inr)
    from budget_writeD [OF create_commitment_write [OF this]] show ?thesis by auto
  qed (use run in simp)
  have id: "po_id p1 = i" by (simp add: p1_def p(2))
  show "receipts s' = receipts s" "map po_id (orders s') = map po_id (orders s)" using frame by (simp_all add: s1_def)
  obtain xs ys where split: "orders s = xs @ p # ys" using p(1) by (meson split_list)
  have other: "po_id q \<noteq> i" if "q \<in> set xs \<union> set ys" for q using ok(1) that p(2) imageI [of q _ po_id] unfolding split by fastforce
  have put: "put_row po_id p1 (orders s) = xs @ p1 # ys"
    unfolding split put_row_def using other id p(2) by (auto intro!: map_idI)
  have "ol_id ` set (concat (map po_lines xs)) \<inter> ol_id ` set (po_lines p) = {}"
    "ol_id ` set (concat (map po_lines ys)) \<inter> ol_id ` set (po_lines p) = {}"
    using ok(2) unfolding all_lines_def split
    by (simp_all only: map_append list.map concat_append concat.simps distinct_append set_append set_map) blast+
  then have "k \<notin> ol_id ` set (concat (map po_lines xs))" "k \<notin> ol_id ` set (concat (map po_lines ys))"
    using p(3) by blast+
  then have "upd_row ol_id k f (concat (map po_lines xs)) = concat (map po_lines xs)"
    "upd_row ol_id k f (concat (map po_lines ys)) = concat (map po_lines ys)"
    by (simp_all only: upd_row_absent find_row_None_iff not_False_eq_True)
  then show "all_lines s' = upd_row ol_id k f (all_lines s)"
    using frame put by (simp add: all_lines_def s1_def split p1_def upd_row_def)
qed


definition add_received :: "receipt_line \<Rightarrow> order_line list \<Rightarrow> order_line list" where
  "add_received gl = upd_row ol_id (gnl_order_line gl) (\<lambda>l. l\<lparr>ol_received := ol_received l + gnl_quantity gl\<rparr>)"

lemma receive_line_lines:
  assumes "receive_line g w gl s = Inr s'" and "distinct (map po_id (orders s))" and "distinct (map ol_id (all_lines s))"
  shows "all_lines s' = add_received gl (all_lines s)" "receipts s' = receipts s" "map po_id (orders s') = map po_id (orders s)"
proof -
  obtain p where p: "p \<in> set (orders s)" "gnl_order_line gl \<in> ol_id ` set (po_lines p)"
    "put_order_line (po_id p) (upd_row ol_id (gnl_order_line gl) (\<lambda>l. l\<lparr>ol_received := ol_received l + gnl_quantity gl\<rparr>)) s = Inr s'"
    using assms(1) by (rule receive_line_step)
  note w = order_lines_write [OF p(3) assms(2,3) p(1) refl p(2)]
  show "all_lines s' = add_received gl (all_lines s)" unfolding add_received_def by (rule w(1)) simp
  show "receipts s' = receipts s" by (rule w(2)) simp
  show "map po_id (orders s') = map po_id (orders s)" by (rule w(3)) simp
qed

lemma add_received_ids [simp]: "map ol_id (add_received gl ls) = map ol_id ls"
  unfolding add_received_def by (simp add: map_upd_row)

lemma receive_lines_lines:
  assumes "rfold (receive_line g w) gls s = Inr s'" and "distinct (map po_id (orders s))" and "distinct (map ol_id (all_lines s))"
  shows "all_lines s' = fold add_received gls (all_lines s) \<and> receipts s' = receipts s \<and> map po_id (orders s') = map po_id (orders s)"
  using assms
proof (induction gls arbitrary: s)
  case (Cons gl gls)
  obtain s1 where 1: "receive_line g w gl s = Inr s1" "rfold (receive_line g w) gls s1 = Inr s'"
    using Cons.prems(1) by (auto simp: rbind_eq_Inr)
  note l = receive_line_lines [OF 1(1) Cons.prems(2,3)]
  show ?case using Cons.IH [OF 1(2)] Cons.prems(2,3) by (simp add: l)
qed simp

lemma line_quantity_Cons:
  "line_quantity k (gl # gls) = (if gnl_order_line gl = k then gnl_quantity gl else 0) + line_quantity k gls"
  by (simp add: line_quantity_def sum_amounts_def)

lemma fold_add_received:
  "fold add_received gls ls = map (\<lambda>l. l\<lparr>ol_received := ol_received l + line_quantity (ol_id l) gls\<rparr>) ls"
proof (induction gls arbitrary: ls)
  case Nil
  have "line_quantity k [] = 0" for k by (simp add: line_quantity_def sum_amounts_def)
  then show ?case by (simp add: map_idI)
next
  case (Cons gl gls)
  show ?case unfolding fold_Cons comp_apply Cons.IH
    by (simp add: add_received_def upd_row_def line_quantity_Cons)
qed

lemma process_receipt_received:
  assumes p: "process_receipt g s = Inr s'" and ok: "received_ok s" and old: "find_row gn_id (gn_id g) (receipts s) = Some old"
    and g: "gn_lines g = gn_lines old" "gn_status g = ''Posted''" "gn_status old \<noteq> ''Posted''"
  shows "received_ok s'"
proof -
  obtain w s2 s3 p s4 n s5 j where r: "rfold (receive_line g w) (gn_lines g) (s\<lparr>receipts := put_row gn_id g (receipts s)\<rparr>) = Inr s2"
    "close_if_received (gn_order g) s2 = Inr s3" "draft_receipt_invoice g p (vendor_statistics g p s3) = Inr s4"
    "mark_commitment_invoiced_for_po (po_id p) s4 = Inr (n, s5)" "post_goods_received_note g s5 = Inr (j, s')"
    using p by (rule process_receiptE)
  define s1 where "s1 = s\<lparr>receipts := put_row gn_id g (receipts s)\<rparr>"
  have f1: "orders s1 = orders s" "receipts s1 = put_row gn_id g (receipts s)" by (simp_all add: s1_def)
  then have l1: "all_lines s1 = all_lines s" by (simp add: all_lines_def)
  have d: "distinct (map po_id (orders s1))" "distinct (map ol_id (all_lines s1))" "distinct (map gn_id (receipts s))"
    using ok by (simp_all add: received_ok_def f1(1) l1)
  have w: "all_lines s2 = fold add_received (gn_lines g) (all_lines s)" "receipts s2 = receipts s1"
    "map po_id (orders s2) = map po_id (orders s)"
    using receive_lines_lines [OF r(1) [folded s1_def] d(1,2)] by (simp_all add: l1 f1)
  have q: "posted_quantity k s2 = posted_quantity k s + line_quantity k (gn_lines g)" for k
    using posted_quantity_put [OF old d(3), of s2 k] w(2) f1(2) g by (simp add: counted_def)
  have ids: "ol_id ` set (all_lines s2) = ol_id ` set (all_lines s)"
    unfolding w(1) fold_add_received set_map image_image by simp
  have "gl \<in> set (gn_lines old) \<Longrightarrow> gnl_order_line gl \<in> ol_id ` set (all_lines s)" for gl
    using ok find_row_SomeD [OF old] by (auto simp: received_ok_def)
  then have refs: "\<forall>x \<in> set (receipts s2). \<forall>gl \<in> set (gn_lines x). gnl_order_line gl \<in> ol_id ` set (all_lines s2)"
    using ok unfolding w(2) f1(2) ids received_ok_def by (metis g(1) set_put_row)
  have "received_ok s2"
    unfolding received_ok_def
  proof (intro conjI)
    show "distinct (map po_id (orders s2))" using ok by (simp add: w(3) received_ok_def)
    show "distinct (map gn_id (receipts s2))" using d(3) by (simp add: w(2) f1(2))
    have "map ol_id (all_lines s2) = map ol_id (all_lines s)" unfolding w(1) fold_add_received by simp
    then show "distinct (map ol_id (all_lines s2))" using ok by (simp add: received_ok_def)
    show "\<forall>l \<in> set (all_lines s2). ol_received l = posted_quantity (ol_id l) s2"
      using ok unfolding w(1) fold_add_received q by (auto simp: received_ok_def)
  qed (fact refs)
  moreover have "same_lines s2 s3"
    using r(2)
  proof (cases rule: close_if_received_cases)
    case (closed p)
    then show ?thesis using save_order_lines calculation by (auto simp: received_ok_def)
  qed (simp add: same_lines_tables)
  moreover have "same_lines s3 s4"
    using vendor_statistics_same [of g p s3] draft_receipt_invoice_same [OF r(3)]
    by (auto intro!: same_lines_tables)
  moreover have "same_lines s4 s5"
    using move_and_refreshD [OF r(4) [unfolded mark_commitment_invoiced_for_po_def]]
    by (auto intro!: same_lines_tables simp: move_link_def)
  moreover have "same_lines s5 s'"
    using post_receipt_books [OF r(5)] by (auto simp: books_write_def intro!: same_lines_tables)
  ultimately show ?thesis using received_ok_same by blast
qed

lemma save_receipt_received:
  assumes "save_receipt g s = Inr s'" and ok: "received_ok s"
  shows "received_ok s'"
proof -
  obtain old g1 ws where o: "find_row gn_id (gn_id g) (receipts s) = Some old" "gn_id g1 = gn_id g" "gn_status g1 = gn_status g"
    "gn_lines g1 = gn_lines old" "gn_status g1 = gn_status old \<or> may_become RECEIPT_TRANSITIONS (gn_status old) (gn_status g1)"
    and w: "(gn_status old \<noteq> ''Posted'' \<and> gn_status g = ''Posted'' \<and> process_receipt g1 (s\<lparr>warehouses := ws\<rparr>) = Inr s')
     \<or> ((gn_status old = ''Posted'' \<or> gn_status g \<noteq> ''Posted'') \<and> s' = s\<lparr>warehouses := ws, receipts := put_row gn_id g1 (receipts s)\<rparr>)"
    using assms(1) by (rule save_receiptE)
  have old1: "find_row gn_id (gn_id g1) (receipts s) = Some old" using o(1,2) by simp
  from w show ?thesis
  proof
    assume a: "gn_status old \<noteq> ''Posted'' \<and> gn_status g = ''Posted'' \<and> process_receipt g1 (s\<lparr>warehouses := ws\<rparr>) = Inr s'"
    have "same_lines s (s\<lparr>warehouses := ws\<rparr>)" by (intro same_lines_tables) simp_all
    with ok have "received_ok (s\<lparr>warehouses := ws\<rparr>)" by (rule received_ok_same)
    then show ?thesis using a o old1 by (intro process_receipt_received [of g1 "s\<lparr>warehouses := ws\<rparr>" s' old]) simp_all
  next
    assume a: "(gn_status old = ''Posted'' \<or> gn_status g \<noteq> ''Posted'') \<and> s' = s\<lparr>warehouses := ws, receipts := put_row gn_id g1 (receipts s)\<rparr>"
    have "gn_status old = ''Posted'' \<Longrightarrow> gn_status g1 = ''Posted''"
      using o(5) by (auto simp: may_become_def RECEIPT_TRANSITIONS_def)
    then show ?thesis using a o(3) by (intro put_receipt_received [OF ok old1 o(4), of s']) auto
  qed
qed


section \<open>The actions\<close>

lemma orders_tables_received:
  fixes s s' :: "'z purchasing_state_scheme"
  shows "orders s' = orders s \<Longrightarrow> receipts s' = receipts s \<Longrightarrow> received_ok s \<Longrightarrow> received_ok s'"
  by (rule received_ok_same [OF _ same_lines_tables])

lemma with_order_received:
  "(\<And>p. f p s = Inr s' \<Longrightarrow> received_ok s') \<Longrightarrow> with_order i f s = Inr s' \<Longrightarrow> received_ok s'"
  by (auto simp: with_order_def split: option.splits)

lemma with_receipt_received:
  "(\<And>g. f g s = Inr s' \<Longrightarrow> received_ok s') \<Longrightarrow> with_receipt i f s = Inr s' \<Longrightarrow> received_ok s'"
  by (auto simp: with_receipt_def split: option.splits)

lemma order_actions_received:
  assumes "received_ok s"
  shows "approve_order i s = Inr s' \<Longrightarrow> received_ok s'" "reject_order i s = Inr s' \<Longrightarrow> received_ok s'"
    "post_order i s = Inr s' \<Longrightarrow> received_ok s'" "close_order i s = Inr s' \<Longrightarrow> received_ok s'"
    "cancel_order i s = Inr s' \<Longrightarrow> received_ok s'" "patch_order_status i t s = Inr s' \<Longrightarrow> received_ok s'"
  unfolding approve_order_def reject_order_def post_order_def close_order_def cancel_order_def patch_order_status_def
  by (erule with_order_received [rotated], auto split: if_splits intro: save_order_received assms)+

lemma save_request_tables: "save_request r s = Inr s' \<Longrightarrow> orders s' = orders s \<and> receipts s' = receipts s"
  unfolding save_request_def Let_def by (auto simp: rbind_eq_Inr split: option.splits if_splits)

lemma approve_stored_tables: "approve_stored_request r s = Inr s' \<Longrightarrow> orders s' = orders s \<and> receipts s' = receipts s"
  by (auto simp: approve_stored_request_def split: if_splits dest!: save_request_tables)

lemma request_actions_tables:
  "approve_request i s = Inr s' \<Longrightarrow> orders s' = orders s \<and> receipts s' = receipts s"
  "reject_request i s = Inr s' \<Longrightarrow> orders s' = orders s \<and> receipts s' = receipts s"
  "patch_request_status i t s = Inr s' \<Longrightarrow> orders s' = orders s \<and> receipts s' = receipts s"
  "create_request q s = Inr (k, s') \<Longrightarrow> orders s' = orders s \<and> receipts s' = receipts s"
  by (auto simp: approve_request_def reject_request_def patch_request_status_def create_request_def Let_def
      split: option.splits if_splits dest!: approve_stored_tables save_request_tables)

lemma bulk_approve_tables: "orders (snd (bulk_approve is s)) = orders s \<and> receipts (snd (bulk_approve is s)) = receipts s"
proof -
  have "orders (snd (bulk_approve_requests rs s)) = orders s \<and> receipts (snd (bulk_approve_requests rs s)) = receipts s" for rs
  proof (induction rs arbitrary: s)
    case (Cons r rs)
    obtain o1 s1 where 1: "(if pr_status r \<notin> {''Draft'', ''Pending''} then (Skipped (pr_id r), s)
                      else case approve_stored_request r s of Inl e \<Rightarrow> (Failed (pr_id r) e, s) | Inr s' \<Rightarrow> (Done (pr_id r), s')) = (o1, s1)"
      by fastforce
    then have "orders s1 = orders s \<and> receipts s1 = receipts s"
      using approve_stored_tables by (auto split: if_splits sum.splits)
    moreover have "snd (bulk_approve_requests (r # rs) s) = snd (bulk_approve_requests rs s1)"
      unfolding bulk_approve_requests.simps 1 by (simp add: Let_def split_beta)
    ultimately show ?case using Cons.IH [of s1] by simp
  qed simp
  then show ?thesis by (simp add: bulk_approve_def Let_def split_beta)
qed

lemma delete_request_lines: "same_lines s (delete_request i s)"
  by (simp add: same_lines_def all_lines_def delete_request_def comp_def if_distrib cong: if_cong)

lemma bulk_delete_lines: "bulk_delete is s = (out, s') \<Longrightarrow> same_lines s s'"
proof -
  have keep: "same_lines s s" for s :: "'z purchasing_state_scheme" by (simp add: same_lines_tables)
  have many: "same_lines s (fold (\<lambda>r. delete_request (pr_id r)) rs s)" for rs :: "purchase_request list" and s :: "'z purchasing_state_scheme"
    by (induction rs arbitrary: s) (auto intro: keep same_lines_trans [OF delete_request_lines])
  assume "bulk_delete is s = (out, s')"
  then show ?thesis using many keep by (auto simp: bulk_delete_def Let_def split: if_splits)
qed

lemma distinct_concat_filter: "distinct (map g (concat (map f xs))) \<Longrightarrow> distinct (map g (concat (map f (filter P xs))))"
  by (induction xs) auto

lemma destroy_request_lines: "destroy_request i s = Inr s' \<Longrightarrow> same_lines s s'"
  by (auto simp: destroy_request_def delete_request_lines split: option.splits)

lemma destroy_order_received:
  assumes "destroy_order i s = Inr s'" and "received_ok s"
  shows "received_ok s'"
proof -
  obtain p where p: "find_row po_id i (orders s) = Some p"
    and free: "\<not> list_ex (\<lambda>g. gn_order g = i \<or> list_ex (\<lambda>gl. gnl_order_line gl \<in> ol_id ` set (po_lines p)) (gn_lines g)) (receipts s)"
    and s': "s' = s\<lparr>orders := filter (\<lambda>q. po_id q \<noteq> i) (orders s)\<rparr>"
    using assms(1) by (auto simp: destroy_order_def with_order_def split: option.splits if_splits)
  have same: "q = p" if "q \<in> set (orders s)" "po_id q = i" for q
    using assms(2) p that find_row_distinct [of po_id "orders s" q] by (simp add: received_ok_def)
  have lines: "set (all_lines s') \<subseteq> set (all_lines s)" by (auto simp: all_lines_def s')
  have kept: "l \<in> set (all_lines s') \<or> l \<in> set (po_lines p)" if "l \<in> set (all_lines s)" for l
    using that same by (auto simp: all_lines_def s')
  have q: "posted_quantity k s' = posted_quantity k s" for k by (rule posted_quantity_receipts) (simp add: s')
  have "gnl_order_line gl \<in> ol_id ` set (all_lines s')" if g: "g \<in> set (receipts s)" "gl \<in> set (gn_lines g)" for g gl
  proof -
    have "gnl_order_line gl \<in> ol_id ` set (all_lines s)" using assms(2) g by (simp add: received_ok_def)
    then obtain l where l: "l \<in> set (all_lines s)" "gnl_order_line gl = ol_id l" by auto
    moreover have "gnl_order_line gl \<notin> ol_id ` set (po_lines p)" using free g by (auto simp: list_ex_iff)
    ultimately show ?thesis using kept [OF l(1)] by auto
  qed
  moreover have "distinct (map po_id (orders s'))" "distinct (map ol_id (all_lines s'))"
    using assms(2) distinct_concat_filter [of ol_id po_lines "orders s"]
    by (simp_all add: received_ok_def all_lines_def s' distinct_map_filter)
  ultimately show ?thesis using assms(2) lines unfolding received_ok_def q by (auto simp: s')
qed

lemma destroy_receipt_received:
  assumes "destroy_receipt i s = Inr s'" and "doc_status K_Receipt i s \<noteq> Some ''Posted''" and "received_ok s"
  shows "received_ok s'"
proof -
  have s': "s' = s\<lparr>receipts := filter (\<lambda>r. gn_id r \<noteq> i) (receipts s)\<rparr>"
    using assms(1) by (auto simp: destroy_receipt_def with_receipt_def split: option.splits if_splits)
  have "gn_status g \<noteq> ''Posted''" if "g \<in> set (receipts s)" "gn_id g = i" for g
    using assms(2,3) that find_row_distinct [of gn_id "receipts s" g] by (auto simp: received_ok_def)
  then have "sum_list (map (counted k) (filter (\<lambda>r. gn_id r \<noteq> i) gs)) = sum_list (map (counted k) gs)"
    if "set gs \<subseteq> set (receipts s)" for k gs
    using that by (induction gs) (auto simp: counted_def)
  from this [OF subset_refl] have q: "posted_quantity k s' = posted_quantity k s" for k
    by (simp add: posted_quantity_counted s')
  have "all_lines s' = all_lines s" by (simp add: all_lines_def s')
  moreover have "\<forall>g \<in> set (receipts s'). \<forall>gl \<in> set (gn_lines g). gnl_order_line gl \<in> ol_id ` set (all_lines s)"
    using assms(3) unfolding received_ok_def s' by auto
  ultimately show ?thesis using assms(3) unfolding received_ok_def q by (simp add: s' distinct_map_filter)
qed

lemma create_receipt_lines_received:
  assumes "create_receipt_lines k gls s = (r, s')" and "received_ok s"
    and "\<And>g. find_row gn_id k (receipts s) = Some g \<Longrightarrow> gn_status g \<noteq> ''Posted''"
  shows "received_ok s'"
  using assms
proof (induction gls arbitrary: s)
  case (Cons gl gls)
  define f :: "receipt \<Rightarrow> receipt" where "f = (\<lambda>g. g\<lparr>gn_lines := gn_lines g @ [gl]\<rparr>)"
  define s1 where "s1 = s\<lparr>receipts := upd_row gn_id k f (receipts s)\<rparr>"
  show ?case
  proof (cases "line_fits gl s")
    case False
    then show ?thesis using Cons.prems by simp
  next
    case True
    then have run: "create_receipt_lines k gls s1 = (r, s')" using Cons.prems(1) by (simp add: s1_def f_def)
    obtain l where "find_row ol_id (gnl_order_line gl) (all_lines s) = Some l"
      using True by (auto simp: line_fits_def order_line_of_all split: option.splits)
    then have ref: "gnl_order_line gl \<in> ol_id ` set (all_lines s)" using find_row_SomeD by (metis image_eqI)
    have lines: "all_lines s1 = all_lines s" by (simp add: s1_def all_lines_def)
    have draft: "gn_status g \<noteq> ''Posted''" if "g \<in> set (receipts s)" "gn_id g = k" for g
      using Cons.prems(2,3) find_row_distinct [of gn_id "receipts s" g] that by (simp add: received_ok_def)
    have "counted j (if gn_id g = k then f g else g) = counted j g" if "g \<in> set (receipts s)" for j g
      using draft [OF that] by (simp add: counted_def f_def)
    then have q: "posted_quantity j s1 = posted_quantity j s" for j
      unfolding posted_quantity_counted s1_def by (simp add: upd_row_def comp_def cong: map_cong)
    have "received_ok s1"
      unfolding received_ok_def lines q
    proof (intro conjI)
      show "\<forall>g \<in> set (receipts s1). \<forall>gl \<in> set (gn_lines g). gnl_order_line gl \<in> ol_id ` set (all_lines s)"
        using Cons.prems(2) ref by (auto simp: s1_def f_def received_ok_def dest!: set_upd_row)
      show "distinct (map gn_id (receipts s1))" using Cons.prems(2) by (simp add: s1_def f_def map_upd_row received_ok_def)
    qed (use Cons.prems(2) in \<open>simp_all add: s1_def received_ok_def\<close>)
    moreover have "gn_status g \<noteq> ''Posted''" if "find_row gn_id k (receipts s1) = Some g" for g
      using that Cons.prems(3) by (auto simp: s1_def f_def find_row_upd_row)
    ultimately show ?thesis using Cons.IH [OF run] by blast
  qed
qed simp

lemma create_receipt_received:
  assumes "create_receipt g s = (r, s')" and "received_ok s"
  shows "received_ok s'"
proof (cases "s' = s")
  case False
  then obtain k s1 r2 where i: "insert_receipt (g\<lparr>gn_number := [], gn_status := ''Draft'', gn_warehouse := None\<rparr>) s = Inr (k, s1)"
    and c: "create_receipt_lines k (gn_lines g) s1 = (r2, s')"
    using assms(1) by (auto simp: create_receipt_def split: option.splits if_splits sum.splits prod.splits)
  obtain g1 ws where s1: "s1 = s\<lparr>warehouses := ws, receipts := receipts s @ [g1]\<rparr>" and g1: "gn_lines g1 = []"
    "gn_id g1 = fresh_pk gn_id (receipts s)" "k = gn_id g1"
    "gn_status g1 = gn_status (g\<lparr>gn_number := [], gn_status := ''Draft'', gn_warehouse := None\<rparr>)"
    using i by (rule insert_receiptE)
  have draft: "gn_status g1 = ''Draft''" using g1(4) by simp
  have k: "gn_id g1 \<notin> gn_id ` set (receipts s)" unfolding g1(2) by (rule fresh_pk_notin)
  have lines: "all_lines s1 = all_lines s" by (simp add: s1 all_lines_def)
  have q: "posted_quantity j s1 = posted_quantity j s" for j by (simp add: posted_quantity_counted s1 counted_def draft)
  have "received_ok s1" using assms(2) k unfolding received_ok_def lines q by (simp add: s1 g1(1))
  moreover have "find_row gn_id k (receipts s) = None" using k by (simp only: g1(3) find_row_None_iff not_False_eq_True)
  then have "find_row gn_id k (receipts s1) = Some g1" by (simp add: s1 g1(3) find_row_append)
  ultimately show ?thesis using create_receipt_lines_received [OF c] draft by simp
qed (use assms(2) in simp)

lemma receipt_actions_received:
  assumes "received_ok s"
  shows "post_grn b i s = Inr s' \<Longrightarrow> received_ok s'" "cancel_grn i s = Inr s' \<Longrightarrow> received_ok s'"
  unfolding post_grn_def cancel_grn_def
  by (erule with_receipt_received [rotated], auto split: if_splits option.splits intro: save_receipt_received assms)+

lemma bulk_cancel_received: "received_ok s \<Longrightarrow> received_ok (snd (bulk_cancel is s))"
proof -
  assume ok: "received_ok s"
  from ok have "received_ok (snd (bulk_cancel_receipts js s))" for js
  proof (induction js arbitrary: s)
    case (Cons i js)
    obtain o1 s1 where 1: "(case find_row gn_id i (receipts s) of
                        None \<Rightarrow> (Failed i DoesNotExist, s)
                      | Some g \<Rightarrow> if gn_status g = ''Cancelled'' then (Skipped i, s)
                          else (case save_receipt (g\<lparr>gn_status := ''Cancelled''\<rparr>) s of
                                  Inl e \<Rightarrow> (Failed i e, s) | Inr s' \<Rightarrow> (Done i, s'))) = (o1, s1)"
      by fastforce
    then have "received_ok s1" using Cons.prems by (auto split: if_splits option.splits sum.splits intro: save_receipt_received)
    moreover have "snd (bulk_cancel_receipts (i # js) s) = snd (bulk_cancel_receipts js s1)"
      unfolding bulk_cancel_receipts.simps 1 by (simp add: Let_def split_beta)
    ultimately show ?case using Cons.IH [of s1] by simp
  qed simp
  with ok show ?thesis by (simp add: bulk_cancel_def Let_def split_beta)
qed

lemma recalc_identity:
  assumes "received_ok s"
  shows "recalc_quantity_received_for_po i s = s"
proof -
  have "l\<lparr>ol_received := posted_quantity (ol_id l) s\<rparr> = l" if "p \<in> set (orders s)" "l \<in> set (po_lines p)" for p l
    using assms that by (simp add: received_ok_def all_lines_def)
  then have "map (\<lambda>l. l\<lparr>ol_received := posted_quantity (ol_id l) s\<rparr>) (po_lines p) = po_lines p" if "p \<in> set (orders s)" for p
    using that by (intro map_idI) blast
  then have "upd_row po_id i (\<lambda>p. p\<lparr>po_lines := map (\<lambda>l. l\<lparr>ol_received := posted_quantity (ol_id l) s\<rparr>) (po_lines p)\<rparr>) (orders s) = orders s"
    unfolding upd_row_def by (intro map_idI) simp
  then show ?thesis by (simp add: recalc_quantity_received_for_po_def)
qed

lemma set_doc_status_received: "set_doc_status k i t s = Inr s' \<Longrightarrow> received_ok s \<Longrightarrow> received_ok s'"
  by (cases k) (auto simp: set_order_status_def set_receipt_status_def set_request_status_def split: option.splits
      elim!: with_order_received [rotated] with_receipt_received [rotated]
      intro: save_order_received save_receipt_received orders_tables_received dest!: save_request_tables)

lemma save_approval_received: "save_approval v s = Inr s' \<Longrightarrow> received_ok s \<Longrightarrow> received_ok s'"
  by (auto simp: save_approval_def sync_document_status_on_approval_def split: if_splits option.splits
      intro: orders_tables_received dest!: set_doc_status_received elim!: meta_mp)

lemma trigger_received: "trigger_document_action b v s = Inr s' \<Longrightarrow> received_ok s \<Longrightarrow> received_ok s'"
  by (auto simp: trigger_document_action_def split: option.splits intro: set_doc_status_received)

lemma log_action_received: "received_ok s \<Longrightarrow> received_ok (log_action v n a u s)"
  by (rule orders_tables_received) (simp_all add: log_action_def)

lemma approval_actions_received:
  assumes "received_ok s"
  shows "approve_approval u i s = Inr s' \<Longrightarrow> received_ok s'" "reject_approval u i s = Inr s' \<Longrightarrow> received_ok s'"
    "cancel_approval b u i s = Inr s' \<Longrightarrow> received_ok s'" "submit_approval u i s = Inr s' \<Longrightarrow> received_ok s'"
  unfolding approve_approval_def reject_approval_def cancel_approval_def submit_approval_def with_approval_def
  by (auto simp: Let_def rbind_eq_Inr split: option.splits if_splits
      intro!: log_action_received intro: save_approval_received [OF _ assms] trigger_received [OF _ save_approval_received [OF _ assms]])

lemma submit_for_approval_received: "submit_for_approval k i u s = (r, s') \<Longrightarrow> received_ok s \<Longrightarrow> received_ok s'"
proof -
  assume r: "submit_for_approval k i u s = (r, s')" and ok: "received_ok s"
  obtain x s1 where 1: "auto_route_approval k i (doc_amount k i s) u s = (x, s1)" by fastforce
  have "orders s1 = orders s \<and> receipts s1 = receipts s"
    using 1 by (auto simp: auto_route_approval_def log_action_def Let_def split: option.splits if_splits)
  then have "received_ok s1" using ok orders_tables_received by blast
  moreover have "s' = s \<or> s' = s1 \<or> set_doc_status k i (routed_status x k) s1 = Inr s'"
    using r by (auto simp: submit_for_approval_def 1 split: option.splits if_splits sum.splits)
  ultimately show ?thesis using set_doc_status_received ok by blast
qed

lemma submit_new_received: "submit_new k i x u s = Inr (r, s') \<Longrightarrow> received_ok s \<Longrightarrow> received_ok s'"
  using orders_tables_received [of s' s] by (auto simp: submit_new_def Let_def log_action_def split: if_splits)

lemma invoice_closed_tables: "mark_commitment_closed_for_po i s = Inr (n, s') \<Longrightarrow> orders s' = orders s \<and> receipts s' = (receipts (s :: 'z purchasing_state_scheme))"
  by (auto simp: mark_commitment_closed_for_po_def move_link_def Let_def split_beta rbind_eq_Inr dest!: refresh_many_frame)

lemma received_step:
  assumes "procurement_step True s s'" and "received_ok s"
  shows "received_ok s'"
  using assms(1)
proof (cases rule: procurement_step.cases)
  case step_bulk_approve
  then show ?thesis using bulk_approve_tables orders_tables_received assms(2) by (metis snd_conv)
next
  case step_bulk_cancel
  then show ?thesis using bulk_cancel_received assms(2) by (metis snd_conv)
next
  case step_recalc
  then show ?thesis using recalc_identity assms(2) by metis
next
  case (step_post_receipt i)
  then show ?thesis unfolding post_receipt_def by (rule receipt_actions_received(1) [OF assms(2)])
next
  case step_bulk_delete
  then show ?thesis using bulk_delete_lines received_ok_same assms(2) by blast
next
  case step_destroy_request
  then show ?thesis using destroy_request_lines received_ok_same assms(2) by blast
next
  case step_destroy_order
  then show ?thesis using destroy_order_received assms(2) by blast
next
  case step_destroy_receipt
  then show ?thesis using destroy_receipt_received assms(2) by blast
next
  case step_approve_request
  then show ?thesis using request_actions_tables(1) orders_tables_received assms(2) by blast
next
  case step_reject_request
  then show ?thesis using request_actions_tables(2) orders_tables_received assms(2) by blast
next
  case step_patch_request
  then show ?thesis using request_actions_tables(3) orders_tables_received assms(2) by blast
next
  case step_create_request
  then show ?thesis using request_actions_tables(4) orders_tables_received assms(2) by blast
next
  case step_invoice_closed
  then show ?thesis using invoice_closed_tables orders_tables_received assms(2) by blast
next
  case step_elsewhere
  then show ?thesis using orders_tables_received assms(2) by blast
next
  case step_create_order
  then show ?thesis using create_order_received assms(2) by blast
qed (use assms(2) in \<open>blast intro: convert_received create_receipt_received submit_for_approval_received submit_new_received
      order_actions_received receipt_actions_received approval_actions_received\<close>)+


section \<open>What a posted receipt says\<close>

lemma post_receiptE:
  assumes "post_receipt i s = Inr s'"
  obtains g g1 ws where "find_row gn_id i (receipts s) = Some g" "gn_status g \<noteq> ''Posted''" "gn_id g1 = i" "gn_status g1 = ''Posted''"
    "gn_lines g1 = gn_lines g" "gn_order g1 = gn_order g" "process_receipt g1 (s\<lparr>warehouses := ws\<rparr>) = Inr s'"
proof -
  obtain g where g: "find_row gn_id i (receipts s) = Some g" "gn_status g \<noteq> ''Posted''"
    and r: "save_receipt (g\<lparr>gn_status := ''Posted''\<rparr>) s = Inr s'"
    using assms by (auto simp: post_receipt_def post_grn_def with_receipt_def split: option.splits if_splits)
  have id: "gn_id g = i" using find_row_SomeD [OF g(1)] by simp
  obtain old g1 ws where "find_row gn_id (gn_id (g\<lparr>gn_status := ''Posted''\<rparr>)) (receipts s) = Some old"
    "gn_id g1 = gn_id (g\<lparr>gn_status := ''Posted''\<rparr>)" "gn_status g1 = gn_status (g\<lparr>gn_status := ''Posted''\<rparr>)"
    "gn_lines g1 = gn_lines old" "gn_order g1 = gn_order (g\<lparr>gn_status := ''Posted''\<rparr>)"
    "(gn_status old \<noteq> ''Posted'' \<and> gn_status (g\<lparr>gn_status := ''Posted''\<rparr>) = ''Posted'' \<and> process_receipt g1 (s\<lparr>warehouses := ws\<rparr>) = Inr s')
     \<or> ((gn_status old = ''Posted'' \<or> gn_status (g\<lparr>gn_status := ''Posted''\<rparr>) \<noteq> ''Posted'')
        \<and> s' = s\<lparr>warehouses := ws, receipts := put_row gn_id g1 (receipts s)\<rparr>)"
    using r by (rule save_receiptE)
  then show ?thesis using that [of g g1 ws] g id by simp
qed

lemma order_line_of_step:
  assumes "receive_line g w gl s = Inr s'" and "distinct (map po_id (orders s))" and "distinct (map ol_id (all_lines s))"
    and "order_line_of k s' = Some l'"
  shows "\<exists>l. order_line_of k s = Some l \<and> ol_item l = ol_item l'"
proof -
  have "find_row ol_id k (add_received gl (all_lines s)) = Some l'"
    using receive_line_lines(1) [OF assms(1-3)] assms(4) by (simp add: order_line_of_all)
  then show ?thesis
    by (auto simp: order_line_of_all add_received_def find_row_upd_row split: if_splits)
qed

lemma received_lines_no_stock:
  assumes "rfold (receive_line g w) gls s = Inr s'" and "distinct (map po_id (orders s))" and "distinct (map ol_id (all_lines s))"
  shows "\<forall>gl \<in> set gls. \<exists>l. order_line_of (gnl_order_line gl) s = Some l \<and> (ol_item l = None \<or> gnl_quantity gl \<le> 0)"
  using assms
proof (induction gls arbitrary: s)
  case (Cons gl gls)
  obtain s1 where 1: "receive_line g w gl s = Inr s1" "rfold (receive_line g w) gls s1 = Inr s'"
    using Cons.prems(1) by (auto simp: rbind_eq_Inr)
  note l = receive_line_lines [OF 1(1) Cons.prems(2,3)]
  have "distinct (map po_id (orders s1))" "distinct (map ol_id (all_lines s1))" using Cons.prems(2,3) by (simp_all add: l)
  note rest = Cons.IH [OF 1(2) this]
  obtain l' where "order_line_of (gnl_order_line gl) s1 = Some l'" "ol_item l' = None \<or> gnl_quantity gl \<le> 0"
    using 1(1) by (rule receive_line_step) blast
  then have "\<exists>l. order_line_of (gnl_order_line gl) s = Some l \<and> (ol_item l = None \<or> gnl_quantity gl \<le> 0)"
    using order_line_of_step [OF 1(1) Cons.prems(2,3)] by metis
  moreover have "\<exists>l. order_line_of (gnl_order_line x) s = Some l \<and> (ol_item l = None \<or> gnl_quantity x \<le> 0)" if "x \<in> set gls" for x
    using rest that order_line_of_step [OF 1(1) Cons.prems(2,3)] by metis
  ultimately show ?case by simp
qed simp

lemma posting_orders:
  \<comment> \<open>the order as the receipt leaves it, and whether it was closed\<close>
  assumes "process_receipt g s = Inr s'" and "find_row po_id (gn_order g) (orders s') = Some p" and "fully_received p"
  shows "po_status p = ''Closed''"
proof -
  obtain w s2 s3 q s4 n s5 j where r: "rfold (receive_line g w) (gn_lines g) (s\<lparr>receipts := put_row gn_id g (receipts s)\<rparr>) = Inr s2"
    "close_if_received (gn_order g) s2 = Inr s3" "draft_receipt_invoice g q (vendor_statistics g q s3) = Inr s4"
    "mark_commitment_invoiced_for_po (po_id q) s4 = Inr (n, s5)" "post_goods_received_note g s5 = Inr (j, s')"
    using assms(1) by (rule process_receiptE)
  have "orders s4 = orders s3"
    using vendor_statistics_same [of g q s3] draft_receipt_invoice_same [OF r(3)] by auto
  moreover have "orders s5 = orders s4"
    using move_and_refreshD [OF r(4) [unfolded mark_commitment_invoiced_for_po_def]] by (auto simp: move_link_def)
  moreover have "orders s' = orders s5" using post_receipt_books [OF r(5)] by (auto simp: books_write_def)
  ultimately have p: "find_row po_id (gn_order g) (orders s3) = Some p" using assms(2) by simp
  show ?thesis using r(2)
  proof (cases rule: close_if_received_cases)
    case (open_order x)
    then show ?thesis using p assms(3) by simp
  next
    case (closed x)
    obtain old p1 s0 where o: "find_row po_id (po_id (x\<lparr>po_status := ''Closed''\<rparr>)) (orders s2) = Some old"
      "p1 = calculate_tax ((x\<lparr>po_status := ''Closed''\<rparr>)\<lparr>po_number := (if po_number (x\<lparr>po_status := ''Closed''\<rparr>) = [] then generate_po_number s2
          else po_number (x\<lparr>po_status := ''Closed''\<rparr>)), po_lines := po_lines old\<rparr>)"
      "s3 = s0\<lparr>orders := put_row po_id p1 (orders s2)\<rparr>"
      using closed(3) by (rule save_orderE)
    have p1: "po_id p1 = gn_order g" "po_status p1 = ''Closed''"
      using find_row_SomeD [OF closed(1)] unfolding o(2) calculate_tax_def by simp_all
    have "gn_order g \<in> po_id ` set (orders s2)" using find_row_SomeD [OF closed(1)] by force
    then have "find_row po_id (gn_order g) (orders s3) = Some p1" by (simp add: o(3) p1(1))
    then show ?thesis using p p1(2) by simp
  qed
qed

end
