(* ===== verification/ProcurementProperties.thy ===== *)
theory ProcurementProperties
  imports Received
begin

text \<open>
  The properties of procurement, and a worked order: created, submitted to one group, approved by a member, received in
  full, and closed.
\<close>

section \<open>A worked order\<close>

definition demo_bureau :: workflow_state where
  "demo_bureau = budget_state.extend
     (demo_ledger\<lparr>accounts := [demo_account 1 ''22010100'' AT_Expense,
          (demo_account 2 ''41020101'' AT_Liability)\<lparr>ac_name := ''GR/IR clearing''\<rparr>],
        admin_segments := admin_segments demo_state, fund_segments := fund_segments demo_state,
        legacy_mdas := legacy_mdas demo_state, legacy_funds := legacy_funds demo_state,
        fiscal_years := fiscal_years demo_state, appropriations := appropriations demo_state,
        check_rules := check_rules demo_state\<rparr>)
     \<lparr>auto_create = [], account_category = [], asset_categories = [], fixed_assets = [], schedules = [],
      legacy_budgets = [], encumbrances = [],
      suppliers = [\<lparr>su_id = 1, su_active = True, su_expiry = None, su_orders = 0, su_on_time = 0\<rparr>],
      items = [], requests = [], orders = [], receipts = [], matchings = [], warehouses = [],
      approval_settings = [], approval_groups = [\<lparr>gp_id = 1, gp_members = [5], gp_min = None, gp_max = None\<rparr>],
      approval_templates = [\<lparr>tp_id = 1, tp_kind = K_Order, tp_active = True, tp_steps = [(1, 1)]\<rparr>],
      approvals = [], delegations = [], approval_logs = []\<rparr>"

definition demo_order_form :: purchase_order where
  "demo_order_form = \<lparr>po_id = 0, po_number = [], po_vendor = 1, po_request = None, po_date = Date 2026 3 2, po_delivery = None,
     po_tax_rate = 5, po_tax = 0, po_mda = Some 1, po_fund = 1, po_function = 1, po_program = 1, po_geo = 1,
     po_status = ''Draft'',
     po_lines = [\<lparr>ol_id = 0, ol_quantity = 10, ol_received = 0, ol_price = 20, ol_account = 1, ol_item = None, ol_asset = None\<rparr>]\<rparr>"

definition demo_delivery :: receipt where
  "demo_delivery = \<lparr>gn_id = 0, gn_number = [], gn_order = 1, gn_date = Date 2026 3 9, gn_mda = Some 1, gn_warehouse = None,
     gn_status = ''Draft'', gn_lines = [\<lparr>gnl_order_line = 1, gnl_quantity = 10, gnl_batch = []\<rparr>]\<rparr>"

definition demo_stored :: "string \<Rightarrow> rat \<Rightarrow> purchase_order" where
  "demo_stored t received = demo_order_form\<lparr>po_id := 1, po_number := ''PO-2026-00001'', po_tax := 10, po_status := t,
     po_lines := [\<lparr>ol_id = 1, ol_quantity = 10, ol_received = received, ol_price = 20, ol_account = 1, ol_item = None, ol_asset = None\<rparr>]\<rparr>"

definition demo_approval :: "string \<Rightarrow> nat option \<Rightarrow> approval" where
  "demo_approval t signer = \<lparr>av_id = 1, av_kind = K_Order, av_object = 1, av_amount = Some 210, av_status = t,
     av_current = 1, av_total = 1, av_requester = 9, av_template = Some 1,
     av_steps = [\<lparr>stp_number = 1, stp_group = Some 1, stp_approver = signer, stp_status = t\<rparr>]\<rparr>"

definition demo_ordered :: workflow_state where
  "demo_ordered = demo_bureau\<lparr>orders := [demo_stored ''Draft'' 0]\<rparr>"

definition demo_order_submitted :: workflow_state where
  "demo_order_submitted = demo_ordered\<lparr>orders := [demo_stored ''Pending'' 0], approvals := [demo_approval ''Pending'' None],
     approval_logs := [\<lparr>lg_approval = 1, lg_step = None, lg_action = ''Submit'', lg_user = 9\<rparr>]\<rparr>"

definition demo_order_approved :: workflow_state where
  "demo_order_approved = demo_order_submitted\<lparr>orders := [demo_stored ''Approved'' 0],
     commitments := [\<lparr>cm_po = 1, cm_appropriation = 1, cm_amount = 210, cm_status = ''ACTIVE''\<rparr>],
     appropriations := [(appropriations demo_state ! 0)\<lparr>ap_cached_committed := Some 210, ap_cached_expended := Some 0\<rparr>,
       appropriations demo_state ! 1],
     approvals := [demo_approval ''Approved'' (Some 5)],
     approval_logs := approval_logs demo_order_submitted @ [\<lparr>lg_approval = 1, lg_step = Some 1, lg_action = ''Approve'', lg_user = 5\<rparr>]\<rparr>"

definition demo_delivered :: workflow_state where
  "demo_delivered = demo_order_approved\<lparr>receipts := [demo_delivery\<lparr>gn_id := 1, gn_number := ''GRN-2026-00001'', gn_warehouse := Some 1\<rparr>],
     warehouses := [(1, ''0111 - Stores'')]\<rparr>"

definition demo_received :: workflow_state where
  "demo_received = projr (post_receipt 1 demo_delivered)"

lemma demo_order_runs:
  "create_order demo_order_form demo_bureau = (Inr 1, demo_ordered)"
  "submit_for_approval K_Order 1 9 demo_ordered = (Inr (Routed 1), demo_order_submitted)"
  "approve_approval 5 1 demo_order_submitted = Inr demo_order_approved"
  "create_receipt demo_delivery demo_order_approved = (Inr 1, demo_delivered)"
  by code_simp+

lemma demo_posting:
  "(case post_receipt 1 demo_delivered of
      Inl _ \<Rightarrow> None
    | Inr s \<Rightarrow> Some (doc_status K_Order 1 s, doc_status K_Receipt 1 s, map (\<lambda>c. (cm_po c, cm_status c)) (commitments s),
             map_option fully_received (find_row po_id 1 (orders s))))
   = Some (Some ''Closed'', Some ''Posted'', [(1, ''CANCELLED'')], Some True)"
  by code_simp

lemma demo_posted_order:
  "post_receipt 1 demo_delivered = Inr demo_received" "doc_status K_Order 1 demo_received = Some ''Closed''"
  "doc_status K_Receipt 1 demo_received = Some ''Posted''"
  "map (\<lambda>c. (cm_po c, cm_status c)) (commitments demo_received) = [(1, ''CANCELLED'')]"
  "map_option fully_received (find_row po_id 1 (orders demo_received)) = Some True"
  using demo_posting unfolding demo_received_def by (simp_all del: doc_status.simps split: sum.splits)

lemma demo_steps:
  "procurement_step True demo_bureau demo_ordered" "procurement_step True demo_ordered demo_order_submitted"
  "procurement_step True demo_order_submitted demo_order_approved" "procurement_step True demo_order_approved demo_delivered"
  "procurement_step True demo_delivered demo_received"
proof -
  show "procurement_step True demo_bureau demo_ordered"
    by (rule step_create_order [OF demo_order_runs(1)]) (simp add: demo_order_form_def)
  show "procurement_step True demo_ordered demo_order_submitted" by (rule step_submit [OF demo_order_runs(2)])
  show "procurement_step True demo_order_submitted demo_order_approved" by (rule step_approve [OF demo_order_runs(3)])
  show "procurement_step True demo_order_approved demo_delivered" by (rule step_create_receipt [OF demo_order_runs(4)])
  show "procurement_step True demo_delivered demo_received" by (rule step_post_receipt [OF demo_posted_order(1)])
qed

lemma demo_order_run:
  "(procurement_step True)\<^sup>*\<^sup>* demo_bureau demo_order_approved" "(procurement_step True)\<^sup>*\<^sup>* demo_order_approved demo_received"
proof -
  note rtrancl = rtranclp.rtrancl_into_rtrancl
  show "(procurement_step True)\<^sup>*\<^sup>* demo_bureau demo_order_approved"
    by (rule rtrancl [OF rtrancl [OF rtrancl [OF rtranclp.rtrancl_refl]]]) (rule demo_steps)+
  show "(procurement_step True)\<^sup>*\<^sup>* demo_order_approved demo_received"
    by (rule rtrancl [OF rtrancl [OF rtranclp.rtrancl_refl]]) (rule demo_steps)+
qed

lemma irregular_run: "(procurement_step True)\<^sup>*\<^sup>* s s' \<Longrightarrow> (procurement_step False)\<^sup>*\<^sup>* s s'"
  by (induction rule: rtranclp_induct) (auto dest: step_irregular intro: rtranclp.rtrancl_into_rtrancl)

section \<open>Documents and commitments\<close>

text \<open>
  C10: Final documents stay as they are.  In whatever order the actions run, as long as the document itself is not
  deleted, a closed order stays closed, a posted order is only ever closed, a posted or cancelled receipt keeps its
  status, and an approved requisition is not reopened; and no action deletes a posted order.
\<close>
theorem final_documents_stay:
  assumes "(\<lambda>t u. procurement_step False t u \<and> doc_status k i u \<noteq> None)\<^sup>*\<^sup>* s s'"
  shows "(k = K_Order \<and> doc_status k i s = Some ''Closed'' \<longrightarrow> doc_status k i s' = Some ''Closed'')
     \<and> (k = K_Order \<and> doc_status k i s = Some ''Posted'' \<longrightarrow> doc_status k i s' \<in> {Some ''Posted'', Some ''Closed''})
     \<and> (k = K_Receipt \<and> doc_status k i s \<in> {Some ''Posted'', Some ''Cancelled''} \<longrightarrow> doc_status k i s' = doc_status k i s)
     \<and> (k = K_Request \<and> doc_status k i s = Some ''Approved'' \<longrightarrow> doc_status k i s' = Some ''Approved'')
     \<and> (procurement_step False s' t \<and> doc_status K_Order m s' = Some ''Posted'' \<longrightarrow> doc_status K_Order m t \<noteq> None)"
proof (intro conjI impI; (elim conjE)?)
  show "doc_status k i s' = Some ''Closed''" if "k = K_Order" "doc_status k i s = Some ''Closed''"
    using order_machine.terminal_while_kept [of i s s'] assms that by (simp add: ORDER_TRANSITIONS_def del: doc_status.simps)
  show "doc_status k i s' \<in> {Some ''Posted'', Some ''Closed''}" if "k = K_Order" "doc_status k i s = Some ''Posted''"
  proof -
    have "y \<in> {''Posted'', ''Closed''}" if "x \<in> {''Posted'', ''Closed''}" "may_become ORDER_TRANSITIONS x y" for x y
      using that by auto
    then have "\<exists>b \<in> {''Posted'', ''Closed''}. doc_status K_Order i s' = Some b"
      using order_machine.confined_while_kept [of i s s' "''Posted''" "{''Posted'', ''Closed''}"] assms that
      by (simp del: doc_status.simps)
    then show ?thesis using that by (auto simp del: doc_status.simps)
  qed
  show "doc_status k i s' = doc_status k i s" if "k = K_Receipt" "doc_status k i s \<in> {Some ''Posted'', Some ''Cancelled''}"
    using receipt_machine.terminal_while_kept [of i s s'] assms that by (auto simp: RECEIPT_TRANSITIONS_def simp del: doc_status.simps)
  show "doc_status k i s' = Some ''Approved''" if "k = K_Request" "doc_status k i s = Some ''Approved''"
    using request_machine.terminal_while_kept [of i s s'] assms that by (simp add: REQUEST_TRANSITIONS_def del: doc_status.simps)
  show "doc_status K_Order m t \<noteq> None" if "procurement_step False s' t" "doc_status K_Order m s' = Some ''Posted''"
    using step_status [OF that] by (auto simp del: doc_status.simps)
qed

theorem final_documents_stay_witness:
  "doc_status K_Order 1 demo_received = Some ''Closed''
     \<and> doc_status K_Order 1 (snd (bulk_cancel [1] demo_received)) = Some ''Closed''
     \<and> doc_status K_Receipt 1 (snd (bulk_cancel [1] demo_received)) = Some ''Posted''"
proof -
  let ?t = "snd (bulk_cancel [1] demo_received)"
  have step: "procurement_step False demo_received ?t" by (rule step_bulk_cancel [OF prod.collapse [symmetric]])
  have "doc_status K_Order 1 ?t \<noteq> None" "doc_status K_Receipt 1 ?t \<noteq> None"
    using quiet_lawful [OF bulk_cancel_quiet] demo_posted_order(2,3)
    by (force simp: lawful_def drifts_def simp del: doc_status.simps)+
  with step have "(\<lambda>t u. procurement_step False t u \<and> doc_status K_Order 1 u \<noteq> None)\<^sup>*\<^sup>* demo_received ?t"
    "(\<lambda>t u. procurement_step False t u \<and> doc_status K_Receipt 1 u \<noteq> None)\<^sup>*\<^sup>* demo_received ?t"
    by (intro r_into_rtranclp; simp del: doc_status.simps)+
  note stay = this [THEN final_documents_stay]
  have "doc_status K_Order 1 ?t = Some ''Closed''" using stay(1) demo_posted_order(2) by blast
  moreover have "doc_status K_Receipt 1 ?t = Some ''Posted''" using stay(2) demo_posted_order(3) by (simp only: insert_iff) blast
  ultimately show ?thesis using demo_posted_order(2) by blast
qed

text \<open>
  Deleting a posted receipt is not refused unless an invoice was matched to it.  The journal and the received
  quantities stay, and the sum over posted receipts no longer contains it.
\<close>
theorem deleted_receipt_stays_received:
  assumes "find_row gn_id i (receipts s) = Some g" and "distinct (map gn_id (receipts s))"
    and "\<forall>m \<in> set (matchings s). im_receipt m \<noteq> Some i"
  shows "\<exists>s'. destroy_receipt i s = Inr s' \<and> orders s' = orders s \<and> journals s' = journals s
     \<and> (\<forall>k. posted_quantity k s' = posted_quantity k s - counted k g)"
proof -
  let ?s' = "s\<lparr>receipts := filter (\<lambda>r. gn_id r \<noteq> i) (receipts s)\<rparr>"
  have "destroy_receipt i s = Inr ?s'" using assms(1,3) by (simp add: destroy_receipt_def with_receipt_def list_ex_iff)
  moreover have "sum_list (map (counted k) (filter (\<lambda>r. gn_id r \<noteq> i) gs)) = sum_list (map (counted k) gs) - counted k g"
    if "find_row gn_id i gs = Some g" "distinct (map gn_id gs)" for k gs
    using that
  proof (induction gs)
    case (Cons r gs)
    show ?case
    proof (cases "gn_id r = i")
      case True
      then have "\<forall>x \<in> set gs. gn_id x \<noteq> i" using Cons.prems(2) by (metis distinct.simps(2) image_eqI list.simps(9) set_map)
      then have "filter (\<lambda>r. gn_id r \<noteq> i) gs = gs" by (simp add: filter_id_conv)
      then show ?thesis using Cons.prems(1) True by simp
    qed (use Cons in auto)
  qed simp
  then have "posted_quantity k ?s' = posted_quantity k s - counted k g" for k
    using assms(1,2) by (simp add: posted_quantity_counted)
  ultimately show ?thesis by (intro exI [of _ ?s']) simp
qed

theorem deleted_receipt_stays_received_witness:
  "\<exists>s'. destroy_receipt 1 (demo_delivered\<lparr>receipts := [demo_delivery\<lparr>gn_id := 1, gn_status := ''Posted''\<rparr>]\<rparr>) = Inr s'
     \<and> posted_quantity 1 s' = posted_quantity 1 (demo_delivered\<lparr>receipts := [demo_delivery\<lparr>gn_id := 1, gn_status := ''Posted''\<rparr>]\<rparr>) - 10"
proof -
  let ?g = "demo_delivery\<lparr>gn_id := 1, gn_status := ''Posted''\<rparr>" and ?s = "demo_delivered\<lparr>receipts := [demo_delivery\<lparr>gn_id := 1, gn_status := ''Posted''\<rparr>]\<rparr>"
  have "find_row gn_id 1 (receipts ?s) = Some ?g" "distinct (map gn_id (receipts ?s))" "\<forall>m \<in> set (matchings ?s). im_receipt m \<noteq> Some 1"
    by (simp_all add: demo_delivered_def demo_order_approved_def demo_order_submitted_def demo_ordered_def demo_bureau_def budget_state.defs)
  moreover have "counted 1 ?g = 10" by (simp add: counted_def line_quantity_def sum_amounts_def demo_delivery_def)
  ultimately show ?thesis using deleted_receipt_stays_received [of 1 ?s ?g] by fastforce
qed

text \<open>
  C5: Only approved and posted orders hold budget.  If every active or invoiced commitment belongs to an approved or
  posted order, this stays so under every action, among them rejection, closing by a full receipt, and deletion.
\<close>
theorem open_commitments_backed:
  assumes "(procurement_step False)\<^sup>*\<^sup>* s s'" and "links_backed s"
  shows "\<forall>c \<in> set (commitments s'). cm_status c \<in> {''ACTIVE'', ''INVOICED''} \<longrightarrow>
           (\<exists>p \<in> set (orders s'). po_id p = cm_po c \<and> po_status p \<in> {''Approved'', ''Posted''})"
proof -
  have "links_backed s'" using assms
  proof (induction rule: rtranclp_induct)
    case (step s1 s2)
    from step_lawful [OF step(2)] show ?case
      using step(3) step(4) erased_links_backed by (auto simp: lawful_def)
  qed
  then show ?thesis by (fastforce simp: links_backed_def OPEN_LINK_def order_status_def dest: find_row_SomeD)
qed

theorem open_commitments_backed_witness:
  "\<exists>c \<in> set (commitments demo_order_approved). cm_status c = ''ACTIVE''
     \<and> (\<exists>p \<in> set (orders demo_order_approved). po_id p = cm_po c \<and> po_status p \<in> {''Approved'', ''Posted''})"
proof -
  have "links_backed demo_bureau" by (simp add: links_backed_def demo_bureau_def demo_ledger_def budget_state.defs ledger.defs)
  from open_commitments_backed [OF irregular_run [OF demo_order_run(1)] this] show ?thesis by (simp add: demo_order_approved_def)
qed


section \<open>Approvals\<close>

text \<open>
  C8: An approved approval carries all its signatures.  As long as nobody writes the status of an approval directly, an
  approval that reads Approved has every step approved by a recorded user, in whatever order submissions, approvals,
  rejections, cancellations and the actions on documents are interleaved.
\<close>
theorem approvals_fully_signed:
  assumes "(procurement_step True)\<^sup>*\<^sup>* s s'" and "\<forall>v \<in> set (approvals s). signatures_ok v"
    and "v \<in> set (approvals s')" and "av_status v = ''Approved''"
  shows "\<forall>p \<in> set (av_steps v). stp_status p = ''Approved'' \<and> stp_approver p \<noteq> None"
proof -
  have "\<forall>v \<in> set (approvals s'). signatures_ok v"
    using assms(1,2) by (induction rule: rtranclp_induct) (auto dest: signatures_steps)
  then have "signatures_ok v" using assms(3) by blast
  then show ?thesis using assms(4) by (auto simp: signatures_ok_def pending_steps_def filter_empty_conv)
qed

theorem approvals_fully_signed_witness:
  "\<exists>v \<in> set (approvals demo_order_approved). av_status v = ''Approved'' \<and> av_steps v \<noteq> []
     \<and> list_all (\<lambda>p. stp_status p = ''Approved'' \<and> stp_approver p \<noteq> None) (av_steps v)"
proof -
  let ?v = "demo_approval ''Approved'' (Some 5)"
  have v: "?v \<in> set (approvals demo_order_approved)" "av_status ?v = ''Approved''" "av_steps ?v \<noteq> []"
    by (simp_all add: demo_order_approved_def demo_approval_def)
  have "\<forall>v \<in> set (approvals demo_bureau). signatures_ok v"
    by (simp add: demo_bureau_def demo_ledger_def budget_state.defs ledger.defs)
  from approvals_fully_signed [OF demo_order_run(1) this v(1,2)] v show ?thesis unfolding list_all_iff by blast
qed

text \<open>
  A decision is final.  As long as nobody writes the status of an approval directly, an approved, rejected or
  cancelled approval keeps that status.
\<close>
theorem approval_decisions_final:
  assumes "(procurement_step True)\<^sup>*\<^sup>* s s'"
    and "approval_status i s \<in> {Some ''Approved'', Some ''Rejected'', Some ''Cancelled''}"
  shows "approval_status i s' = approval_status i s"
  using assms(2) approval_machine.terminal [OF assms(1), of i] by (auto simp: APPROVAL_MOVES_def)

theorem approval_decisions_final_witness:
  "approval_status 1 demo_order_approved = Some ''Approved'' \<and> approval_status 1 demo_received = Some ''Approved''"
proof -
  have "approval_status 1 demo_order_approved = Some ''Approved''"
    by (simp add: approval_status_def demo_order_approved_def demo_approval_def)
  with approval_decisions_final [OF demo_order_run(2), of 1] show ?thesis by simp
qed

text \<open>
  Approving takes authority over the current step.  A successful approval finds the approval pending and visible to the
  user; if the current step names a group, the user is a member of it or the active delegate of one; and while a step
  remains pending the approval stays pending.
\<close>
theorem approving_takes_authority:
  assumes "approve_approval u i s = Inr s'"
  shows "\<exists>v. find_row av_id i (approvals s) = Some v \<and> av_status v = ''Pending'' \<and> visible_to u v s
     \<and> (\<forall>p g. current_step v = Some p \<and> stp_group p = Some g \<longrightarrow> may_act_for g u s)
     \<and> approval_status i s' = Some (if pending_steps (sign_step u ''Approved'' v) = 0 then ''Approved'' else ''Pending'')"
proof -
  obtain v w where v: "find_row av_id i (approvals s) = Some v" "visible_to u v s" "av_status v = ''Pending''" "authorised u v s"
    and w: "w = (if pending_steps (sign_step u ''Approved'' v) = 0 then (sign_step u ''Approved'' v)\<lparr>av_status := ''Approved''\<rparr>
          else (sign_step u ''Approved'' v)\<lparr>av_current := Suc (av_current v)\<rparr>)"
      "approvals s' = put_row av_id w (approvals s)"
    using assms by (rule approve_approvalE)
  have id: "av_id w = i" using find_row_SomeD [OF v(1)] by (simp add: w(1))
  have "approval_status i s' = Some (av_status w)"
    using approval_status_put [of w s v s' i] v(1) w(2) id by simp
  then show ?thesis using v by (auto simp: w(1) authorised_def)
qed

theorem approving_takes_authority_witness:
  "may_act_for 1 5 demo_order_submitted \<and> approval_status 1 demo_order_approved = Some ''Approved''"
proof -
  have f: "find_row av_id 1 (approvals demo_order_submitted) = Some (demo_approval ''Pending'' None)"
    by (simp add: demo_order_submitted_def demo_approval_def)
  have "current_step (demo_approval ''Pending'' None) = Some (hd (av_steps (demo_approval ''Pending'' None)))"
    "stp_group (hd (av_steps (demo_approval ''Pending'' None))) = Some 1"
    "pending_steps (sign_step 5 ''Approved'' (demo_approval ''Pending'' None)) = 0" by code_simp+
  then show ?thesis using approving_takes_authority [OF demo_order_runs(3)] f by auto
qed

text \<open>
  C27: Without a template the requester approves alone.  A document routed when no template is active gets one step
  without a group: the requester may approve it, and no other user can find it.
\<close>
theorem unrouted_document_self_approved:
  assumes "submit_for_approval k i u s = (Inr (Routed v), s')" and "active_approval_templates k s = []"
  shows "\<exists>x. find_row av_id v (approvals s') = Some x \<and> av_kind x = k \<and> av_object x = i \<and> visible_to u x s' \<and> authorised u x s'
     \<and> (\<forall>w. w \<noteq> u \<longrightarrow> approve_approval w v s' = Inl DoesNotExist \<and> reject_approval w v s' = Inl DoesNotExist)"
proof -
  let ?x = "routed_approval k i (doc_amount k i s) u s"
  have 1: "v = fresh_pk av_id (approvals s)" "approvals s' = approvals s @ [?x]"
    using submit_writes(2) [OF assms(1)] by simp_all
  have x: "av_id ?x = v" "av_kind ?x = k" "av_object ?x = i" "av_requester ?x = u"
    "av_steps ?x = [\<lparr>stp_number = 1, stp_group = None, stp_approver = None, stp_status = ''Pending''\<rparr>]" "av_current ?x = 1"
    using assms(2) by (simp_all add: routed_approval_def Let_def 1(1) select_template_def new_steps_def)
  have "find_row av_id v (approvals s) = None" by (simp add: 1(1))
  then have f: "find_row av_id v (approvals s') = Some ?x" by (simp add: 1(2) find_row_append x(1))
  have "visible_to u ?x s'" "authorised u ?x s'" by (simp_all add: visible_to_def authorised_def current_step_def x)
  moreover have "\<not> visible_to w ?x s'" if "w \<noteq> u" for w using that by (simp add: visible_to_def x)
  ultimately show ?thesis using f x by (auto simp: approve_approval_def reject_approval_def with_approval_def)
qed

definition demo_unrouted :: workflow_state where
  "demo_unrouted = demo_ordered\<lparr>approval_templates := []\<rparr>"

theorem unrouted_document_self_approved_witness:
  "\<exists>s'. submit_for_approval K_Order 1 9 demo_unrouted = (Inr (Routed 1), s') \<and> approve_approval 5 1 s' = Inl DoesNotExist"
proof -
  have "fst (submit_for_approval K_Order 1 9 demo_unrouted) = Inr (Routed 1)" by code_simp
  then obtain s' where r: "submit_for_approval K_Order 1 9 demo_unrouted = (Inr (Routed 1), s')" by (metis prod.collapse)
  have "active_approval_templates K_Order demo_unrouted = []" by (simp add: demo_unrouted_def active_approval_templates_def)
  from unrouted_document_self_approved [OF r this] r show ?thesis by force
qed


section \<open>Receipts\<close>

text \<open>
  C9: The running quantity is the sum over posted receipts.  \<^verbatim>\<open>quantity_received\<close> is kept by increments; as long as orders
  are created with nothing received and approvals go through the engine, it equals in every reachable state what
  \<^verbatim>\<open>_recalc_quantity_received_for_po\<close> computes from the posted receipts, which therefore changes nothing.
\<close>
theorem received_quantity_is_posted_sum:
  assumes "(procurement_step True)\<^sup>*\<^sup>* s s'" and "received_ok s"
  shows "recalc_quantity_received_for_po i s' = s'
     \<and> (\<forall>p \<in> set (orders s'). \<forall>l \<in> set (po_lines p). ol_received l = posted_quantity (ol_id l) s')"
proof -
  have ok: "received_ok s'" using assms by (induction rule: rtranclp_induct) (auto dest: received_step)
  then show ?thesis by (simp add: recalc_identity) (simp add: received_ok_def all_lines_def)
qed

lemma demo_bureau_received: "received_ok demo_bureau"
  by (simp add: received_ok_def all_lines_def demo_bureau_def demo_ledger_def budget_state.defs ledger.defs)

theorem received_quantity_is_posted_sum_witness:
  "recalc_quantity_received_for_po 1 demo_received = demo_received
     \<and> list_all (\<lambda>l. ol_received l = posted_quantity (ol_id l) demo_received) (concat (map po_lines (orders demo_received)))"
  using received_quantity_is_posted_sum [OF rtranclp_trans [OF demo_order_run] demo_bureau_received] by (simp add: list_all_iff)

text \<open>
  The tables stay well formed.  Whatever the actions do, orders, order lines and receipts keep distinct keys, and every
  line of a receipt refers to a line of a stored order.
\<close>
theorem procurement_tables_well_formed:
  assumes "(procurement_step True)\<^sup>*\<^sup>* s s'" and "received_ok s"
  shows "distinct (map po_id (orders s')) \<and> distinct (map gn_id (receipts s'))
     \<and> distinct (map ol_id (concat (map po_lines (orders s'))))
     \<and> (\<forall>g \<in> set (receipts s'). \<forall>gl \<in> set (gn_lines g). \<exists>l. order_line_of (gnl_order_line gl) s' = Some l)"
proof -
  have ok: "received_ok s'" using assms by (induction rule: rtranclp_induct) (auto dest: received_step)
  have "\<exists>l. order_line_of k s' = Some l" if "k \<in> ol_id ` set (all_lines s')" for k
    using that find_row_None_iff [of ol_id k "all_lines s'"] by (auto simp: order_line_of_all)
  then show ?thesis using ok by (simp add: received_ok_def flip: all_lines_def)
qed

theorem procurement_tables_well_formed_witness:
  "distinct (map gn_id (receipts demo_received))
     \<and> list_all (\<lambda>gl. order_line_of (gnl_order_line gl) demo_received \<noteq> None) (concat (map gn_lines (receipts demo_received)))"
  using procurement_tables_well_formed [OF rtranclp_trans [OF demo_order_run] demo_bureau_received] by (fastforce simp: list_all_iff)

text \<open>
  C26: A full receipt ends the commitment.  If posting a receipt leaves its order fully received, the order is closed and
  no commitment of it is active or invoiced any more: the invoice of the supplier finds nothing to close.
\<close>
theorem full_receipt_releases_budget:
  assumes "post_receipt i s = Inr s'" and "links_backed s" and "find_row gn_id i (receipts s) = Some g"
    and "find_row po_id (gn_order g) (orders s') = Some p" and "fully_received p"
  shows "po_status p = ''Closed'' \<and> (\<forall>c \<in> set (commitments s'). cm_po c = gn_order g \<longrightarrow> cm_status c \<notin> {''ACTIVE'', ''INVOICED''})"
proof -
  obtain g0 g1 ws where g: "find_row gn_id i (receipts s) = Some g0" "gn_order g1 = gn_order g0"
    "process_receipt g1 (s\<lparr>warehouses := ws\<rparr>) = Inr s'"
    using assms(1) by (rule post_receiptE)
  have o: "gn_order g1 = gn_order g" using g(1,2) assms(3) by simp
  have closed: "po_status p = ''Closed''" by (rule posting_orders [OF g(3)]) (use assms(4,5) o in simp_all)
  have "lawful s s'" using receipt_actions_quiet(1) assms(1) unfolding post_receipt_def by (blast intro: quiet_lawful)
  then have b: "links_backed s'" using assms(2) by (simp add: lawful_def)
  have "order_status (gn_order g) s' = Some ''Closed''" using assms(4) closed by (simp add: order_status_def)
  then show ?thesis using closed b by (fastforce simp: links_backed_def OPEN_LINK_def)
qed

theorem full_receipt_releases_budget_witness:
  "\<exists>p. find_row po_id 1 (orders demo_received) = Some p \<and> fully_received p \<and> po_status p = ''Closed''"
proof -
  obtain p where p: "find_row po_id 1 (orders demo_received) = Some p" "fully_received p" using demo_posted_order(5) by auto
  have g: "find_row gn_id 1 (receipts demo_delivered) = Some (hd (receipts demo_delivered))" "gn_order (hd (receipts demo_delivered)) = 1"
    by (simp_all add: demo_delivered_def demo_delivery_def)
  have "links_backed demo_delivered"
    by (simp add: links_backed_def demo_delivered_def demo_order_approved_def demo_stored_def demo_order_form_def order_status_def)
  from full_receipt_releases_budget [OF demo_posted_order(1) this g(1)] p g(2) show ?thesis by simp
qed

text \<open>
  Inventory cannot be received.  A receipt with a positive quantity of an order line that names an inventory item
  cannot be posted: the stock movement fails its own validation.
\<close>
theorem item_receipt_never_posts:
  assumes "distinct (map po_id (orders s))" and "distinct (map ol_id (concat (map po_lines (orders s))))"
    and "find_row gn_id i (receipts s) = Some g" and "gl \<in> set (gn_lines g)" and "0 < gnl_quantity gl"
    and "order_line_of (gnl_order_line gl) s = Some l" and "ol_item l \<noteq> None"
  shows "\<exists>e. post_receipt i s = Inl e"
proof (cases "post_receipt i s")
  case (Inr s')
  obtain g0 g1 ws where g: "find_row gn_id i (receipts s) = Some g0" "gn_lines g1 = gn_lines g0"
    "process_receipt g1 (s\<lparr>warehouses := ws\<rparr>) = Inr s'"
    using Inr by (rule post_receiptE)
  define t where "t = s\<lparr>warehouses := ws, receipts := put_row gn_id g1 (receipts s)\<rparr>"
  obtain w s2 where "rfold (receive_line g1 w) (gn_lines g1)
      ((s\<lparr>warehouses := ws\<rparr>)\<lparr>receipts := put_row gn_id g1 (receipts (s\<lparr>warehouses := ws\<rparr>))\<rparr>) = Inr s2"
    using g(3) by (rule process_receiptE)
  then have run: "rfold (receive_line g1 w) (gn_lines g) t = Inr s2" using g(1,2) assms(3) by (simp add: t_def)
  have "orders t = orders s" by (simp add: t_def)
  then have t: "order_line_of k t = order_line_of k s" "distinct (map po_id (orders t))" "distinct (map ol_id (all_lines t))" for k
    using assms(1,2) by (simp_all add: order_line_of_def all_lines_def)
  show ?thesis using received_lines_no_stock [OF run t(2,3)] assms(4-7) unfolding t(1) by fastforce
qed simp

definition demo_stock_delivered :: workflow_state where
  "demo_stock_delivered = demo_delivered\<lparr>orders := map (\<lambda>p. p\<lparr>po_lines := map (\<lambda>l. l\<lparr>ol_item := Some 4\<rparr>) (po_lines p)\<rparr>) (orders demo_delivered)\<rparr>"

theorem item_receipt_never_posts_witness:
  "(\<exists>e. post_receipt 1 demo_stock_delivered = Inl e) \<and> post_receipt 1 demo_delivered = Inr demo_received"
proof -
  let ?l = "\<lparr>ol_id = 1, ol_quantity = 10, ol_received = 0, ol_price = 20, ol_account = 1, ol_item = Some 4, ol_asset = None\<rparr>"
  let ?g = "demo_delivery\<lparr>gn_id := 1, gn_number := ''GRN-2026-00001'', gn_warehouse := Some 1\<rparr>"
  note defs = demo_stock_delivered_def demo_delivered_def demo_order_approved_def demo_stored_def
  have "\<exists>e. post_receipt 1 demo_stock_delivered = Inl e"
    by (rule item_receipt_never_posts [where g = ?g and gl = "hd (gn_lines demo_delivery)" and l = ?l])
      (simp_all add: defs demo_delivery_def order_line_of_def)
  with demo_posted_order(1) show ?thesis by blast
qed

section \<open>The commitment of an order\<close>

lemma open_commitments_sum:
  "open_commitments i s = sum_list (map (\<lambda>c. if cm_appropriation c = i \<and> cm_status c \<in> {''ACTIVE'', ''INVOICED''} then cm_amount c else 0) (commitments s))"
  by (simp add: open_commitments_def sum_amounts_def sum_list_map_filter')

lemma open_commitments_put_link:
  assumes "distinct (map cm_po (commitments s))"
    and "\<And>d. order_link (cm_po c) s = Some d \<Longrightarrow> cm_status d \<in> set OPEN_LINK \<Longrightarrow> cm_appropriation d = cm_appropriation c"
    and "cm_status c = ''ACTIVE''" and "commitments s' = commitments (put_link c s)"
  shows "open_commitments (cm_appropriation c) s' = open_commitments (cm_appropriation c) s - prior_commitment (cm_po c) s + cm_amount c"
proof (cases "order_link (cm_po c) s")
  case None
  then show ?thesis using assms(3) by (simp add: open_commitments_sum assms(4) commitments_put_link prior_commitment_def)
next
  case (Some d)
  let ?f = "\<lambda>x. if cm_appropriation x = cm_appropriation c \<and> cm_status x \<in> {''ACTIVE'', ''INVOICED''} then cm_amount x else 0"
  have "sum_list (map ?f (put_row cm_po c (commitments s))) = sum_list (map ?f (commitments s)) - ?f d + ?f c"
    using Some assms(1) by (intro sum_put_row) (simp_all add: order_link_def)
  moreover have "?f d = prior_commitment (cm_po c) s"
    using assms(2) [OF Some] Some by (auto simp: prior_commitment_def OPEN_LINK_def)
  ultimately show ?thesis using Some assms(3) by (simp add: open_commitments_sum assms(4) commitments_put_link)
qed

text \<open>
  C6: A commitment stays within its budget line.  When the commitment of an order is created or refreshed, the line's
  cached total is the sum of its open commitments, an earlier open commitment of the order is on the same line, and
  the room on the line is a money amount, then afterwards open commitments and expenditure together do not exceed
  the appropriation.
\<close>
theorem commitment_within_appropriation:
  assumes "create_commitment_for_po p x s = Inr (True, s')"
    and "po_lines p = l # ls" and "order_appropriation p (ol_account l) s = Some a"
    and "total_committed a s = open_commitments (ap_id a) s" and "distinct (map cm_po (commitments s))"
    and "\<forall>d. order_link (po_id p) s = Some d \<and> cm_status d \<in> {''ACTIVE'', ''INVOICED''} \<longrightarrow> cm_appropriation d = ap_id a"
    and "is_money (ap_amount a - (total_committed a s - prior_commitment (po_id p) s + total_expended a s))"
  shows "open_commitments (ap_id a) s' + total_expended a s \<le> ap_amount a
     \<and> order_link (po_id p) s' = Some \<lparr>cm_po = po_id p, cm_appropriation = ap_id a,
         cm_amount = db_decimal (case x of Some v \<Rightarrow> v | None \<Rightarrow> order_total p), cm_status = ''ACTIVE''\<rparr>"
proof -
  let ?y = "case x of Some v \<Rightarrow> v | None \<Rightarrow> order_total p"
  let ?c = "\<lparr>cm_po = po_id p, cm_appropriation = ap_id a, cm_amount = db_decimal ?y, cm_status = ''ACTIVE''\<rparr>"
  have "commit_against p (ol_account l) ?y a s = Inr s'"
    using create_commitmentD [OF assms(1)] assms(2,3) by auto
  then obtain ap where s': "s' = (put_link ?c s)\<lparr>appropriations := ap\<rparr>"
    and room: "total_committed a s - prior_commitment (po_id p) s + total_expended a s + ?y \<le> ap_amount a"
    by (rule commit_againstD)
  have com: "commitments s' = commitments (put_link ?c s)" by (simp add: s')
  have "quantize_currency ?y \<le> ap_amount a - (total_committed a s - prior_commitment (po_id p) s + total_expended a s)"
    using room assms(7) by (intro quantize_le_money) simp_all
  then have "db_decimal ?y \<le> ap_amount a - (total_committed a s - prior_commitment (po_id p) s + total_expended a s)"
    by (simp add: db_decimal_def quantize_currency_def)
  moreover have "open_commitments (ap_id a) s' = open_commitments (ap_id a) s - prior_commitment (po_id p) s + db_decimal ?y"
    using open_commitments_put_link [OF assms(5), of ?c s'] assms(6) com by (auto simp: OPEN_LINK_def)
  moreover have "order_link (po_id p) s' = Some ?c"
  proof (cases "order_link (po_id p) s")
    case None
    then show ?thesis by (simp add: order_link_def com commitments_put_link find_row_append)
  next
    case (Some d)
    then have "po_id p \<in> cm_po ` set (commitments s)"
      using find_row_SomeD [of cm_po "po_id p" "commitments s" d] by (force simp: order_link_def)
    then show ?thesis using Some by (simp add: order_link_def com commitments_put_link)
  qed
  ultimately show ?thesis using assms(4) by simp
qed

theorem commitment_within_appropriation_witness:
  "\<exists>s' a. create_commitment_for_po (demo_stored ''Approved'' 0) (Some 999) demo_ordered = Inr (True, s')
     \<and> ap_amount a = 1000 \<and> open_commitments (ap_id a) s' + total_expended a demo_ordered \<le> 1000"
proof -
  let ?p = "demo_stored ''Approved'' 0" and ?a = "appropriations demo_state ! 0"
  have "map_sum id fst (create_commitment_for_po ?p (Some 999) demo_ordered) = Inr True" by code_simp
  then obtain s' where r: "create_commitment_for_po ?p (Some 999) demo_ordered = Inr (True, s')"
    by (cases "create_commitment_for_po ?p (Some 999) demo_ordered") auto
  let ?l = "hd (po_lines ?p)"
  have l: "po_lines ?p = ?l # []" by (simp add: demo_stored_def)
  have a: "order_appropriation ?p (ol_account ?l) demo_ordered = Some ?a" by code_simp
  have t: "total_committed ?a demo_ordered = open_commitments (ap_id ?a) demo_ordered" by code_simp
  have c: "commitments demo_ordered = []"
    by (simp add: demo_ordered_def demo_bureau_def demo_ledger_def budget_state.defs ledger.defs)
  have m: "ap_amount ?a - (total_committed ?a demo_ordered - prior_commitment (po_id ?p) demo_ordered + total_expended ?a demo_ordered) = of_int 100000 / 100"
    by code_simp
  have room: "is_money (ap_amount ?a - (total_committed ?a demo_ordered - prior_commitment (po_id ?p) demo_ordered + total_expended ?a demo_ordered))"
    unfolding m is_money_iff by blast
  have "open_commitments (ap_id ?a) s' + total_expended ?a demo_ordered \<le> ap_amount ?a"
    using commitment_within_appropriation [OF r l a t _ _ room] c by (simp add: order_link_def)
  moreover have "ap_amount ?a = 1000" by (simp add: demo_state_def)
  ultimately show ?thesis using r by metis
qed

end
