(* ===== verification/Spec2Isabelle.thy ===== *)
theory Spec2Isabelle
  imports ContractProperties Books Virement Capital Depreciation PayrollPosting YearEnd Advances ProcurementProperties
begin

text \<open>
  \<^bold>\<open>Quot-PSA: ledger, budget, purchasing, contract, asset and payroll control.\<close>

  Quot-PSA is a public-sector accounting system: a Django application in which a government
  office keeps its general ledger, controls spending against the appropriations of the year,
  buys goods under an approval chain, manages works contracts from activation to closure, keeps a register of fixed assets, pays its
  staff and closes its years.  This library models the parts that decide whether money may move
  and records that it did; screens, reports and imports are left out.

  \<^bold>\<open>The parts and how they interact.\<close>

  \<^item> \<^verbatim>\<open>Periods\<close> models \<^verbatim>\<open>accounting/services/period_control.py\<close> and the two period tables: which dates
    accept a posting, and the lock, close and reopen operations.
  \<^item> \<^verbatim>\<open>LedgerData\<close> holds the chart of accounts, the journal rows and the settings the posting
    services read; \<^verbatim>\<open>Ledger\<close> the models' \<^verbatim>\<open>save\<close> methods and \<^verbatim>\<open>ipsas_journal_service.py\<close>: drafting, validation,
    posting into the GL balances, reversal; \<^verbatim>\<open>Books\<close> the steps a ledger can take.
  \<^item> \<^verbatim>\<open>Budget\<close> models \<^verbatim>\<open>budget_check_rules.py\<close>, \<^verbatim>\<open>appropriation_totals.py\<close>, the \<^verbatim>\<open>Appropriation\<close> and \<^verbatim>\<open>Warrant\<close>
    models, \<^verbatim>\<open>validate_expenditure\<close>, \<^verbatim>\<open>check_warrant_availability\<close> and the two receivers that every save
    of a journal header runs.  A posting therefore passes the period gate, the journal validation
    and the budget gate in that order, and refreshes the cached totals afterwards.
  \<^item> \<^verbatim>\<open>Virement\<close> models \<^verbatim>\<open>budget/services_virement.py\<close> and the workflow receiver that applies a virement.
  \<^item> \<^verbatim>\<open>ContractData\<close> models the tables, constraints, trigger and model methods of \<^verbatim>\<open>contracts/models/\<close> and
    the numbering service.  One record \<^verbatim>\<open>sys\<close> extends the budget state, which extends the ledger,
    so a contract service reaches the journal service on the same state.
  \<^item> \<^verbatim>\<open>Mobilization\<close>, \<^verbatim>\<open>Retention\<close>, \<^verbatim>\<open>Variation\<close>, \<^verbatim>\<open>Activation\<close>, \<^verbatim>\<open>Closure\<close>, \<^verbatim>\<open>Deductions\<close>, \<^verbatim>\<open>Ipc\<close> and \<^verbatim>\<open>Milestone\<close>
    model the service module of the same name under \<^verbatim>\<open>contracts/services/\<close> (\<^verbatim>\<open>Deductions\<close>:
    \<^verbatim>\<open>accounting/services/contract_deductions.py\<close>; the voucher factories of \<^verbatim>\<open>pv_factory.py\<close> stand with
    the service that calls them).  They share the row \<^verbatim>\<open>ContractBalance\<close>, which each of them moves by
    one guarded UPDATE.
  \<^item> \<^verbatim>\<open>ContractSystem\<close> puts the services together: one step relation with a constructor per
    operation, and the registers reachable from an office without contracts.
  \<^item> \<^verbatim>\<open>Postings\<close> models the direct ledger writers of \<^verbatim>\<open>gl_posting.py\<close> and \<^verbatim>\<open>base_posting.py\<close>, which the
    services below use instead of the journal service, and states their common effect.
  \<^item> \<^verbatim>\<open>Assets\<close> models the register of \<^verbatim>\<open>accounting/models/assets.py\<close> and the auto-capitalisation of
    \<^verbatim>\<open>asset_capitalization.py\<close>, which the validation of \<^verbatim>\<open>base_posting.py\<close> runs on every journal it sees;
    \<^verbatim>\<open>Capital\<close> shows what it does, \<^verbatim>\<open>Depreciation\<close> models \<^verbatim>\<open>depreciation.py\<close>.
  \<^item> \<^verbatim>\<open>Paye\<close> models \<^verbatim>\<open>hrm/services/payroll_computation.py\<close>, \<^verbatim>\<open>Calendar\<close> the dates and the working-day loop,
    \<^verbatim>\<open>HrData\<close> the tables of \<^verbatim>\<open>hrm/models.py\<close>, \<^verbatim>\<open>SalaryScale\<close> and \<^verbatim>\<open>Payroll\<close> the services \<^verbatim>\<open>salary_scale.py\<close> and
    \<^verbatim>\<open>payroll_runner.py\<close> with the \<^verbatim>\<open>process\<close> action, \<^verbatim>\<open>PayrollPosting\<close> the accrual, payment and reversal
    of a run (\<^verbatim>\<open>payroll_posting.py\<close> and the actions of \<^verbatim>\<open>hrm/views.py\<close>).
  \<^item> \<^verbatim>\<open>YearEnd\<close> models both year-end closes and the opening journal (\<^verbatim>\<open>year_end_close.py\<close>,
    \<^verbatim>\<open>period_close.py\<close>).
  \<^item> \<^verbatim>\<open>Treasury\<close> models \<^verbatim>\<open>treasury_service.py\<close>, \<^verbatim>\<open>tsa_gl_resolver.py\<close> and the revenue and voucher postings:
    the balance column of each treasury account beside the ledger; \<^verbatim>\<open>Advances\<close> models \<^verbatim>\<open>vendor_advance.py\<close>
    and joins both in one step relation.
  \<^item> \<^verbatim>\<open>PurchaseData\<close> models the documents of \<^verbatim>\<open>procurement/models.py\<close>, their status tables
    (\<^verbatim>\<open>StatusTransitionMixin\<close> of \<^verbatim>\<open>core/models.py\<close>) and numbers; \<^verbatim>\<open>Purchasing\<close> requisitions, orders and the
    commitments of \<^verbatim>\<open>procurement_commitments.py\<close>; \<^verbatim>\<open>Receiving\<close> goods received notes and their journal
    (\<^verbatim>\<open>procurement_posting.py\<close>); \<^verbatim>\<open>Workflow\<close> the approval engine of \<^verbatim>\<open>workflow/\<close> with what the end of an
    approval does to a document.  Operations are the \<^verbatim>\<open>save\<close> methods and the actions of
    \<^verbatim>\<open>procurement/views.py\<close> and \<^verbatim>\<open>workflow/views.py\<close>; an order that becomes Approved commits the budget line that
    the component \<^verbatim>\<open>Budget\<close> finds, and a posted receipt closes the order, moves the commitment and posts through
    \<^verbatim>\<open>Postings\<close>.  \<^verbatim>\<open>Procurement\<close> joins all actions in one step relation; \<^verbatim>\<open>Approvals\<close> and \<^verbatim>\<open>Received\<close> show
    what it keeps, and \<^verbatim>\<open>ProcurementProperties\<close> draws the consequences.

  \<^bold>\<open>Correspondence.\<close>  A table is a list of records in primary-key order, a \<^verbatim>\<open>Decimal\<close> a rational
  with the rounding the code applies written out (\<^verbatim>\<open>quantize_currency\<close>, and \<^verbatim>\<open>db_decimal\<close> for what a
  \<^verbatim>\<open>numeric(20,2)\<close> column stores), a raised exception a value of the datatype \<^verbatim>\<open>err\<close>.  A service call is a
  function from the caller's instance, its arguments and the state to an error or the new
  state; an error leaves the state as it was, which is the \<^verbatim>\<open>transaction.atomic\<close> around each call.  The
  instance is an argument of its own where the code does not read the row again, so a
  stale instance is expressible.  Queries with \<^verbatim>\<open>first()\<close>
  follow the ordering of the model.

  \<^bold>\<open>What the lemmas show.\<close>

  \<^item> Ledger: the GL balances stay balanced and replay the posted journals, except exactly the lines
    that the code lets one create on a journal already posted (\<^verbatim>\<open>Books\<close> keeps the list of them); a
    posting is sound, happens once and freezes the document; a reversal nets it out.
  \<^item> Periods: the gate is characterised exactly, and locking is effective for monthly budget
    periods only.
  \<^item> Budget: the rule resolver is the narrowest-first specification, matching charges the
    nearest line, approved expenditure is covered, and where it is not.
  \<^item> Contracts: \<^verbatim>\<open>ContractBooks\<close> states the invariant of the register (the pending, certified,
    recovered and released columns cover the documents that moved them; every approved certificate
    has its accrual), each service theory shows that its operations keep it, and
    \<^verbatim>\<open>ContractProperties\<close> draws the consequences.  \<^verbatim>\<open>Envelope\<close> is the abstract specification of the
    balance row, six guarded events on its ceiling, pending and certified figures; \<^verbatim>\<open>register_event\<close> labels
    each of the seven operations that move them with its events, and \<^verbatim>\<open>register_refines_envelope\<close> shows that
    every step follows its labels and no other step moves anything.
  \<^item> Assets: capitalising a journal twice is capitalising it once; the depreciation runs keep the
    books and charge an asset once.
  \<^item> Payroll: the bracket loop is the marginal tax, every payslip and every run adds up, the
    step increment of a day is idempotent, and an approval posts exactly the accrual of the run to the
    accounts that the settings resolve.
  \<^item> Year end: the close clears income and expense into the accumulated fund and opens the next
    year with what the closed one left.
  \<^item> Treasury: over every sequence of cash operations that post, the balance column of an account is the
    net of its cash account as long as cash accounts are not shared or used as the other side, and the
    control account of the advances moves by what they have outstanding; the sweep conserves the total
    unless an account is its own parent.
  \<^item> Procurement: over every sequence of actions the status tables are respected, an open commitment
    belongs to an approved or posted order, an approved approval carries all its signatures, and the received
    quantity of an order line is the sum over the posted receipts; the last two need a discipline the code
    does not enforce (\<^verbatim>\<open>procurement_step True\<close>: no direct write of an approval, no deletion of a posted
    receipt).
  \<^item> Findings: where the code does not do what its documents say, a property shows the
    behaviour itself (for example a stale instance paid twice).

  \<^bold>\<open>Interfaces.\<close>  Locales state what one component relies on: the laws of a guarded row in
  \<^verbatim>\<open>ContractBalance\<close>, a document under a status table in \<^verbatim>\<open>PurchaseData\<close> and the interfaces of the other theories, each interpreted on the model's own
  definitions.

  \<^bold>\<open>Bounds and fuel.\<close>  The climb along the parents of an account takes one step per account of
  the chart, which is enough for every chart without circular parents; the climb along MDAs
  likewise.  The working-day loop is a \<^verbatim>\<open>while_option\<close> that is shown to end.  No other recursion
  needs fuel.  Decimals have the 28 digits of Python's context
  where a quotient is formed, and the columns' two places elsewhere.

  \<^bold>\<open>Parameters.\<close>  The SHA-256 digest of a certificate and the permission test of an actor are
  arguments.

  \<^bold>\<open>Not modelled.\<close>  Titles, narratives, documents, notifications and timestamps; approvals of documents
  outside procurement and virements; bank statements; the revaluation and disposal of assets; leave and
  the life cycle of employees; invoice matching, returns, notes and down payments; stock
  rows and batches; edits of order, requisition, receipt and approval columns other than the status, and the deletion of approvals; reports; the web layer and tenancy.
  They are listed with the reason in the manifest.
\<close>

end
